(* ===== verification/Cal_Prelude.thy ===== *)
theory Cal_Prelude
  imports Main "HOL-Library.AList" "HOL-Library.List_Lexorder" "HOL-Library.Char_ord"
begin

text \<open>
  Shared vocabulary of the development: the rule collections the component theories add to, the
  association lists that stand for Go maps (the list order is the iteration order of one
  \<^verbatim>\<open>range\<close> loop), and generic facts about lists and maps.
\<close>

named_theorems go_simps "unfolding and rewriting rules of the Go library model"
named_theorems valid_simps "characterisations of the record validators"
named_theorems keeps "operations that keep an invariant or leave a component of the state alone"

type_synonym ('k, 'v) gomap = "('k \<times> 'v) list"

abbreviation put :: "'k \<Rightarrow> 'v \<Rightarrow> ('k, 'v) gomap \<Rightarrow> ('k, 'v) gomap" where
  "put k v m \<equiv> AList.update k v m"

abbreviation keys :: "('k, 'v) gomap \<Rightarrow> 'k list" where
  "keys m \<equiv> map fst m"

subsection \<open>Lookups in updated maps\<close>

lemma put_lookup [simp]: "map_of (put k v m) k' = (if k' = k then Some v else map_of m k')"
  by (simp add: update_conv')

lemma put_keys: "set (keys (put k v m)) = insert k (set (keys m))"
  by (induction m) auto

lemma put_distinct [simp]: "distinct (keys m) \<Longrightarrow> distinct (keys (put k v m))"
  by (rule distinct_update)

lemma put_not_Nil [simp]: "put k v m \<noteq> []"
  by (cases m) auto

lemma map_of_None_keys: "map_of m k = None \<longleftrightarrow> k \<notin> set (keys m)"
  by (simp add: map_of_eq_None_iff)

lemma map_of_Some_keys: "map_of m k = Some v \<Longrightarrow> k \<in> set (keys m)"
  by (metis map_of_None_keys option.distinct(1))

subsection \<open>The first element that satisfies a predicate\<close>

lemma find_None_all: "find P xs = None \<longleftrightarrow> (\<forall>x\<in>set xs. \<not> P x)"
  by (auto simp: find_None_iff)

lemma find_SomeD: "find P xs = Some x \<Longrightarrow> x \<in> set xs \<and> P x"
  by (metis (no_types, lifting) find_Some_iff nth_mem)

lemma find_Some_split:
  "find P xs = Some x \<Longrightarrow> \<exists>as bs. xs = as @ x # bs \<and> P x \<and> (\<forall>a\<in>set as. \<not> P a)"
proof (induction xs)
  case (Cons y ys)
  show ?case
  proof (cases "P y")
    case True
    with Cons.prems show ?thesis by fastforce
  next
    case False
    with Cons obtain as bs where "ys = as @ x # bs" "P x" "\<forall>a\<in>set as. \<not> P a" by auto
    with False have "y # ys = (y # as) @ x # bs \<and> P x \<and> (\<forall>a\<in>set (y # as). \<not> P a)" by simp
    then show ?thesis by blast
  qed
qed simp

subsection \<open>The first failure of a list of checks\<close>

text \<open>
  A Go loop that returns the first error: \<open>Some e\<close> is the error of the first element that fails.
\<close>

fun first_err :: "('a \<Rightarrow> 'e option) \<Rightarrow> 'a list \<Rightarrow> 'e option" where
  "first_err f [] = None"
| "first_err f (x # xs) = (case f x of Some e \<Rightarrow> Some e | None \<Rightarrow> first_err f xs)"

lemma or_else_None: "(case x of None \<Rightarrow> y | Some e \<Rightarrow> Some e) = None \<longleftrightarrow> x = None \<and> y = None"
  by (cases x) auto

lemma first_err_None [simp]: "first_err f xs = None \<longleftrightarrow> (\<forall>x\<in>set xs. f x = None)"
  by (induction xs) (auto split: option.splits)

lemma first_err_append:
  "first_err f (xs @ ys) = (case first_err f xs of Some e \<Rightarrow> Some e | None \<Rightarrow> first_err f ys)"
proof (induction xs)
  case (Cons x xs)
  then show ?case by (cases "f x") simp_all
qed simp

lemma first_err_Some:
  "first_err f xs = Some e \<Longrightarrow> \<exists>as x bs. xs = as @ x # bs \<and> f x = Some e \<and> (\<forall>a\<in>set as. f a = None)"
proof (induction xs)
  case (Cons y ys)
  show ?case
  proof (cases "f y")
    case None
    with Cons obtain as x bs where "ys = as @ x # bs" "f x = Some e" "\<forall>a\<in>set as. f a = None"
      by auto
    with None have "y # ys = (y # as) @ x # bs \<and> f x = Some e \<and> (\<forall>a\<in>set (y # as). f a = None)"
      by simp
    then show ?thesis by blast
  next
    case (Some e')
    with Cons.prems show ?thesis by (intro exI [of _ "[]"] exI [of _ y] exI [of _ ys]) simp
  qed
qed simp

subsection \<open>Lists\<close>

lemma sum_list_filter_split:
  "length (filter P xs) + length (filter (\<lambda>x. \<not> P x) xs) = length xs"
  by (induction xs) auto

lemma distinct_map_filter_keep: "distinct (map f xs) \<Longrightarrow> distinct (map f (filter P xs))"
  by (simp add: distinct_map_filter)

end
