(* ===== verification/Cal_Go.thy ===== *)
theory Cal_Go
  imports Cal_Prelude
begin

text \<open>
  The part of the Go language and of its standard library the program is written in: strings are
  byte strings (\<open>char list\<close>), \<open>any\<close> values are the datatype \<open>gval\<close>, errors are the
  datatype \<open>gerr\<close> with the text and the unwrapping of \<^verbatim>\<open>fmt.Errorf\<close> and
  \<^verbatim>\<open>errors.Is\<close>. The functions of \<^verbatim>\<open>strings\<close>, \<^verbatim>\<open>strconv\<close> and
  \<^verbatim>\<open>path/filepath\<close> the source calls are defined by their documented algorithms, on
  bytes. What is not computed here (Unicode case tables, the regular-expression engine, digests,
  JSON text, archives, time formatting) is a field of the record \<open>golib\<close>, an argument of the
  definitions that use it.
\<close>

section \<open>Strings\<close>

fun has_prefix :: "string \<Rightarrow> string \<Rightarrow> bool" where
  "has_prefix [] s = True"
| "has_prefix (p # ps) [] = False"
| "has_prefix (p # ps) (c # s) = (p = c \<and> has_prefix ps s)"

definition has_suffix :: "string \<Rightarrow> string \<Rightarrow> bool" where
  "has_suffix p s = has_prefix (rev p) (rev s)"

fun contains :: "string \<Rightarrow> string \<Rightarrow> bool" where
  "contains p [] = (p = [])"
| "contains p (c # s) = (has_prefix p (c # s) \<or> contains p s)"

definition trim_prefix :: "string \<Rightarrow> string \<Rightarrow> string" where
  "trim_prefix p s = (if has_prefix p s then drop (length p) s else s)"

fun join :: "string \<Rightarrow> string list \<Rightarrow> string" where
  "join sep [] = []"
| "join sep [x] = x"
| "join sep (x # y # ys) = x @ sep @ join sep (y # ys)"

text \<open>\<^verbatim>\<open>strings.ReplaceAll\<close> with a non-empty pattern, the only way the source calls it.\<close>

function replace_all :: "string \<Rightarrow> string \<Rightarrow> string \<Rightarrow> string" where
  "replace_all old new [] = []"
| "replace_all old new (c # s) =
     (if old \<noteq> [] \<and> has_prefix old (c # s)
      then new @ replace_all old new (drop (length old) (c # s))
      else c # replace_all old new s)"
  by pat_completeness auto
termination
  by (relation "measure (\<lambda>(old, new, s). length s)") (auto simp: Suc_le_eq)

text \<open>\<^verbatim>\<open>strings.Split\<close> at a one-byte separator.\<close>

fun split_char :: "char \<Rightarrow> string \<Rightarrow> string list" where
  "split_char sep [] = [[]]"
| "split_char sep (c # s) =
     (if c = sep then [] # split_char sep s
      else (case split_char sep s of [] \<Rightarrow> [[c]] | w # ws \<Rightarrow> (c # w) # ws))"

text \<open>\<^verbatim>\<open>strings.Split\<close> at a non-empty separator: the current piece is accumulated.\<close>

function split_acc :: "string \<Rightarrow> string \<Rightarrow> string \<Rightarrow> string list" where
  "split_acc sep acc [] = [acc]"
| "split_acc sep acc (c # s) =
     (if sep \<noteq> [] \<and> has_prefix sep (c # s)
      then acc # split_acc sep [] (drop (length sep) (c # s))
      else split_acc sep (acc @ [c]) s)"
  by pat_completeness auto
termination
  by (relation "measure (\<lambda>(sep, acc, s). length s)") (auto simp: Suc_le_eq)

subsection \<open>UTF-8: the length of the first rune\<close>

definition byte_in :: "nat \<Rightarrow> nat \<Rightarrow> char \<Rightarrow> bool" where
  "byte_in lo hi c = (lo \<le> of_char c \<and> of_char c \<le> hi)"

text \<open>
  The accept ranges of \<^verbatim>\<open>utf8.DecodeRune\<close>: the size of a valid encoding at the head of the
  string, 0 when the bytes there are not one.
\<close>

fun rune_size :: "string \<Rightarrow> nat" where
  "rune_size [] = 0"
| "rune_size (a # s) =
     (if byte_in 0 127 a then 1
      else (case s of
        [] \<Rightarrow> 0
      | b # t \<Rightarrow>
          (if byte_in 194 223 a then (if byte_in 128 191 b then 2 else 0)
           else (case t of
             [] \<Rightarrow> 0
           | c # u \<Rightarrow>
               (if byte_in 224 239 a then
                  (if (if of_char a = (224::nat) then byte_in 160 191 b
                       else if of_char a = (237::nat) then byte_in 128 159 b
                       else byte_in 128 191 b) \<and> byte_in 128 191 c then 3 else 0)
                else (case u of
                  [] \<Rightarrow> 0
                | d # _ \<Rightarrow>
                    (if byte_in 240 244 a \<and>
                        (if of_char a = (240::nat) then byte_in 144 191 b
                         else if of_char a = (244::nat) then byte_in 128 143 b
                         else byte_in 128 191 b) \<and> byte_in 128 191 c \<and> byte_in 128 191 d
                     then 4 else 0)))))))"

lemma rune_size_le: "rune_size s \<le> length s"
  by (cases s rule: rune_size.cases) (auto split: list.splits)

function utf8_valid :: "string \<Rightarrow> bool" where
  "utf8_valid [] = True"
| "utf8_valid (c # s) =
     (let n = rune_size (c # s) in if n = 0 then False else utf8_valid (drop n (c # s)))"
  by pat_completeness auto
termination
  by (relation "measure length") (auto simp: Let_def simp del: rune_size.simps)

text \<open>\<^verbatim>\<open>strings.Split\<close> with an empty separator cuts after every rune (an invalid byte is one).\<close>

function explode :: "string \<Rightarrow> string list" where
  "explode [] = []"
| "explode (c # s) =
     (let n = max 1 (rune_size (c # s)) in take n (c # s) # explode (drop n (c # s)))"
  by pat_completeness auto
termination
  by (relation "measure length") (auto simp: Let_def simp del: rune_size.simps)

definition split :: "string \<Rightarrow> string \<Rightarrow> string list" where
  "split s sep = (if sep = [] then explode s else split_acc sep [] s)"

subsection \<open>White space\<close>

definition ascii_space :: "char \<Rightarrow> bool" where
  "ascii_space c = (c \<in> {CHR 0x20, CHR 0x09, CHR 0x0A, CHR 0x0B, CHR 0x0C, CHR 0x0D})"

text \<open>The UTF-8 encodings of the other runes \<^verbatim>\<open>unicode.IsSpace\<close> accepts.\<close>

definition wide_spaces :: "string list" where
  "wide_spaces =
     [[CHR 0xC2, CHR 0x85], [CHR 0xC2, CHR 0xA0], [CHR 0xE1, CHR 0x9A, CHR 0x80],
      [CHR 0xE2, CHR 0x80, CHR 0x80], [CHR 0xE2, CHR 0x80, CHR 0x81], [CHR 0xE2, CHR 0x80, CHR 0x82],
      [CHR 0xE2, CHR 0x80, CHR 0x83], [CHR 0xE2, CHR 0x80, CHR 0x84], [CHR 0xE2, CHR 0x80, CHR 0x85],
      [CHR 0xE2, CHR 0x80, CHR 0x86], [CHR 0xE2, CHR 0x80, CHR 0x87], [CHR 0xE2, CHR 0x80, CHR 0x88],
      [CHR 0xE2, CHR 0x80, CHR 0x89], [CHR 0xE2, CHR 0x80, CHR 0x8A], [CHR 0xE2, CHR 0x80, CHR 0xA8],
      [CHR 0xE2, CHR 0x80, CHR 0xA9], [CHR 0xE2, CHR 0x80, CHR 0xAF], [CHR 0xE2, CHR 0x81, CHR 0x9F],
      [CHR 0xE3, CHR 0x80, CHR 0x80]]"

text \<open>
  \<open>strip ws s\<close> removes leading spaces, \<open>ws\<close> holding the encodings of more than one byte;
  for the right end it runs on the reversed string with the reversed encodings.
\<close>

function strip :: "string list \<Rightarrow> string \<Rightarrow> string" where
  "strip ws [] = []"
| "strip ws (c # s) =
     (if ascii_space c then strip ws s
      else (case find (\<lambda>e. e \<noteq> [] \<and> has_prefix e (c # s)) ws of
              None \<Rightarrow> c # s
            | Some e \<Rightarrow> strip ws (drop (length e) (c # s))))"
  by pat_completeness auto
termination
  by (relation "measure (\<lambda>(ws, s). length s)") (auto dest!: find_SomeD simp: Suc_le_eq)

definition trim_space :: "string \<Rightarrow> string" where
  "trim_space s = rev (strip (map rev wide_spaces) (rev (strip wide_spaces s)))"

text \<open>\<^verbatim>\<open>strings.Fields\<close>, for words separated by runs of white space.\<close>

function fields_acc :: "string \<Rightarrow> string \<Rightarrow> string list" where
  "fields_acc acc [] = (if acc = [] then [] else [acc])"
| "fields_acc acc (c # s) =
     (if ascii_space c then (if acc = [] then [] else [acc]) @ fields_acc [] s
      else (case find (\<lambda>e. e \<noteq> [] \<and> has_prefix e (c # s)) wide_spaces of
              None \<Rightarrow> fields_acc (acc @ [c]) s
            | Some e \<Rightarrow> (if acc = [] then [] else [acc]) @ fields_acc [] (drop (length e) (c # s))))"
  by pat_completeness auto
termination
  by (relation "measure (\<lambda>(acc, s). length s)") (auto dest!: find_SomeD simp: Suc_le_eq)

definition trim_right_set :: "char list \<Rightarrow> string \<Rightarrow> string" where
  "trim_right_set cs s = rev (dropWhile (\<lambda>c. c \<in> set cs) (rev s))"

subsection \<open>Numbers\<close>

fun nat_text :: "nat \<Rightarrow> string" where
  "nat_text n = (if n < 10 then [char_of (48 + n)] else nat_text (n div 10) @ [char_of (48 + n mod 10)])"

declare nat_text.simps [simp del]

definition itoa :: "int \<Rightarrow> string" where
  "itoa i = (if i < 0 then CHR ''-'' # nat_text (nat (- i)) else nat_text (nat i))"

definition is_digit :: "char \<Rightarrow> bool" where
  "is_digit c = byte_in 48 57 c"

definition digits_value :: "string \<Rightarrow> int" where
  "digits_value s = foldl (\<lambda>v c. 10 * v + (int (of_char c) - 48)) 0 s"

text \<open>\<^verbatim>\<open>strconv.Atoi\<close> on a 64-bit platform: \<open>None\<close> is a syntax or range error.\<close>

definition atoi :: "string \<Rightarrow> int option" where
  "atoi s =
     (let neg = has_prefix ''-'' s;
          ds = (if neg \<or> has_prefix ''+'' s then tl s else s);
          v = (if neg then - digits_value ds else digits_value ds)
      in if ds = [] \<or> \<not> list_all is_digit ds then None
         else if v < - (2 ^ 63) \<or> 2 ^ 63 \<le> v then None
         else Some v)"

subsection \<open>Letter case\<close>

definition is_ascii :: "string \<Rightarrow> bool" where
  "is_ascii s = list_all (byte_in 0 127) s"

definition lower_char :: "char \<Rightarrow> char" where
  "lower_char c = (if byte_in 65 90 c then char_of (of_char c + 32 :: nat) else c)"

definition upper_char :: "char \<Rightarrow> char" where
  "upper_char c = (if byte_in 97 122 c then char_of (of_char c - 32 :: nat) else c)"

text \<open>
  The library functions whose algorithms are tables or engines outside the repository.
  \<open>lower_uni\<close>, \<open>upper_uni\<close> and \<open>fold_uni\<close> are used on strings with a byte
  outside ASCII only; the ASCII behaviour is computed.
\<close>

datatype gval =
    GNil
  | GBool bool
  | GInt int
  | GFloat string \<comment> \<open>a \<^verbatim>\<open>float64\<close>, by the text \<^verbatim>\<open>%v\<close> prints\<close>
  | GNum string \<comment> \<open>\<^verbatim>\<open>json.Number\<close>\<close>
  | GStr string
  | GStrs "string list" \<comment> \<open>\<^verbatim>\<open>[]string\<close>\<close>
  | GList "gval list" \<comment> \<open>\<^verbatim>\<open>[]any\<close>\<close>
  | GMap "(string \<times> gval) list" \<comment> \<open>\<^verbatim>\<open>map[string]any\<close> and, by its JSON shape, a struct value\<close>

type_synonym ginputs = "(string, gval) gomap"

section \<open>Errors\<close>

datatype gerr =
    EText string \<comment> \<open>an error with nothing wrapped\<close>
  | EVar string string \<comment> \<open>a package-level error variable: its name and its text\<close>
  | EWrap string gerr string \<comment> \<open>\<^verbatim>\<open>fmt.Errorf\<close> with one \<^verbatim>\<open>%w\<close>: text before, error, text after\<close>
  | EWrap2 gerr string gerr \<comment> \<open>\<^verbatim>\<open>"%w<text>%w"\<close>\<close>
  | ECoded string string string "gerr option" \<comment> \<open>a package's coded \<^verbatim>\<open>*Error\<close>: package, code, message, cause\<close>
  | ESelect string string \<comment> \<open>the selector's \<^verbatim>\<open>*Error\<close>, which prints its message only\<close>
  | EJoin "gerr list" \<comment> \<open>\<^verbatim>\<open>errors.Join\<close>\<close>
  | ECanceled
  | EDeadline
  | ENotExist string \<comment> \<open>an error of the operating system that is \<^verbatim>\<open>os.ErrNotExist\<close>\<close>
  | EOS string \<comment> \<open>any other\<close>

type_synonym 'a res = "gerr + 'a"

text \<open>The text of \<^verbatim>\<open>Error()\<close>.\<close>

fun err_text :: "gerr \<Rightarrow> string" where
  "err_text (EText s) = s"
| "err_text (EVar _ s) = s"
| "err_text (EWrap a e b) = a @ err_text e @ b"
| "err_text (EWrap2 e m e') = err_text e @ m @ err_text e'"
| "err_text (ECoded _ code msg None) = code @ '': '' @ msg"
| "err_text (ECoded _ code msg (Some e)) = code @ '': '' @ msg @ '': '' @ err_text e"
| "err_text (ESelect _ msg) = msg"
| "err_text (EJoin es) = join [CHR 0x0A] (map err_text es)"
| "err_text ECanceled = ''context canceled''"
| "err_text EDeadline = ''context deadline exceeded''"
| "err_text (ENotExist s) = s"
| "err_text (EOS s) = s"

text \<open>
  The chain \<^verbatim>\<open>errors.Is\<close> and \<^verbatim>\<open>errors.As\<close> walk: the error itself, then what it wraps, depth
  first.
\<close>

fun err_chain :: "gerr \<Rightarrow> gerr list" where
  "err_chain (EWrap a e b) = EWrap a e b # err_chain e"
| "err_chain (EWrap2 e m e') = EWrap2 e m e' # err_chain e @ err_chain e'"
| "err_chain (ECoded p c m (Some e)) = ECoded p c m (Some e) # err_chain e"
| "err_chain (EJoin es) = EJoin es # concat (map err_chain es)"
| "err_chain e = [e]"

definition err_is :: "gerr \<Rightarrow> gerr \<Rightarrow> bool" where
  "err_is e target = (target \<in> set (err_chain e))"

fun is_not_exist_here :: "gerr \<Rightarrow> bool" where
  "is_not_exist_here (ENotExist _) = True"
| "is_not_exist_here _ = False"

definition err_not_exist :: "gerr \<Rightarrow> bool" where
  "err_not_exist e = list_ex is_not_exist_here (err_chain e)"

text \<open>\<^verbatim>\<open>errors.As\<close> for the coded error type of one package: the code of the first in the chain.\<close>

fun coded_here :: "string \<Rightarrow> gerr \<Rightarrow> string option" where
  "coded_here pkg (ECoded p code _ _) = (if p = pkg then Some code else None)"
| "coded_here pkg _ = None"

definition err_as_code :: "string \<Rightarrow> gerr \<Rightarrow> string option" where
  "err_as_code pkg e =
     (case find (\<lambda>x. coded_here pkg x \<noteq> None) (err_chain e) of
        None \<Rightarrow> None | Some x \<Rightarrow> coded_here pkg x)"

fun select_here :: "gerr \<Rightarrow> (string \<times> string) option" where
  "select_here (ESelect code msg) = Some (code, msg)"
| "select_here _ = None"

definition err_as_select :: "gerr \<Rightarrow> (string \<times> string) option" where
  "err_as_select e =
     (case find (\<lambda>x. select_here x \<noteq> None) (err_chain e) of
        None \<Rightarrow> None | Some x \<Rightarrow> select_here x)"

section \<open>The library record\<close>

record golib =
  lower_uni :: "string \<Rightarrow> string"
  upper_uni :: "string \<Rightarrow> string"
  fold_uni :: "string \<Rightarrow> string \<Rightarrow> bool"
  quote :: "string \<Rightarrow> string" \<comment> \<open>\<^verbatim>\<open>%q\<close>\<close>
  re_compile :: "string \<Rightarrow> gerr option" \<comment> \<open>\<open>None\<close>: the pattern compiles\<close>
  re_match :: "string \<Rightarrow> string \<Rightarrow> bool" \<comment> \<open>pattern, text\<close>
  sha256_hex :: "string \<Rightarrow> string"
  sha1_hex :: "string \<Rightarrow> string"
  json_decode :: "string \<Rightarrow> gval res" \<comment> \<open>the first value of a text, numbers kept as \<open>GNum\<close>\<close>
  json_valid :: "string \<Rightarrow> gerr option" \<comment> \<open>\<^verbatim>\<open>json.Unmarshal\<close> of a whole text\<close>
  json_encode :: "gval \<Rightarrow> string res"
  zip_entries :: "string \<Rightarrow> (bool \<times> string res) list res" \<comment> \<open>directory flag and content of each entry\<close>
  tar_entries :: "string \<Rightarrow> (gerr + (bool \<times> string res)) list" \<comment> \<open>what each \<^verbatim>\<open>Next\<close> returns before the end\<close>
  rfc3339 :: "int \<Rightarrow> string" \<comment> \<open>the text of a time, given in nanoseconds\<close>

definition to_lower :: "golib \<Rightarrow> string \<Rightarrow> string" where
  "to_lower L s = (if is_ascii s then map lower_char s else lower_uni L s)"

definition to_upper :: "golib \<Rightarrow> string \<Rightarrow> string" where
  "to_upper L s = (if is_ascii s then map upper_char s else upper_uni L s)"

definition equal_fold :: "golib \<Rightarrow> string \<Rightarrow> string \<Rightarrow> bool" where
  "equal_fold L s t =
     (if is_ascii s \<and> is_ascii t then map lower_char s = map lower_char t else fold_uni L s t)"

section \<open>Printing values\<close>

text \<open>\<^verbatim>\<open>fmt.Sprint\<close> of one operand; the entries of a map are printed in the order of its keys.\<close>

fun sprint :: "gval \<Rightarrow> string" where
  "sprint GNil = ''<nil>''"
| "sprint (GBool b) = (if b then ''true'' else ''false'')"
| "sprint (GInt i) = itoa i"
| "sprint (GFloat s) = s"
| "sprint (GNum s) = s"
| "sprint (GStr s) = s"
| "sprint (GStrs ss) = ''['' @ join '' '' ss @ '']''"
| "sprint (GList vs) = ''['' @ join '' '' (map sprint vs) @ '']''"
| "sprint (GMap kvs) =
     ''map['' @ join '' '' (map (\<lambda>(k, t). k @ '':'' @ t) (sort_key fst (map (map_prod id sprint) kvs))) @ '']''"

fun is_str :: "gval \<Rightarrow> string option" where
  "is_str (GStr s) = Some s"
| "is_str _ = None"

text \<open>\<^verbatim>\<open>inputs[name].(string)\<close> with its second result.\<close>

definition str_at :: "ginputs \<Rightarrow> string \<Rightarrow> string option" where
  "str_at m k = (case map_of m k of None \<Rightarrow> None | Some v \<Rightarrow> is_str v)"

text \<open>\<^verbatim>\<open>value, ok := inputs[name]; ok && value != nil && value != ""\<close>, a test many packages make.\<close>

definition present :: "ginputs \<Rightarrow> string \<Rightarrow> bool" where
  "present m k = (case map_of m k of None \<Rightarrow> False | Some v \<Rightarrow> v \<noteq> GNil \<and> v \<noteq> GStr [])"

section \<open>An instance\<close>

text \<open>A library to evaluate the examples of the development on.\<close>

definition plain_lib :: golib where
  "plain_lib = \<lparr>lower_uni = (\<lambda>s. s), upper_uni = (\<lambda>s. s), fold_uni = (=), quote = (\<lambda>s. s),
     re_compile = (\<lambda>_. None), re_match = contains, sha256_hex = (\<lambda>s. s), sha1_hex = (\<lambda>s. s),
     json_decode = (\<lambda>s. Inr (GStr s)), json_valid = (\<lambda>_. None), json_encode = (\<lambda>v. Inr (sprint v)),
     zip_entries = (\<lambda>_. Inr []), tar_entries = (\<lambda>_. []), rfc3339 = itoa\<rparr>"

end
