(* ===== verification/Cal_Text.thy ===== *)
theory Cal_Text
  imports Cal_Go
begin

text \<open>
  Facts about the string functions of \<open>Cal_Go\<close> that the components share: prefixes and
  substrings, trimming (what \<open>trim_space\<close> returns has no space at either end, so trimming
  twice is trimming once), splitting and joining, decimal numerals.
\<close>

subsection \<open>Prefixes and substrings\<close>

lemma has_prefix_iff: "has_prefix p s \<longleftrightarrow> (\<exists>t. s = p @ t)"
  by (induction p s rule: has_prefix.induct) auto

lemma has_prefix_append [simp]: "has_prefix p (p @ s)"
  by (auto simp: has_prefix_iff)

lemma has_prefix_Nil_iff [simp]: "has_prefix p [] \<longleftrightarrow> p = []"
  by (cases p) auto

lemma has_prefix_take: "has_prefix p s \<longleftrightarrow> take (length p) s = p"
  by (metis append_eq_conv_conj append_take_drop_id has_prefix_iff)

lemma contains_iff: "contains p s \<longleftrightarrow> (\<exists>a b. s = a @ p @ b)"
proof (induction s)
  case Nil
  then show ?case by auto
next
  case (Cons c s)
  have "(\<exists>a b. c # s = a @ p @ b) \<longleftrightarrow> (\<exists>b. c # s = p @ b) \<or> (\<exists>a b. s = a @ p @ b)"
  proof
    assume "\<exists>a b. c # s = a @ p @ b"
    then obtain a b where "c # s = a @ p @ b" by blast
    then show "(\<exists>b. c # s = p @ b) \<or> (\<exists>a b. s = a @ p @ b)" by (cases a) auto
  next
    assume "(\<exists>b. c # s = p @ b) \<or> (\<exists>a b. s = a @ p @ b)"
    then show "\<exists>a b. c # s = a @ p @ b"
      by (metis append_Cons append_Nil)
  qed
  with Cons.IH show ?case by (simp add: has_prefix_iff)
qed

lemma contains_self [simp]: "contains s s"
  by (metis append.left_neutral append.right_neutral contains_iff)

lemma contains_append: "contains p s \<Longrightarrow> contains p (a @ s @ b)"
  by (metis append.assoc contains_iff)

lemma replace_all_absent: "\<not> contains old s \<Longrightarrow> replace_all old new s = s"
proof (induction s)
  case (Cons c s)
  then have "\<not> has_prefix old (c # s)" and "\<not> contains old s" by auto
  with Cons.IH show ?case by simp
qed simp

subsection \<open>Trimming\<close>

definition no_lead :: "string list \<Rightarrow> string \<Rightarrow> bool" where
  "no_lead ws s \<longleftrightarrow> s = [] \<or> \<not> ascii_space (hd s) \<and> (\<forall>e\<in>set ws. e \<noteq> [] \<longrightarrow> \<not> has_prefix e s)"

lemma strip_suffix: "\<exists>p. s = p @ strip ws s"
proof (induction ws s rule: strip.induct)
  case (2 ws c s)
  show ?case
  proof (cases "ascii_space c")
    case True
    with "2.IH"(1) obtain p where "s = p @ strip ws s" by blast
    with True show ?thesis by (intro exI [of _ "c # p"]) simp
  next
    case False
    show ?thesis
    proof (cases "find (\<lambda>e. e \<noteq> [] \<and> has_prefix e (c # s)) ws")
      case (Some e)
      with False "2.IH"(2) obtain p where
        "drop (length e) (c # s) = p @ strip ws (drop (length e) (c # s))" by blast
      then have "c # s = (take (length e) (c # s) @ p) @ strip ws (drop (length e) (c # s))"
        by (metis append.assoc append_take_drop_id)
      with False Some show ?thesis by (intro exI [of _ "take (length e) (c # s) @ p"]) simp
    qed (use False in simp)
  qed
qed simp

lemma strip_no_lead: "no_lead ws (strip ws s)"
proof (induction ws s rule: strip.induct)
  case (2 ws c s)
  then show ?case
    by (auto simp: no_lead_def find_None_all split: option.splits)
qed (simp add: no_lead_def)

lemma no_lead_strip: "no_lead ws s \<Longrightarrow> strip ws s = s"
  by (cases s) (auto simp: no_lead_def find_None_all split: option.splits dest: find_SomeD)

lemma has_prefix_extend: "has_prefix e t \<Longrightarrow> has_prefix e (t @ u)"
  by (auto simp: has_prefix_iff)

lemma no_lead_prefix: "no_lead ws (t @ u) \<Longrightarrow> no_lead ws t"
  using has_prefix_extend [of _ t u] by (cases t) (auto simp: no_lead_def)

lemma strip_idem [simp]: "strip ws (strip ws s) = strip ws s"
  by (rule no_lead_strip [OF strip_no_lead])

lemma trim_space_idem [simp]: "trim_space (trim_space s) = trim_space s"
proof -
  let ?l = "strip wide_spaces s"
  let ?r = "strip (map rev wide_spaces) (rev ?l)"
  obtain p where "rev ?l = p @ ?r" using strip_suffix by blast
  then have "?l = rev ?r @ rev p" by (metis rev_append rev_rev_ident)
  then have "no_lead wide_spaces (rev ?r)"
    using strip_no_lead no_lead_prefix by metis
  then have "strip wide_spaces (rev ?r) = rev ?r" by (rule no_lead_strip)
  then show ?thesis by (simp add: trim_space_def)
qed

lemma trim_space_Nil [simp]: "trim_space [] = []"
  by (simp add: trim_space_def)

lemma trim_space_infix: "\<exists>a b. s = a @ trim_space s @ b"
proof -
  obtain a where a: "s = a @ strip wide_spaces s" using strip_suffix by blast
  obtain b where "rev (strip wide_spaces s) = b @ strip (map rev wide_spaces) (rev (strip wide_spaces s))"
    using strip_suffix by blast
  then have "strip wide_spaces s = trim_space s @ rev b"
    by (metis rev_append rev_rev_ident trim_space_def)
  with a show ?thesis by metis
qed

lemma length_trim_space: "length (trim_space s) \<le> length s"
  using trim_space_infix [of s] by (metis le_add1 le_add2 length_append order_trans)

text \<open>A string of visible ASCII characters is its own trimming.\<close>

lemma no_lead_visible:
  assumes "list_all (byte_in 33 126) s" and "\<forall>e\<in>set ws. e \<noteq> [] \<longrightarrow> \<not> byte_in 33 126 (hd e)"
  shows "no_lead ws s"
proof (cases s)
  case (Cons c t)
  with assms(1) have c: "byte_in 33 126 c" by simp
  then have "\<not> ascii_space c" by (auto simp: byte_in_def ascii_space_def)
  moreover have "\<not> has_prefix e s" if ew: "e \<in> set ws" and ne: "e \<noteq> []" for e
  proof
    assume h: "has_prefix e s"
    obtain d u where e: "e = d # u" using ne by (cases e) auto
    with ew assms(2) have "\<not> byte_in 33 126 d" by force
    with c e h Cons show False by auto
  qed
  ultimately show ?thesis using Cons by (simp add: no_lead_def)
qed (simp add: no_lead_def)

lemma trim_space_visible:
  assumes "list_all (byte_in 33 126) s"
  shows "trim_space s = s"
proof -
  have "no_lead wide_spaces s"
    using assms by (rule no_lead_visible) (simp add: wide_spaces_def byte_in_def)
  moreover have "list_all (byte_in 33 126) (rev s)" using assms by (simp add: list_all_iff)
  then have "no_lead (map rev wide_spaces) (rev s)"
    by (rule no_lead_visible) (simp add: wide_spaces_def byte_in_def)
  ultimately show ?thesis by (simp add: trim_space_def no_lead_strip)
qed

text \<open>Trimming keeps every visible character.\<close>

lemma strip_keeps:
  "c \<in> set t \<Longrightarrow> \<not> ascii_space c \<Longrightarrow> \<forall>e\<in>set ws. c \<notin> set e \<Longrightarrow> c \<in> set (strip ws t)"
proof (induction ws t rule: strip.induct)
  case (2 ws d s)
  show ?case
  proof (cases "ascii_space d")
    case True
    with 2 show ?thesis by auto
  next
    case False
    show ?thesis
    proof (cases "find (\<lambda>e. e \<noteq> [] \<and> has_prefix e (d # s)) ws")
      case None
      with False 2 show ?thesis by simp
    next
      case (Some e)
      then have e: "e \<in> set ws" "has_prefix e (d # s)" using find_SomeD [OF Some] by auto
      then obtain u where u: "d # s = e @ u" by (auto simp: has_prefix_iff)
      then have "c \<in> set u" using 2(3,5) e(1) by (metis Un_iff set_append)
      moreover have "drop (length e) (d # s) = u" by (simp add: u)
      ultimately show ?thesis using 2(2) [OF False Some] 2(4,5) False Some by (simp del: drop_Suc_Cons)
    qed
  qed
qed simp

lemma trim_space_keeps:
  assumes "c \<in> set s" and "byte_in 33 126 c"
  shows "c \<in> set (trim_space s)"
proof -
  have sp: "\<not> ascii_space c" using assms(2) by (auto simp: ascii_space_def byte_in_def)
  have "list_all (list_all (byte_in 127 255)) wide_spaces" by code_simp
  then have "\<forall>e\<in>set wide_spaces. c \<notin> set e"
    using assms(2) by (fastforce simp: list_all_iff byte_in_def)
  with sp show ?thesis using assms(1) by (simp add: trim_space_def strip_keeps)
qed

subsection \<open>Splitting and joining\<close>

lemma split_char_not_Nil [simp]: "split_char sep s \<noteq> []"
  by (induction s) (auto split: list.splits)

lemma join_Cons: "ws \<noteq> [] \<Longrightarrow> join sep (w # ws) = w @ sep @ join sep ws"
  by (cases ws) auto

lemma join_split_char: "join [sep] (split_char sep s) = s"
proof (induction s)
  case (Cons c s)
  show ?case
  proof (cases "c = sep")
    case True
    with Cons.IH show ?thesis by (simp add: join_Cons)
  next
    case False
    obtain w ws where s: "split_char sep s = w # ws" by (cases "split_char sep s") auto
    with Cons.IH have "join [sep] ((c # w) # ws) = c # s" by (cases ws) auto
    with False s show ?thesis by simp
  qed
qed simp

lemma split_char_pieces: "w \<in> set (split_char sep s) \<Longrightarrow> sep \<notin> set w"
proof (induction s arbitrary: w)
  case (Cons c s)
  show ?case
  proof (cases "c = sep")
    case True
    with Cons show ?thesis by auto
  next
    case False
    obtain v vs where "split_char sep s = v # vs" by (cases "split_char sep s") auto
    with False Cons show ?thesis by auto
  qed
qed simp

lemma split_char_append:
  "sep \<notin> set w \<Longrightarrow> split_char sep (w @ sep # s) = w # split_char sep s"
  by (induction w) auto

lemma split_char_single: "sep \<notin> set w \<Longrightarrow> split_char sep w = [w]"
  by (induction w) auto

lemma split_char_join:
  "ws \<noteq> [] \<Longrightarrow> \<forall>w\<in>set ws. sep \<notin> set w \<Longrightarrow> split_char sep (join [sep] ws) = ws"
proof (induction ws)
  case (Cons w ws)
  then show ?case
    by (cases ws) (auto simp: split_char_append split_char_single)
qed simp

subsection \<open>Decimal numerals\<close>

lemma nat_text_not_Nil [simp]: "nat_text n \<noteq> []"
  by (subst nat_text.simps) simp

lemma byte_digit: "(d::nat) < 10 \<Longrightarrow> is_digit (char_of (48 + d))"
  by (simp add: is_digit_def byte_in_def)

lemma nat_text_digits: "list_all is_digit (nat_text n)"
proof (induction n rule: nat_text.induct)
  case (1 n)
  then show ?case by (subst nat_text.simps) (simp add: byte_digit)
qed

lemma digits_value_snoc: "digits_value (s @ [c]) = 10 * digits_value s + (int (of_char c) - 48)"
  by (simp add: digits_value_def)

lemma digits_value_nat_text: "digits_value (nat_text n) = int n"
proof (induction n rule: nat_text.induct)
  case (1 n)
  show ?case
  proof (cases "n < 10")
    case True
    then show ?thesis by (subst nat_text.simps) (simp add: digits_value_def)
  next
    case False
    with 1 have "digits_value (nat_text (n div 10)) = int (n div 10)" by simp
    moreover have "int (48 + n mod 10) - 48 = int (n mod 10)" by simp
    ultimately have "digits_value (nat_text n) = 10 * int (n div 10) + int (n mod 10)"
      using False by (subst nat_text.simps) (simp add: digits_value_snoc)
    then show ?thesis by presburger
  qed
qed

lemma digit_not_sign: "is_digit c \<Longrightarrow> c \<noteq> CHR ''-'' \<and> c \<noteq> CHR ''+''"
  by (auto simp: is_digit_def byte_in_def)

lemma atoi_nat_text:
  assumes "int n < 2 ^ 63"
  shows "atoi (nat_text n) = Some (int n)"
proof -
  obtain c s where s: "nat_text n = c # s" by (cases "nat_text n") auto
  with nat_text_digits [of n] have "is_digit c" by simp
  with s have "\<not> has_prefix ''-'' (nat_text n)" and "\<not> has_prefix ''+'' (nat_text n)"
    using digit_not_sign by auto
  with assms show ?thesis
    by (simp add: atoi_def Let_def nat_text_digits digits_value_nat_text)
qed

lemma atoi_itoa:
  assumes "- (2 ^ 63) \<le> i" and "i < 2 ^ 63"
  shows "atoi (itoa i) = Some i"
proof (cases "i < 0")
  case True
  with assms show ?thesis
    by (simp add: atoi_def itoa_def Let_def nat_text_digits digits_value_nat_text)
next
  case False
  with assms show ?thesis by (simp add: itoa_def atoi_nat_text)
qed

lemma present_iff: "present m k \<longleftrightarrow> (\<exists>v. map_of m k = Some v \<and> v \<noteq> GNil \<and> v \<noteq> GStr [])"
  by (auto simp: present_def split: option.splits)

lemma str_at_Some: "str_at m k = Some s \<longleftrightarrow> map_of m k = Some (GStr s)"
  by (auto simp: str_at_def split: option.splits elim: is_str.elims)

end
