(* ===== verification/Cal_Model.thy ===== *)
theory Cal_Model
  imports Cal_Text
begin

text \<open>
  The durable records of \<^verbatim>\<open>internal/model\<close>, their validators and their ids. Go's string
  enumerations (execution kinds, verification levels, predicates, states) admit any string, which
  the validators then check, so their types are strings here too and the constants of the source
  are abbreviations. A pointer that may be nil is an \<open>option\<close>; a nil slice and an empty one are
  the same list, a nil map and an empty one the same empty map, except where the code compares with
  nil.
\<close>

section \<open>Records\<close>

record record_error =
  re_code :: string
  re_message :: string

record evidence_ref =
  ev_id :: string
  ev_type :: string
  ev_content :: ginputs
  ev_ref :: string

record execution =
  ex_kind :: string
  ex_spec :: ginputs

record verify_subject =
  vs_type :: string
  vs_input :: string

record verify_check =
  vc_subject :: verify_subject
  vc_predicate :: string
  vc_params :: ginputs

record verify_spec =
  vf_level :: string
  vf_method :: string
  vf_checks :: "verify_check list"

record binding =
  bd_id :: string
  bd_capability_id :: string
  bd_provider_id :: string
  bd_execution :: execution
  bd_verify :: "verify_spec option"
  bd_evidence :: "evidence_ref list"
  bd_state :: string
  bd_created_at :: string

record capability =
  cp_id :: string
  cp_description :: string
  cp_bindings :: "binding list"

record provider =
  pv_id :: string
  pv_name :: string
  pv_kind :: string
  pv_path :: string
  pv_version :: string

record run =
  rn_id :: string
  rn_capability_id :: string
  rn_binding_id :: string
  rn_provider_id :: string
  rn_inputs :: ginputs
  rn_outputs :: ginputs
  rn_evidence :: "evidence_ref list"
  rn_status :: string
  rn_verified :: bool
  rn_started_at :: string
  rn_finished_at :: string
  rn_duration_ms :: int
  rn_error :: "record_error option"

record observation =
  ob_provider_id :: string
  ob_type :: string
  ob_source :: string
  ob_content :: ginputs
  ob_error :: "record_error option"
  ob_created_at :: string

record provenance =
  po_source :: string
  po_prompt_version :: string
  po_model :: string
  po_schema_version :: string
  po_proposal_hash :: string

record candidate =
  cd_provider_id :: string
  cd_capability_id :: string
  cd_description :: string
  cd_source :: string
  cd_provenance :: "provenance option"
  cd_execution :: execution
  cd_created_at :: string

record probe =
  pb_candidate_index :: int
  pb_passed :: bool
  pb_inputs :: ginputs
  pb_verify :: verify_spec
  pb_evidence :: "evidence_ref list"
  pb_reason :: string
  pb_error :: "record_error option"
  pb_created_at :: string

record promotion =
  pm_candidate_index :: int
  pm_capability_id :: string
  pm_binding_id :: string
  pm_provider_id :: string
  pm_capability_action :: string
  pm_binding_action :: string
  pm_created_at :: string

record proposal_item =
  pi_id :: string
  pi_kind :: string
  pi_name :: string
  pi_decision :: string
  pi_reason :: string

record proposal_stage =
  ps_name :: string
  ps_items :: "proposal_item list"
  ps_summary :: "(string, nat) gomap"
  ps_duration_ms :: int

record proposal_attempt =
  pa_stage :: string
  pa_capability_id :: string
  pa_candidate_index :: "int option"
  pa_status :: string
  pa_duration_ms :: int
  pa_prompt_tokens :: int
  pa_completion_tokens :: int
  pa_total_tokens :: int
  pa_error :: "record_error option"
  pa_raw_response :: string

record proposal_trace =
  pt_schema_version :: string
  pt_prompt_version :: string
  pt_model :: string
  pt_stages :: "proposal_stage list"
  pt_attempts :: "proposal_attempt list"

record trace =
  tr_id :: string
  tr_started_at :: string
  tr_ended_at :: string
  tr_status :: string
  tr_hint :: string
  tr_provider_ids :: "string list"
  tr_observations :: "observation list"
  tr_proposal :: "proposal_trace option"
  tr_candidates :: "candidate list"
  tr_probes :: "probe list"
  tr_promotions :: "promotion list"
  tr_error :: "record_error option"

section \<open>Progress events\<close>

datatype progress_scope = ScopeAcquisition | ScopeRun | ScopeUse

datatype progress_step = StepNone | StepSurface | StepCapability | StepBinding | StepEvidence

datatype progress_status = Started | Succeeded | Failed | Canceled

datatype progress_stage =
    StageEntry | StageCatalog | StageObserve | StageProposal | StageProbe | StagePromote
  | StageResolve | StageExecute | StageVerify | StageRecord
  | StageSelect | StagePlan | StageRun

record progress_event =
  pe_id :: string
  pe_scope :: progress_scope
  pe_stage :: progress_stage
  pe_step :: progress_step
  pe_status :: progress_status
  pe_message :: string
  pe_details :: ginputs
  pe_trace_id :: string
  pe_run_id :: string
  pe_use_id :: string
  pe_provider_id :: string
  pe_capability_id :: string
  pe_binding_id :: string
  pe_duration_ms :: int
  pe_error :: "record_error option"
  pe_created_at :: string

section \<open>Verification levels\<close>

abbreviation "L0 \<equiv> ''L0''"
abbreviation "L1 \<equiv> ''L1''"
abbreviation "L2 \<equiv> ''L2''"
abbreviation "L3 \<equiv> ''L3''"
abbreviation "method_execute \<equiv> ''execute''"
abbreviation "method_contract \<equiv> ''contract''"
abbreviation "state_promoted \<equiv> ''promoted''"
abbreviation "kind_cli \<equiv> ''cli''"
abbreviation "spec_args \<equiv> ''args''"
abbreviation "spec_stdout_path_input \<equiv> ''stdout_path_input''"

definition VerifyLevelRank :: "string \<Rightarrow> nat" where
  "VerifyLevelRank level =
     (if level = L1 then 1 else if level = L2 then 2 else if level = L3 then 3 else 0)"

section \<open>Ids\<close>

definition id_char :: "char \<Rightarrow> bool" where
  "id_char c = (byte_in 97 122 c \<or> byte_in 48 57 c)"

text \<open>The regular expression \<^verbatim>\<open>^[a-z0-9]+\.[a-z0-9]+$\<close>, as the scanner it denotes.\<close>

definition ValidCapabilityID :: "string \<Rightarrow> bool" where
  "ValidCapabilityID cid =
     (takeWhile id_char cid \<noteq> [] \<and>
      (case dropWhile id_char cid of
         [] \<Rightarrow> False
       | c # rest \<Rightarrow> c = CHR ''.'' \<and> rest \<noteq> [] \<and> list_all id_char rest))"

definition ShortHash :: "golib \<Rightarrow> string list \<Rightarrow> string" where
  "ShortHash L parts = take 12 (sha256_hex L (join ''|'' parts))"

definition ProviderID :: "golib \<Rightarrow> string \<Rightarrow> string \<Rightarrow> string \<Rightarrow> string" where
  "ProviderID L platform kind path = ''provider_'' @ ShortHash L [platform, kind, path]"

definition BindingID :: "golib \<Rightarrow> string \<Rightarrow> string \<Rightarrow> string \<Rightarrow> string" where
  "BindingID L capabilityID providerID canonical =
     ''binding_'' @ ShortHash L [capabilityID, providerID, canonical]"

text \<open>The JSON shape of an execution: an empty specification is omitted.\<close>

definition execution_val :: "execution \<Rightarrow> gval" where
  "execution_val e =
     GMap ((''kind'', GStr (ex_kind e)) # (if ex_spec e = [] then [] else [(''spec'', GMap (ex_spec e))]))"

definition CanonicalExecution :: "golib \<Rightarrow> execution \<Rightarrow> string res" where
  "CanonicalExecution L e =
     (case json_encode L (execution_val e) of
        Inl err \<Rightarrow> Inl (EWrap ''canonicalize execution: '' err [])
      | Inr payload \<Rightarrow> Inr payload)"

definition BindingIDForExecution :: "golib \<Rightarrow> string \<Rightarrow> string \<Rightarrow> execution \<Rightarrow> string res" where
  "BindingIDForExecution L capabilityID providerID e =
     (case CanonicalExecution L e of
        Inl err \<Rightarrow> Inl err
      | Inr canonical \<Rightarrow> Inr (BindingID L capabilityID providerID canonical))"

definition TraceID :: "int \<Rightarrow> string" where
  "TraceID now = ''trace_'' @ itoa now"

definition RunID :: "int \<Rightarrow> string" where
  "RunID now = ''run_'' @ itoa now"

definition ProgressID :: "int \<Rightarrow> string" where
  "ProgressID now = ''progress_'' @ itoa now"

section \<open>Validators\<close>

text \<open>\<open>None\<close> is the nil error.\<close>

abbreviation blank :: "string \<Rightarrow> bool" where
  "blank s \<equiv> trim_space s = []"

definition validProviderKind :: "string \<Rightarrow> bool" where
  "validProviderKind kind = (kind = ''cli'' \<or> kind = ''app'')"

definition validBindingState :: "string \<Rightarrow> bool" where
  "validBindingState s = (s = state_promoted)"

definition validExecutionKind :: "string \<Rightarrow> bool" where
  "validExecutionKind kind =
     (kind = kind_cli \<or> kind = ''menu'' \<or> kind = ''ax_action'' \<or> kind = ''url_open'')"

definition ValidateProvider :: "golib \<Rightarrow> provider \<Rightarrow> gerr option" where
  "ValidateProvider L p =
     (if blank (pv_id p) then Some (EText ''provider id is required'')
      else if \<not> validProviderKind (pv_kind p)
      then Some (EText (''provider kind '' @ quote L (pv_kind p) @ '' is invalid''))
      else if blank (pv_path p) then Some (EText ''provider path is required'')
      else None)"

fun hasPromotedBinding :: "binding list \<Rightarrow> bool" where
  "hasPromotedBinding [] = False"
| "hasPromotedBinding (b # bs) = (if bd_state b = state_promoted then True else hasPromotedBinding bs)"

definition evidence_err :: "evidence_ref \<Rightarrow> gerr option" where
  "evidence_err ev = (if blank (ev_id ev) then Some (EText ''evidence id is required'') else None)"

definition ValidateBinding :: "golib \<Rightarrow> string \<Rightarrow> binding \<Rightarrow> gerr option" where
  "ValidateBinding L owner b =
     (if blank (bd_id b) then Some (EText ''binding id is required'')
      else if blank (bd_capability_id b) then Some (EText ''binding capability id is required'')
      else if owner \<noteq> [] \<and> bd_capability_id b \<noteq> owner
      then Some (EText (''binding capability id '' @ quote L (bd_capability_id b) @
             '' does not match owner capability '' @ quote L owner))
      else if blank (bd_provider_id b) then Some (EText ''binding provider id is required'')
      else if \<not> validBindingState (bd_state b)
      then Some (EText (''binding state '' @ quote L (bd_state b) @ '' is invalid''))
      else if \<not> validExecutionKind (ex_kind (bd_execution b))
      then Some (EText (''binding execution kind '' @ quote L (ex_kind (bd_execution b)) @ '' is invalid''))
      else if bd_state b = state_promoted \<and> bd_verify b = None
      then Some (EText ''promoted binding requires verify spec'')
      else if bd_state b = state_promoted \<and> bd_evidence b = []
      then Some (EText ''promoted binding requires evidence'')
      else first_err evidence_err (bd_evidence b))"

definition ValidateCapability :: "golib \<Rightarrow> capability \<Rightarrow> gerr option" where
  "ValidateCapability L c =
     (if blank (cp_id c) then Some (EText ''capability id is required'')
      else if \<not> ValidCapabilityID (cp_id c)
      then Some (EText (''capability id '' @ quote L (cp_id c) @ '' is invalid''))
      else if hasPromotedBinding (cp_bindings c) \<and> blank (cp_description c)
      then Some (EText ''promoted capability requires description'')
      else first_err (ValidateBinding L (cp_id c)) (cp_bindings c))"

definition ValidateRun :: "golib \<Rightarrow> run \<Rightarrow> gerr option" where
  "ValidateRun L r =
     (if blank (rn_id r) then Some (EText ''run id is required'')
      else if blank (rn_capability_id r) then Some (EText ''run capability id is required'')
      else if rn_status r = ''succeeded'' \<or> rn_status r = ''failed'' then None
      else Some (EText (''run status '' @ quote L (rn_status r) @ '' is invalid'')))"

definition ValidateTrace :: "golib \<Rightarrow> trace \<Rightarrow> gerr option" where
  "ValidateTrace L t =
     (if blank (tr_id t) then Some (EText ''trace id is required'')
      else if tr_status t = ''running'' \<or> tr_status t = ''completed'' \<or> tr_status t = ''failed''
              \<or> tr_status t = ''canceled'' then None
      else Some (EText (''trace status '' @ quote L (tr_status t) @ '' is invalid'')))"

section \<open>What the validators accept\<close>

lemma id_char_visible: "id_char c \<Longrightarrow> byte_in 33 126 c"
  by (auto simp: id_char_def byte_in_def)

lemma id_char_not_dot [simp]: "\<not> id_char CHR ''.''"
  by (simp add: id_char_def byte_in_def)

lemma ValidCapabilityID_iff:
  "ValidCapabilityID cid \<longleftrightarrow>
     (\<exists>a b. cid = a @ ''.'' @ b \<and> a \<noteq> [] \<and> b \<noteq> [] \<and> list_all id_char a \<and> list_all id_char b)"
proof
  assume v: "ValidCapabilityID cid"
  then obtain b where b: "dropWhile id_char cid = CHR ''.'' # b" "b \<noteq> []" "list_all id_char b"
    by (auto simp: ValidCapabilityID_def split: list.splits)
  let ?a = "takeWhile id_char cid"
  have "cid = ?a @ dropWhile id_char cid" by simp
  then have "cid = ?a @ ''.'' @ b" unfolding b(1) by simp
  moreover have "list_all id_char ?a"
    by (auto simp: list_all_iff dest: set_takeWhileD)
  moreover have "?a \<noteq> []" using v by (simp add: ValidCapabilityID_def)
  ultimately show "\<exists>a b. cid = a @ ''.'' @ b \<and> a \<noteq> [] \<and> b \<noteq> [] \<and> list_all id_char a \<and> list_all id_char b"
    using b(2,3) by blast
next
  assume "\<exists>a b. cid = a @ ''.'' @ b \<and> a \<noteq> [] \<and> b \<noteq> [] \<and> list_all id_char a \<and> list_all id_char b"
  then obtain a b where "cid = a @ ''.'' @ b" "a \<noteq> []" "b \<noteq> []" "list_all id_char a" "list_all id_char b"
    by blast
  then show "ValidCapabilityID cid"
    by (simp add: ValidCapabilityID_def list_all_iff takeWhile_append dropWhile_append)
qed

lemma ValidCapabilityID_visible:
  assumes "ValidCapabilityID cid"
  shows "list_all (byte_in 33 126) cid"
proof -
  obtain a b where "cid = a @ ''.'' @ b" "list_all id_char a" "list_all id_char b"
    using assms by (auto simp: ValidCapabilityID_iff)
  moreover have "byte_in 33 126 CHR ''.''" by (simp add: byte_in_def)
  ultimately show ?thesis by (auto simp: list_all_iff id_char_visible)
qed

lemma ValidCapabilityID_trim: "ValidCapabilityID cid \<Longrightarrow> trim_space cid = cid"
  by (rule trim_space_visible [OF ValidCapabilityID_visible])

lemma ValidCapabilityID_not_Nil [simp]: "\<not> ValidCapabilityID []"
  by (simp add: ValidCapabilityID_def)

lemma hasPromotedBinding_iff: "hasPromotedBinding bs \<longleftrightarrow> (\<exists>b\<in>set bs. bd_state b = state_promoted)"
  by (induction bs) auto

text \<open>The contract of a stored binding and of a stored capability, as predicates.\<close>

definition binding_ok :: "string \<Rightarrow> binding \<Rightarrow> bool" where
  "binding_ok owner b \<longleftrightarrow>
     \<not> blank (bd_id b) \<and> \<not> blank (bd_capability_id b) \<and> (owner = [] \<or> bd_capability_id b = owner) \<and>
     \<not> blank (bd_provider_id b) \<and> bd_state b = state_promoted \<and>
     validExecutionKind (ex_kind (bd_execution b)) \<and> bd_verify b \<noteq> None \<and> bd_evidence b \<noteq> [] \<and>
     (\<forall>ev\<in>set (bd_evidence b). \<not> blank (ev_id ev))"

definition capability_ok :: "capability \<Rightarrow> bool" where
  "capability_ok c \<longleftrightarrow>
     ValidCapabilityID (cp_id c) \<and> (cp_bindings c \<noteq> [] \<longrightarrow> \<not> blank (cp_description c)) \<and>
     (\<forall>b\<in>set (cp_bindings c). binding_ok (cp_id c) b)"

lemma evidence_err_None [simp]: "evidence_err ev = None \<longleftrightarrow> \<not> blank (ev_id ev)"
  by (simp add: evidence_err_def)

lemma ValidateBinding_None [valid_simps]: "ValidateBinding L owner b = None \<longleftrightarrow> binding_ok owner b"
  by (auto simp: ValidateBinding_def binding_ok_def validBindingState_def)

lemma ValidateCapability_None [valid_simps]: "ValidateCapability L c = None \<longleftrightarrow> capability_ok c"
proof -
  have state: "bd_state b = state_promoted" if "binding_ok i b" for i b
    using that by (simp add: binding_ok_def)
  have cid: "ValidCapabilityID (cp_id c) \<Longrightarrow> \<not> blank (cp_id c)"
    by (auto simp: ValidCapabilityID_trim)
  show ?thesis
    unfolding ValidateCapability_def capability_ok_def
    using cid state by (auto simp: ValidateBinding_None hasPromotedBinding_iff) (cases "cp_bindings c"; force)
qed

lemma ValidateProvider_None [valid_simps]:
  "ValidateProvider L p = None \<longleftrightarrow>
     \<not> blank (pv_id p) \<and> (pv_kind p = ''cli'' \<or> pv_kind p = ''app'') \<and> \<not> blank (pv_path p)"
  by (auto simp: ValidateProvider_def validProviderKind_def)

lemma ValidateRun_None [valid_simps]:
  "ValidateRun L r = None \<longleftrightarrow>
     \<not> blank (rn_id r) \<and> \<not> blank (rn_capability_id r) \<and> (rn_status r = ''succeeded'' \<or> rn_status r = ''failed'')"
  by (auto simp: ValidateRun_def)

lemma ValidateTrace_None [valid_simps]:
  "ValidateTrace L t = None \<longleftrightarrow>
     \<not> blank (tr_id t) \<and> tr_status t \<in> {''running'', ''completed'', ''failed'', ''canceled''}"
  by (auto simp: ValidateTrace_def)

end
