(* ===== verification/Cal_World.thy ===== *)
theory Cal_World
  imports Cal_Model "HOL-Library.State_Monad"
begin

text \<open>
  How effects are modelled. An operation with effects is a value of the library's state monad. The
  orchestrators (acquisition, run, use) run on a \<open>world\<close>: a tick that advances with every reading
  of the clock or of the context, the progress events emitted so far, and the state \<open>w_ext\<close> of
  the components they call. Time and cancellation are functions of the tick, in \<open>env\<close>.
  The second half is \<^verbatim>\<open>internal/progress\<close>.
\<close>

section \<open>Weakest preconditions of the state monad\<close>

abbreviation ret :: "'a \<Rightarrow> ('s, 'a) state" where
  "ret \<equiv> State_Monad.return"

definition wp :: "('s, 'a) state \<Rightarrow> ('a \<Rightarrow> 's \<Rightarrow> bool) \<Rightarrow> 's \<Rightarrow> bool" where
  "wp m Q s = (case run_state m s of (a, s') \<Rightarrow> Q a s')"

named_theorems wp_simps "weakest preconditions of the operations"

lemma wp_return [wp_simps]: "wp (ret a) Q s = Q a s"
  by (simp add: wp_def)

lemma wp_bind [wp_simps]: "wp (State_Monad.bind m f) Q s = wp m (\<lambda>a. wp (f a) Q) s"
  by (simp add: wp_def split: prod.splits)

lemma wp_if [wp_simps]: "wp (if b then m else n) Q s = (if b then wp m Q s else wp n Q s)"
  by simp

lemma wp_let [wp_simps]: "wp (let x = a in f x) Q s = (let x = a in wp (f x) Q s)"
  by (simp add: Let_def)

lemma wp_case_option [wp_simps]:
  "wp (case x of None \<Rightarrow> m | Some y \<Rightarrow> f y) Q s = (case x of None \<Rightarrow> wp m Q s | Some y \<Rightarrow> wp (f y) Q s)"
  by (cases x) auto

lemma wp_case_sum [wp_simps]:
  "wp (case x of Inl e \<Rightarrow> f e | Inr y \<Rightarrow> g y) Q s = (case x of Inl e \<Rightarrow> wp (f e) Q s | Inr y \<Rightarrow> wp (g y) Q s)"
  by (cases x) auto

lemma wp_case_prod [wp_simps]:
  "wp (case x of (a, b) \<Rightarrow> f a b) Q s = (case x of (a, b) \<Rightarrow> wp (f a b) Q s)"
  by (cases x) auto

lemma wp_mono: "wp m P s \<Longrightarrow> (\<And>a t. P a t \<Longrightarrow> Q a t) \<Longrightarrow> wp m Q s"
  by (auto simp: wp_def split: prod.splits)

lemma wp_conj: "wp m P s \<Longrightarrow> wp m Q s \<Longrightarrow> wp m (\<lambda>a t. P a t \<and> Q a t) s"
  by (auto simp: wp_def split: prod.splits)

lemma wp_any: "(\<And>a t. Q a t) \<Longrightarrow> wp m Q s"
  by (simp add: wp_def split: prod.splits)

lemma wp_True [simp]: "wp m (\<lambda>_ _. True) s"
  by (simp add: wp_def split: prod.splits)

lemma wp_run: "wp m Q s \<Longrightarrow> run_state m s = (a, t) \<Longrightarrow> Q a t"
  by (simp add: wp_def)

lemma wp_iff: "wp m Q s \<longleftrightarrow> (\<forall>a t. run_state m s = (a, t) \<longrightarrow> Q a t)"
  by (simp add: wp_def split: prod.splits)

section \<open>Clock, context, events\<close>

record env =
  env_time :: "nat \<Rightarrow> int"
  env_ctx :: "nat \<Rightarrow> gerr option"

record 's world =
  w_tick :: nat
  w_events :: "progress_event list"
  w_ext :: 's

text \<open>\<^verbatim>\<open>time.Now().UTC()\<close>, in nanoseconds, and \<^verbatim>\<open>ctx.Err()\<close>.\<close>

definition now :: "env \<Rightarrow> ('s world, int) state" where
  "now E = State (\<lambda>w. (env_time E (w_tick w), w\<lparr>w_tick := Suc (w_tick w)\<rparr>))"

definition ctx_err :: "env \<Rightarrow> ('s world, gerr option) state" where
  "ctx_err E = State (\<lambda>w. (env_ctx E (w_tick w), w\<lparr>w_tick := Suc (w_tick w)\<rparr>))"

definition log_event :: "progress_event \<Rightarrow> ('s world, unit) state" where
  "log_event ev = State (\<lambda>w. ((), w\<lparr>w_events := w_events w @ [ev]\<rparr>))"

definition call :: "('s, 'a) state \<Rightarrow> ('s world, 'a) state" where
  "call m = State (\<lambda>w. case run_state m (w_ext w) of (a, s) \<Rightarrow> (a, w\<lparr>w_ext := s, w_tick := Suc (w_tick w)\<rparr>))"

lemma wp_now [wp_simps]:
  "wp (now E) Q w = Q (env_time E (w_tick w)) (w\<lparr>w_tick := Suc (w_tick w)\<rparr>)"
  by (simp add: wp_def now_def)

lemma wp_ctx_err [wp_simps]:
  "wp (ctx_err E) Q w = Q (env_ctx E (w_tick w)) (w\<lparr>w_tick := Suc (w_tick w)\<rparr>)"
  by (simp add: wp_def ctx_err_def)

lemma wp_log_event [wp_simps]: "wp (log_event ev) Q w = Q () (w\<lparr>w_events := w_events w @ [ev]\<rparr>)"
  by (simp add: wp_def log_event_def)

lemma wp_call [wp_simps]:
  "wp (call m) Q w = wp m (\<lambda>a s. Q a (w\<lparr>w_ext := s, w_tick := Suc (w_tick w)\<rparr>)) (w_ext w)"
  by (simp add: wp_def call_def split: prod.splits)

text \<open>Computations that emit no event.\<close>

definition quiet :: "('s world, 'a) state \<Rightarrow> bool" where
  "quiet m = (\<forall>w. w_events (snd (run_state m w)) = w_events w)"

lemma wp_quiet: "quiet m \<Longrightarrow> (\<And>a v. w_events v = w_events w \<Longrightarrow> Q a v) \<Longrightarrow> wp m Q w"
  by (auto simp: quiet_def wp_def split: prod.splits dest: spec [of _ w])

lemma quietI: "(\<And>w. wp m (\<lambda>a v. w_events v = w_events w) w) \<Longrightarrow> quiet m"
  by (simp add: quiet_def wp_def case_prod_beta)

lemma wp_call_any: "(\<And>a s. Q a (w\<lparr>w_ext := s, w_tick := Suc (w_tick w)\<rparr>)) \<Longrightarrow> wp (call m) Q w"
  by (simp add: wp_call wp_any)

text \<open>
  Evaluation of concrete runs: a continuation is only looked at once the result it waits for is
  known.
\<close>

named_theorems run_eval "results of concrete computations"

lemma bind_weak_cong: "m = n \<Longrightarrow> State_Monad.bind m f = State_Monad.bind n f"
  by simp

lemma run_bind [run_eval]:
  "run_state (State_Monad.bind m f) s = (case run_state m s of (a, t) \<Rightarrow> run_state (f a) t)"
  by (simp add: State_Monad.bind_def)

lemma run_ret [run_eval]: "run_state (ret a) s = (a, s)"
  by (simp add: State_Monad.return_def)

lemma run_world_ops [run_eval]:
  "run_state (now E) w = (env_time E (w_tick w), w\<lparr>w_tick := Suc (w_tick w)\<rparr>)"
  "run_state (ctx_err E) w = (env_ctx E (w_tick w), w\<lparr>w_tick := Suc (w_tick w)\<rparr>)"
  "run_state (log_event ev) w = ((), w\<lparr>w_events := w_events w @ [ev]\<rparr>)"
  "run_state (call m) w = (case run_state m (w_ext w) of (a, s) \<Rightarrow> (a, w\<lparr>w_ext := s, w_tick := Suc (w_tick w)\<rparr>))"
  by (simp_all add: now_def ctx_err_def log_event_def call_def)

text \<open>Milliseconds of a duration in nanoseconds: Go truncates towards zero.\<close>

definition millis :: "int \<Rightarrow> int" where
  "millis d = (if d < 0 then - ((- d) div 1000000) else d div 1000000)"

section \<open>Contexts with a timeout\<close>

text \<open>
  \<^verbatim>\<open>context.WithTimeout\<close>: from tick \<open>k\<close> on, the first of the parent's error and of the deadline.
\<close>

definition done_at :: "env \<Rightarrow> int \<Rightarrow> nat \<Rightarrow> gerr option" where
  "done_at E deadline n =
     (case env_ctx E n of Some e \<Rightarrow> Some e | None \<Rightarrow> if deadline \<le> env_time E n then Some EDeadline else None)"

definition timeout_env :: "env \<Rightarrow> nat \<Rightarrow> int \<Rightarrow> env" where
  "timeout_env E k deadline = E\<lparr>env_ctx := (\<lambda>n.
     case find (\<lambda>u. done_at E deadline u \<noteq> None) [k..<Suc n] of
       None \<Rightarrow> None | Some u \<Rightarrow> done_at E deadline u)\<rparr>"

definition with_timeout :: "env \<Rightarrow> int \<Rightarrow> ('s world, env) state" where
  "with_timeout E timeout = State (\<lambda>w.
     (timeout_env E (w_tick w) (env_time E (w_tick w) + timeout), w\<lparr>w_tick := Suc (w_tick w)\<rparr>))"

lemma wp_with_timeout:
  "wp (with_timeout E t) Q w = Q (timeout_env E (w_tick w) (env_time E (w_tick w) + t)) (w\<lparr>w_tick := Suc (w_tick w)\<rparr>)"
  by (simp add: with_timeout_def wp_def)

text \<open>A Go pair of a pointer that may be nil and an error.\<close>

type_synonym 'a outcome = "'a option \<times> gerr option"

section \<open>Progress handlers\<close>

text \<open>
  A handler acts on an observer state; the request-local handler is the value the context holds
  under its key, if any.
\<close>

type_synonym 'o handler = "progress_event \<Rightarrow> 'o \<Rightarrow> 'o"

definition chain :: "'o handler \<Rightarrow> 'o handler \<Rightarrow> 'o handler" where
  "chain first second = (\<lambda>ev s. second ev (first ev s))"

definition WithHandler :: "'o handler option \<Rightarrow> 'o handler option \<Rightarrow> 'o handler option" where
  "WithHandler ctx handler =
     (case handler of
        None \<Rightarrow> ctx
      | Some h \<Rightarrow> (case ctx of Some existing \<Rightarrow> Some (chain existing h) | None \<Rightarrow> Some h))"

definition Emit :: "'o handler option \<Rightarrow> progress_event option \<Rightarrow> 'o handler option list \<Rightarrow> 'o \<Rightarrow> 'o" where
  "Emit ctx event handlers s =
     (case event of
        None \<Rightarrow> s
      | Some ev \<Rightarrow>
          foldl (\<lambda>s h. case h of None \<Rightarrow> s | Some f \<Rightarrow> f ev s)
            (case ctx of None \<Rightarrow> s | Some f \<Rightarrow> f ev s) handlers)"

text \<open>The handlers attached to a context one after the other.\<close>

definition attached :: "'o handler option list \<Rightarrow> 'o handler option" where
  "attached hs = foldl WithHandler None hs"

lemma foldl_handlers:
  "foldl (\<lambda>s h. case h of None \<Rightarrow> s | Some f \<Rightarrow> f ev s) (case ctx of None \<Rightarrow> s | Some f \<Rightarrow> f ev s) hs
   = (case foldl WithHandler ctx hs of None \<Rightarrow> s | Some f \<Rightarrow> f ev s)"
proof (induction hs arbitrary: ctx)
  case (Cons h hs)
  have "(case h of None \<Rightarrow> (case ctx of None \<Rightarrow> s | Some f \<Rightarrow> f ev s)
          | Some f \<Rightarrow> f ev (case ctx of None \<Rightarrow> s | Some f \<Rightarrow> f ev s))
      = (case WithHandler ctx h of None \<Rightarrow> s | Some f \<Rightarrow> f ev s)"
    by (auto simp: WithHandler_def chain_def split: option.splits)
  then show ?case using Cons.IH [of "WithHandler ctx h"] by simp
qed simp

lemma Emit_attached:
  "Emit (attached hs) (Some ev) ks s
   = foldl (\<lambda>s h. case h of None \<Rightarrow> s | Some f \<Rightarrow> f ev s) s (hs @ ks)"
  using foldl_handlers [of ev s None hs] by (simp add: Emit_def attached_def)

text \<open>
  Attaching handlers to a context and emitting an event calls every handler that is not nil
  exactly once, the attached ones in the order they were attached and then the explicit ones in
  the order of the call; a nil event calls none.
\<close>

theorem emit_order:
  "Emit (attached hs) (Some ev) ks s = foldl (\<lambda>s f. f ev s) s (map the (filter (\<lambda>h. h \<noteq> None) (hs @ ks)))
   \<and> Emit (attached hs) None ks s = s"
proof -
  have "foldl (\<lambda>s h. case h of None \<Rightarrow> s | Some f \<Rightarrow> f ev s) s xs
      = foldl (\<lambda>s f. f ev s) s (map the (filter (\<lambda>h. h \<noteq> None) xs))" for xs
    by (induction xs arbitrary: s) (auto split: option.splits)
  then show ?thesis by (simp only: Emit_attached) (simp add: Emit_def)
qed

end
