(* ===== verification/Cal_Execute.thy ===== *)
theory Cal_Execute
  imports Cal_World
begin

text \<open>
  \<^verbatim>\<open>internal/execute\<close>: the inputs an execution needs, the rendering of its argument templates, and
  the runner for command-line providers. Running a process and writing a file are operations of
  the machine, a record of effects on its state.
\<close>

section \<open>Errors\<close>

definition ErrMissingExecutor :: gerr where
  "ErrMissingExecutor = EVar ''execute.ErrMissingExecutor'' ''execute executor is not configured''"
definition execute_ErrNilRequest :: gerr where
  "execute_ErrNilRequest = EVar ''execute.ErrNilRequest'' ''execute request is required''"
definition ErrNilExecution :: gerr where
  "ErrNilExecution = EVar ''execute.ErrNilExecution'' ''execute execution is required''"
definition ErrUnsupportedKind :: gerr where
  "ErrUnsupportedKind = EVar ''execute.ErrUnsupportedKind'' ''unsupported execution kind''"
definition ErrNilProvider :: gerr where
  "ErrNilProvider = EVar ''cli.ErrNilProvider'' ''cli execute provider is required''"
definition ErrMissingPath :: gerr where
  "ErrMissingPath = EVar ''cli.ErrMissingPath'' ''cli provider path is required''"
definition ErrProviderKind :: gerr where
  "ErrProviderKind = EVar ''cli.ErrProviderKind'' ''provider kind cannot run cli execution''"
definition ErrExecutionKind :: gerr where
  "ErrExecutionKind = EVar ''cli.ErrExecutionKind'' ''execution kind cannot run cli execution''"
definition ErrMissingStdoutTarget :: gerr where
  "ErrMissingStdoutTarget = EVar ''cli.ErrMissingStdoutTarget'' ''stdout path input is required''"

section \<open>Inputs\<close>

text \<open>The names \<^verbatim>\<open>\{\{([A-Za-z0-9_]+)\}\}\<close> matches in a text, from left to right.\<close>

definition word_char :: "char \<Rightarrow> bool" where
  "word_char c = (byte_in 97 122 c \<or> byte_in 65 90 c \<or> byte_in 48 57 c \<or> c = CHR ''_'')"

definition placeholder_at :: "string \<Rightarrow> (string \<times> string) option" where
  "placeholder_at s =
     (if \<not> has_prefix ''{{'' s then None
      else let w = takeWhile word_char (drop 2 s); rest = dropWhile word_char (drop 2 s)
           in if w \<noteq> [] \<and> has_prefix ''}}'' rest then Some (w, drop 2 rest) else None)"

lemma placeholder_at_shorter: "placeholder_at s = Some (w, rest) \<Longrightarrow> length rest < length s"
proof -
  assume a: "placeholder_at s = Some (w, rest)"
  then have "rest = drop 2 (dropWhile word_char (drop 2 s))" and "has_prefix ''{{'' s"
    by (auto simp: placeholder_at_def Let_def split: if_splits)
  moreover have "length (dropWhile word_char (drop 2 s)) \<le> length (drop 2 s)" by (rule length_dropWhile_le)
  ultimately show ?thesis by (cases s) auto
qed

function placeholders :: "string \<Rightarrow> string list" where
  "placeholders [] = []"
| "placeholders (c # s) =
     (case placeholder_at (c # s) of
        None \<Rightarrow> placeholders s
      | Some (w, rest) \<Rightarrow> w # placeholders rest)"
  by pat_completeness auto
termination
  by (relation "measure length") (auto dest: placeholder_at_shorter)

fun string_items :: "gval list \<Rightarrow> string list res" where
  "string_items [] = Inr []"
| "string_items (v # vs) =
     (case is_str v of
        None \<Rightarrow> Inl (EText ''cli execution args must be strings'')
      | Some arg \<Rightarrow> (case string_items vs of Inl e \<Rightarrow> Inl e | Inr args \<Rightarrow> Inr (arg # args)))"

definition stringSlice :: "gval \<Rightarrow> string list res" where
  "stringSlice v =
     (case v of
        GStrs typed \<Rightarrow> Inr typed
      | GList typed \<Rightarrow> string_items typed
      | _ \<Rightarrow> Inl (EText ''cli execution args must be a string array''))"

definition executionArgs :: "execution \<Rightarrow> string list res" where
  "executionArgs e =
     (case map_of (ex_spec e) spec_args of
        None \<Rightarrow> Inl (EText ''cli execution args are required'')
      | Some v \<Rightarrow> stringSlice v)"

text \<open>\<open>None\<close>: the execution does not redirect its standard output.\<close>

definition StdoutPathInput :: "execution option \<Rightarrow> string option res" where
  "StdoutPathInput e0 =
     (case e0 of
        None \<Rightarrow> Inl ErrNilExecution
      | Some e \<Rightarrow>
          (case map_of (ex_spec e) spec_stdout_path_input of
             None \<Rightarrow> Inr None
           | Some v \<Rightarrow>
               if v = GNil then Inr None
               else (case is_str v of
                       None \<Rightarrow> Inl (EText ''cli execution stdout path input must be a string'')
                     | Some s \<Rightarrow>
                         (let input = trim_space s in
                          if input = [] then Inr None
                          else if contains ''{{'' input \<or> contains ''}}'' input
                          then Inl (EText ''cli execution stdout path input must be an input name'')
                          else Inr (Some input)))))"

definition unsupported_kind :: "string \<Rightarrow> gerr" where
  "unsupported_kind kind = EWrap [] ErrUnsupportedKind ('': '' @ kind)"

definition RequiredInputs :: "execution option \<Rightarrow> string list res" where
  "RequiredInputs e0 =
     (case e0 of
        None \<Rightarrow> Inl ErrNilExecution
      | Some e \<Rightarrow>
          if ex_kind e \<noteq> kind_cli then Inl (unsupported_kind (ex_kind e))
          else (case executionArgs e of
                  Inl err \<Rightarrow> Inl err
                | Inr args \<Rightarrow>
                    (case StdoutPathInput (Some e) of
                       Inl err \<Rightarrow> Inl err
                     | Inr input \<Rightarrow>
                         Inr (sort (remdups (concat (map placeholders args)
                           @ (case input of None \<Rightarrow> [] | Some name \<Rightarrow> [name])))))))"

text \<open>The loop over the inputs is in the order of the list.\<close>

definition renderArg :: "string \<Rightarrow> ginputs \<Rightarrow> string" where
  "renderArg arg inputs =
     foldl (\<lambda>arg (key, value). replace_all (''{{'' @ key @ ''}}'') (sprint value) arg) arg inputs"

definition unrendered :: "string \<Rightarrow> bool" where
  "unrendered s = (contains ''{{'' s \<or> contains ''}}'' s)"

fun render_loop :: "golib \<Rightarrow> string list \<Rightarrow> ginputs \<Rightarrow> string list res" where
  "render_loop L [] inputs = Inr []"
| "render_loop L (arg # args) inputs =
     (if unrendered (renderArg arg inputs)
      then Inl (EText (''missing input for cli arg template '' @ quote L arg))
      else (case render_loop L args inputs of
              Inl e \<Rightarrow> Inl e
            | Inr rest \<Rightarrow> Inr (renderArg arg inputs # rest)))"

definition RenderArgs :: "golib \<Rightarrow> execution option \<Rightarrow> ginputs \<Rightarrow> string list res" where
  "RenderArgs L e0 inputs =
     (case e0 of
        None \<Rightarrow> Inl ErrNilExecution
      | Some e \<Rightarrow>
          if ex_kind e \<noteq> kind_cli then Inl (unsupported_kind (ex_kind e))
          else (case executionArgs e of
                  Inl err \<Rightarrow> Inl err
                | Inr args \<Rightarrow> render_loop L args inputs))"

section \<open>Requests, results, runners\<close>

record exec_output =
  ot_kind :: string
  ot_text :: string
  ot_number :: "int option"
  ot_path :: string
  ot_mime :: string

type_synonym outputs = "(string, exec_output) gomap"

record exec_request =
  er_provider :: "provider option"
  er_execution :: "execution option"
  er_inputs :: ginputs

record proc_result =
  pc_stdout :: string
  pc_stderr :: string
  pc_exit :: "int option"
  pc_err :: "gerr option"

text \<open>The machine: \<^verbatim>\<open>cmd.Run\<close> of a path with arguments, and \<^verbatim>\<open>os.WriteFile\<close>.\<close>

record 's machine =
  mc_exec :: "string \<Rightarrow> string list \<Rightarrow> ('s, proc_result) state"
  mc_write :: "string \<Rightarrow> string \<Rightarrow> ('s, gerr option) state"

type_synonym exec_outcome = "outputs option \<times> gerr option"

definition text_output :: "string \<Rightarrow> exec_output" where
  "text_output s = \<lparr>ot_kind = ''text'', ot_text = s, ot_number = None, ot_path = [], ot_mime = []\<rparr>"

definition resultFromProcess :: "proc_result \<Rightarrow> outputs" where
  "resultFromProcess p =
     [(''stdout'', text_output (pc_stdout p)), (''stderr'', text_output (pc_stderr p)),
      (''text'', text_output (pc_stdout p))] @
     (case pc_exit p of
        None \<Rightarrow> []
      | Some n \<Rightarrow> [(''exit_code'',
          \<lparr>ot_kind = ''number'', ot_text = [], ot_number = Some n, ot_path = [], ot_mime = []\<rparr>)])"

definition writeStdoutTarget ::
    "'s machine \<Rightarrow> exec_request \<Rightarrow> string \<Rightarrow> outputs \<Rightarrow> ('s world, outputs \<times> gerr option) state" where
  "writeStdoutTarget M req stdout result =
     (case StdoutPathInput (er_execution req) of
        Inl e \<Rightarrow> ret (result, Some e)
      | Inr None \<Rightarrow> ret (result, None)
      | Inr (Some name) \<Rightarrow>
          (case str_at (er_inputs req) name of
             None \<Rightarrow> ret (result, Some (EWrap [] ErrMissingStdoutTarget ('': '' @ name)))
           | Some p \<Rightarrow>
               if blank p then ret (result, Some (EWrap [] ErrMissingStdoutTarget ('': '' @ name)))
               else do {
                 w \<leftarrow> call (mc_write M (trim_space p) stdout);
                 (case w of
                    Some e \<Rightarrow> ret (result, Some (EWrap ''write stdout target: '' e []))
                  | None \<Rightarrow> ret (put name \<lparr>ot_kind = ''file'', ot_text = [], ot_number = None,
                      ot_path = trim_space p, ot_mime = []\<rparr> result, None))}))"

definition runCommand ::
    "golib \<Rightarrow> env \<Rightarrow> 's machine \<Rightarrow> provider \<Rightarrow> exec_request \<Rightarrow> ('s world, exec_outcome) state" where
  "runCommand L E M prov req =
     (case RenderArgs L (er_execution req) (er_inputs req) of
        Inl e \<Rightarrow> ret (None, Some e)
      | Inr args \<Rightarrow> do {
          p \<leftarrow> call (mc_exec M (trim_space (pv_path prov)) args);
          let result = resultFromProcess p;
          ctxErr \<leftarrow> (case pc_err p of None \<Rightarrow> ret None | Some _ \<Rightarrow> ctx_err E);
          (case (pc_err p, ctxErr) of
             (Some err, Some e) \<Rightarrow> ret (Some result, Some e)
           | (err, _) \<Rightarrow>
               if err \<noteq> None \<and> pc_exit p = None
               then ret (Some result, Some (EWrap ''execute cli: '' (the err) []))
               else do {
                 (result', e) \<leftarrow> writeStdoutTarget M req (pc_stdout p) result;
                 ret (Some result', e)})})"

definition validateRequest :: "exec_request option \<Rightarrow> gerr option" where
  "validateRequest req0 =
     (case req0 of
        None \<Rightarrow> Some execute_ErrNilRequest
      | Some req \<Rightarrow>
          (case er_provider req of
             None \<Rightarrow> Some ErrNilProvider
           | Some p \<Rightarrow>
               (case er_execution req of
                  None \<Rightarrow> Some ErrNilExecution
                | Some e \<Rightarrow>
                    if pv_kind p \<noteq> ''cli'' then Some (EWrap [] ErrProviderKind ('': '' @ pv_kind p))
                    else if ex_kind e \<noteq> kind_cli then Some (EWrap [] ErrExecutionKind ('': '' @ ex_kind e))
                    else if blank (pv_path p) then Some ErrMissingPath
                    else None)))"

definition cli_Run :: "golib \<Rightarrow> env \<Rightarrow> 's machine \<Rightarrow> exec_request option \<Rightarrow> ('s world, exec_outcome) state" where
  "cli_Run L E M req =
     (case validateRequest req of
        Some e \<Rightarrow> ret (None, Some e)
      | None \<Rightarrow> runCommand L E M (the (er_provider (the req))) (the req))"

text \<open>The dispatcher; its executor may be nil.\<close>

definition execute_Run ::
    "(exec_request option \<Rightarrow> ('s world, exec_outcome) state) option \<Rightarrow> exec_request option
      \<Rightarrow> ('s world, exec_outcome) state" where
  "execute_Run cli req0 =
     (case req0 of
        None \<Rightarrow> ret (None, Some execute_ErrNilRequest)
      | Some req \<Rightarrow>
          (case er_execution req of
             None \<Rightarrow> ret (None, Some ErrNilExecution)
           | Some e \<Rightarrow>
               if ex_kind e = kind_cli
               then (case cli of None \<Rightarrow> ret (None, Some ErrMissingExecutor) | Some run \<Rightarrow> run (Some req))
               else ret (None, Some (unsupported_kind (ex_kind e)))))"

section \<open>Templates\<close>

text \<open>
  A well-formed argument template is a sequence of text without braces and of placeholders with a
  name of word characters.
\<close>

datatype seg = Lit string | Hole string

definition brace_free :: "string \<Rightarrow> bool" where
  "brace_free s = (CHR ''{'' \<notin> set s \<and> CHR ''}'' \<notin> set s)"

fun seg_ok :: "seg \<Rightarrow> bool" where
  "seg_ok (Lit s) = brace_free s"
| "seg_ok (Hole k) = (k \<noteq> [] \<and> list_all word_char k)"

fun seg_text :: "seg \<Rightarrow> string" where
  "seg_text (Lit s) = s"
| "seg_text (Hole k) = ''{{'' @ k @ ''}}''"

definition template :: "seg list \<Rightarrow> string" where
  "template segs = concat (map seg_text segs)"

fun seg_names :: "seg \<Rightarrow> string list" where
  "seg_names (Lit s) = []"
| "seg_names (Hole k) = [k]"

fun fill :: "string \<Rightarrow> string \<Rightarrow> seg \<Rightarrow> seg" where
  "fill k v (Lit s) = Lit s"
| "fill k v (Hole j) = (if j = k then Lit v else Hole j)"

lemma word_char_brace [simp]: "\<not> word_char CHR ''{''" "\<not> word_char CHR ''}''"
  by (simp_all add: word_char_def byte_in_def)

lemma words_brace_free: "list_all word_char k \<Longrightarrow> brace_free k"
  by (auto simp: brace_free_def list_all_iff)

lemma replace_all_skip:
  "CHR ''{'' \<notin> set s \<Longrightarrow> old = CHR ''{'' # old' \<Longrightarrow> replace_all old new (s @ t) = s @ replace_all old new t"
  by (induction s) auto

lemma replace_all_hole:
  assumes k: "brace_free k" and j: "j \<noteq> []" "list_all word_char j"
  shows "replace_all (''{{'' @ k @ ''}}'') v (''{{'' @ j @ ''}}'' @ t) =
    (if j = k then v else ''{{'' @ j @ ''}}'') @ replace_all (''{{'' @ k @ ''}}'') v t"
proof -
  let ?P = "''{{'' @ k @ ''}}''"
  have bj: "brace_free j" using j(2) by (rule words_brace_free)
  have pre: "has_prefix ?P (''{{'' @ j @ ''}}'' @ t) \<longleftrightarrow> j = k"
  proof
    assume "has_prefix ?P (''{{'' @ j @ ''}}'' @ t)"
    then obtain u where u: "j @ ''}}'' @ t = k @ ''}}'' @ u" by (auto simp: has_prefix_iff)
    have "takeWhile (\<lambda>c. c \<noteq> CHR ''}'') (x @ CHR ''}'' # r) = x" if "brace_free x" for x r
      using that by (induction x) (auto simp: brace_free_def)
    from this [OF bj, of "CHR ''}'' # t"] this [OF k, of "CHR ''}'' # u"] u
    show "j = k" by simp
  next
    assume "j = k"
    then show "has_prefix ?P (''{{'' @ j @ ''}}'' @ t)" by (simp add: has_prefix_iff)
  qed
  show ?thesis
  proof (cases "j = k")
    case True
    have "replace_all ?P v (''{{'' @ j @ ''}}'' @ t)
        = v @ replace_all ?P v (drop (length ?P) (''{{'' @ j @ ''}}'' @ t))"
      using pre True by simp
    also have "drop (length ?P) (''{{'' @ j @ ''}}'' @ t) = t" using True by simp
    finally show ?thesis using True by simp
  next
    case False
    obtain c j' where c: "j = c # j'" "c \<noteq> CHR ''{''"
      using j bj by (cases j) (auto simp: brace_free_def)
    have "replace_all ?P v (''{{'' @ j @ ''}}'' @ t)
        = CHR ''{'' # replace_all ?P v (CHR ''{'' # j @ ''}}'' @ t)"
      using pre False by simp
    also have "replace_all ?P v (CHR ''{'' # j @ ''}}'' @ t)
        = CHR ''{'' # replace_all ?P v ((j @ ''}}'') @ t)"
      using c by simp
    also have "replace_all ?P v ((j @ ''}}'') @ t) = (j @ ''}}'') @ replace_all ?P v t"
      by (rule replace_all_skip) (use bj in \<open>auto simp: brace_free_def\<close>)
    finally show ?thesis using False by simp
  qed
qed

lemma replace_all_template:
  assumes "brace_free k" and "list_all seg_ok segs"
  shows "replace_all (''{{'' @ k @ ''}}'') v (template segs) = template (map (fill k v) segs)"
  using assms(2)
proof (induction segs)
  case (Cons s segs)
  show ?case
  proof (cases s)
    case (Lit u)
    then have "CHR ''{'' \<notin> set u" using Cons.prems by (simp add: brace_free_def)
    from replace_all_skip [OF this, of "''{{'' @ k @ ''}}''" _ v "template segs"] Cons Lit
    show ?thesis by (simp add: template_def)
  next
    case (Hole j)
    then show ?thesis
      using replace_all_hole [OF assms(1), of j v "template segs"] Cons
      by (simp add: template_def)
  qed
qed (simp add: template_def)

lemma seg_ok_fill: "seg_ok s \<Longrightarrow> brace_free v \<Longrightarrow> seg_ok (fill k v s)"
  by (cases s) auto

definition bound_seg :: "ginputs \<Rightarrow> seg \<Rightarrow> seg" where
  "bound_seg inputs s =
     (case s of Lit u \<Rightarrow> Lit u
      | Hole k \<Rightarrow> (case map_of inputs k of None \<Rightarrow> Hole k | Some v \<Rightarrow> Lit (sprint v)))"

definition plain_inputs :: "ginputs \<Rightarrow> bool" where
  "plain_inputs inputs \<longleftrightarrow> (\<forall>(k, v)\<in>set inputs. brace_free k \<and> brace_free (sprint v))"

lemma renderArg_template:
  assumes "list_all seg_ok segs" and "plain_inputs inputs"
  shows "renderArg (template segs) inputs = template (map (bound_seg inputs) segs)"
  using assms
proof (induction inputs arbitrary: segs)
  case Nil
  have "bound_seg [] = (\<lambda>s. s)" by (auto simp: bound_seg_def split: seg.split)
  then show ?case by (simp add: renderArg_def)
next
  case (Cons kv inputs)
  obtain k v where kv: "kv = (k, v)" by (cases kv)
  with Cons.prems have kb: "brace_free k" "brace_free (sprint v)" and rest: "plain_inputs inputs"
    by (auto simp: plain_inputs_def)
  have "renderArg (template segs) (kv # inputs) = renderArg (template (map (fill k (sprint v)) segs)) inputs"
    using replace_all_template [OF kb(1) Cons.prems(1)] by (simp add: renderArg_def kv)
  also have "\<dots> = template (map (bound_seg inputs) (map (fill k (sprint v)) segs))"
    using Cons.prems(1) kb(2) rest by (intro Cons.IH) (auto simp: list_all_iff seg_ok_fill)
  also have "map (bound_seg inputs) (map (fill k (sprint v)) segs) = map (bound_seg (kv # inputs)) segs"
    by (auto simp: kv bound_seg_def split: seg.splits)
  finally show ?case .
qed

text \<open>
  For well-formed templates and inputs without braces, rendering an argument replaces every
  placeholder that is bound by the text of its input, at once, whatever the order in which Go
  iterates over the map of inputs.
\<close>

theorem render_is_substitution:
  assumes "list_all seg_ok segs" and "plain_inputs inputs" and "distinct (keys inputs)"
    and "set inputs' = set inputs" and "distinct (keys inputs')"
  shows "renderArg (template segs) inputs = template (map (bound_seg inputs) segs) \<and>
    renderArg (template segs) inputs' = renderArg (template segs) inputs"
proof -
  have "map_of inputs' = map_of inputs"
    using assms(3-5) by (metis map_of_inject_set)
  then have "bound_seg inputs' = bound_seg inputs" by (simp add: bound_seg_def [abs_def])
  moreover have "plain_inputs inputs'" using assms(2,4) by (simp add: plain_inputs_def)
  ultimately show ?thesis using renderArg_template assms(1,2) by metis
qed

theorem render_is_substitution_witness:
  "renderArg (template [Lit ''--in='', Hole ''a'', Lit ''.'', Hole ''b'']) [(''a'', GStr ''x''), (''b'', GInt 7)] = ''--in=x.7''
   \<and> renderArg (template [Lit ''--in='', Hole ''a'', Lit ''.'', Hole ''b'']) [(''b'', GInt 7), (''a'', GStr ''x'')] = ''--in=x.7''"
proof -
  have seven: "itoa 7 = ''7''" by code_simp
  have "list_all seg_ok [Lit ''--in='', Hole ''a'', Lit ''.'', Hole ''b'']" by code_simp
  moreover have "plain_inputs [(''a'', GStr ''x''), (''b'', GInt 7)]" by code_simp
  ultimately show ?thesis
    using render_is_substitution [of "[Lit ''--in='', Hole ''a'', Lit ''.'', Hole ''b'']"
        "[(''a'', GStr ''x''), (''b'', GInt 7)]" "[(''b'', GInt 7), (''a'', GStr ''x'')]"]
    by (simp add: template_def bound_seg_def insert_commute seven)
qed

text \<open>
  Without the condition that input values hold no braces the result depends on the iteration order: an input whose value holds
  the placeholder of another one is substituted again or not.
\<close>

theorem render_depends_on_order:
  "renderArg ''{{a}}'' [(''a'', GStr ''{{b}}''), (''b'', GStr ''x'')] = ''x'' \<and>
   renderArg ''{{a}}'' [(''b'', GStr ''x''), (''a'', GStr ''{{b}}'')] = ''{{b}}''"
  by (simp add: renderArg_def)

section \<open>Required inputs\<close>

lemma placeholder_at_skip:
  assumes "c \<noteq> CHR ''{''"
  shows "placeholder_at (c # s) = None"
  using assms by (simp add: placeholder_at_def)

lemma placeholders_skip: "CHR ''{'' \<notin> set s \<Longrightarrow> placeholders (s @ t) = placeholders t"
  by (induction s) (auto simp: placeholder_at_skip)

lemma placeholders_hole:
  assumes "j \<noteq> []" and "list_all word_char j"
  shows "placeholders (''{{'' @ j @ ''}}'' @ t) = j # placeholders t"
proof -
  have tw: "takeWhile word_char (j @ ''}}'' @ t) = j" "dropWhile word_char (j @ ''}}'' @ t) = ''}}'' @ t"
    using assms(2) by (simp_all add: list_all_iff takeWhile_append2 dropWhile_append2)
  have "placeholder_at (''{{'' @ j @ ''}}'' @ t) = Some (j, t)"
    using tw assms(1) by (simp add: placeholder_at_def)
  then show ?thesis by simp
qed

lemma placeholders_template:
  "list_all seg_ok segs \<Longrightarrow> placeholders (template segs) = concat (map seg_names segs)"
proof (induction segs)
  case (Cons s segs)
  show ?case
  proof (cases s)
    case (Lit u)
    then have "CHR ''{'' \<notin> set u" using Cons.prems by (simp add: brace_free_def)
    from placeholders_skip [OF this, of "template segs"] Cons Lit show ?thesis by (simp add: template_def)
  next
    case (Hole j)
    with placeholders_hole [of j "template segs"] Cons show ?thesis by (simp add: template_def)
  qed
qed (simp add: template_def)

lemma sort_remdups_names: "set (sort (remdups xs)) = set xs" "distinct (sort (remdups xs))" "sorted (sort (remdups xs))"
  by simp_all

lemma template_no_braces:
  assumes "list_all seg_ok segs" and "list_all (\<lambda>s. \<exists>u. s = Lit u) segs"
  shows "brace_free (template segs)"
  using assms by (induction segs) (auto simp: template_def brace_free_def)

lemma brace_free_rendered: "brace_free s \<Longrightarrow> \<not> unrendered s"
  by (auto simp: unrendered_def contains_iff brace_free_def)

text \<open>
  For an execution whose arguments are well-formed templates, \<open>RequiredInputs\<close> is the sorted
  list, without repetition, of the names of all placeholders and of the input that receives
  standard output; when every one of them is bound and the inputs hold no braces, \<open>RenderArgs\<close>
  succeeds, with one rendered argument per template and each placeholder replaced by its input.
\<close>

theorem required_inputs_render:
  assumes "ex_kind e = kind_cli" and "executionArgs e = Inr (map template tss)"
    and ok: "\<forall>ts\<in>set tss. list_all seg_ok ts"
    and "RequiredInputs (Some e) = Inr names"
    and bound: "\<forall>n\<in>set names. map_of inputs n \<noteq> None" and plain: "plain_inputs inputs"
  shows "sorted names \<and> distinct names \<and>
    (\<exists>out. StdoutPathInput (Some e) = Inr out \<and>
       set names = set (concat (map seg_names (concat tss))) \<union> set_option out) \<and>
    RenderArgs L (Some e) inputs = Inr (map (\<lambda>ts. template (map (bound_seg inputs) ts)) tss)"
proof -
  obtain out where out: "StdoutPathInput (Some e) = Inr out"
    and names: "names = sort (remdups (concat (map placeholders (map template tss))
        @ (case out of None \<Rightarrow> [] | Some n \<Rightarrow> [n])))"
    using assms(1,2,4) by (auto simp: RequiredInputs_def split: sum.splits)
  have "map placeholders (map template tss) = map (\<lambda>ts. concat (map seg_names ts)) tss"
    using ok by (auto simp: placeholders_template)
  then have setn: "set names = set (concat (map seg_names (concat tss))) \<union> set_option out"
    unfolding names by (cases out) auto
  have "render_loop L (map template us) inputs = Inr (map (\<lambda>ts. template (map (bound_seg inputs) ts)) us)"
    if "set us \<subseteq> set tss" for us
    using that
  proof (induction us)
    case (Cons ts us)
    then have ts: "ts \<in> set tss" by simp
    have seg: "seg_ok (bound_seg inputs s) \<and> (\<exists>u. bound_seg inputs s = Lit u)" if "s \<in> set ts" for s
    proof (cases s)
      case (Lit u)
      have "seg_ok s" using ok ts that by (auto simp: list_all_iff)
      with Lit show ?thesis by (simp add: bound_seg_def)
    next
      case (Hole k)
      then have "k \<in> set names" using setn ts that by force
      then obtain v where v: "map_of inputs k = Some v" using bound by auto
      then have "brace_free (sprint v)" using plain by (auto simp: plain_inputs_def dest: map_of_SomeD)
      with v Hole show ?thesis by (simp add: bound_seg_def)
    qed
    have "brace_free (template (map (bound_seg inputs) ts))"
      by (rule template_no_braces) (use seg in \<open>auto simp: list_all_iff\<close>)
    moreover have "renderArg (template ts) inputs = template (map (bound_seg inputs) ts)"
      using ok ts plain by (simp add: renderArg_template)
    ultimately show ?case using Cons by (simp add: brace_free_rendered)
  qed simp
  from this [of tss] show ?thesis
    using out setn assms(1,2) by (simp add: names RenderArgs_def)
qed

definition sample_execution :: execution where
  "sample_execution = \<lparr>ex_kind = kind_cli, ex_spec =
     [(''args'', GStrs [''-o'', ''{{out}}'', ''--n={{n}}'']), (''stdout_path_input'', GStr ''log'')]\<rparr>"

theorem required_inputs_render_witness:
  "RequiredInputs (Some sample_execution) = Inr [''log'', ''n'', ''out''] \<and>
   RenderArgs plain_lib (Some sample_execution) [(''n'', GInt 3), (''out'', GStr ''/tmp/o''), (''log'', GStr ''l'')]
     = Inr [''-o'', ''/tmp/o'', ''--n=3'']"
proof -
  let ?tss = "[[Lit ''-o''], [Hole ''out''], [Lit ''--n='', Hole ''n'']]"
  have names: "RequiredInputs (Some sample_execution) = Inr [''log'', ''n'', ''out'']" by code_simp
  have three: "itoa 3 = ''3''" by code_simp
  have args: "executionArgs sample_execution = Inr (map template ?tss)" by code_simp
  have ok: "\<forall>ts\<in>set ?tss. list_all seg_ok ts" by code_simp
  have plain: "plain_inputs [(''n'', GInt 3), (''out'', GStr ''/tmp/o''), (''log'', GStr ''l'')]" by code_simp
  show ?thesis
    using required_inputs_render [OF _ args ok names _ plain, of plain_lib] names
    by (simp add: sample_execution_def template_def bound_seg_def three)
qed

end
