(* ===== verification/Cal_Path.thy ===== *)
theory Cal_Path
  imports Cal_Text
begin

text \<open>
  \<^verbatim>\<open>path/filepath\<close> on Unix: \<open>path_clean\<close> is \<^verbatim>\<open>filepath.Clean\<close>, \<open>path_join\<close> is
  \<^verbatim>\<open>filepath.Join\<close>, \<open>path_base\<close> is \<^verbatim>\<open>filepath.Base\<close>. The lemmas describe a cleaned path
  by its components, so that a claim that a path stays below a directory is a claim about a
  prefix of component lists.
\<close>

section \<open>Definitions\<close>

abbreviation slash :: char where
  "slash \<equiv> CHR ''/''"

text \<open>One component of the path on the stack of components kept so far (last first).\<close>

definition push_comp :: "bool \<Rightarrow> string list \<Rightarrow> string \<Rightarrow> string list" where
  "push_comp rooted st c =
     (if c = [] \<or> c = ''.'' then st
      else if c = ''..'' then
        (case st of
           [] \<Rightarrow> (if rooted then [] else [''..''])
         | t # ts \<Rightarrow> (if t = ''..'' then ''..'' # st else ts))
      else c # st)"

definition is_rooted :: "string \<Rightarrow> bool" where
  "is_rooted p = has_prefix ''/'' p"

text \<open>The components of the cleaned path, in order.\<close>

definition comps :: "string \<Rightarrow> string list" where
  "comps p = rev (foldl (push_comp (is_rooted p)) [] (split_char slash p))"

definition path_clean :: "string \<Rightarrow> string" where
  "path_clean p =
     (if is_rooted p then slash # join ''/'' (comps p)
      else if comps p = [] then ''.'' else join ''/'' (comps p))"

definition path_join :: "string list \<Rightarrow> string" where
  "path_join elems =
     (case dropWhile (\<lambda>e. e = []) elems of [] \<Rightarrow> [] | es \<Rightarrow> path_clean (join ''/'' es))"

definition path_is_abs :: "string \<Rightarrow> bool" where
  "path_is_abs p = is_rooted p"

definition path_base :: "string \<Rightarrow> string" where
  "path_base p =
     (if p = [] then ''.''
      else let q = trim_right_set [slash] p
           in if q = [] then ''/'' else last (split_char slash q))"

section \<open>The components of a cleaned path\<close>

text \<open>A kept component is a proper name or \<open>..\<close>, and \<open>..\<close> only leads a relative path.\<close>

definition proper :: "string \<Rightarrow> bool" where
  "proper c \<longleftrightarrow> c \<noteq> [] \<and> c \<noteq> ''.'' \<and> c \<noteq> ''..'' \<and> slash \<notin> set c"

definition stack_ok :: "bool \<Rightarrow> string list \<Rightarrow> bool" where
  "stack_ok rooted st \<longleftrightarrow>
     (\<exists>n ns. st = ns @ replicate n ''..'' \<and> list_all proper ns \<and> (rooted \<longrightarrow> n = 0))"

lemma stack_okI: "list_all proper ns \<Longrightarrow> (rooted \<Longrightarrow> n = 0) \<Longrightarrow> stack_ok rooted (ns @ replicate n ''..'')"
  by (auto simp: stack_ok_def)

lemma stack_ok_Nil [simp]: "stack_ok rooted []"
  by (simp add: stack_ok_def)

lemma stack_ok_push:
  assumes "stack_ok rooted st" and "slash \<notin> set c"
  shows "stack_ok rooted (push_comp rooted st c)"
proof -
  obtain n ns where st: "st = ns @ replicate n ''..''" and ns: "list_all proper ns" "rooted \<longrightarrow> n = 0"
    using assms(1) by (auto simp: stack_ok_def)
  consider "c = [] \<or> c = ''.''" | "c = ''..''" | "proper c"
    using assms(2) by (auto simp: proper_def)
  then show ?thesis
  proof cases
    case 1
    with assms(1) show ?thesis by (auto simp: push_comp_def)
  next
    case 2
    show ?thesis
    proof (cases ns)
      case Nil
      show ?thesis
      proof (cases rooted)
        case True
        with 2 st ns Nil show ?thesis by (simp add: push_comp_def)
      next
        case False
        have "push_comp rooted st c = [] @ replicate (Suc n) ''..''"
          using 2 st Nil False by (cases n) (simp_all add: push_comp_def)
        with False show ?thesis by (metis list.pred_inject(1) stack_okI)
      qed
    next
      case (Cons t ts)
      with ns have "t \<noteq> ''..''" by (simp add: proper_def)
      with 2 st Cons have "push_comp rooted st c = ts @ replicate n ''..''" by (simp add: push_comp_def)
      with ns Cons show ?thesis by (auto intro: stack_okI)
    qed
  next
    case 3
    then have "push_comp rooted st c = (c # ns) @ replicate n ''..''"
      using st by (simp add: push_comp_def proper_def)
    moreover have "list_all proper (c # ns)" using ns 3 by simp
    ultimately show ?thesis using ns by (metis stack_okI)
  qed
qed

lemma stack_ok_fold:
  "stack_ok rooted st \<Longrightarrow> \<forall>c\<in>set cs. slash \<notin> set c \<Longrightarrow> stack_ok rooted (foldl (push_comp rooted) st cs)"
  by (induction cs arbitrary: st) (auto simp: stack_ok_push)

lemma comps_stack: "stack_ok (is_rooted p) (rev (comps p))"
  unfolding comps_def rev_rev_ident
  by (rule stack_ok_fold) (auto dest: split_char_pieces)

lemma comps_shape:
  obtains n ns where "comps p = replicate n ''..'' @ ns" and "list_all proper ns" and "is_rooted p \<longrightarrow> n = 0"
proof -
  obtain n ns where "rev (comps p) = ns @ replicate n ''..''" "list_all proper ns" "is_rooted p \<longrightarrow> n = 0"
    using comps_stack [of p] by (auto simp: stack_ok_def)
  then have "comps p = replicate n ''..'' @ rev ns" and "list_all proper (rev ns)"
    by (metis rev_append rev_replicate rev_rev_ident, simp add: list_all_iff)
  with \<open>is_rooted p \<longrightarrow> n = 0\<close> show thesis by (rule that [rotated 2])
qed

lemma comps_no_slash:
  assumes "c \<in> set (comps p)"
  shows "slash \<notin> set c"
proof -
  obtain n ns where p: "comps p = replicate n ''..'' @ ns" "list_all proper ns"
    by (rule comps_shape [of p])
  from assms p(1) have "c = ''..'' \<or> c \<in> set ns" by auto
  with p(2) have "c = ''..'' \<or> proper c" unfolding list_all_iff by blast
  then show ?thesis by (elim disjE) (simp_all add: proper_def)
qed

text \<open>Proper names are pushed unchanged.\<close>

lemma fold_push_proper: "list_all proper cs \<Longrightarrow> foldl (push_comp rooted) st cs = rev cs @ st"
  by (induction cs arbitrary: st) (auto simp: push_comp_def proper_def)

lemma fold_push_dots: "foldl (push_comp False) (replicate m ''..'') (replicate n ''..'') = replicate (n + m) ''..''"
proof (induction n arbitrary: m)
  case (Suc n)
  have "push_comp False (replicate m ''..'') ''..'' = replicate (Suc m) ''..''"
    by (cases m) (simp_all add: push_comp_def)
  then have "foldl (push_comp False) (replicate m ''..'') (replicate (Suc n) ''..'')
    = foldl (push_comp False) (replicate (Suc m) ''..'') (replicate n ''..'')"
    by simp
  also have "\<dots> = replicate (n + Suc m) ''..''" by (rule Suc.IH)
  finally show ?case by simp
qed simp

text \<open>Appending a name to a path that does not end in the middle of one.\<close>

lemma comps_append_slash:
  assumes "p \<noteq> []"
  shows "comps (p @ slash # q) =
     rev (foldl (push_comp (is_rooted p)) (rev (comps p)) (split_char slash q))"
proof -
  have sp: "split_char slash (p @ slash # q) = split_char slash p @ split_char slash q" for p
    by (induction p) (auto split: list.splits)
  have "is_rooted (p @ slash # q) = is_rooted p"
    using assms by (cases p) (auto simp: is_rooted_def)
  then show ?thesis by (simp add: comps_def sp)
qed

lemma comps_append_proper:
  assumes "p \<noteq> []" and "proper c"
  shows "comps (p @ slash # c) = comps p @ [c]"
proof -
  have "split_char slash c = [c]" using assms(2) by (simp add: split_char_single proper_def)
  with assms show ?thesis
    by (simp add: comps_append_slash push_comp_def proper_def)
qed

section \<open>Cleaning is stable, joining appends\<close>

lemma split_clean:
  assumes "comps p \<noteq> []"
  shows "split_char slash (join ''/'' (comps p)) = comps p"
  using assms by (intro split_char_join) (auto dest: comps_no_slash)

text \<open>A relative file name whose cleaned form neither is nor starts with \<open>..\<close> has proper components.\<close>

lemma inside_comps:
  assumes "\<not> is_rooted f" and "path_clean f \<noteq> ''.''" and "path_clean f \<noteq> ''..''"
    and "\<not> has_prefix ''../'' (path_clean f)"
  shows "comps f \<noteq> [] \<and> list_all proper (comps f) \<and> path_clean f = join ''/'' (comps f)"
proof -
  have ne: "comps f \<noteq> []" and cl: "path_clean f = join ''/'' (comps f)"
    using assms(1,2) by (auto simp: path_clean_def split: if_splits)
  obtain n ns where c: "comps f = replicate n ''..'' @ ns" "list_all proper ns"
    by (rule comps_shape [of f])
  have "n = 0"
  proof (rule ccontr)
    assume "n \<noteq> 0"
    then obtain m where "comps f = ''..'' # replicate m ''..'' @ ns"
      using c(1) by (cases n) auto
    then have "path_clean f = ''..'' \<or> has_prefix ''../'' (path_clean f)"
      unfolding cl by (cases "replicate m ''..'' @ ns") auto
    with assms(3,4) show False by blast
  qed
  with c ne cl show ?thesis by simp
qed

lemma comps_clean [simp]: "comps (path_clean q) = comps q"
proof (cases "comps q = []")
  case True
  then show ?thesis
    by (cases "is_rooted q") (simp_all add: path_clean_def comps_def push_comp_def is_rooted_def)
next
  case False
  obtain n ns where q: "comps q = replicate n ''..'' @ ns" "list_all proper ns" "is_rooted q \<longrightarrow> n = 0"
    by (rule comps_shape [of q])
  show ?thesis
  proof (cases "is_rooted q")
    case True
    with q have p: "list_all proper (comps q)" by simp
    have "is_rooted (path_clean q)" using True by (simp add: path_clean_def is_rooted_def)
    moreover have "split_char slash (path_clean q) = [] # comps q"
      using True False by (simp add: path_clean_def split_clean)
    ultimately show ?thesis
      using p by (simp add: comps_def [of "path_clean q"] push_comp_def fold_push_proper)
  next
    case nr: False
    have j: "path_clean q = join ''/'' (comps q)" using nr False by (simp add: path_clean_def)
    have "\<not> is_rooted (path_clean q)"
    proof
      assume "is_rooted (path_clean q)"
      then obtain t where t: "join ''/'' (comps q) = slash # t"
        by (auto simp: j is_rooted_def has_prefix_iff)
      then have "split_char slash (join ''/'' (comps q)) = [] # split_char slash t" by simp
      then have "[] \<in> set (comps q)" using False by (simp add: split_clean)
      with q(1,2) show False by (auto simp: list_all_iff proper_def)
    qed
    moreover have "foldl (push_comp False) [] (comps q) = rev (comps q)"
      using fold_push_dots [of 0 n] q(2) by (simp add: q(1) fold_push_proper)
    ultimately show ?thesis
      using False by (simp add: j comps_def [of "join ''/'' (comps q)"] split_clean)
  qed
qed

lemma comps_join_inside:
  assumes "d \<noteq> []" and "list_all proper cs" and "cs \<noteq> []"
  shows "comps (path_join [d, join ''/'' cs]) = comps (d @ slash # join ''/'' cs)
    \<and> comps (d @ slash # join ''/'' cs) = comps d @ cs
    \<and> path_join [d, join ''/'' cs] = path_clean (d @ slash # join ''/'' cs)"
proof -
  have pj: "path_join [d, join ''/'' cs] = path_clean (d @ slash # join ''/'' cs)"
    using assms(1) by (simp add: path_join_def)
  have "split_char slash (join ''/'' cs) = cs"
    using assms(2,3) by (intro split_char_join) (auto simp: list_all_iff proper_def)
  then have cc: "comps (d @ slash # join ''/'' cs) = comps d @ cs"
    using assms by (simp add: comps_append_slash fold_push_proper)
  from pj cc comps_clean show ?thesis by simp
qed

lemma is_rooted_clean [simp]: "is_rooted (path_clean q) = is_rooted q"
proof (cases "is_rooted q")
  case True
  then show ?thesis by (simp add: path_clean_def is_rooted_def)
next
  case nr: False
  show ?thesis
  proof (cases "comps q = []")
    case True
    with nr show ?thesis by (simp add: path_clean_def is_rooted_def)
  next
    case False
    obtain n ns where q: "comps q = replicate n ''..'' @ ns" "list_all proper ns"
      by (rule comps_shape [of q])
    have "\<not> is_rooted (join ''/'' (comps q))"
    proof
      assume "is_rooted (join ''/'' (comps q))"
      then obtain t where t: "join ''/'' (comps q) = slash # t"
        by (auto simp: is_rooted_def has_prefix_iff)
      then have "split_char slash (join ''/'' (comps q)) = [] # split_char slash t" by simp
      then have "[] \<in> set (comps q)" using False by (simp add: split_clean)
      with q show False by (auto simp: list_all_iff proper_def)
    qed
    with nr False show ?thesis by (simp add: path_clean_def)
  qed
qed

lemma path_clean_idem [simp]: "path_clean (path_clean q) = path_clean q"
  by (simp add: path_clean_def [of "path_clean q"]) (simp add: path_clean_def)

lemma path_clean_not_Nil [simp]: "path_clean q \<noteq> []"
proof
  assume e: "path_clean q = []"
  then have ne: "comps q \<noteq> []" "join ''/'' (comps q) = []"
    by (auto simp: path_clean_def split: if_splits)
  have "split_char slash (join ''/'' (comps q)) = comps q" by (rule split_clean [OF ne(1)])
  then have "comps q = [[]]" using ne(2) by simp
  moreover obtain n ns where "comps q = replicate n ''..'' @ ns" "list_all proper ns"
    by (rule comps_shape [of q])
  ultimately show False by (cases n) (auto simp: proper_def)
qed

lemma join_snoc: "xs \<noteq> [] \<Longrightarrow> join sep (xs @ [x]) = join sep xs @ sep @ x"
  by (induction sep xs rule: join.induct) auto

lemma path_clean_snoc:
  assumes "comps p \<noteq> []" and "proper c"
  shows "path_clean (p @ slash # c) = path_clean p @ slash # c"
proof -
  have p: "p \<noteq> []" using assms(1) by (auto simp: comps_def push_comp_def)
  then have "is_rooted (p @ slash # c) = is_rooted p"
    by (cases p) (simp_all add: is_rooted_def)
  then show ?thesis
    using join_snoc [OF assms(1), of "''/''" c] assms
    by (simp add: path_clean_def comps_append_proper [OF p assms(2)])
qed

lemma comps_proper: "proper k \<Longrightarrow> comps k = [k]"
  by (simp add: comps_def split_char_single push_comp_def proper_def)

lemma path_join_snoc:
  assumes "proper k" and "proper c"
  shows "path_join [d, k, c] = path_join [d, k] @ slash # c"
proof (cases "d = []")
  case True
  have "k \<noteq> []" using assms(1) by (simp add: proper_def)
  then show ?thesis
    using True assms by (simp add: path_join_def path_clean_snoc comps_proper)
next
  case False
  then have "comps (d @ slash # k) \<noteq> []" using assms(1) by (simp add: comps_append_proper)
  from path_clean_snoc [OF this assms(2)] False show ?thesis by (simp add: path_join_def)
qed

lemma path_join_snoc2:
  assumes "proper k" and "proper c" and "proper e"
  shows "path_join [d, k, c, e] = path_join [d, k, c] @ slash # e"
proof (cases "d = []")
  case True
  have k: "k \<noteq> []" using assms(1) by (simp add: proper_def)
  then have "comps (k @ slash # c) \<noteq> []" using assms(2) by (simp add: comps_append_proper)
  from path_clean_snoc [OF this assms(3)] True k show ?thesis by (simp add: path_join_def)
next
  case False
  have "comps ((d @ slash # k) @ slash # c) \<noteq> []"
    using comps_append_proper [of "d @ slash # k" c] assms(2) by simp
  from path_clean_snoc [OF this assms(3)] False show ?thesis by (simp add: path_join_def)
qed

lemma path_join_clean:
  assumes "proper k"
  shows "path_clean (path_join (d # k # ks)) = path_join (d # k # ks)" and "path_join (d # k # ks) \<noteq> []"
  using assms by (auto simp: path_join_def proper_def)

definition path_dir :: "string \<Rightarrow> string" where
  "path_dir p = path_clean (rev (dropWhile (\<lambda>c. c \<noteq> slash) (rev p)))"

lemma path_dir_append:
  assumes "p \<noteq> []" and "slash \<notin> set c"
  shows "path_dir (p @ slash # c) = path_clean p"
proof -
  have "dropWhile (\<lambda>x. x \<noteq> slash) (rev c @ ys) = dropWhile (\<lambda>x. x \<noteq> slash) ys" for ys
    by (rule dropWhile_append2) (use assms(2) in auto)
  then have "path_dir (p @ slash # c) = path_clean (p @ [slash])"
    by (simp add: path_dir_def)
  moreover have "comps (p @ slash # []) = comps p"
    using comps_append_slash [OF assms(1), of "[]"] by (simp add: push_comp_def)
  moreover have "is_rooted (p @ [slash]) = is_rooted p"
    using assms(1) by (cases p) (simp_all add: is_rooted_def)
  ultimately show ?thesis by (simp add: path_clean_def)
qed

text \<open>\<^verbatim>\<open>filepath.Ext\<close>: from the last dot of the last element.\<close>

definition path_ext :: "string \<Rightarrow> string" where
  "path_ext p =
     (let r = rev p; t = takeWhile (\<lambda>c. c \<noteq> CHR ''.'' \<and> c \<noteq> slash) r
      in case drop (length t) r of
           [] \<Rightarrow> []
         | c # _ \<Rightarrow> if c = CHR ''.'' then c # rev t else [])"

end
