(* ===== verification/Cal_CheckText.thy ===== *)
theory Cal_CheckText
  imports Cal_Text Cal_Path
begin

text \<open>
  The pure functions behind the predicates of \<^verbatim>\<open>internal/check\<close>: base64, digests by name, lines and
  columns of text, and paths into JSON values.
\<close>

section \<open>Base64\<close>

text \<open>\<^verbatim>\<open>base64.StdEncoding\<close>: the alphabet, the encoder, and the decoder quantum by quantum.\<close>

definition b64_char :: "nat \<Rightarrow> char" where
  "b64_char n =
     (if n < 26 then char_of (65 + n)
      else if n < 52 then char_of (97 + (n - 26))
      else if n < 62 then char_of (48 + (n - 52))
      else if n = 62 then CHR ''+'' else CHR ''/'')"

definition b64_value :: "char \<Rightarrow> nat option" where
  "b64_value c =
     (if byte_in 65 90 c then Some (of_char c - 65)
      else if byte_in 97 122 c then Some (of_char c - 97 + 26)
      else if byte_in 48 57 c then Some (of_char c - 48 + 52)
      else if c = CHR ''+'' then Some 62
      else if c = CHR ''/'' then Some 63
      else None)"

definition b64_pad :: char where
  "b64_pad = CHR ''=''"

fun b64_encode :: "string \<Rightarrow> string" where
  "b64_encode [] = []"
| "b64_encode [a] =
     (let v = of_char a * 65536
      in [b64_char (v div 262144), b64_char (v div 4096 mod 64), b64_pad, b64_pad])"
| "b64_encode [a, b] =
     (let v = of_char a * 65536 + of_char b * 256
      in [b64_char (v div 262144), b64_char (v div 4096 mod 64), b64_char (v div 64 mod 64), b64_pad])"
| "b64_encode (a # b # c # s) =
     (let v = of_char a * 65536 + of_char b * 256 + of_char c
      in b64_char (v div 262144) # b64_char (v div 4096 mod 64) # b64_char (v div 64 mod 64)
         # b64_char (v mod 64) # b64_encode s)"

text \<open>The bytes of a quantum of two to four sextets.\<close>

definition b64_bytes :: "nat list \<Rightarrow> string" where
  "b64_bytes d =
     (let sx = (\<lambda>i. if i < length d then d ! i else 0);
          v = sx 0 * 262144 + sx 1 * 4096 + sx 2 * 64 + sx 3
      in take (length d - 1)
           [char_of (v div 65536 mod 256 :: nat), char_of (v div 256 mod 256 :: nat), char_of (v mod 256 :: nat)])"

definition b64_corrupt :: "nat \<Rightarrow> 'a res" where
  "b64_corrupt i = Inl (EText (''illegal base64 data at input byte '' @ nat_text i))"

definition newline_char :: "char \<Rightarrow> bool" where
  "newline_char c = (c = CHR 0x0A \<or> c = CHR 0x0D)"

text \<open>The end of the input after the padding: only line breaks may follow.\<close>

definition b64_finish :: "nat \<Rightarrow> nat list \<Rightarrow> string \<Rightarrow> string res" where
  "b64_finish si d s =
     (let rest = dropWhile newline_char s
      in if rest = [] then Inr (b64_bytes d) else b64_corrupt (si + (length s - length rest)))"

definition b64_padding :: "nat \<Rightarrow> nat list \<Rightarrow> string \<Rightarrow> string res" where
  "b64_padding si d s =
     (if length d < 2 then b64_corrupt (si - 1)
      else if length d = 2 then
        (let rest = dropWhile newline_char s; sj = si + (length s - length rest)
         in case rest of
              [] \<Rightarrow> b64_corrupt sj
            | c # t \<Rightarrow> if c \<noteq> b64_pad then b64_corrupt (sj - 1) else b64_finish (sj + 1) d t)
      else b64_finish si d s)"

fun b64_loop :: "nat \<Rightarrow> nat list \<Rightarrow> string \<Rightarrow> string res" where
  "b64_loop si d [] = (if d = [] then Inr [] else b64_corrupt (si - length d))"
| "b64_loop si d (c # s) =
     (case b64_value c of
        Some v \<Rightarrow>
          (if length d = 3 then
             (case b64_loop (Suc si) [] s of
                Inl e \<Rightarrow> Inl e
              | Inr out \<Rightarrow> Inr (b64_bytes (d @ [v]) @ out))
           else b64_loop (Suc si) (d @ [v]) s)
      | None \<Rightarrow>
          (if newline_char c then b64_loop (Suc si) d s
           else if c \<noteq> b64_pad then b64_corrupt si
           else b64_padding (Suc si) d s))"

definition b64_decode :: "string \<Rightarrow> string res" where
  "b64_decode s = b64_loop 0 [] s"

definition transformBytes :: "golib \<Rightarrow> string \<Rightarrow> string \<Rightarrow> string res" where
  "transformBytes L content transform =
     (if to_lower L transform = ''base64_encode'' then Inr (b64_encode content)
      else if to_lower L transform = ''base64_decode'' then b64_decode (trim_space content)
      else Inl (EText (''verify transform '' @ quote L transform @ '' is not supported'')))"

section \<open>Digests\<close>

definition normalizeHashAlgorithm :: "golib \<Rightarrow> string \<Rightarrow> string" where
  "normalizeHashAlgorithm L value =
     replace_all '' '' [] (replace_all ''_'' [] (replace_all ''-'' [] (to_lower L (trim_space value))))"

definition hashBytes :: "golib \<Rightarrow> string \<Rightarrow> string \<Rightarrow> string res" where
  "hashBytes L content algorithm =
     (if normalizeHashAlgorithm L algorithm = ''sha1'' then Inr (sha1_hex L content)
      else if normalizeHashAlgorithm L algorithm = ''sha256'' then Inr (sha256_hex L content)
      else Inl (EText (''verify hash algorithm '' @ quote L algorithm @ '' is not supported'')))"

section \<open>Text\<close>

definition transformText :: "golib \<Rightarrow> string \<Rightarrow> string \<Rightarrow> string res" where
  "transformText L content transform =
     (if to_lower L transform = ''uppercase'' then Inr (to_upper L content)
      else if to_lower L transform = ''lowercase'' then Inr (to_lower L content)
      else Inl (EText (''verify text transform '' @ quote L transform @ '' is not supported'')))"

text \<open>The first match of \<^verbatim>\<open>\d+\<close>.\<close>

definition first_digits :: "string \<Rightarrow> string" where
  "first_digits s = takeWhile is_digit (dropWhile (\<lambda>c. \<not> is_digit c) s)"

definition firstInt :: "golib \<Rightarrow> string \<Rightarrow> int res" where
  "firstInt L s =
     (let m = first_digits s
      in if m = [] then Inl (EText ''verify output does not contain an integer'')
         else (case atoi m of
                 Some i \<Rightarrow> Inr i
               | None \<Rightarrow> Inl (EText (''strconv.Atoi: parsing '' @ quote L m @ '': value out of range''))))"

abbreviation nl :: string where
  "nl \<equiv> [CHR 0x0A]"

definition splitLines :: "string \<Rightarrow> string list" where
  "splitLines content =
     (let trimmed = trim_right_set [CHR 0x0D, CHR 0x0A] content
      in if trimmed = [] then [] else split_char (CHR 0x0A) (replace_all [CHR 0x0D, CHR 0x0A] nl trimmed))"

definition sameLines :: "string \<Rightarrow> string \<Rightarrow> bool" where
  "sameLines got want = (join nl (splitLines got) = join nl (splitLines want))"

definition filterLines :: "string \<Rightarrow> string \<Rightarrow> string" where
  "filterLines content pattern = join nl (filter (contains pattern) (splitLines content))"

text \<open>The column of a line, counted from 0, in the lines that have it.\<close>

fun column_values :: "string \<Rightarrow> nat \<Rightarrow> string list \<Rightarrow> string list" where
  "column_values delimiter column [] = []"
| "column_values delimiter column (line # ls) =
     (if column < length (split line delimiter)
      then split line delimiter ! column # column_values delimiter column ls
      else column_values delimiter column ls)"

definition delimitedColumnByIndex :: "string \<Rightarrow> string \<Rightarrow> nat \<Rightarrow> string" where
  "delimitedColumnByIndex content delimiter column =
     join nl (column_values delimiter (column - 1) (splitLines content))"

fun header_index :: "string \<Rightarrow> nat \<Rightarrow> string list \<Rightarrow> nat option" where
  "header_index header i [] = None"
| "header_index header i (h # hs) =
     (if trim_space h = header then Some i else header_index header (Suc i) hs)"

definition delimitedColumnByHeader :: "golib \<Rightarrow> string \<Rightarrow> string \<Rightarrow> string \<Rightarrow> string res" where
  "delimitedColumnByHeader L content delimiter header =
     (case splitLines content of
        [] \<Rightarrow> Inl (EText ''verify delimited source is empty'')
      | first # rest \<Rightarrow>
          (case header_index header 0 (split first delimiter) of
             None \<Rightarrow> Inl (EText (''verify delimited header '' @ quote L header @ '' is missing''))
           | Some column \<Rightarrow> Inr (join nl (column_values delimiter column rest))))"

definition delimitedColumn :: "golib \<Rightarrow> string \<Rightarrow> string \<Rightarrow> string \<Rightarrow> string res" where
  "delimitedColumn L content delimiter column0 =
     (let column = trim_space column0 in
      if column = [] then Inl (EText ''verify delimited column is invalid'')
      else (case atoi column of
              Some number \<Rightarrow>
                if number < 1 then Inl (EText ''verify delimited column is invalid'')
                else Inr (delimitedColumnByIndex content delimiter (nat number))
            | None \<Rightarrow> delimitedColumnByHeader L content delimiter column))"

section \<open>JSON\<close>

definition go_type :: "gval \<Rightarrow> string" where
  "go_type v =
     (case v of GNil \<Rightarrow> ''<nil>'' | GBool _ \<Rightarrow> ''bool'' | GInt _ \<Rightarrow> ''int'' | GFloat _ \<Rightarrow> ''float64''
      | GNum _ \<Rightarrow> ''json.Number'' | GStr _ \<Rightarrow> ''string'' | GStrs _ \<Rightarrow> ''[]string''
      | GList _ \<Rightarrow> ''[]interface {}'' | GMap _ \<Rightarrow> ''map[string]interface {}'')"

text \<open>One step of a query.\<close>

definition walk_step :: "golib \<Rightarrow> string \<Rightarrow> string \<Rightarrow> gval \<Rightarrow> gval res" where
  "walk_step L query part current =
     (if part = [] then Inl (EText (''json query '' @ quote L query @ '' is invalid''))
      else (case current of
        GMap typed \<Rightarrow>
          (case map_of typed part of
             None \<Rightarrow> Inl (EText (''json query '' @ quote L query @ '' missing key '' @ quote L part))
           | Some next \<Rightarrow> Inr next)
      | GList typed \<Rightarrow>
          (case atoi part of
             None \<Rightarrow> Inl (EText (''json query '' @ quote L query @ '' invalid index '' @ quote L part))
           | Some index \<Rightarrow>
               if index < 0 \<or> int (length typed) \<le> index
               then Inl (EText (''json query '' @ quote L query @ '' invalid index '' @ quote L part))
               else Inr (typed ! nat index))
      | _ \<Rightarrow> Inl (EText (''json query '' @ quote L query @ '' cannot descend into '' @ go_type current))))"

fun walk_parts :: "golib \<Rightarrow> string \<Rightarrow> string list \<Rightarrow> gval \<Rightarrow> gval res" where
  "walk_parts L query [] current = Inr current"
| "walk_parts L query (p # ps) current =
     (case walk_step L query p current of
        Inl e \<Rightarrow> Inl e
      | Inr next \<Rightarrow> walk_parts L query ps next)"

definition query_path :: "string \<Rightarrow> string" where
  "query_path query = trim_prefix ''.'' (trim_prefix ''$'' (trim_space query))"

definition walkJSON :: "golib \<Rightarrow> gval \<Rightarrow> string \<Rightarrow> gval res" where
  "walkJSON L value query =
     (if query_path query = [] then Inr value
      else walk_parts L query (split_char CHR ''.'' (query_path query)) value)"

definition jsonScalarText :: "golib \<Rightarrow> gval \<Rightarrow> string res" where
  "jsonScalarText L v =
     (case v of
        GNil \<Rightarrow> Inr ''null''
      | GStr s \<Rightarrow> Inr s
      | GNum s \<Rightarrow> Inr s
      | GBool b \<Rightarrow> Inr (if b then ''true'' else ''false'')
      | _ \<Rightarrow> (case json_encode L v of
                Inl e \<Rightarrow> Inl (EWrap ''format json query result: '' e [])
              | Inr content \<Rightarrow> Inr content))"

definition queryJSON :: "golib \<Rightarrow> string \<Rightarrow> string \<Rightarrow> string res" where
  "queryJSON L content query =
     (case json_decode L content of
        Inl e \<Rightarrow> Inl (EWrap ''parse json source: '' e [])
      | Inr value \<Rightarrow>
          (case walkJSON L value query of
             Inl e \<Rightarrow> Inl e
           | Inr current \<Rightarrow> jsonScalarText L current))"

text \<open>\<^verbatim>\<open>reflect.DeepEqual\<close>: maps are compared by key, whatever their order.\<close>

function deep_equal :: "gval \<Rightarrow> gval \<Rightarrow> bool" where
  "deep_equal (GMap m) y =
     (case y of
        GMap n \<Rightarrow> length m = length n \<and>
          (\<forall>kv\<in>set m. case map_of n (fst kv) of None \<Rightarrow> False | Some w \<Rightarrow> deep_equal (snd kv) w)
      | _ \<Rightarrow> False)"
| "deep_equal (GList xs) y =
     (case y of
        GList ys \<Rightarrow> length xs = length ys \<and> (\<forall>p\<in>set (zip xs ys). deep_equal (fst p) (snd p))
      | _ \<Rightarrow> False)"
| "deep_equal GNil y = (y = GNil)"
| "deep_equal (GBool b) y = (y = GBool b)"
| "deep_equal (GInt i) y = (y = GInt i)"
| "deep_equal (GFloat s) y = (y = GFloat s)"
| "deep_equal (GNum s) y = (y = GNum s)"
| "deep_equal (GStr s) y = (y = GStr s)"
| "deep_equal (GStrs s) y = (y = GStrs s)"
  by pat_completeness auto

lemma size_map_entry: "(k, v) \<in> set m \<Longrightarrow> size v < size (GMap m)"
  by (induction m) auto

lemma size_list_entry: "x \<in> set xs \<Longrightarrow> size x < size (GList xs)"
  by (induction xs) auto

termination deep_equal
  by (relation "measure (size \<circ> fst)")
    (auto simp del: gval.size dest!: set_zip_leftD intro: size_map_entry size_list_entry)

section \<open>Base64 round trip\<close>

lemma less_64: "(n::nat) < 64 \<Longrightarrow> n \<in> set [0..<64]"
  by simp

lemma b64_char_table:
  "list_all (\<lambda>n. b64_value (b64_char n) = Some n \<and> byte_in 33 126 (b64_char n)) [0..<64]"
  by (simp add: upt_conv_Cons b64_char_def b64_value_def byte_in_def)

lemma b64_value_char [simp]: "n < 64 \<Longrightarrow> b64_value (b64_char n) = Some n"
  and b64_char_visible: "n < 64 \<Longrightarrow> byte_in 33 126 (b64_char n)"
  using b64_char_table unfolding list_all_iff by (blast dest: less_64)+

lemma b64_value_pad [simp]: "b64_value b64_pad = None" "\<not> newline_char b64_pad"
  by (simp_all add: b64_value_def b64_pad_def byte_in_def newline_char_def)

lemma sextets:
  fixes v :: nat
  shows "v div 262144 * 262144 + v div 4096 mod 64 * 4096 + v div 64 mod 64 * 64 + v mod 64 = v"
proof -
  have "v = v div 64 * 64 + v mod 64" by simp
  moreover have "v div 64 = v div 4096 * 64 + v div 64 mod 64"
    using div_mult_mod_eq [of "v div 64" 64] by (simp add: div_mult2_eq [symmetric])
  moreover have "v div 4096 = v div 262144 * 64 + v div 4096 mod 64"
    using div_mult_mod_eq [of "v div 4096" 64] by (simp add: div_mult2_eq [symmetric])
  ultimately show ?thesis by linarith
qed

lemma octets:
  assumes "(a::nat) < 256" "b < 256" "c < 256"
  shows "(a * 65536 + b * 256 + c) div 65536 mod 256 = a"
    and "(a * 65536 + b * 256 + c) div 256 mod 256 = b"
    and "(a * 65536 + b * 256 + c) mod 256 = c"
    and "(a * 65536 + b * 256 + c) div 262144 < 64"
proof -
  have "(a * 65536 + b * 256 + c) div 256 = a * 256 + b" using assms(3) by simp
  then show "(a * 65536 + b * 256 + c) div 256 mod 256 = b" using assms(2) by simp
  have "(a * 65536 + b * 256 + c) div 65536 = a" using assms by simp
  then show "(a * 65536 + b * 256 + c) div 65536 mod 256 = a" using assms(1) by simp
  have "a * 65536 + b * 256 + c = (a * 256 + b) * 256 + c" by simp
  then have "(a * 65536 + b * 256 + c) mod 256 = c mod 256" by (metis mod_mult_self3)
  then show "(a * 65536 + b * 256 + c) mod 256 = c" using assms(3) by simp
  show "(a * 65536 + b * 256 + c) div 262144 < 64" using assms by (simp add: div_less_iff_less_mult)
qed

lemma of_char_bound: "(of_char c :: nat) < 256"
  by (metis of_char_mod_256 mod_less_divisor zero_less_numeral)

lemma b64_bytes_full:
  "b64_bytes [v div 262144, v div 4096 mod 64, v div 64 mod 64, v mod 64]
   = [char_of (v div 65536 mod 256), char_of (v div 256 mod 256), char_of (v mod 256)]"
  unfolding b64_bytes_def Let_def using sextets [of v] by simp

lemma b64_bytes_partial:
  assumes "v mod 64 = 0"
  shows "b64_bytes [v div 262144, v div 4096 mod 64, v div 64 mod 64]
     = [char_of (v div 65536 mod 256), char_of (v div 256 mod 256)]"
    and "v div 64 mod 64 = 0 \<Longrightarrow> b64_bytes [v div 262144, v div 4096 mod 64] = [char_of (v div 65536 mod 256)]"
  unfolding b64_bytes_def Let_def using sextets [of v] assms by simp_all

lemma b64_loop_encode: "b64_loop si [] (b64_encode s) = Inr s"
proof (induction s arbitrary: si rule: b64_encode.induct)
  case 1
  then show ?case by simp
next
  case (2 a)
  let ?v = "of_char a * 65536 + 0 * 256 + 0 :: nat"
  have b: "?v div 262144 < 64" by (rule octets) (use of_char_bound [of a] in simp_all)
  have z: "?v mod 64 = 0" "?v div 64 mod 64 = 0" by simp_all
  have o: "?v div 65536 mod 256 = of_char a" by (rule octets) (use of_char_bound [of a] in simp_all)
  show ?case
    using b64_bytes_partial(2) [OF z] b o
    by (simp add: Let_def b64_padding_def b64_finish_def)
next
  case (3 a b)
  let ?v = "of_char a * 65536 + of_char b * 256 + 0 :: nat"
  have v: "?v div 262144 < 64" by (rule octets) (use of_char_bound [of a] of_char_bound [of b] in simp_all)
  have z: "?v mod 64 = 0" by presburger
  have o: "?v div 65536 mod 256 = of_char a" "?v div 256 mod 256 = of_char b"
    by (rule octets; use of_char_bound [of a] of_char_bound [of b] in simp)+
  show ?case
    using b64_bytes_partial(1) [OF z] v o
    by (simp add: Let_def b64_padding_def b64_finish_def)
next
  case (4 a b c s)
  let ?v = "of_char a * 65536 + of_char b * 256 + of_char c :: nat"
  note bounds = of_char_bound [of a] of_char_bound [of b] of_char_bound [of c]
  have "?v div 262144 < 64" by (rule octets [OF bounds])
  then show ?case
    using b64_bytes_full [of ?v] octets [OF bounds] 4
    by (simp add: Let_def)
qed

lemma b64_encode_visible: "list_all (byte_in 33 126) (b64_encode s)"
proof -
  have pad: "byte_in 33 126 b64_pad" by (simp add: b64_pad_def byte_in_def)
  show ?thesis
  proof (induction s rule: b64_encode.induct)
    case (2 a)
    have "of_char a * 65536 div 262144 < (64::nat)" using octets(4) [OF of_char_bound [of a], of 0 0] by simp
    with pad show ?case by (simp add: Let_def b64_char_visible)
  next
    case (3 a b)
    have "(of_char a * 65536 + of_char b * 256) div 262144 < (64::nat)"
      using octets(4) [OF of_char_bound [of a] of_char_bound [of b], of 0] by simp
    with pad show ?case by (simp add: Let_def b64_char_visible)
  next
    case (4 a b c s)
    then show ?case
      using octets(4) [OF of_char_bound [of a] of_char_bound [of b] of_char_bound [of c]]
      by (simp add: Let_def b64_char_visible)
  qed simp
qed

text \<open>
  The base64 transforms of the predicate \<^verbatim>\<open>bytes_equal_transform\<close> are inverse: decoding what
  encoding produced gives the bytes back, for any bytes.
\<close>

theorem transform_roundtrip:
  "\<exists>encoded. transformBytes L s ''base64_encode'' = Inr encoded
    \<and> transformBytes L encoded ''base64_decode'' = Inr s"
proof -
  have "to_lower L ''base64_encode'' = ''base64_encode''" "to_lower L ''base64_decode'' = ''base64_decode''"
    by (simp_all add: to_lower_def is_ascii_def byte_in_def lower_char_def)
  then show ?thesis
    by (simp add: transformBytes_def b64_decode_def trim_space_visible [OF b64_encode_visible] b64_loop_encode)
qed

end
