(* ===== verification/Cal_Check.thy ===== *)
theory Cal_Check
  imports Cal_CheckText Cal_Model
begin

text \<open>
  \<^verbatim>\<open>internal/check\<close>: the deterministic checker of verification specs. A predicate reads files; the
  file system it sees is a \<open>fsview\<close>. The checker is the map of its registered predicates;
  \<open>Validate\<close> decides whether a spec is well formed, \<open>Run\<close> evaluates it, \<open>Rules\<close> is the
  contract that prompts are built from.
\<close>

record fsview =
  fv_read :: "string \<Rightarrow> string res" \<comment> \<open>\<^verbatim>\<open>os.ReadFile\<close>\<close>
  fv_size :: "string \<Rightarrow> nat res" \<comment> \<open>\<^verbatim>\<open>os.Stat\<close> and \<^verbatim>\<open>Size\<close>\<close>

section \<open>Subjects and parameters\<close>

record check_subject =
  sj_value :: gval
  sj_path :: string
  sj_label :: string
  sj_inputs :: ginputs
  sj_outputs :: ginputs

record check_request =
  cq_spec :: "verify_spec option"
  cq_inputs :: ginputs
  cq_stdout :: string
  cq_stderr :: string
  cq_exit_code :: int

record check_result =
  cr_evidence :: "evidence_ref list"
  cr_outputs :: ginputs

definition stringParam :: "ginputs \<Rightarrow> string \<Rightarrow> string" where
  "stringParam params key =
     (case map_of params key of
        None \<Rightarrow> []
      | Some v \<Rightarrow> if v = GNil then [] else trim_space (sprint v))"

definition pathParam :: "ginputs \<Rightarrow> string \<Rightarrow> ginputs \<Rightarrow> string" where
  "pathParam params key inputs =
     (let value = stringParam params key in
      case str_at inputs value of
        Some inputPath \<Rightarrow> if blank inputPath then value else trim_space inputPath
      | None \<Rightarrow> value)"

definition valueParam :: "ginputs \<Rightarrow> string \<Rightarrow> ginputs \<Rightarrow> string" where
  "valueParam params key inputs =
     (let value = stringParam params key in
      case map_of inputs value of
        Some inputValue \<Rightarrow> if blank (sprint inputValue) then value else trim_space (sprint inputValue)
      | None \<Rightarrow> value)"

definition stringListParam :: "ginputs \<Rightarrow> string \<Rightarrow> string list" where
  "stringListParam params key =
     (case map_of params key of
        Some (GStrs typed) \<Rightarrow> filter (\<lambda>s. s \<noteq> []) (map trim_space typed)
      | Some (GList typed) \<Rightarrow> filter (\<lambda>s. s \<noteq> []) (map (\<lambda>v. trim_space (sprint v)) typed)
      | _ \<Rightarrow> [])"

fun paramValueAllowed :: "golib \<Rightarrow> string \<Rightarrow> string list \<Rightarrow> bool" where
  "paramValueAllowed L value [] = False"
| "paramValueAllowed L value (allowed # rest) =
     (if equal_fold L (trim_space value) (trim_space allowed) then True else paramValueAllowed L value rest)"

record param_rule =
  pl_name :: string
  pl_required :: bool
  pl_allowed :: "string list"

definition validateParam :: "golib \<Rightarrow> verify_check \<Rightarrow> param_rule \<Rightarrow> gerr option" where
  "validateParam L chk rule =
     (let missing = Some (EText (''verify predicate '' @ vc_predicate chk @ '' requires params.'' @ pl_name rule));
          first = (if \<not> pl_required rule then None
                   else if pl_name rule = ''values''
                   then (if stringListParam (vc_params chk) (pl_name rule) = [] then missing else None)
                   else (if map_of (vc_params chk) (pl_name rule) = None then missing else None));
          value = stringParam (vc_params chk) (pl_name rule)
      in if first \<noteq> None then first
         else if pl_allowed rule \<noteq> [] \<and> (value = [] \<or> \<not> paramValueAllowed L value (pl_allowed rule))
         then Some (EText (''verify predicate '' @ vc_predicate chk @ '' params.'' @ pl_name rule @ '' ''
                @ quote L value @ '' is not supported''))
         else None)"

definition validateParams :: "golib \<Rightarrow> verify_check \<Rightarrow> param_rule list \<Rightarrow> gerr option" where
  "validateParams L chk rules = first_err (validateParam L chk) rules"

definition scalarSubject :: "string \<Rightarrow> gval \<Rightarrow> ginputs \<Rightarrow> check_subject" where
  "scalarSubject label value inputs =
     \<lparr>sj_value = value, sj_path = [], sj_label = label, sj_inputs = inputs, sj_outputs = [(label, value)]\<rparr>"

definition pathSubject :: "golib \<Rightarrow> string \<Rightarrow> ginputs \<Rightarrow> check_subject res" where
  "pathSubject L input inputs =
     (let required = EText (''verify subject '' @ quote L input @ '' path input is required'') in
      case str_at inputs input of
        None \<Rightarrow> Inl required
      | Some p \<Rightarrow>
          if blank p then Inl required
          else (let path = trim_space p in
                Inr \<lparr>sj_value = GStr path, sj_path = path, sj_label = input, sj_inputs = inputs,
                     sj_outputs = [(input, GStr path)]\<rparr>))"

definition resolveSubject :: "golib \<Rightarrow> verify_subject \<Rightarrow> check_request \<Rightarrow> check_subject res" where
  "resolveSubject L subject req =
     (if vs_type subject = ''file'' then pathSubject L (vs_input subject) (cq_inputs req)
      else if vs_type subject = ''stdout'' then Inr (scalarSubject ''stdout'' (GStr (cq_stdout req)) (cq_inputs req))
      else if vs_type subject = ''stderr'' then Inr (scalarSubject ''stderr'' (GStr (cq_stderr req)) (cq_inputs req))
      else if vs_type subject = ''exit_code'' then Inr (scalarSubject ''exit_code'' (GInt (cq_exit_code req)) (cq_inputs req))
      else Inl (EText (''verify subject type '' @ quote L (vs_type subject) @ '' is not supported'')))"

definition subjectText :: "fsview \<Rightarrow> check_subject \<Rightarrow> string res" where
  "subjectText V subject =
     (if sj_path subject = [] then Inr (sprint (sj_value subject))
      else (case fv_read V (sj_path subject) of
              Inl e \<Rightarrow> Inl (EWrap ''verify subject read: '' e [])
            | Inr content \<Rightarrow> Inr content))"

section \<open>The predicates on text\<close>

text \<open>A predicate returns the error of the check, \<open>None\<close> when it holds.\<close>

type_synonym predicate_run = "golib \<Rightarrow> fsview \<Rightarrow> verify_check \<Rightarrow> check_subject \<Rightarrow> gerr option"

abbreviation verdict :: "bool \<Rightarrow> string \<Rightarrow> gerr option" where
  "verdict holds message \<equiv> (if holds then None else Some (EText message))"

definition param_or_nil :: "ginputs \<Rightarrow> string \<Rightarrow> gval" where
  "param_or_nil params key = (case map_of params key of None \<Rightarrow> GNil | Some v \<Rightarrow> v)"

definition checkEquals :: predicate_run where
  "checkEquals L V chk subject =
     (let want = sprint (param_or_nil (vc_params chk) ''value''); got = sprint (sj_value subject) in
      verdict (got = want) (''verify '' @ sj_label subject @ '' equals failed: got '' @ quote L got
        @ '' want '' @ quote L want))"

definition checkNotEquals :: predicate_run where
  "checkNotEquals L V chk subject =
     (let want = sprint (param_or_nil (vc_params chk) ''value''); got = sprint (sj_value subject) in
      verdict (got \<noteq> want) (''verify '' @ sj_label subject @ '' not_equals failed: got '' @ quote L got))"

definition checkContains :: predicate_run where
  "checkContains L V chk subject =
     (case subjectText V subject of
        Inl e \<Rightarrow> Some e
      | Inr text \<Rightarrow> verdict (contains (stringParam (vc_params chk) ''value'') text)
          (''verify '' @ sj_label subject @ '' contains failed''))"

definition checkContainsAny :: predicate_run where
  "checkContainsAny L V chk subject =
     (case subjectText V subject of
        Inl e \<Rightarrow> Some e
      | Inr text \<Rightarrow> verdict (list_ex (\<lambda>v. contains v text) (stringListParam (vc_params chk) ''values''))
          (''verify '' @ sj_label subject @ '' contains_any failed''))"

definition checkRegex :: predicate_run where
  "checkRegex L V chk subject =
     (let pattern = stringParam (vc_params chk) ''pattern'' in
      case subjectText V subject of
        Inl e \<Rightarrow> Some e
      | Inr text \<Rightarrow>
          (case re_compile L pattern of
             Some e \<Rightarrow> Some (EWrap ''verify regex pattern: '' e [])
           | None \<Rightarrow> verdict (re_match L pattern text) (''verify '' @ sj_label subject @ '' regex failed'')))"

definition readSource :: "fsview \<Rightarrow> verify_check \<Rightarrow> check_subject \<Rightarrow> string res" where
  "readSource V chk subject =
     (case fv_read V (pathParam (vc_params chk) ''source'' (sj_inputs subject)) of
        Inl e \<Rightarrow> Inl (EWrap ''read source: '' e [])
      | Inr content \<Rightarrow> Inr content)"

definition checkTextTransformMatches :: predicate_run where
  "checkTextTransformMatches L V chk subject =
     (case readSource V chk subject of
        Inl e \<Rightarrow> Some e
      | Inr source \<Rightarrow>
          (case transformText L source (stringParam (vc_params chk) ''transform'') of
             Inl e \<Rightarrow> Some e
           | Inr want \<Rightarrow>
               (case subjectText V subject of
                  Inl e \<Rightarrow> Some e
                | Inr got \<Rightarrow> verdict (got = want) ''verify text_transform_matches failed'')))"

definition checkLineCountMatches :: predicate_run where
  "checkLineCountMatches L V chk subject =
     (case readSource V chk subject of
        Inl e \<Rightarrow> Some e
      | Inr source \<Rightarrow>
          (let want = int (count_list source (CHR 0x0A)) in
           case subjectText V subject of
             Inl e \<Rightarrow> Some e
           | Inr gotText \<Rightarrow>
               (case firstInt L gotText of
                  Inl e \<Rightarrow> Some e
                | Inr got \<Rightarrow> verdict (got = want)
                    (''verify line_count_matches failed: got '' @ itoa got @ '' want '' @ itoa want))))"

definition checkTextFilterMatches :: predicate_run where
  "checkTextFilterMatches L V chk subject =
     (case readSource V chk subject of
        Inl e \<Rightarrow> Some e
      | Inr source \<Rightarrow>
          (let want = filterLines source (valueParam (vc_params chk) ''pattern'' (sj_inputs subject)) in
           case subjectText V subject of
             Inl e \<Rightarrow> Some e
           | Inr got \<Rightarrow> verdict (sameLines got want) ''verify text_filter_matches failed''))"

definition checkDelimitedColumnMatches :: predicate_run where
  "checkDelimitedColumnMatches L V chk subject =
     (case readSource V chk subject of
        Inl e \<Rightarrow> Some e
      | Inr source \<Rightarrow>
          (case delimitedColumn L source (valueParam (vc_params chk) ''delimiter'' (sj_inputs subject))
                  (valueParam (vc_params chk) ''column'' (sj_inputs subject)) of
             Inl e \<Rightarrow> Some e
           | Inr want \<Rightarrow>
               (case subjectText V subject of
                  Inl e \<Rightarrow> Some e
                | Inr got \<Rightarrow> verdict (sameLines got want) ''verify delimited_column_matches failed'')))"

section \<open>The predicates on files, bytes and digests\<close>

definition checkExists :: predicate_run where
  "checkExists L V chk subject =
     (case fv_size V (sj_path subject) of
        Inl e \<Rightarrow> Some (EWrap (''verify '' @ sj_label subject @ '' exists failed: '') e [])
      | Inr _ \<Rightarrow> None)"

definition checkNonEmpty :: predicate_run where
  "checkNonEmpty L V chk subject =
     (if sj_path subject \<noteq> [] then
        (case fv_size V (sj_path subject) of
           Inl e \<Rightarrow> Some (EWrap (''verify '' @ sj_label subject @ '' non_empty failed: '') e [])
         | Inr bytes \<Rightarrow> verdict (bytes \<noteq> 0) (''verify '' @ sj_label subject @ '' non_empty failed: empty artifact''))
      else verdict (\<not> blank (sprint (sj_value subject))) (''verify '' @ sj_label subject @ '' non_empty failed''))"

definition png_magic :: string where
  "png_magic = [CHR 0x89, CHR ''P'', CHR ''N'', CHR ''G'', CHR 0x0D, CHR 0x0A, CHR 0x1A, CHR 0x0A]"

definition checkFormat :: predicate_run where
  "checkFormat L V chk subject =
     (let format = stringParam (vc_params chk) ''format'' in
      case fv_read V (sj_path subject) of
        Inl e \<Rightarrow> Some (EWrap ''verify format read: '' e [])
      | Inr content \<Rightarrow>
          if to_lower L format = ''pdf'' then verdict (has_prefix ''%PDF'' content) ''verify format pdf failed''
          else if to_lower L format = ''png'' then verdict (has_prefix png_magic content) ''verify format png failed''
          else if to_lower L format = ''json''
          then (case json_valid L content of
                  Some e \<Rightarrow> Some (EWrap ''verify format json failed: '' e [])
                | None \<Rightarrow> None)
          else if to_lower L format = ''text'' then verdict (utf8_valid content) ''verify format text failed''
          else Some (EText (''verify format '' @ quote L format @ '' is not supported'')))"

definition checkBytesEqualTransform :: predicate_run where
  "checkBytesEqualTransform L V chk subject =
     (case readSource V chk subject of
        Inl e \<Rightarrow> Some e
      | Inr sourceBytes \<Rightarrow>
          (case fv_read V (sj_path subject) of
             Inl e \<Rightarrow> Some (EWrap ''read target: '' e [])
           | Inr targetBytes \<Rightarrow>
               (case transformBytes L sourceBytes (stringParam (vc_params chk) ''transform'') of
                  Inl e \<Rightarrow> Some e
                | Inr expected \<Rightarrow> verdict (trim_space targetBytes = trim_space expected)
                    ''verify bytes_equal_transform failed'')))"

definition checkHashLineMatches :: predicate_run where
  "checkHashLineMatches L V chk subject =
     (case readSource V chk subject of
        Inl e \<Rightarrow> Some e
      | Inr sourceBytes \<Rightarrow>
          (case hashBytes L sourceBytes (stringParam (vc_params chk) ''algorithm'') of
             Inl e \<Rightarrow> Some e
           | Inr want \<Rightarrow>
               (case subjectText V subject of
                  Inl e \<Rightarrow> Some e
                | Inr text \<Rightarrow> verdict (contains want (to_lower L text)) ''verify hash_line_matches failed'')))"

section \<open>The predicates on archives and JSON\<close>

text \<open>The loops over the entries of an archive; each entry is a directory flag and its content.\<close>

fun zip_loop :: "string \<Rightarrow> (bool \<times> string res) list \<Rightarrow> gerr option" where
  "zip_loop sourceBytes [] = Some (EText ''verify archive_contains_input failed'')"
| "zip_loop sourceBytes ((isdir, body) # files) =
     (if isdir then zip_loop sourceBytes files
      else (case body of
              Inl e \<Rightarrow> Some (EWrap ''read zip entry: '' e [])
            | Inr content \<Rightarrow> if content = sourceBytes then None else zip_loop sourceBytes files))"

fun tar_loop :: "string \<Rightarrow> (gerr + (bool \<times> string res)) list \<Rightarrow> gerr option" where
  "tar_loop sourceBytes [] = Some (EText ''verify archive_contains_input failed'')"
| "tar_loop sourceBytes (next # entries) =
     (case next of
        Inl e \<Rightarrow> Some (EWrap ''read tar entry: '' e [])
      | Inr (isdir, body) \<Rightarrow>
          if isdir then tar_loop sourceBytes entries
          else (case body of
                  Inl e \<Rightarrow> Some (EWrap ''read tar entry: '' e [])
                | Inr content \<Rightarrow> if content = sourceBytes then None else tar_loop sourceBytes entries))"

definition checkTarContainsInput :: "golib \<Rightarrow> fsview \<Rightarrow> string \<Rightarrow> string \<Rightarrow> gerr option" where
  "checkTarContainsInput L V path sourceBytes =
     (case fv_read V path of
        Inl e \<Rightarrow> Some (EWrap ''verify archive_contains_input open tar: '' e [])
      | Inr bytes \<Rightarrow> tar_loop sourceBytes (tar_entries L bytes))"

definition open_zip :: "golib \<Rightarrow> fsview \<Rightarrow> string \<Rightarrow> (bool \<times> string res) list res" where
  "open_zip L V path = (case fv_read V path of Inl e \<Rightarrow> Inl e | Inr bytes \<Rightarrow> zip_entries L bytes)"

definition checkArchiveContainsInput :: predicate_run where
  "checkArchiveContainsInput L V chk subject =
     (let format = to_lower L (stringParam (vc_params chk) ''format'') in
      if format \<noteq> ''zip'' \<and> format \<noteq> ''tar''
      then Some (EText (''verify archive format '' @ quote L format @ '' is not supported''))
      else (case readSource V chk subject of
              Inl e \<Rightarrow> Some e
            | Inr sourceBytes \<Rightarrow>
                if format = ''tar'' then checkTarContainsInput L V (sj_path subject) sourceBytes
                else (case open_zip L V (sj_path subject) of
                        Inl e \<Rightarrow> Some (EWrap ''verify archive_contains_input open zip: '' e [])
                      | Inr files \<Rightarrow> zip_loop sourceBytes files)))"

definition checkJSONQueryMatches :: predicate_run where
  "checkJSONQueryMatches L V chk subject =
     (case readSource V chk subject of
        Inl e \<Rightarrow> Some e
      | Inr sourceBytes \<Rightarrow>
          (case queryJSON L sourceBytes (valueParam (vc_params chk) ''query'' (sj_inputs subject)) of
             Inl e \<Rightarrow> Some e
           | Inr want \<Rightarrow>
               (case subjectText V subject of
                  Inl e \<Rightarrow> Some e
                | Inr text \<Rightarrow> verdict (trim_space text = trim_space want) ''verify json_query_matches failed'')))"

definition checkJSONEquivalent :: predicate_run where
  "checkJSONEquivalent L V chk subject =
     (case readSource V chk subject of
        Inl e \<Rightarrow> Some e
      | Inr sourceBytes \<Rightarrow>
          (case subjectText V subject of
             Inl e \<Rightarrow> Some e
           | Inr text \<Rightarrow>
               (case json_decode L sourceBytes of
                  Inl e \<Rightarrow> Some (EWrap ''parse json source: '' e [])
                | Inr sourceValue \<Rightarrow>
                    (case json_decode L text of
                       Inl e \<Rightarrow> Some (EWrap ''parse json target: '' e [])
                     | Inr targetValue \<Rightarrow>
                         verdict (deep_equal sourceValue targetValue) ''verify json_equivalent failed''))))"

definition jsonFieldText :: "golib \<Rightarrow> fsview \<Rightarrow> verify_check \<Rightarrow> check_subject \<Rightarrow> string res" where
  "jsonFieldText L V chk subject =
     (case subjectText V subject of
        Inl e \<Rightarrow> Inl e
      | Inr text \<Rightarrow>
          (case json_decode L text of
             Inl e \<Rightarrow> Inl (EWrap ''parse json target: '' e [])
           | Inr value \<Rightarrow>
               (case walkJSON L value (valueParam (vc_params chk) ''query'' (sj_inputs subject)) of
                  Inl e \<Rightarrow> Inl e
                | Inr current \<Rightarrow> jsonScalarText L current)))"

definition sourcePropertyValue :: "golib \<Rightarrow> fsview \<Rightarrow> verify_check \<Rightarrow> check_subject \<Rightarrow> string res" where
  "sourcePropertyValue L V chk subject =
     (case readSource V chk subject of
        Inl e \<Rightarrow> Inl e
      | Inr content \<Rightarrow>
          (let property = stringParam (vc_params chk) ''property'' in
           if to_lower L property = ''basename''
           then Inr (path_base (pathParam (vc_params chk) ''source'' (sj_inputs subject)))
           else if to_lower L property = ''bytes'' then Inr (itoa (int (length content)))
           else if to_lower L property = ''sha256'' then Inr (sha256_hex L content)
           else Inl (EText (''source property '' @ quote L property @ '' is not supported''))))"

definition checkJSONFieldEquals :: predicate_run where
  "checkJSONFieldEquals L V chk subject =
     (case jsonFieldText L V chk subject of
        Inl e \<Rightarrow> Some e
      | Inr got \<Rightarrow> verdict (trim_space got = trim_space (valueParam (vc_params chk) ''value'' (sj_inputs subject)))
          ''verify json_field_equals failed'')"

definition checkJSONFieldMatchesSource :: predicate_run where
  "checkJSONFieldMatchesSource L V chk subject =
     (case jsonFieldText L V chk subject of
        Inl e \<Rightarrow> Some e
      | Inr got \<Rightarrow>
          (case sourcePropertyValue L V chk subject of
             Inl e \<Rightarrow> Some e
           | Inr want \<Rightarrow> verdict (trim_space got = want) ''verify json_field_matches_source failed''))"

section \<open>The registry\<close>

record predicate =
  pr_name :: string
  pr_subjects :: "string list"
  pr_params :: "param_rule list"
  pr_run :: predicate_run

type_synonym checker = "(string, predicate) gomap"

definition register :: "predicate \<Rightarrow> checker \<Rightarrow> checker" where
  "register p c = put (pr_name p) p c"

abbreviation textSubjects :: "string list" where
  "textSubjects \<equiv> [''file'', ''stdout'', ''stderr'']"

abbreviation scalarSubjects :: "string list" where
  "scalarSubjects \<equiv> [''stdout'', ''stderr'', ''exit_code'']"

abbreviation needs :: "string \<Rightarrow> param_rule" where
  "needs name \<equiv> \<lparr>pl_name = name, pl_required = True, pl_allowed = []\<rparr>"

abbreviation needs_one_of :: "string \<Rightarrow> string list \<Rightarrow> param_rule" where
  "needs_one_of name vals \<equiv> \<lparr>pl_name = name, pl_required = True, pl_allowed = vals\<rparr>"

abbreviation pred :: "string \<Rightarrow> string list \<Rightarrow> param_rule list \<Rightarrow> predicate_run \<Rightarrow> predicate" where
  "pred name subjects params run \<equiv>
     \<lparr>pr_name = name, pr_subjects = subjects, pr_params = params, pr_run = run\<rparr>"

definition hashNames :: "string list" where
  "hashNames = [''sha1'', ''sha256'', ''sha-1'', ''sha-256'', ''sha_1'', ''sha_256'', ''sha 1'', ''sha 256'']"

definition registerTextPredicates :: "checker \<Rightarrow> checker" where
  "registerTextPredicates c = fold register
     [pred ''equals'' scalarSubjects [needs ''value''] checkEquals,
      pred ''not_equals'' scalarSubjects [needs ''value''] checkNotEquals,
      pred ''contains'' textSubjects [needs ''value''] checkContains,
      pred ''contains_any'' textSubjects [needs ''values''] checkContainsAny,
      pred ''regex'' textSubjects [needs ''pattern''] checkRegex,
      pred ''text_transform_matches'' [''file'']
        [needs ''source'', needs_one_of ''transform'' [''uppercase'', ''lowercase'']] checkTextTransformMatches,
      pred ''line_count_matches'' textSubjects [needs ''source''] checkLineCountMatches,
      pred ''text_filter_matches'' textSubjects [needs ''source'', needs ''pattern''] checkTextFilterMatches,
      pred ''delimited_column_matches'' textSubjects [needs ''source'', needs ''delimiter'', needs ''column'']
        checkDelimitedColumnMatches] c"

definition registerFilePredicates :: "checker \<Rightarrow> checker" where
  "registerFilePredicates c = fold register
     [pred ''exists'' [''file''] [] checkExists,
      pred ''non_empty'' textSubjects [] checkNonEmpty,
      pred ''format'' [''file''] [needs_one_of ''format'' [''pdf'', ''png'', ''json'', ''text'']] checkFormat] c"

definition registerBytesPredicates :: "checker \<Rightarrow> checker" where
  "registerBytesPredicates c = fold register
     [pred ''bytes_equal_transform'' [''file'']
        [needs ''source'', needs_one_of ''transform'' [''base64_encode'', ''base64_decode'']] checkBytesEqualTransform] c"

definition registerHashPredicates :: "checker \<Rightarrow> checker" where
  "registerHashPredicates c = fold register
     [pred ''hash_line_matches'' textSubjects [needs ''source'', needs_one_of ''algorithm'' hashNames]
        checkHashLineMatches] c"

definition registerArchivePredicates :: "checker \<Rightarrow> checker" where
  "registerArchivePredicates c = fold register
     [pred ''archive_contains_input'' [''file''] [needs ''source'', needs_one_of ''format'' [''zip'', ''tar'']]
        checkArchiveContainsInput] c"

definition registerJSONPredicates :: "checker \<Rightarrow> checker" where
  "registerJSONPredicates c = fold register
     [pred ''json_query_matches'' textSubjects [needs ''source'', needs ''query''] checkJSONQueryMatches,
      pred ''json_equivalent'' textSubjects [needs ''source''] checkJSONEquivalent,
      pred ''json_field_equals'' textSubjects [needs ''query'', needs ''value''] checkJSONFieldEquals,
      pred ''json_field_matches_source'' textSubjects
        [needs ''query'', needs ''source'', needs_one_of ''property'' [''basename'', ''bytes'', ''sha256'']]
        checkJSONFieldMatchesSource] c"

definition NewChecker :: checker where
  "NewChecker =
     registerJSONPredicates (registerArchivePredicates (registerHashPredicates
       (registerBytesPredicates (registerFilePredicates (registerTextPredicates [])))))"

definition allowsSubject :: "predicate \<Rightarrow> string \<Rightarrow> bool" where
  "allowsSubject p subject = (subject \<in> set (pr_subjects p))"

definition subjectOrder :: "string list" where
  "subjectOrder = [''file'', ''stdout'', ''stderr'', ''exit_code'']"

definition predicateOrder :: "string list" where
  "predicateOrder =
     [''equals'', ''not_equals'', ''exists'', ''non_empty'', ''format'', ''contains'', ''contains_any'', ''regex'',
      ''bytes_equal_transform'', ''hash_line_matches'', ''archive_contains_input'', ''json_query_matches'',
      ''json_equivalent'', ''json_field_equals'', ''json_field_matches_source'', ''text_transform_matches'',
      ''line_count_matches'', ''text_filter_matches'', ''delimited_column_matches'']"

text \<open>The two results of the source: known subject types, and whether they require an input.\<close>

definition subjectRequiresInput :: "string \<Rightarrow> bool option" where
  "subjectRequiresInput subject =
     (if subject = ''file'' then Some True
      else if subject = ''stdout'' \<or> subject = ''stderr'' \<or> subject = ''exit_code'' then Some False
      else None)"

section \<open>The checker\<close>

definition validVerifyLevel :: "string \<Rightarrow> bool" where
  "validVerifyLevel level = (level = L0 \<or> level = L1 \<or> level = L2 \<or> level = L3)"

definition validVerifyMethod :: "string \<Rightarrow> bool" where
  "validVerifyMethod m = (m = method_execute \<or> m = method_contract)"

definition validateCheck :: "golib \<Rightarrow> checker \<Rightarrow> verify_check \<Rightarrow> gerr option" where
  "validateCheck L c chk =
     (let subject = vs_type (vc_subject chk); input = vs_input (vc_subject chk) in
      case subjectRequiresInput subject of
        None \<Rightarrow> Some (EText (''verify subject type '' @ quote L subject @ '' is invalid''))
      | Some requiresInput \<Rightarrow>
          if requiresInput \<and> blank input
          then Some (EText (''verify subject '' @ subject @ '' requires input''))
          else if \<not> requiresInput \<and> \<not> blank input
          then Some (EText (''verify subject '' @ subject @ '' cannot include input''))
          else (case map_of c (vc_predicate chk) of
                  None \<Rightarrow> Some (EText (''verify predicate '' @ quote L (vc_predicate chk) @ '' is not supported''))
                | Some p \<Rightarrow>
                    if \<not> allowsSubject p subject
                    then Some (EText (''verify predicate '' @ vc_predicate chk @ '' is invalid for subject '' @ subject))
                    else (case validateParams L chk (pr_params p) of
                            Some e \<Rightarrow> Some e
                          | None \<Rightarrow>
                              if vc_predicate chk = ''regex''
                              then (case re_compile L (stringParam (vc_params chk) ''pattern'') of
                                      Some e \<Rightarrow> Some (EWrap ''verify regex pattern is invalid: '' e [])
                                    | None \<Rightarrow> None)
                              else None)))"

definition validate_spec :: "golib \<Rightarrow> checker \<Rightarrow> verify_spec option \<Rightarrow> gerr option" where
  "validate_spec L c spec =
     (case spec of
        None \<Rightarrow> Some (EText ''verify spec is required'')
      | Some spec \<Rightarrow>
          if \<not> validVerifyLevel (vf_level spec)
          then Some (EText (''verify level '' @ quote L (vf_level spec) @ '' is invalid''))
          else if \<not> validVerifyMethod (vf_method spec)
          then Some (EText (''verify method '' @ quote L (vf_method spec) @ '' is invalid''))
          else if vf_method spec = method_contract \<and> VerifyLevelRank (vf_level spec) > VerifyLevelRank L1
          then Some (EText ''contract verification cannot exceed L1'')
          else if vf_method spec = method_execute \<and> vf_level spec \<noteq> L0 \<and> vf_checks spec = []
          then Some (EText ''verify checks are required for execute method'')
          else if vf_method spec \<noteq> method_execute then None
          else first_err (validateCheck L c) (vf_checks spec))"

definition runPredicate :: "golib \<Rightarrow> fsview \<Rightarrow> checker \<Rightarrow> verify_check \<Rightarrow> check_subject \<Rightarrow> gerr option" where
  "runPredicate L V c chk subject =
     (case map_of c (vc_predicate chk) of
        None \<Rightarrow> Some (EText (''verify predicate '' @ quote L (vc_predicate chk) @ '' is not supported''))
      | Some p \<Rightarrow> pr_run p L V chk subject)"

definition subject_val :: "verify_subject \<Rightarrow> gval" where
  "subject_val s =
     GMap ((''type'', GStr (vs_type s)) # (if vs_input s = [] then [] else [(''input'', GStr (vs_input s))]))"

definition runCheck ::
    "golib \<Rightarrow> fsview \<Rightarrow> checker \<Rightarrow> verify_check \<Rightarrow> check_request \<Rightarrow> nat \<Rightarrow> (evidence_ref \<times> ginputs) res" where
  "runCheck L V c chk req index =
     (case resolveSubject L (vc_subject chk) req of
        Inl e \<Rightarrow> Inl e
      | Inr subject \<Rightarrow>
          (case runPredicate L V c chk subject of
             Some e \<Rightarrow> Inl e
           | None \<Rightarrow> Inr
               (\<lparr>ev_id = ''check_'' @ nat_text (index + 1) @ ''_'' @ sj_label subject @ ''_'' @ vc_predicate chk,
                  ev_type = vc_predicate chk,
                  ev_content = [(''subject'', subject_val (vc_subject chk)), (''predicate'', GStr (vc_predicate chk))],
                  ev_ref = []\<rparr>, sj_outputs subject)))"

text \<open>
  The loop over the checks. \<open>ctx n\<close> is what the \<open>n\<close>-th call of \<^verbatim>\<open>ctx.Err()\<close> returns: call 0
  is the one \<open>Run\<close> starts with.
\<close>

fun run_checks ::
    "golib \<Rightarrow> fsview \<Rightarrow> checker \<Rightarrow> (nat \<Rightarrow> gerr option) \<Rightarrow> check_request \<Rightarrow> nat \<Rightarrow> verify_check list
       \<Rightarrow> check_result \<Rightarrow> check_result res" where
  "run_checks L V c ctx req index [] result = Inr result"
| "run_checks L V c ctx req index (chk # chks) result =
     (case ctx (Suc index) of
        Some e \<Rightarrow> Inl e
      | None \<Rightarrow>
          (case runCheck L V c chk req index of
             Inl e \<Rightarrow> Inl e
           | Inr (item, outputs) \<Rightarrow>
               run_checks L V c ctx req (Suc index) chks
                 \<lparr>cr_evidence = cr_evidence result @ [item],
                  cr_outputs = foldl (\<lambda>m (k, v). put k v m) (cr_outputs result) outputs\<rparr>))"

definition run_spec ::
    "golib \<Rightarrow> fsview \<Rightarrow> checker \<Rightarrow> (nat \<Rightarrow> gerr option) \<Rightarrow> check_request option \<Rightarrow> check_result res" where
  "run_spec L V c ctx req =
     (case ctx 0 of
        Some e \<Rightarrow> Inl e
      | None \<Rightarrow>
          (case req of
             None \<Rightarrow> Inl (EText ''check request is required'')
           | Some req \<Rightarrow>
               (case validate_spec L c (cq_spec req) of
                  Some e \<Rightarrow> Inl e
                | None \<Rightarrow>
                    (case cq_spec req of
                       None \<Rightarrow> Inl (EText ''verify spec is required'')
                     | Some spec \<Rightarrow>
                         if vf_method spec \<noteq> method_execute
                         then Inl (EText (''verify method '' @ vf_method spec @ '' is not executable''))
                         else if vf_level spec = L0
                         then Inl (EText ''verify level L0 is not executable'')
                         else run_checks L V c ctx req 0 (vf_checks spec)
                                \<lparr>cr_evidence = [], cr_outputs = []\<rparr>))))"

text \<open>The package functions, on the default checker.\<close>

definition check_Validate :: "golib \<Rightarrow> verify_spec option \<Rightarrow> gerr option" where
  "check_Validate L spec = validate_spec L NewChecker spec"

definition check_Run ::
    "golib \<Rightarrow> fsview \<Rightarrow> (nat \<Rightarrow> gerr option) \<Rightarrow> check_request option \<Rightarrow> check_result res" where
  "check_Run L V ctx req = run_spec L V NewChecker ctx req"

section \<open>The contract for prompts\<close>

record verify_param_rule =
  vp_required :: bool
  vp_allowed :: "string list"

record subject_rule =
  vr_type :: string
  vr_requires_input :: bool
  vr_allowed :: "string list"
  vr_required :: "(string, string list) gomap"
  vr_params :: "(string, (string, verify_param_rule) gomap) gomap"

definition lookup_or :: "('k, 'v) gomap \<Rightarrow> 'k \<Rightarrow> 'v \<Rightarrow> 'v" where
  "lookup_or m k d = (case map_of m k of None \<Rightarrow> d | Some v \<Rightarrow> v)"

definition rule_add_param :: "string \<Rightarrow> param_rule \<Rightarrow> subject_rule \<Rightarrow> subject_rule" where
  "rule_add_param name pl r =
     (let r1 = (if pl_required pl
                then r\<lparr>vr_required := put name (lookup_or (vr_required r) name [] @ [pl_name pl]) (vr_required r)\<rparr>
                else r)
      in r1\<lparr>vr_params := put name (put (pl_name pl)
             \<lparr>vp_required = pl_required pl, vp_allowed = pl_allowed pl\<rparr> (lookup_or (vr_params r1) name [])) (vr_params r1)\<rparr>)"

definition rule_add_predicate :: "checker \<Rightarrow> string \<Rightarrow> string \<Rightarrow> subject_rule \<Rightarrow> subject_rule" where
  "rule_add_predicate c subject name r =
     (case map_of c name of
        None \<Rightarrow> r
      | Some p \<Rightarrow>
          if \<not> allowsSubject p subject then r
          else fold (rule_add_param name) (pr_params p) (r\<lparr>vr_allowed := vr_allowed r @ [name]\<rparr>))"

definition subject_rule_for :: "checker \<Rightarrow> string \<Rightarrow> subject_rule" where
  "subject_rule_for c subject =
     fold (rule_add_predicate c subject) predicateOrder
       \<lparr>vr_type = subject, vr_requires_input = (subject = ''file''), vr_allowed = [], vr_required = [], vr_params = []\<rparr>"

definition Rules :: "checker \<Rightarrow> subject_rule list" where
  "Rules c = map (subject_rule_for c) subjectOrder"

section \<open>What validation accepts\<close>

lemma checker_keys: "set (keys NewChecker) = set predicateOrder"
  by (simp add: NewChecker_def registerTextPredicates_def registerFilePredicates_def registerBytesPredicates_def
      registerHashPredicates_def registerArchivePredicates_def registerJSONPredicates_def register_def
      predicateOrder_def insert_commute)

lemma checker_params: "list_all (\<lambda>(n, p). distinct (map pl_name (pr_params p))) NewChecker"
  by (simp add: NewChecker_def registerTextPredicates_def registerFilePredicates_def registerBytesPredicates_def
      registerHashPredicates_def registerArchivePredicates_def registerJSONPredicates_def register_def)

lemma predicateOrder_distinct: "distinct predicateOrder"
  by (simp add: predicateOrder_def)

definition param_ok :: "golib \<Rightarrow> verify_check \<Rightarrow> string \<Rightarrow> verify_param_rule \<Rightarrow> bool" where
  "param_ok L chk name rule \<longleftrightarrow>
     (vp_required rule \<longrightarrow>
        (if name = ''values'' then stringListParam (vc_params chk) name \<noteq> [] else map_of (vc_params chk) name \<noteq> None)) \<and>
     (vp_allowed rule \<noteq> [] \<longrightarrow>
        stringParam (vc_params chk) name \<noteq> [] \<and> paramValueAllowed L (stringParam (vc_params chk) name) (vp_allowed rule))"

definition prompt_rule :: "param_rule \<Rightarrow> verify_param_rule" where
  "prompt_rule pl = \<lparr>vp_required = pl_required pl, vp_allowed = pl_allowed pl\<rparr>"

lemma validateParam_None: "validateParam L chk pl = None \<longleftrightarrow> param_ok L chk (pl_name pl) (prompt_rule pl)"
  by (auto simp: validateParam_def param_ok_def prompt_rule_def Let_def)

lemma fold_rule_add_param:
  shows "vr_type (fold (rule_add_param n) ps r) = vr_type r"
    and "vr_requires_input (fold (rule_add_param n) ps r) = vr_requires_input r"
    and "vr_allowed (fold (rule_add_param n) ps r) = vr_allowed r"
    and "k \<noteq> n \<Longrightarrow> map_of (vr_params (fold (rule_add_param n) ps r)) k = map_of (vr_params r) k"
    and "lookup_or (vr_params (fold (rule_add_param n) ps r)) n []
      = fold (\<lambda>pl. put (pl_name pl) (prompt_rule pl)) ps (lookup_or (vr_params r) n [])"
  by (induction ps arbitrary: r) (auto simp: rule_add_param_def Let_def lookup_or_def prompt_rule_def)

lemma fold_put_fresh:
  "distinct (map f ps) \<Longrightarrow> set (map f ps) \<inter> set (keys m) = {} \<Longrightarrow>
   fold (\<lambda>p. put (f p) (g p)) ps m = m @ map (\<lambda>p. (f p, g p)) ps"
proof (induction ps arbitrary: m)
  case (Cons p ps)
  have "put (f p) (g p) m = m @ [(f p, g p)]"
    using Cons.prems(2) by (induction m) auto
  with Cons show ?case by auto
qed simp

text \<open>What a check must satisfy at one subject and predicate of the registry.\<close>

lemma rule_add_predicate_other:
  shows "vr_type (rule_add_predicate c s n r) = vr_type r"
    and "vr_requires_input (rule_add_predicate c s n r) = vr_requires_input r"
    and "k \<noteq> n \<Longrightarrow> map_of (vr_params (rule_add_predicate c s n r)) k = map_of (vr_params r) k"
  by (auto simp: rule_add_predicate_def fold_rule_add_param split: option.split)

definition usable :: "checker \<Rightarrow> string \<Rightarrow> string \<Rightarrow> bool" where
  "usable c s n = (case map_of c n of None \<Rightarrow> False | Some p \<Rightarrow> allowsSubject p s)"

lemma rule_add_predicate_allowed:
  "vr_allowed (rule_add_predicate c s n r) = vr_allowed r @ filter (usable c s) [n]"
  by (auto simp: rule_add_predicate_def usable_def fold_rule_add_param split: option.split)

lemma fold_rule_add_predicate:
  shows "vr_type (fold (rule_add_predicate c s) ns r) = vr_type r"
    and "vr_requires_input (fold (rule_add_predicate c s) ns r) = vr_requires_input r"
    and "vr_allowed (fold (rule_add_predicate c s) ns r) = vr_allowed r @ filter (usable c s) ns"
    and "k \<notin> set ns \<Longrightarrow> map_of (vr_params (fold (rule_add_predicate c s) ns r)) k = map_of (vr_params r) k"
  by (induction ns arbitrary: r) (auto simp: rule_add_predicate_other rule_add_predicate_allowed)

lemma fold_rule_params:
  assumes "map_of c n = Some p" and "allowsSubject p s" and "distinct (map pl_name (pr_params p))"
  shows "distinct ns \<Longrightarrow> n \<in> set ns \<Longrightarrow> map_of (vr_params r) n = None \<Longrightarrow>
    lookup_or (vr_params (fold (rule_add_predicate c s) ns r)) n []
      = map (\<lambda>pl. (pl_name pl, prompt_rule pl)) (pr_params p)"
proof (induction ns arbitrary: r)
  case (Cons k ns)
  show ?case
  proof (cases "k = n")
    case True
    then have "lookup_or (vr_params (fold (rule_add_predicate c s) (k # ns) r)) n []
        = lookup_or (vr_params (rule_add_predicate c s n r)) n []"
      using Cons.prems(1) by (simp add: lookup_or_def fold_rule_add_predicate(4))
    also have "\<dots> = fold (\<lambda>pl. put (pl_name pl) (prompt_rule pl)) (pr_params p) []"
      using assms(1,2) Cons.prems(3)
      by (simp add: rule_add_predicate_def fold_rule_add_param(5)) (simp add: lookup_or_def)
    also have "\<dots> = map (\<lambda>pl. (pl_name pl, prompt_rule pl)) (pr_params p)"
      by (subst fold_put_fresh [OF assms(3)]) auto
    finally show ?thesis .
  next
    case False
    with Cons show ?thesis by (simp add: rule_add_predicate_other(3))
  qed
qed simp

text \<open>What a rule of the contract asks of a check.\<close>

definition rule_accepts :: "golib \<Rightarrow> verify_check \<Rightarrow> subject_rule \<Rightarrow> bool" where
  "rule_accepts L chk r \<longleftrightarrow>
     vr_type r = vs_type (vc_subject chk) \<and>
     vr_requires_input r = (\<not> blank (vs_input (vc_subject chk))) \<and>
     vc_predicate chk \<in> set (vr_allowed r) \<and>
     (\<forall>(name, rule)\<in>set (lookup_or (vr_params r) (vc_predicate chk) []). param_ok L chk name rule) \<and>
     (vc_predicate chk = ''regex'' \<longrightarrow> re_compile L (stringParam (vc_params chk) ''pattern'') = None)"

text \<open>
  The rules that prompts are built from are exactly what the checker accepts: a check is valid
  iff some rule of \<open>Rules\<close> has its subject type, requires an input just when the check has one, lists
  its predicate and accepts each of the predicate's parameters, and a regular expression compiles.
\<close>

theorem rules_complete:
  "validateCheck L NewChecker chk = None \<longleftrightarrow> list_ex (rule_accepts L chk) (Rules NewChecker)"
proof -
  let ?s = "vs_type (vc_subject chk)" and ?n = "vc_predicate chk"
  let ?r = "subject_rule_for NewChecker ?s"
  have rule: "vr_type (subject_rule_for c s) = s" "vr_requires_input (subject_rule_for c s) = (s = ''file'')"
    "vr_allowed (subject_rule_for c s) = filter (usable c s) predicateOrder" for c s
    by (simp_all add: subject_rule_for_def fold_rule_add_predicate)
  have params: "(\<forall>(name, rule)\<in>set (lookup_or (vr_params ?r) ?n []). param_ok L chk name rule)
      \<longleftrightarrow> validateParams L chk (pr_params p) = None"
    if p: "map_of NewChecker ?n = Some p" "allowsSubject p ?s" for p
  proof -
    have "?n \<in> set predicateOrder" using p(1) checker_keys map_of_Some_keys by metis
    moreover have "distinct (map pl_name (pr_params p))"
      using map_of_SomeD [OF p(1)] checker_params unfolding list_all_iff by fastforce
    ultimately have "lookup_or (vr_params ?r) ?n [] = map (\<lambda>pl. (pl_name pl, prompt_rule pl)) (pr_params p)"
      unfolding subject_rule_for_def
      by (intro fold_rule_params [OF p]) (simp_all add: predicateOrder_distinct)
    then show ?thesis by (auto simp: validateParams_def validateParam_None)
  qed
  have known: "?n \<in> set predicateOrder" if "map_of NewChecker ?n = Some p" for p
    using that checker_keys map_of_Some_keys by metis
  have "validateCheck L NewChecker chk = None \<longleftrightarrow>
      ?s \<in> set subjectOrder \<and> (?s = ''file'') = (\<not> blank (vs_input (vc_subject chk))) \<and>
      ?n \<in> set (vr_allowed ?r) \<and>
      (\<forall>(name, rule)\<in>set (lookup_or (vr_params ?r) ?n []). param_ok L chk name rule) \<and>
      (?n = ''regex'' \<longrightarrow> re_compile L (stringParam (vc_params chk) ''pattern'') = None)"
  proof (cases "map_of NewChecker ?n")
    case None
    then show ?thesis
      by (auto simp: validateCheck_def rule usable_def Let_def split: option.splits)
  next
    case (Some p)
    then show ?thesis
      using params [OF Some] known [OF Some]
      by (auto simp: validateCheck_def rule usable_def Let_def subjectOrder_def subjectRequiresInput_def
          split: option.splits)
  qed
  then show ?thesis by (auto simp: Rules_def rule rule_accepts_def list_ex_iff)
qed

section \<open>What a run shows\<close>

definition merge_outputs :: "ginputs \<Rightarrow> ginputs \<Rightarrow> ginputs" where
  "merge_outputs m outputs = foldl (\<lambda>m (k, v). put k v m) m outputs"

lemma run_checks_Inr:
  "run_checks L V c ctx req i chks r0 = Inr r \<longleftrightarrow>
     (\<forall>j<length chks. ctx (Suc (i + j)) = None) \<and>
     (\<exists>outs. length outs = length chks \<and> (\<forall>j<length chks. runCheck L V c (chks ! j) req (i + j) = Inr (outs ! j)) \<and>
        r = \<lparr>cr_evidence = cr_evidence r0 @ map fst outs,
             cr_outputs = foldl merge_outputs (cr_outputs r0) (map snd outs)\<rparr>)"
proof (induction chks arbitrary: i r0)
  case (Cons chk chks)
  show ?case
  proof (cases "ctx (Suc i) = None \<and> (\<exists>o1. runCheck L V c chk req i = Inr o1)")
    case False
    then show ?thesis
      by (auto split: option.split sum.split dest: spec [of _ 0])
  next
    case True
    then obtain item outputs where o1: "runCheck L V c chk req i = Inr (item, outputs)" and c0: "ctx (Suc i) = None"
      by auto
    let ?r1 = "\<lparr>cr_evidence = cr_evidence r0 @ [item], cr_outputs = merge_outputs (cr_outputs r0) outputs\<rparr>"
    have "run_checks L V c ctx req i (chk # chks) r0 = Inr r \<longleftrightarrow> run_checks L V c ctx req (Suc i) chks ?r1 = Inr r"
      using o1 c0 by (simp add: merge_outputs_def)
    also have "\<dots> \<longleftrightarrow> (\<forall>j<length (chk # chks). ctx (Suc (i + j)) = None) \<and>
     (\<exists>outs. length outs = length (chk # chks) \<and>
        (\<forall>j<length (chk # chks). runCheck L V c ((chk # chks) ! j) req (i + j) = Inr (outs ! j)) \<and>
        r = \<lparr>cr_evidence = cr_evidence r0 @ map fst outs,
             cr_outputs = foldl merge_outputs (cr_outputs r0) (map snd outs)\<rparr>)" (is "_ \<longleftrightarrow> ?R")
    proof
      assume "run_checks L V c ctx req (Suc i) chks ?r1 = Inr r"
      then obtain outs where ctx: "\<forall>j<length chks. ctx (Suc (Suc i + j)) = None"
        and outs: "length outs = length chks" "\<forall>j<length chks. runCheck L V c (chks ! j) req (Suc i + j) = Inr (outs ! j)"
          "r = \<lparr>cr_evidence = cr_evidence ?r1 @ map fst outs,
             cr_outputs = foldl merge_outputs (cr_outputs ?r1) (map snd outs)\<rparr>"
        by (auto simp: Cons.IH)
      have "\<forall>j<length (chk # chks). ctx (Suc (i + j)) = None"
        using ctx c0 by (auto simp: less_Suc_eq_0_disj)
      moreover have "\<forall>j<length (chk # chks). runCheck L V c ((chk # chks) ! j) req (i + j) = Inr (((item, outputs) # outs) ! j)"
        using outs(2) o1 by (auto simp: less_Suc_eq_0_disj)
      ultimately show ?R using outs(1,3) by (intro conjI exI [of _ "(item, outputs) # outs"]) simp_all
    next
      assume R: ?R
      then obtain os where os: "length os = length (chk # chks)"
          "\<forall>j<length (chk # chks). runCheck L V c ((chk # chks) ! j) req (i + j) = Inr (os ! j)"
          "r = \<lparr>cr_evidence = cr_evidence r0 @ map fst os,
             cr_outputs = foldl merge_outputs (cr_outputs r0) (map snd os)\<rparr>"
        by blast
      obtain o2 outs where "os = o2 # outs" using os(1) by (cases os) auto
      note outs = os [unfolded this]
      have "o2 = (item, outputs)" using outs(2) [rule_format, of 0] o1 by simp
      moreover have "runCheck L V c (chks ! j) req (Suc i + j) = Inr (outs ! j)" if "j < length chks" for j
        using outs(2) [rule_format, of "Suc j"] that by simp
      moreover have "ctx (Suc (Suc i + j)) = None" if "j < length chks" for j
        using R that by force
      ultimately show "run_checks L V c ctx req (Suc i) chks ?r1 = Inr r"
        unfolding Cons.IH using outs(1,3) by auto
    qed
    finally show ?thesis .
  qed
qed auto

lemma runCheck_Inr:
  assumes "runCheck L V c chk req i = Inr out"
  shows "\<exists>subject. resolveSubject L (vc_subject chk) req = Inr subject \<and> runPredicate L V c chk subject = None \<and>
    fst out = \<lparr>ev_id = ''check_'' @ nat_text (i + 1) @ ''_'' @ sj_label subject @ ''_'' @ vc_predicate chk,
      ev_type = vc_predicate chk,
      ev_content = [(''subject'', subject_val (vc_subject chk)), (''predicate'', GStr (vc_predicate chk))],
      ev_ref = []\<rparr>"
proof (cases "resolveSubject L (vc_subject chk) req")
  case (Inr subject)
  with assms show ?thesis by (cases "runPredicate L V c chk subject") (auto simp: runCheck_def)
qed (use assms in \<open>simp add: runCheck_def\<close>)

definition check_holds :: "golib \<Rightarrow> fsview \<Rightarrow> verify_check \<Rightarrow> check_request \<Rightarrow> check_subject \<Rightarrow> bool" where
  "check_holds L V chk req subject \<longleftrightarrow>
     resolveSubject L (vc_subject chk) req = Inr subject \<and>
     (\<exists>p. map_of NewChecker (vc_predicate chk) = Some p \<and> allowsSubject p (vs_type (vc_subject chk)) \<and>
        pr_run p L V chk subject = None)"

lemma ids_distinct:
  assumes "\<forall>j<length es. \<exists>rest. ev_id (es ! j) = ''check_'' @ nat_text (j + 1) @ ''_'' @ rest"
  shows "distinct (map ev_id es)"
proof -
  have us: "takeWhile (\<lambda>c. c \<noteq> CHR ''_'') (nat_text n @ ''_'' @ rest) = nat_text n" for n rest
  proof -
    have "CHR ''_'' \<notin> set (nat_text n)"
      using nat_text_digits [of n] by (auto simp: list_all_iff is_digit_def byte_in_def)
    then have "\<And>x. x \<in> set (nat_text n) \<Longrightarrow> x \<noteq> CHR ''_''" by metis
    then show ?thesis by (simp add: takeWhile_append2)
  qed
  have "j = k" if jk: "j < length es" "k < length es" "ev_id (es ! j) = ev_id (es ! k)" for j k
  proof -
    obtain r1 r2 where "''check_'' @ nat_text (j + 1) @ ''_'' @ r1 = ''check_'' @ nat_text (k + 1) @ ''_'' @ r2"
      using assms jk by metis
    then have "nat_text (j + 1) = nat_text (k + 1)"
      using us [of "j + 1" r1] us [of "k + 1" r2] by simp
    then have "int (j + 1) = int (k + 1)" by (metis digits_value_nat_text)
    then show ?thesis by simp
  qed
  then show ?thesis by (auto simp: distinct_conv_nth)
qed

lemma check_Run_facts:
  assumes "check_Run L V ctx (Some req) = Inr result"
  shows "\<exists>spec. cq_spec req = Some spec \<and> vf_level spec \<in> {L1, L2, L3} \<and> vf_method spec = method_execute \<and>
    vf_checks spec \<noteq> [] \<and> length (cr_evidence result) = length (vf_checks spec) \<and>
    (\<forall>j<length (vf_checks spec). ev_type (cr_evidence result ! j) = vc_predicate (vf_checks spec ! j) \<and>
       (\<exists>subject. check_holds L V (vf_checks spec ! j) req subject)) \<and>
    distinct (map ev_id (cr_evidence result)) \<and>
    (\<forall>e\<in>set (cr_evidence result). \<exists>rest. ev_id e = ''check_'' @ rest)"
proof -
  obtain spec where spec: "cq_spec req = Some spec" and v: "validate_spec L NewChecker (Some spec) = None"
    and ex: "vf_method spec = method_execute" "vf_level spec \<noteq> L0"
    and run: "run_checks L V NewChecker ctx req 0 (vf_checks spec) \<lparr>cr_evidence = [], cr_outputs = []\<rparr> = Inr result"
    using assms by (auto simp: check_Run_def run_spec_def split: option.splits if_splits)
  have lvl: "vf_level spec \<in> {L1, L2, L3}" and ne: "vf_checks spec \<noteq> []"
    and ok: "\<forall>chk\<in>set (vf_checks spec). validateCheck L NewChecker chk = None"
    using v ex by (auto simp: validate_spec_def validVerifyLevel_def split: if_splits)
  obtain outs where len: "length outs = length (vf_checks spec)"
    and outs: "\<forall>j<length (vf_checks spec). runCheck L V NewChecker (vf_checks spec ! j) req j = Inr (outs ! j)"
    and res: "cr_evidence result = map fst outs"
    using run by (auto simp: run_checks_Inr)
  have one: "ev_type (fst (outs ! j)) = vc_predicate (vf_checks spec ! j) \<and>
      (\<exists>subject. check_holds L V (vf_checks spec ! j) req subject) \<and>
      (\<exists>rest. ev_id (fst (outs ! j)) = ''check_'' @ nat_text (j + 1) @ ''_'' @ rest)"
    if j: "j < length (vf_checks spec)" for j
  proof -
    let ?chk = "vf_checks spec ! j"
    obtain subject where r: "resolveSubject L (vc_subject ?chk) req = Inr subject"
      "runPredicate L V NewChecker ?chk subject = None" and item: "fst (outs ! j) =
         \<lparr>ev_id = ''check_'' @ nat_text (j + 1) @ ''_'' @ sj_label subject @ ''_'' @ vc_predicate ?chk,
          ev_type = vc_predicate ?chk,
          ev_content = [(''subject'', subject_val (vc_subject ?chk)), (''predicate'', GStr (vc_predicate ?chk))],
          ev_ref = []\<rparr>"
      using runCheck_Inr [OF outs [rule_format, OF j]] by blast
    obtain p where p: "map_of NewChecker (vc_predicate ?chk) = Some p" "pr_run p L V ?chk subject = None"
      using r(2) by (auto simp: runPredicate_def split: option.splits)
    have "validateCheck L NewChecker ?chk = None" using ok j by simp
    then have "allowsSubject p (vs_type (vc_subject ?chk))"
      using p(1) by (auto simp: validateCheck_def Let_def split: option.splits if_splits)
    with r p item show ?thesis by (auto simp: check_holds_def)
  qed
  have "distinct (map ev_id (cr_evidence result))"
    by (rule ids_distinct) (use one len res in simp)
  moreover have "\<exists>rest. ev_id e = ''check_'' @ rest" if e: "e \<in> set (cr_evidence result)" for e
  proof -
    obtain i where "i < length outs" "e = fst (outs ! i)" using e res by (auto simp: in_set_conv_nth)
    with one [of i] len show ?thesis by auto
  qed
  ultimately show ?thesis using spec lvl ex ne one len res by auto
qed

text \<open>
  C11. A successful run of the checker is a proof of its spec: the spec is executable at L1 or above
  with at least one check, every check's subject resolved and its registered predicate held on it,
  and there is one evidence item per check, of that check's predicate, in order and with ids that
  are all different.
\<close>

theorem check_run_sound:
  assumes "check_Run L V ctx (Some req) = Inr result"
  shows "\<exists>spec. cq_spec req = Some spec \<and> vf_level spec \<in> {L1, L2, L3} \<and> vf_method spec = method_execute \<and>
    vf_checks spec \<noteq> [] \<and> length (cr_evidence result) = length (vf_checks spec) \<and>
    (\<forall>j<length (vf_checks spec). ev_type (cr_evidence result ! j) = vc_predicate (vf_checks spec ! j) \<and>
       (\<exists>subject. check_holds L V (vf_checks spec ! j) req subject)) \<and>
    distinct (map ev_id (cr_evidence result))"
  using check_Run_facts [OF assms] by blast

text \<open>An example: standard output that has to be non-empty and to contain a word.\<close>

definition sample_check_request :: check_request where
  "sample_check_request =
     \<lparr>cq_spec = Some \<lparr>vf_level = L1, vf_method = method_execute, vf_checks =
        [\<lparr>vc_subject = \<lparr>vs_type = ''stdout'', vs_input = []\<rparr>, vc_predicate = ''non_empty'', vc_params = []\<rparr>,
         \<lparr>vc_subject = \<lparr>vs_type = ''stdout'', vs_input = []\<rparr>, vc_predicate = ''contains'',
          vc_params = [(''value'', GStr ''ok'')]\<rparr>]\<rparr>,
      cq_inputs = [], cq_stdout = ''all ok'', cq_stderr = [], cq_exit_code = 0\<rparr>"

definition no_files :: fsview where
  "no_files = \<lparr>fv_read = (\<lambda>p. Inl (ENotExist p)), fv_size = (\<lambda>p. Inl (ENotExist p))\<rparr>"

definition sample_check_result :: check_result where
  "sample_check_result =
     (case check_Run plain_lib no_files (\<lambda>_. None) (Some sample_check_request) of
        Inr r \<Rightarrow> r | Inl e \<Rightarrow> \<lparr>cr_evidence = [], cr_outputs = []\<rparr>)"

lemma sample_check_passes:
  "check_Run plain_lib no_files (\<lambda>_. None) (Some sample_check_request) = Inr sample_check_result"
  by code_simp

theorem check_run_sound_witness:
  "length (cr_evidence sample_check_result) = 2 \<and> distinct (map ev_id (cr_evidence sample_check_result))"
  using check_run_sound [OF sample_check_passes] by (auto simp: sample_check_request_def)

section \<open>Validated parameters are supported\<close>

lemma is_ascii_infix: "is_ascii (a @ s @ b) \<Longrightarrow> is_ascii s"
  by (simp add: is_ascii_def)

lemma is_ascii_trim: "is_ascii s \<Longrightarrow> is_ascii (trim_space s)"
  using trim_space_infix [of s] is_ascii_infix by metis

lemma allowed_lower:
  assumes "paramValueAllowed L value allowed" and "is_ascii value" and "\<forall>a\<in>set allowed. is_ascii a"
  shows "\<exists>a\<in>set allowed. to_lower L (trim_space value) = map lower_char (trim_space a)"
  using assms
proof (induction allowed)
  case (Cons a as)
  show ?case
  proof (cases "equal_fold L (trim_space value) (trim_space a)")
    case True
    then have "map lower_char (trim_space value) = map lower_char (trim_space a)"
      using Cons.prems by (simp add: equal_fold_def is_ascii_trim)
    then show ?thesis using Cons.prems(2) by (simp add: to_lower_def is_ascii_trim)
  next
    case False
    with Cons show ?thesis by auto
  qed
qed simp

text \<open>
  A digest name that validation accepted, written in ASCII, is one \<open>hashBytes\<close> computes, in any
  case and with any of the accepted separators: a check that passed validation cannot fail at run
  time because its algorithm is not supported.
\<close>

theorem hash_supported:
  assumes "paramValueAllowed L algorithm hashNames" and "is_ascii algorithm"
  shows "hashBytes L content algorithm \<in> {Inr (sha1_hex L content), Inr (sha256_hex L content)}"
proof -
  obtain a where a: "a \<in> set hashNames" and lower: "to_lower L (trim_space algorithm) = map lower_char (trim_space a)"
    using allowed_lower [OF assms(1,2)] by (auto simp: hashNames_def is_ascii_def byte_in_def)
  have "list_all (\<lambda>a. replace_all '' '' [] (replace_all ''_'' [] (replace_all ''-'' [] (map lower_char (trim_space a))))
      \<in> {''sha1'', ''sha256''}) hashNames"
    by code_simp
  with a have "normalizeHashAlgorithm L algorithm \<in> {''sha1'', ''sha256''}"
    unfolding normalizeHashAlgorithm_def lower list_all_iff by blast
  then show ?thesis by (auto simp: hashBytes_def)
qed

theorem hash_supported_witness:
  "hashBytes plain_lib ''abc'' '' SHA-256 '' \<in> {Inr (sha1_hex plain_lib ''abc''), Inr (sha256_hex plain_lib ''abc'')}"
  by (rule hash_supported) (code_simp, code_simp)

lemma replace_all_not_Nil: "s \<noteq> [] \<Longrightarrow> new \<noteq> [] \<Longrightarrow> replace_all old new s \<noteq> []"
  by (cases s) auto

lemma splitLines_pieces:
  shows "w \<in> set (splitLines s) \<Longrightarrow> CHR 0x0A \<notin> set w" and "splitLines s \<noteq> [[]]"
proof -
  show "w \<in> set (splitLines s) \<Longrightarrow> CHR 0x0A \<notin> set w"
    by (auto simp: splitLines_def Let_def split: if_splits dest: split_char_pieces)
  show "splitLines s \<noteq> [[]]"
  proof
    assume l: "splitLines s = [[]]"
    let ?t = "trim_right_set [CHR 0x0D, CHR 0x0A] s"
    have "?t \<noteq> []" and "split_char (CHR 0x0A) (replace_all [CHR 0x0D, CHR 0x0A] nl ?t) = [[]]"
      using l by (auto simp: splitLines_def Let_def split: if_splits)
    then have "replace_all [CHR 0x0D, CHR 0x0A] nl ?t = []"
      by (metis join.simps(2) join_split_char)
    with \<open>?t \<noteq> []\<close> show False by (simp add: replace_all_not_Nil)
  qed
qed

text \<open>
  Two texts have the same lines exactly when they split into the same list of lines, and line
  breaks at the end of a text, of either kind, never matter.
\<close>

theorem same_lines:
  "sameLines got want = (splitLines got = splitLines want) \<and>
   splitLines (s @ concat (replicate m [CHR 0x0D, CHR 0x0A]) @ replicate n (CHR 0x0A)) = splitLines s"
proof
  have inj: "splitLines got = splitLines want" if j: "join nl (splitLines got) = join nl (splitLines want)"
  proof (cases "splitLines got = [] \<or> splitLines want = []")
    case False
    then show ?thesis
      using split_char_join [of "splitLines got" "CHR 0x0A"] split_char_join [of "splitLines want" "CHR 0x0A"]
        splitLines_pieces(1) j by metis
  next
    case True
    have empty: "xs = []" if "join nl xs = []" "xs \<noteq> [[]]" for xs
      using that by (cases "(nl, xs)" rule: join.cases) auto
    show ?thesis
      using True j empty splitLines_pieces(2) by (metis join.simps(1))
  qed
  show "sameLines got want = (splitLines got = splitLines want)"
    using inj by (auto simp: sameLines_def)
next
  have "trim_right_set [CHR 0x0D, CHR 0x0A] (s @ t) = trim_right_set [CHR 0x0D, CHR 0x0A] s"
    if "set t \<subseteq> {CHR 0x0D, CHR 0x0A}" for t
  proof -
    have "dropWhile (\<lambda>c. c \<in> set [CHR 0x0D, CHR 0x0A]) (rev t @ rev s) = dropWhile (\<lambda>c. c \<in> set [CHR 0x0D, CHR 0x0A]) (rev s)"
      by (rule dropWhile_append2) (use that in auto)
    then show ?thesis by (simp add: trim_right_set_def)
  qed
  from this [of "concat (replicate m [CHR 0x0D, CHR 0x0A]) @ replicate n (CHR 0x0A)"]
  show "splitLines (s @ concat (replicate m [CHR 0x0D, CHR 0x0A]) @ replicate n (CHR 0x0A)) = splitLines s"
    unfolding splitLines_def by (auto simp: set_replicate_conv_if split: if_splits)
qed

end
