(* ===== verification/Cal_Files.thy ===== *)
theory Cal_Files
  imports Cal_World Cal_Path
begin

text \<open>
  The file system the store runs on: the contents of the files and the set of directories, by
  path, with one fault per system call taken from \<open>fs_fault\<close> (an error that is not
  \<^verbatim>\<open>os.ErrNotExist\<close>). A call that fails leaves the file system as it was. The second half is
  \<^verbatim>\<open>pkg/jsonfile\<close>.
\<close>

record fsys =
  fs_files :: "(string, string) gomap"
  fs_dirs :: "string list"
  fs_clock :: nat
  fs_fault :: "nat \<Rightarrow> string option"

section \<open>System calls\<close>

text \<open>Run \<open>f\<close> unless this call is to fail; \<open>f\<close> returns an error or a result with the new state.\<close>

definition syscall :: "(fsys \<Rightarrow> gerr + ('a \<times> fsys)) \<Rightarrow> (fsys, 'a res) state" where
  "syscall f = State (\<lambda>s.
     let t = s\<lparr>fs_clock := Suc (fs_clock s)\<rparr> in
     case fs_fault s (fs_clock s) of
       Some e \<Rightarrow> (Inl (EOS e), t)
     | None \<Rightarrow> (case f t of Inl e \<Rightarrow> (Inl e, t) | Inr (a, u) \<Rightarrow> (Inr a, u)))"

fun not_exist :: "string \<Rightarrow> string \<Rightarrow> gerr" where
  "not_exist opn p = ENotExist (opn @ '' '' @ p @ '': no such file or directory'')"

definition fs_read_file :: "string \<Rightarrow> (fsys, string res) state" where
  "fs_read_file p = syscall (\<lambda>s.
     case map_of (fs_files s) p of None \<Rightarrow> Inl (not_exist ''open'' p) | Some c \<Rightarrow> Inr (c, s))"

definition fs_write_file :: "string \<Rightarrow> string \<Rightarrow> (fsys, unit res) state" where
  "fs_write_file p c = syscall (\<lambda>s. Inr ((), s\<lparr>fs_files := put p c (fs_files s)\<rparr>))"

definition fs_remove :: "string \<Rightarrow> (fsys, unit res) state" where
  "fs_remove p = syscall (\<lambda>s.
     if map_of (fs_files s) p = None then Inl (not_exist ''remove'' p)
     else Inr ((), s\<lparr>fs_files := AList.delete p (fs_files s)\<rparr>))"

definition fs_rename :: "string \<Rightarrow> string \<Rightarrow> (fsys, unit res) state" where
  "fs_rename old new = syscall (\<lambda>s.
     case map_of (fs_files s) old of
       None \<Rightarrow> Inl (not_exist ''rename'' old)
     | Some c \<Rightarrow>
         if new \<in> set (fs_dirs s) then Inl (EOS (''rename '' @ old @ '' '' @ new @ '': file exists''))
         else Inr ((), s\<lparr>fs_files := put new c (AList.delete old (fs_files s))\<rparr>))"

text \<open>A path with the directories above it.\<close>

definition ancestors :: "string \<Rightarrow> string list" where
  "ancestors p = filter (\<lambda>q. q \<noteq> []) (map (\<lambda>n. take n p) (filter (\<lambda>n. p ! n = slash) [0..<length p])) @ [p]"

definition fs_mkdir_all :: "string \<Rightarrow> (fsys, unit res) state" where
  "fs_mkdir_all p = syscall (\<lambda>s.
     if list_ex (\<lambda>q. map_of (fs_files s) q \<noteq> None) (ancestors p)
     then Inl (EOS (''mkdir '' @ p @ '': not a directory''))
     else Inr ((), s\<lparr>fs_dirs := fs_dirs s @ filter (\<lambda>q. q \<notin> set (fs_dirs s)) (ancestors p)\<rparr>))"

text \<open>The name of an entry of directory \<open>d\<close>, when the path \<open>p\<close> is one.\<close>

definition child_name :: "string \<Rightarrow> string \<Rightarrow> string option" where
  "child_name d p =
     (if has_prefix (d @ [slash]) p
      then (let n = drop (length d + 1) p in if n \<noteq> [] \<and> slash \<notin> set n then Some n else None)
      else None)"

text \<open>\<^verbatim>\<open>os.ReadDir\<close>: the entries sorted by name, with the flag \<^verbatim>\<open>IsDir\<close>.\<close>

definition dir_entries :: "string \<Rightarrow> fsys \<Rightarrow> (string \<times> bool) list" where
  "dir_entries d s =
     sort_key fst (remdups (map (\<lambda>n. (n, False)) (List.map_filter (child_name d) (keys (fs_files s)))
       @ map (\<lambda>n. (n, True)) (List.map_filter (child_name d) (fs_dirs s))))"

definition fs_read_dir :: "string \<Rightarrow> (fsys, (string \<times> bool) list res) state" where
  "fs_read_dir d = syscall (\<lambda>s.
     if d \<in> set (fs_dirs s) then Inr (dir_entries d s, s) else Inl (not_exist ''open'' d))"

text \<open>
  \<^verbatim>\<open>os.CreateTemp(dir, ".tmp-*.json")\<close>: a new empty file whose name is not taken. The number
  stands for the random part of the name.
\<close>

definition temp_name :: "string \<Rightarrow> nat \<Rightarrow> string" where
  "temp_name d n = d @ ''/.tmp-'' @ nat_text n @ ''.json''"

fun free_temp :: "string \<Rightarrow> string list \<Rightarrow> nat \<Rightarrow> nat \<Rightarrow> string option" where
  "free_temp d taken n 0 = None"
| "free_temp d taken n (Suc k) =
     (if temp_name d n \<in> set taken then free_temp d taken (Suc n) k else Some (temp_name d n))"

definition fs_create_temp :: "string \<Rightarrow> (fsys, string res) state" where
  "fs_create_temp d = syscall (\<lambda>s.
     if d \<notin> set (fs_dirs s) then Inl (not_exist ''open'' d)
     else (case free_temp d (keys (fs_files s)) (fs_clock s) 10000 of
             None \<Rightarrow> Inl (EOS ''createtemp: file exists'')
           | Some p \<Rightarrow> Inr (p, s\<lparr>fs_files := put p [] (fs_files s)\<rparr>)))"

section \<open>Weakest preconditions\<close>

lemma wp_syscall:
  "wp (syscall f) Q s =
     (let t = s\<lparr>fs_clock := Suc (fs_clock s)\<rparr> in
      case fs_fault s (fs_clock s) of
        Some e \<Rightarrow> Q (Inl (EOS e)) t
      | None \<Rightarrow> (case f t of Inl e \<Rightarrow> Q (Inl e) t | Inr (a, u) \<Rightarrow> Q (Inr a) u))"
  by (simp add: wp_def syscall_def Let_def split: option.splits sum.splits prod.splits)

lemma wp_read_file:
  assumes "\<And>e t. fs_files t = fs_files s \<Longrightarrow> fs_dirs t = fs_dirs s \<Longrightarrow> \<not> err_not_exist e \<Longrightarrow> Q (Inl e) t"
    and "\<And>e t. fs_files t = fs_files s \<Longrightarrow> fs_dirs t = fs_dirs s \<Longrightarrow> map_of (fs_files s) p = None \<Longrightarrow>
           err_not_exist e \<Longrightarrow> Q (Inl e) t"
    and "\<And>c t. fs_files t = fs_files s \<Longrightarrow> fs_dirs t = fs_dirs s \<Longrightarrow> map_of (fs_files s) p = Some c \<Longrightarrow> Q (Inr c) t"
  shows "wp (fs_read_file p) Q s"
  using assms
  by (auto simp: fs_read_file_def wp_syscall Let_def err_not_exist_def split: option.splits)

lemma wp_write_file:
  assumes "\<And>e t. fs_files t = fs_files s \<Longrightarrow> Q (Inl e) t"
    and "\<And>t. fs_files t = put p c (fs_files s) \<Longrightarrow> Q (Inr ()) t"
  shows "wp (fs_write_file p c) Q s"
  using assms by (auto simp: fs_write_file_def wp_syscall Let_def split: option.splits)

lemma wp_remove:
  assumes "\<And>e t. fs_files t = fs_files s \<Longrightarrow> Q (Inl e) t"
    and "\<And>t. fs_files t = AList.delete p (fs_files s) \<Longrightarrow> Q (Inr ()) t"
  shows "wp (fs_remove p) Q s"
  using assms by (auto simp: fs_remove_def wp_syscall Let_def split: option.splits)

lemma wp_rename:
  assumes "\<And>e t. fs_files t = fs_files s \<Longrightarrow> Q (Inl e) t"
    and "\<And>c t. map_of (fs_files s) old = Some c \<Longrightarrow>
           fs_files t = put new c (AList.delete old (fs_files s)) \<Longrightarrow> Q (Inr ()) t"
  shows "wp (fs_rename old new) Q s"
  using assms by (auto simp: fs_rename_def wp_syscall Let_def split: option.splits)

lemma wp_mkdir_all:
  assumes "\<And>x t. fs_files t = fs_files s \<Longrightarrow> Q x t"
  shows "wp (fs_mkdir_all p) Q s"
  using assms by (auto simp: fs_mkdir_all_def wp_syscall Let_def split: option.splits)

lemma free_temp_Some: "free_temp d taken n k = Some p \<Longrightarrow> p \<notin> set taken \<and> (\<exists>m. p = temp_name d m)"
  by (induction d taken n k rule: free_temp.induct) (auto split: if_splits)

lemma wp_create_temp:
  assumes "\<And>e t. fs_files t = fs_files s \<Longrightarrow> Q (Inl e) t"
    and "\<And>m t. map_of (fs_files s) (temp_name d m) = None \<Longrightarrow>
           fs_files t = put (temp_name d m) [] (fs_files s) \<Longrightarrow> Q (Inr (temp_name d m)) t"
  shows "wp (fs_create_temp d) Q s"
  using assms
  by (auto simp: fs_create_temp_def wp_syscall Let_def map_of_None_keys dest!: free_temp_Some split: option.splits)

section \<open>Atomic writes\<close>

text \<open>
  \<^verbatim>\<open>json.Encoder.Encode\<close> of the value is given: its error or its text. The body of
  \<open>WriteAtomic\<close> between the creation of the temporary file and the deferred removal:
\<close>

definition write_temp :: "string \<Rightarrow> string \<Rightarrow> string res \<Rightarrow> (fsys, gerr option) state" where
  "write_temp temp path encoded =
     (case encoded of
        Inl e \<Rightarrow> ret (Some (EWrap ''encode json: '' e []))
      | Inr text \<Rightarrow> do {
          w \<leftarrow> fs_write_file temp text;
          (case w of
             Inl e \<Rightarrow> ret (Some (EWrap ''encode json: '' e []))
           | Inr _ \<Rightarrow> do {
               c \<leftarrow> syscall (\<lambda>s. Inr ((), s));
               (case c of
                  Inl e \<Rightarrow> ret (Some (EWrap ''close temp json file: '' e []))
                | Inr _ \<Rightarrow> do {
                    r \<leftarrow> fs_rename temp path;
                    (case r of
                       Inl e \<Rightarrow> ret (Some (EWrap ''rename temp json file: '' e []))
                     | Inr _ \<Rightarrow> ret None)})})})"

definition WriteAtomic :: "string \<Rightarrow> string res \<Rightarrow> (fsys, gerr option) state" where
  "WriteAtomic path encoded = do {
     d \<leftarrow> fs_mkdir_all (path_dir path);
     (case d of
        Inl e \<Rightarrow> ret (Some (EWrap ''create directory: '' e []))
      | Inr _ \<Rightarrow> do {
          t \<leftarrow> fs_create_temp (path_dir path);
          (case t of
             Inl e \<Rightarrow> ret (Some (EWrap ''create temp json file: '' e []))
           | Inr temp \<Rightarrow> do {
               result \<leftarrow> write_temp temp path encoded;
               _ \<leftarrow> fs_remove temp;
               ret result})})}"

lemma delete_lookup [simp]:
  "map_of (AList.delete k m) q = (if q = k then None else map_of m q)"
  by (simp add: delete_conv')

text \<open>The part of the file system outside one temporary name.\<close>

definition same_files_except :: "string \<Rightarrow> fsys \<Rightarrow> fsys \<Rightarrow> bool" where
  "same_files_except temp s t = (\<forall>q. q \<noteq> temp \<longrightarrow> map_of (fs_files t) q = map_of (fs_files s) q)"

definition written :: "string \<Rightarrow> string \<Rightarrow> string res \<Rightarrow> gerr option \<Rightarrow> fsys \<Rightarrow> fsys \<Rightarrow> bool" where
  "written temp path encoded r s t =
     (case r of
        Some e \<Rightarrow> same_files_except temp s t
      | None \<Rightarrow> (\<exists>c. encoded = Inr c \<and>
          (\<forall>q. q \<noteq> temp \<longrightarrow> map_of (fs_files t) q = (if q = path then Some c else map_of (fs_files s) q))))"

lemma wp_write_temp:
  assumes "path \<noteq> temp"
  shows "wp (write_temp temp path encoded) (\<lambda>r t. written temp path encoded r s t) s"
proof (cases encoded)
  case (Inl e)
  then show ?thesis by (simp add: write_temp_def wp_simps written_def same_files_except_def)
next
  case (Inr c)
  show ?thesis
    unfolding write_temp_def Inr
    apply (simp add: wp_simps)
    apply (rule wp_write_file)
     apply (simp add: wp_simps written_def same_files_except_def)
    apply (simp add: wp_simps wp_syscall Let_def split: option.split)
    apply (intro conjI allI impI)
     apply (rule wp_rename)
      apply (simp add: wp_simps written_def same_files_except_def)
     apply (use assms in \<open>auto simp: wp_simps written_def\<close>)[1]
    apply (simp add: written_def same_files_except_def)
    done
qed

text \<open>
  Away from the temporary names of its directory, a write replaces the file at its path or changes
  nothing: no error leaves a half-written record.
\<close>

lemma wp_WriteAtomic:
  assumes path: "\<And>m. path \<noteq> temp_name (path_dir path) m"
  shows "wp (WriteAtomic path encoded) (\<lambda>r t. \<exists>m. written (temp_name (path_dir path) m) path encoded r s t) s"
proof -
  let ?Q = "\<lambda>r t. \<exists>m. written (temp_name (path_dir path) m) path encoded r s t"
  have err: "?Q (Some e) t" if "fs_files t = fs_files s" for e and t :: fsys
    using that by (simp add: written_def same_files_except_def)
  have create: "wp (fs_create_temp (path_dir path)) (\<lambda>a. wp (case a of
        Inl e \<Rightarrow> ret (Some (EWrap ''create temp json file: '' e []))
      | Inr temp \<Rightarrow> do {
          result \<leftarrow> write_temp temp path encoded;
          _ \<leftarrow> fs_remove temp;
          ret result}) ?Q) t" if t: "fs_files t = fs_files s" for t :: fsys
  proof (rule wp_create_temp)
    fix e and u :: fsys assume "fs_files u = fs_files t"
    then show "wp (case Inl e of
        Inl e \<Rightarrow> ret (Some (EWrap ''create temp json file: '' e []))
      | Inr temp \<Rightarrow> do {
          result \<leftarrow> write_temp temp path encoded;
          _ \<leftarrow> fs_remove temp;
          ret result}) ?Q u" using t err by (simp add: wp_simps)
  next
    fix m and u :: fsys assume "fs_files u = put (temp_name (path_dir path) m) [] (fs_files t)"
    then have u: "same_files_except (temp_name (path_dir path) m) s u"
      using t by (simp add: same_files_except_def)
    have keep: "written (temp_name (path_dir path) m) path encoded r s v'"
      if "written (temp_name (path_dir path) m) path encoded r u v"
        and "same_files_except (temp_name (path_dir path) m) v v'" for r v v'
      using that u by (auto simp: written_def same_files_except_def split: option.splits if_splits)
    show "wp (case Inr (temp_name (path_dir path) m) of
        Inl e \<Rightarrow> ret (Some (EWrap ''create temp json file: '' e []))
      | Inr temp \<Rightarrow> do {
          result \<leftarrow> write_temp temp path encoded;
          _ \<leftarrow> fs_remove temp;
          ret result}) ?Q u"
      apply (simp add: wp_simps)
      apply (rule wp_mono [OF wp_write_temp [OF path [of m]]])
      apply (simp only: wp_bind wp_return)
      apply (rule wp_remove)
       apply (simp only: wp_return, rule exI [of _ m], rule keep, assumption, simp add: same_files_except_def)
      apply (simp only: wp_return, rule exI [of _ m], rule keep, assumption, simp add: same_files_except_def)
      done
  qed
  show ?thesis
    unfolding WriteAtomic_def wp_bind
    apply (rule wp_mkdir_all)
    subgoal for x t
      apply (cases x)
       apply (simp add: wp_return err)
      using create [of t] by (simp add: wp_bind)
    done
qed

section \<open>A write that meets no fault succeeds\<close>

lemma nat_text_inj: "nat_text m = nat_text n \<Longrightarrow> m = n"
  by (metis digits_value_nat_text of_nat_eq_iff)

lemma free_temp_None:
  assumes "free_temp d taken n k = None"
  shows "k \<le> length taken"
proof -
  have "temp_name d ` {n..<n + k} \<subseteq> set taken"
    using assms
  proof (induction d taken n k rule: free_temp.induct)
    case (2 d taken n k)
    then have "temp_name d n \<in> set taken" "temp_name d ` {Suc n..<Suc n + k} \<subseteq> set taken"
      by (auto split: if_splits)
    moreover have "{n..<n + Suc k} = insert n {Suc n..<Suc n + k}" by auto
    ultimately show ?case by simp
  qed simp
  then have "card (temp_name d ` {n..<n + k}) \<le> card (set taken)" by (intro card_mono) auto
  moreover have "inj_on (temp_name d) {n..<n + k}"
    by (auto simp: inj_on_def temp_name_def dest: nat_text_inj)
  ultimately show ?thesis using card_length [of taken] by (simp add: card_image)
qed

lemma ancestors_length: "q \<in> set (ancestors p) \<Longrightarrow> length q \<le> length p"
  by (auto simp: ancestors_def)

text \<open>
  No fault, no file in the way, fewer files than \<^verbatim>\<open>os.CreateTemp\<close> tries names: the write
  succeeds.
\<close>

lemma WriteAtomic_succeeds:
  assumes fault: "fs_fault s = (\<lambda>_. None)"
    and anc: "\<forall>q\<in>set (ancestors (path_dir path)). map_of (fs_files s) q = None"
    and dir: "path \<notin> set (fs_dirs s)" "length (path_dir path) < length path"
    and room: "length (fs_files s) < 10000"
  shows "wp (WriteAtomic path (Inr text)) (\<lambda>r t. r = None) s"
proof -
  let ?d = "path_dir path"
  have d: "?d \<in> set (ancestors ?d)" by (simp add: ancestors_def)
  have np: "path \<notin> set (ancestors ?d)" using dir(2) ancestors_length by force
  have clear: "\<not> list_ex (\<lambda>q. map_of (fs_files s) q \<noteq> None) (ancestors ?d)"
    using anc by (simp add: list_ex_iff)
  let ?dirs = "fs_dirs s @ filter (\<lambda>q. q \<notin> set (fs_dirs s)) (ancestors ?d)"
  have ex: "?d \<in> set ?dirs" and nex: "path \<notin> set ?dirs" using d np dir(1) by auto
  obtain p where p: "free_temp ?d (keys (fs_files s)) (Suc (fs_clock s)) 10000 = Some p"
    using free_temp_None [of ?d "keys (fs_files s)" _ 10000] room
    by (metis length_map not_less option.exhaust)
  have p': "free_temp ?d (keys (fs_files s)) (Suc (Suc (fs_clock s))) 10000 \<noteq> None"
    using free_temp_None [of ?d "keys (fs_files s)" _ 10000] room by (metis length_map not_less)
  then obtain q where q: "free_temp ?d (keys (fs_files s)) (Suc (Suc (fs_clock s))) 10000 = Some q" by blast
  show ?thesis
    unfolding WriteAtomic_def write_temp_def fs_mkdir_all_def fs_create_temp_def fs_write_file_def
      fs_rename_def fs_remove_def
    using fault clear ex nex np q
    by (simp add: wp_bind wp_syscall wp_return Let_def split: if_splits)
qed

end
