(* ===== verification/Cal_Store.thy ===== *)
theory Cal_Store
  imports Cal_Files "HOL-Library.Multiset"
begin

text \<open>
  \<^verbatim>\<open>internal/store\<close>: JSON records under a root directory, one file per provider, capability and
  run, one directory per trace. The JSON text of a record type is a \<open>codec\<close>, the encoder and the
  decoder of \<^verbatim>\<open>encoding/json\<close> for that type. The contract the rest of the program relies on is
  the locale \<open>record_store\<close> at the end, interpreted for the four stores.
\<close>

section \<open>Reading and writing records\<close>

record store =
  st_root :: string

record 'a codec =
  to_json :: "'a \<Rightarrow> string res"
  of_json :: "string \<Rightarrow> string + 'a"

abbreviation "providersDir \<equiv> ''providers''"
abbreviation "capabilitiesDir \<equiv> ''capabilities''"
abbreviation "tracesDir \<equiv> ''traces''"
abbreviation "runsDir \<equiv> ''runs''"
abbreviation "traceFileName \<equiv> ''trace.json''"
abbreviation "jsonExt \<equiv> ''.json''"

definition New :: "string \<Rightarrow> store res" where
  "New root = (if blank root then Inl (EText ''store root is required'') else Inr \<lparr>st_root = path_clean root\<rparr>)"

fun ensure_dirs :: "store \<Rightarrow> string list \<Rightarrow> (fsys, gerr option) state" where
  "ensure_dirs S [] = ret None"
| "ensure_dirs S (d # ds) = do {
     r \<leftarrow> fs_mkdir_all (path_join [st_root S, d]);
     (case r of
        Inl e \<Rightarrow> ret (Some (EWrap (''create '' @ d @ '': '') e []))
      | Inr _ \<Rightarrow> ensure_dirs S ds)}"

definition Ensure :: "store \<Rightarrow> (fsys, gerr option) state" where
  "Ensure S = ensure_dirs S [providersDir, capabilitiesDir, tracesDir, runsDir]"

definition readJSON :: "'a codec \<Rightarrow> string \<Rightarrow> (fsys, 'a res) state" where
  "readJSON C path = do {
     f \<leftarrow> fs_read_file path;
     ret (case f of
       Inl e \<Rightarrow> Inl e
     | Inr text \<Rightarrow>
         (case of_json C text of
            Inl m \<Rightarrow> Inl (EWrap (''decode '' @ path @ '': '') (EText m) [])
          | Inr r \<Rightarrow> Inr r))}"

definition validateRecordID :: "golib \<Rightarrow> string \<Rightarrow> gerr option" where
  "validateRecordID L i =
     (if blank i then Some (EText ''record id is required'')
      else if i = ''.'' \<or> i = ''..'' \<or> slash \<in> set i \<or> CHR 0x5C \<in> set i
      then Some (EText (''record id '' @ quote L i @ '' is not path safe''))
      else None)"

definition recordPath :: "golib \<Rightarrow> store \<Rightarrow> string \<Rightarrow> string \<Rightarrow> string res" where
  "recordPath L S dirName i =
     (case validateRecordID L i of
        Some e \<Rightarrow> Inl e
      | None \<Rightarrow> Inr (path_join [st_root S, dirName, i @ jsonExt]))"

text \<open>A record that is missing is \<open>Inr None\<close>; after an error the returned record is not used.\<close>

definition get_at :: "'a codec \<Rightarrow> ('a \<Rightarrow> gerr option) \<Rightarrow> string \<Rightarrow> (fsys, 'a option res) state" where
  "get_at C validate path = do {
     r \<leftarrow> readJSON C path;
     ret (case r of
       Inl e \<Rightarrow> if err_not_exist e then Inr None else Inl e
     | Inr rec \<Rightarrow> (case validate rec of Some e \<Rightarrow> Inl e | None \<Rightarrow> Inr (Some rec)))}"

definition getJSONRecord ::
    "golib \<Rightarrow> 'a codec \<Rightarrow> store \<Rightarrow> string \<Rightarrow> string \<Rightarrow> ('a \<Rightarrow> gerr option) \<Rightarrow> (fsys, 'a option res) state" where
  "getJSONRecord L C S dirName i validate =
     (case recordPath L S dirName i of
        Inl e \<Rightarrow> ret (Inl e)
      | Inr path \<Rightarrow> get_at C validate path)"

definition saveJSONRecord ::
    "golib \<Rightarrow> 'a codec \<Rightarrow> store \<Rightarrow> string \<Rightarrow> string \<Rightarrow> 'a \<Rightarrow> ('a \<Rightarrow> gerr option) \<Rightarrow> (fsys, gerr option) state" where
  "saveJSONRecord L C S dirName i rec validate =
     (case validate rec of
        Some e \<Rightarrow> ret (Some e)
      | None \<Rightarrow>
          (case recordPath L S dirName i of
             Inl e \<Rightarrow> ret (Some e)
           | Inr path \<Rightarrow> WriteAtomic path (to_json C rec)))"

fun list_entries ::
    "'a codec \<Rightarrow> string \<Rightarrow> ('a \<Rightarrow> gerr option) \<Rightarrow> (string \<times> bool) list \<Rightarrow> (fsys, 'a list res) state" where
  "list_entries C dir validate [] = ret (Inr [])"
| "list_entries C dir validate ((name, isdir) # es) =
     (if isdir \<or> path_ext name \<noteq> jsonExt then list_entries C dir validate es
      else do {
        r \<leftarrow> readJSON C (path_join [dir, name]);
        (case r of
           Inl e \<Rightarrow> ret (Inl e)
         | Inr rec \<Rightarrow>
             (case validate rec of
                Some e \<Rightarrow> ret (Inl (EWrap (''validate '' @ path_join [dir, name] @ '': '') e []))
              | None \<Rightarrow> do {
                  rest \<leftarrow> list_entries C dir validate es;
                  ret (case rest of Inl e \<Rightarrow> Inl e | Inr recs \<Rightarrow> Inr (rec # recs))}))})"

text \<open>\<^verbatim>\<open>sort.Slice\<close> by id: records of equal id are kept in the order they were read.\<close>

definition listJSONRecords ::
    "'a codec \<Rightarrow> store \<Rightarrow> string \<Rightarrow> ('a \<Rightarrow> gerr option) \<Rightarrow> ('a \<Rightarrow> string) \<Rightarrow> (fsys, 'a list res) state" where
  "listJSONRecords C S dirName validate key = do {
     d \<leftarrow> fs_read_dir (path_join [st_root S, dirName]);
     (case d of
        Inl e \<Rightarrow> ret (if err_not_exist e then Inr []
                   else Inl (EWrap (''list '' @ path_join [st_root S, dirName] @ '': '') e []))
      | Inr entries \<Rightarrow> do {
          r \<leftarrow> list_entries C (path_join [st_root S, dirName]) validate entries;
          ret (case r of Inl e \<Rightarrow> Inl e | Inr recs \<Rightarrow> Inr (sort_key key recs))})}"

definition errNilRecord :: "string \<Rightarrow> gerr" where
  "errNilRecord name = EText (name @ '' record is nil'')"

section \<open>Providers, capabilities, runs\<close>

definition ListCapabilities :: "golib \<Rightarrow> capability codec \<Rightarrow> store \<Rightarrow> (fsys, capability list res) state" where
  "ListCapabilities L C S = listJSONRecords C S capabilitiesDir (ValidateCapability L) cp_id"

definition GetCapability :: "golib \<Rightarrow> capability codec \<Rightarrow> store \<Rightarrow> string \<Rightarrow> (fsys, capability option res) state" where
  "GetCapability L C S i = getJSONRecord L C S capabilitiesDir i (ValidateCapability L)"

definition SaveCapability :: "golib \<Rightarrow> capability codec \<Rightarrow> store \<Rightarrow> capability option \<Rightarrow> (fsys, gerr option) state" where
  "SaveCapability L C S c =
     (case c of
        None \<Rightarrow> ret (Some (errNilRecord ''capability''))
      | Some c \<Rightarrow> saveJSONRecord L C S capabilitiesDir (cp_id c) c (ValidateCapability L))"

definition ListProviders :: "golib \<Rightarrow> provider codec \<Rightarrow> store \<Rightarrow> (fsys, provider list res) state" where
  "ListProviders L C S = listJSONRecords C S providersDir (ValidateProvider L) pv_id"

definition GetProvider :: "golib \<Rightarrow> provider codec \<Rightarrow> store \<Rightarrow> string \<Rightarrow> (fsys, provider option res) state" where
  "GetProvider L C S i = getJSONRecord L C S providersDir i (ValidateProvider L)"

definition SaveProvider :: "golib \<Rightarrow> provider codec \<Rightarrow> store \<Rightarrow> provider option \<Rightarrow> (fsys, gerr option) state" where
  "SaveProvider L C S p =
     (case p of
        None \<Rightarrow> ret (Some (errNilRecord ''provider''))
      | Some p \<Rightarrow> saveJSONRecord L C S providersDir (pv_id p) p (ValidateProvider L))"

definition ListRuns :: "golib \<Rightarrow> run codec \<Rightarrow> store \<Rightarrow> (fsys, run list res) state" where
  "ListRuns L C S = listJSONRecords C S runsDir (ValidateRun L) rn_id"

definition GetRun :: "golib \<Rightarrow> run codec \<Rightarrow> store \<Rightarrow> string \<Rightarrow> (fsys, run option res) state" where
  "GetRun L C S i = getJSONRecord L C S runsDir i (ValidateRun L)"

definition SaveRun :: "golib \<Rightarrow> run codec \<Rightarrow> store \<Rightarrow> run option \<Rightarrow> (fsys, gerr option) state" where
  "SaveRun L C S r =
     (case r of
        None \<Rightarrow> ret (Some (errNilRecord ''run''))
      | Some r \<Rightarrow> saveJSONRecord L C S runsDir (rn_id r) r (ValidateRun L))"

section \<open>Traces\<close>

definition tracePath :: "store \<Rightarrow> string \<Rightarrow> string" where
  "tracePath S i = path_join [st_root S, tracesDir, i, traceFileName]"

definition GetTrace :: "golib \<Rightarrow> trace codec \<Rightarrow> store \<Rightarrow> string \<Rightarrow> (fsys, trace option res) state" where
  "GetTrace L C S i =
     (case validateRecordID L i of
        Some e \<Rightarrow> ret (Inl e)
      | None \<Rightarrow> get_at C (ValidateTrace L) (tracePath S i))"

definition SaveTrace :: "golib \<Rightarrow> trace codec \<Rightarrow> store \<Rightarrow> trace option \<Rightarrow> (fsys, gerr option) state" where
  "SaveTrace L C S t =
     (case t of
        None \<Rightarrow> ret (Some (errNilRecord ''trace''))
      | Some t \<Rightarrow>
          (case ValidateTrace L t of
             Some e \<Rightarrow> ret (Some e)
           | None \<Rightarrow>
               (case validateRecordID L (tr_id t) of
                  Some e \<Rightarrow> ret (Some e)
                | None \<Rightarrow> WriteAtomic (tracePath S (tr_id t)) (to_json C t))))"

fun list_traces :: "golib \<Rightarrow> trace codec \<Rightarrow> store \<Rightarrow> (string \<times> bool) list \<Rightarrow> (fsys, trace list res) state" where
  "list_traces L C S [] = ret (Inr [])"
| "list_traces L C S ((name, isdir) # es) =
     (if \<not> isdir then list_traces L C S es
      else do {
        r \<leftarrow> GetTrace L C S name;
        (case r of
           Inl e \<Rightarrow> ret (Inl e)
         | Inr found \<Rightarrow> do {
             rest \<leftarrow> list_traces L C S es;
             ret (case rest of
               Inl e \<Rightarrow> Inl e
             | Inr ts \<Rightarrow> Inr (case found of Some t \<Rightarrow> t # ts | None \<Rightarrow> ts))})})"

definition ListTraces :: "golib \<Rightarrow> trace codec \<Rightarrow> store \<Rightarrow> (fsys, trace list res) state" where
  "ListTraces L C S = do {
     d \<leftarrow> fs_read_dir (path_join [st_root S, tracesDir]);
     (case d of
        Inl e \<Rightarrow> ret (if err_not_exist e then Inr [] else Inl (EWrap ''list traces: '' e []))
      | Inr entries \<Rightarrow> do {
          r \<leftarrow> list_traces L C S entries;
          ret (case r of Inl e \<Rightarrow> Inl e | Inr ts \<Rightarrow> Inr (sort_key tr_id ts))})}"

section \<open>Where records live\<close>

text \<open>
  A family of record paths: \<open>good\<close> ids have their own path, and no temporary file of a write hits
  one. The view of the file system through such a family is what its files decode to.
\<close>

definition stored :: "'a codec \<Rightarrow> (string \<Rightarrow> string) \<Rightarrow> (string \<Rightarrow> bool) \<Rightarrow> fsys \<Rightarrow> string \<Rightarrow> 'a option" where
  "stored C P good s i =
     (if good i then
        (case map_of (fs_files s) (P i) of
           None \<Rightarrow> None
         | Some text \<Rightarrow> (case of_json C text of Inl _ \<Rightarrow> None | Inr a \<Rightarrow> Some a))
      else None)"

text \<open>What a value reads as once it has been written.\<close>

definition reread :: "'a codec \<Rightarrow> 'a \<Rightarrow> 'a option" where
  "reread C a =
     (case to_json C a of
        Inl _ \<Rightarrow> None
      | Inr text \<Rightarrow> (case of_json C text of Inl _ \<Rightarrow> None | Inr b \<Rightarrow> Some b))"

locale path_family =
  fixes P :: "string \<Rightarrow> string" and good :: "string \<Rightarrow> bool"
  assumes inj: "good i \<Longrightarrow> good j \<Longrightarrow> P i = P j \<Longrightarrow> i = j"
    and not_temp: "good i \<Longrightarrow> good j \<Longrightarrow> P i \<noteq> temp_name (path_dir (P j)) m"
begin

lemma wp_write:
  assumes "good i"
  shows "wp (WriteAtomic (P i) (to_json C a)) (\<lambda>r t.
           stored C P good t = (case r of
             None \<Rightarrow> (stored C P good s)(i := reread C a)
           | Some e \<Rightarrow> stored C P good s)) s"
proof (rule wp_mono [OF wp_WriteAtomic])
  show "P i \<noteq> temp_name (path_dir (P i)) m" for m using assms by (rule not_temp [OF _ assms])
next
  fix r and t :: fsys
  assume "\<exists>m. written (temp_name (path_dir (P i)) m) (P i) (to_json C a) r s t"
  then obtain m where w: "written (temp_name (path_dir (P i)) m) (P i) (to_json C a) r s t" ..
  have other: "good j \<Longrightarrow> P j \<noteq> temp_name (path_dir (P i)) m" for j using assms by (simp add: not_temp)
  show "stored C P good t = (case r of
             None \<Rightarrow> (stored C P good s)(i := reread C a) | Some e \<Rightarrow> stored C P good s)"
  proof (cases r)
    case None
    with w obtain c where c: "to_json C a = Inr c"
      "\<And>q. q \<noteq> temp_name (path_dir (P i)) m \<Longrightarrow>
         map_of (fs_files t) q = (if q = P i then Some c else map_of (fs_files s) q)"
      by (auto simp: written_def)
    have "stored C P good t j = ((stored C P good s)(i := reread C a)) j" for j
      using c(2) [OF other, of j] c(1) assms by (auto simp: stored_def reread_def dest: inj)
    with None show ?thesis by auto
  next
    case (Some e)
    with w have "stored C P good t j = stored C P good s j" for j
      using other [of j] by (simp add: written_def same_files_except_def stored_def)
    with Some show ?thesis by auto
  qed
qed

lemma wp_read:
  assumes "good i"
    and "\<And>e t. stored C P good t = stored C P good s \<Longrightarrow> Q (Inl e) t"
    and "\<And>t. stored C P good t = stored C P good s \<Longrightarrow> stored C P good s i = None \<Longrightarrow> Q (Inr None) t"
    and "\<And>a t. stored C P good t = stored C P good s \<Longrightarrow> stored C P good s i = Some a \<Longrightarrow>
           validate a = None \<Longrightarrow> Q (Inr (Some a)) t"
  shows "wp (get_at C validate (P i)) Q s"
proof -
  have same: "stored C P good t = stored C P good s" if "fs_files t = fs_files s" for t :: fsys
    using that by (auto simp: stored_def)
  have run: "Q (case (case of_json C c of
        Inl m \<Rightarrow> Inl (EWrap (''decode '' @ P i @ '': '') (EText m) []) | Inr r \<Rightarrow> Inr r) of
      Inl e \<Rightarrow> if err_not_exist e then Inr None else Inl e
    | Inr rec \<Rightarrow> (case validate rec of Some e \<Rightarrow> Inl e | None \<Rightarrow> Inr (Some rec))) t"
    if f: "fs_files t = fs_files s" and c: "map_of (fs_files s) (P i) = Some c" for c and t :: fsys
  proof (cases "of_json C c")
    case (Inl m)
    then show ?thesis using assms(2) [OF same [OF f]] by (simp add: err_not_exist_def)
  next
    case (Inr a)
    with c assms(1) have "stored C P good s i = Some a" by (simp add: stored_def)
    with Inr assms(2,4) same [OF f] show ?thesis by (cases "validate a") simp_all
  qed
  show ?thesis
    unfolding get_at_def readJSON_def wp_bind wp_return
    apply (rule wp_read_file)
      apply (simp only: sum.case if_False, rule assms(2), rule same, assumption)
     apply (simp only: sum.case if_True, rule assms(3), rule same, assumption, simp add: stored_def)
    apply (simp only: sum.case, rule run; assumption)
    done
qed

end

lemma path_ext_json: "path_ext (i @ ''.json'') = ''.json''"
  by (simp add: path_ext_def Let_def)

definition record_id :: "string \<Rightarrow> bool" where
  "record_id i \<longleftrightarrow> \<not> blank i \<and> i \<noteq> ''.'' \<and> i \<noteq> ''..'' \<and> slash \<notin> set i \<and> CHR 0x5C \<notin> set i"

lemma validateRecordID_None [valid_simps, simp]: "validateRecordID L i = None \<longleftrightarrow> record_id i"
  by (simp add: validateRecordID_def record_id_def)

lemma record_id_valid: "record_id i \<Longrightarrow> validateRecordID L i = None"
  by simp

lemma record_id_proper:
  assumes "record_id i"
  shows "proper i" and "proper (i @ ''.json'')"
proof -
  have "i \<noteq> []" using assms by (auto simp: record_id_def)
  then show "proper i" using assms by (simp add: record_id_def proper_def)
  have "length (i @ ''.json'') \<noteq> length ''..''" by simp
  then have "i @ ''.json'' \<noteq> ''..''" by metis
  then show "proper (i @ ''.json'')" using assms by (auto simp: record_id_def proper_def append_eq_Cons_conv)
qed

text \<open>A record id whose file is not a temporary file of the writer.\<close>

definition visible :: "string \<Rightarrow> bool" where
  "visible i \<longleftrightarrow> record_id i \<and> \<not> has_prefix ''.tmp-'' (i @ ''.json'')"

lemma visibleI: "record_id i \<Longrightarrow> hd i \<noteq> CHR ''.'' \<Longrightarrow> visible i"
  by (cases i) (auto simp: visible_def record_id_def)

definition json_path :: "store \<Rightarrow> string \<Rightarrow> string \<Rightarrow> string" where
  "json_path S d i = path_join [st_root S, d, i @ ''.json'']"

definition trace_dir :: "store \<Rightarrow> string" where
  "trace_dir S = path_join [st_root S, tracesDir]"

lemma json_path_split:
  assumes "proper d" and "record_id i"
  shows "json_path S d i = path_join [st_root S, d] @ slash # i @ ''.json''"
    and "path_dir (json_path S d i) = path_join [st_root S, d]"
proof -
  show p: "json_path S d i = path_join [st_root S, d] @ slash # i @ ''.json''"
    unfolding json_path_def using assms by (simp add: path_join_snoc record_id_proper)
  have "slash \<notin> set (i @ ''.json'')" using assms(2) by (simp add: record_id_def)
  from path_dir_append [OF path_join_clean(2) [OF assms(1)] this] path_join_clean(1) [OF assms(1)]
  show "path_dir (json_path S d i) = path_join [st_root S, d]"
    unfolding p by simp
qed

lemma json_path_family:
  assumes d: "proper d"
  shows "path_family (json_path S d) visible"
proof
  fix i j assume "visible i" "visible j" "json_path S d i = json_path S d j"
  then show "i = j" using d by (simp add: json_path_split visible_def)
next
  fix i j m assume v: "visible i" "visible j"
  show "json_path S d i \<noteq> temp_name (path_dir (json_path S d j)) m"
  proof
    assume "json_path S d i = temp_name (path_dir (json_path S d j)) m"
    then have "path_join [st_root S, d] @ slash # i @ ''.json''
        = path_join [st_root S, d] @ slash # ''.tmp-'' @ nat_text m @ ''.json''"
      using v json_path_split(1) [OF d, of i S] json_path_split(2) [OF d, of j S]
      by (simp only: visible_def temp_name_def) simp
    then have e: "i @ ''.json'' = ''.tmp-'' @ nat_text m @ ''.json''" by blast
    have "has_prefix ''.tmp-'' (i @ ''.json'')" unfolding e by (simp add: has_prefix_append)
    then show False using v(1) by (simp add: visible_def)
  qed
qed

lemma tracePath_split:
  assumes "record_id i"
  shows "tracePath S i = trace_dir S @ slash # i @ slash # ''trace.json''"
    and "path_dir (tracePath S i) = trace_dir S @ slash # i"
proof -
  have pt: "proper tracesDir" "proper traceFileName" by (auto simp: proper_def)
  have pi: "proper i" using assms by (rule record_id_proper)
  have p: "tracePath S i = path_join [st_root S, tracesDir, i] @ slash # traceFileName"
    unfolding tracePath_def by (rule path_join_snoc2 [OF pt(1) pi pt(2)])
  have q: "path_join [st_root S, tracesDir, i] = trace_dir S @ slash # i"
    unfolding trace_dir_def by (rule path_join_snoc [OF pt(1) pi])
  show "tracePath S i = trace_dir S @ slash # i @ slash # ''trace.json''" using p q by simp
  have "path_dir (tracePath S i) = path_clean (trace_dir S @ slash # i)"
    unfolding p q by (rule path_dir_append) auto
  also have "\<dots> = trace_dir S @ slash # i"
    using path_join_clean(1) [OF pt(1), of "st_root S" "[i]"] q by simp
  finally show "path_dir (tracePath S i) = trace_dir S @ slash # i" .
qed

lemma trace_path_family: "path_family (tracePath S) record_id"
proof
  fix i j assume "record_id i" "record_id j" "tracePath S i = tracePath S j"
  then have "i @ slash # ''trace.json'' = j @ slash # ''trace.json''" by (simp add: tracePath_split)
  then show "i = j" by simp
next
  fix i j m assume v: "record_id i" "record_id j"
  show "tracePath S i \<noteq> temp_name (path_dir (tracePath S j)) m"
  proof
    assume "tracePath S i = temp_name (path_dir (tracePath S j)) m"
    then have "trace_dir S @ slash # i @ slash # ''trace.json''
        = trace_dir S @ slash # j @ slash # ''.tmp-'' @ nat_text m @ ''.json''"
      using tracePath_split(1) [OF v(1), of S] tracePath_split(2) [OF v(2), of S]
      by (simp only: temp_name_def) simp
    then have e: "i @ slash # ''trace.json'' = j @ slash # ''.tmp-'' @ nat_text m @ ''.json''" by blast
    have "takeWhile (\<lambda>c. c \<noteq> slash) (k @ slash # r) = k" if "record_id k" for k r
      using that by (simp add: record_id_def takeWhile_append)
    from this [OF v(1)] this [OF v(2)] e have "i = j" by metis
    with e show False by simp
  qed
qed

section \<open>The contract of a record store\<close>

text \<open>
  What the rest of the program relies on. \<open>view\<close> is the records a state holds, by id. Reading
  leaves them alone and returns a valid record of the view; saving a valid record makes its id read
  as the record written and leaves the others; a failed save changes none.
\<close>

locale record_store =
  fixes get :: "string \<Rightarrow> ('s, 'a option res) state"
    and save :: "'a \<Rightarrow> ('s, gerr option) state"
    and view :: "'s \<Rightarrow> string \<Rightarrow> 'a option"
    and key :: "'a \<Rightarrow> string"
    and ok :: "'a \<Rightarrow> bool"
    and again :: "'a \<Rightarrow> 'a option"
    and vis :: "string \<Rightarrow> bool"
  assumes get_law: "vis i \<Longrightarrow> wp (get i) (\<lambda>r t. view t = view s \<and>
      (case r of Inl e \<Rightarrow> True | Inr None \<Rightarrow> view s i = None | Inr (Some a) \<Rightarrow> view s i = Some a \<and> ok a)) s"
    and save_law: "vis (key a) \<Longrightarrow> wp (save a) (\<lambda>r t.
      case r of None \<Rightarrow> ok a \<and> view t = (view s)(key a := again a) | Some e \<Rightarrow> view t = view s) s"
begin

lemma wp_get:
  assumes "vis i"
    and "\<And>e t. view t = view s \<Longrightarrow> Q (Inl e) t"
    and "\<And>t. view t = view s \<Longrightarrow> view s i = None \<Longrightarrow> Q (Inr None) t"
    and "\<And>a t. view t = view s \<Longrightarrow> view s i = Some a \<Longrightarrow> ok a \<Longrightarrow> Q (Inr (Some a)) t"
  shows "wp (get i) Q s"
  by (rule wp_mono [OF get_law [OF assms(1)]]) (auto simp: assms split: sum.splits option.splits)

lemma wp_save:
  assumes "vis (key a)"
    and "\<And>e t. view t = view s \<Longrightarrow> Q (Some e) t"
    and "\<And>t. ok a \<Longrightarrow> view t = (view s)(key a := again a) \<Longrightarrow> Q None t"
  shows "wp (save a) Q s"
  by (rule wp_mono [OF save_law [OF assms(1)]]) (auto simp: assms split: option.splits)

text \<open>Saving, then reading the same id and another one.\<close>

lemma save_then_get:
  assumes "vis (key a)" and "vis j"
  shows "wp (do { r \<leftarrow> save a; g \<leftarrow> get j; ret (r, g) }) (\<lambda>(r, g) t.
     r = None \<longrightarrow> (case g of Inl e \<Rightarrow> True | Inr b \<Rightarrow> b = (if j = key a then again a else view s j))) s"
  unfolding wp_bind
  by (rule wp_save [OF assms(1)]; rule wp_get [OF assms(2)]) (simp_all add: wp_return)

end

definition capability_view where
  "capability_view C S = stored C (json_path S capabilitiesDir) visible"

definition provider_view where
  "provider_view C S = stored C (json_path S providersDir) visible"

definition run_view where
  "run_view C S = stored C (json_path S runsDir) visible"

interpretation capability_files: path_family "json_path S capabilitiesDir" visible for S
  by (rule json_path_family) (simp add: proper_def)

interpretation provider_files: path_family "json_path S providersDir" visible for S
  by (rule json_path_family) (simp add: proper_def)

interpretation run_files: path_family "json_path S runsDir" visible for S
  by (rule json_path_family) (simp add: proper_def)

interpretation trace_files: path_family "tracePath S" record_id for S
  by (rule trace_path_family)

definition trace_view where
  "trace_view C S = stored C (tracePath S) record_id"

lemma json_record_store:
  assumes "proper d"
  shows "record_store (\<lambda>i. getJSONRecord L C S d i validate) (\<lambda>a. saveJSONRecord L C S d (key a) a validate)
    (stored C (json_path S d) visible) key (\<lambda>a. validate a = None) (reread C) visible"
proof -
  note family = json_path_family [OF assms, of S]
  have path: "recordPath L S d i = Inr (json_path S d i)" if "visible i" for i
    using that by (simp add: recordPath_def json_path_def visible_def record_id_valid)
  show ?thesis
  proof
    fix i and s :: fsys assume "visible i"
    then show "wp (getJSONRecord L C S d i validate) (\<lambda>r t.
        stored C (json_path S d) visible t = stored C (json_path S d) visible s \<and>
        (case r of Inl e \<Rightarrow> True | Inr None \<Rightarrow> stored C (json_path S d) visible s i = None
         | Inr (Some a) \<Rightarrow> stored C (json_path S d) visible s i = Some a \<and> validate a = None)) s"
      by (simp add: getJSONRecord_def path) (rule path_family.wp_read [OF family]; simp)
  next
    fix a and s :: fsys assume v: "visible (key a)"
    show "wp (saveJSONRecord L C S d (key a) a validate) (\<lambda>r t. case r of
        None \<Rightarrow> validate a = None \<and>
          stored C (json_path S d) visible t = (stored C (json_path S d) visible s)(key a := reread C a)
      | Some e \<Rightarrow> stored C (json_path S d) visible t = stored C (json_path S d) visible s) s"
    proof (cases "validate a")
      case None
      then show ?thesis
        by (simp add: saveJSONRecord_def path [OF v])
           (rule wp_mono [OF path_family.wp_write [OF family v]], simp split: option.splits)
    qed (simp add: saveJSONRecord_def wp_return)
  qed
qed

interpretation capabilities: record_store
  "GetCapability L C S" "\<lambda>c. SaveCapability L C S (Some c)" "capability_view C S" cp_id
  "\<lambda>c. ValidateCapability L c = None" "reread C" visible
  for L C S
  unfolding GetCapability_def [abs_def] SaveCapability_def option.case capability_view_def
  by (rule json_record_store) (simp add: proper_def)

interpretation providers: record_store
  "GetProvider L C S" "\<lambda>p. SaveProvider L C S (Some p)" "provider_view C S" pv_id
  "\<lambda>p. ValidateProvider L p = None" "reread C" visible
  for L C S
  unfolding GetProvider_def [abs_def] SaveProvider_def option.case provider_view_def
  by (rule json_record_store) (simp add: proper_def)

interpretation runs: record_store
  "GetRun L C S" "\<lambda>r. SaveRun L C S (Some r)" "run_view C S" rn_id
  "\<lambda>r. ValidateRun L r = None" "reread C" visible
  for L C S
  unfolding GetRun_def [abs_def] SaveRun_def option.case run_view_def
  by (rule json_record_store) (simp add: proper_def)

interpretation traces: record_store
  "GetTrace L C S" "\<lambda>t. SaveTrace L C S (Some t)" "trace_view C S" tr_id
  "\<lambda>t. ValidateTrace L t = None" "reread C" record_id
  for L C S
proof
  fix i and s :: fsys assume "record_id i"
  then show "wp (GetTrace L C S i) (\<lambda>r t. trace_view C S t = trace_view C S s \<and>
      (case r of Inl e \<Rightarrow> True | Inr None \<Rightarrow> trace_view C S s i = None
       | Inr (Some a) \<Rightarrow> trace_view C S s i = Some a \<and> ValidateTrace L a = None)) s"
    unfolding trace_view_def
    by (simp add: GetTrace_def record_id_valid) (rule trace_files.wp_read; simp)
next
  fix a :: trace and s :: fsys assume v: "record_id (tr_id a)"
  show "wp (SaveTrace L C S (Some a)) (\<lambda>r t. case r of
      None \<Rightarrow> ValidateTrace L a = None \<and> trace_view C S t = (trace_view C S s)(tr_id a := reread C a)
    | Some e \<Rightarrow> trace_view C S t = trace_view C S s) s"
  proof (cases "ValidateTrace L a")
    case None
    then show ?thesis
      unfolding trace_view_def
      by (simp add: SaveTrace_def record_id_valid [OF v]) (rule wp_mono [OF trace_files.wp_write [OF v]], simp split: option.splits)
  qed (simp add: SaveTrace_def wp_return)
qed

section \<open>Properties\<close>

text \<open>
  C10. Saving a capability and then reading any visible id: if the save succeeds and the read does
  not fail, the saved id reads as the JSON round trip of the saved record, and every other id as
  it did before the save.
\<close>

theorem save_get_capability:
  assumes "visible (cp_id c)" and "visible j"
    and "run_state (SaveCapability L C S (Some c)) s = (None, t)"
    and "run_state (GetCapability L C S j) t = (Inr found, u)"
  shows "ValidateCapability L c = None \<and>
    found = (if j = cp_id c then reread C c else capability_view C S s j)"
proof -
  have "ValidateCapability L c = None \<and> capability_view C S t = (capability_view C S s)(cp_id c := reread C c)"
    using wp_run [OF capabilities.save_law [OF assms(1)] assms(3)] by simp
  moreover have "found = capability_view C S t j"
    using wp_run [OF capabilities.get_law [OF assms(2)] assms(4)] by (cases found) auto
  ultimately show ?thesis by simp
qed

text \<open>Instances the examples below are evaluated on.\<close>

definition named_capability :: "string \<Rightarrow> capability" where
  "named_capability i = \<lparr>cp_id = i, cp_description = [], cp_bindings = []\<rparr>"

definition name_codec :: "capability codec" where
  "name_codec = \<lparr>to_json = (\<lambda>c. Inr (cp_id c)), of_json = (\<lambda>t. Inr (named_capability t))\<rparr>"

definition empty_fs :: fsys where
  "empty_fs = \<lparr>fs_files = [], fs_dirs = [], fs_clock = 0, fs_fault = (\<lambda>_. None)\<rparr>"

definition saved_fs :: fsys where
  "saved_fs = snd (run_state (SaveCapability plain_lib name_codec \<lparr>st_root = ''/h''\<rparr>
     (Some (named_capability ''a.b''))) empty_fs)"

theorem save_get_capability_witness:
  "(let S = \<lparr>st_root = ''/h''\<rparr>; c = named_capability ''a.b'' in
     ValidateCapability plain_lib c = None \<and>
     Some c = (if ''a.b'' = cp_id c then reread name_codec c else capability_view name_codec S empty_fs ''a.b''))"
proof -
  let ?S = "\<lparr>st_root = ''/h''\<rparr>"
  have "visible ''a.b''" by code_simp
  moreover have "fst (run_state (SaveCapability plain_lib name_codec ?S (Some (named_capability ''a.b''))) empty_fs) = None"
    by code_simp
  moreover have "fst (run_state (GetCapability plain_lib name_codec ?S ''a.b'') saved_fs) = Inr (Some (named_capability ''a.b''))"
    by code_simp
  ultimately show ?thesis
    using save_get_capability [of "named_capability ''a.b''" "''a.b''" plain_lib name_codec ?S empty_fs saved_fs
        "Some (named_capability ''a.b'')"
        "snd (run_state (GetCapability plain_lib name_codec ?S ''a.b'') saved_fs)"]
    by (simp add: Let_def saved_fs_def prod_eq_iff named_capability_def)
qed

subsection \<open>Listing\<close>

text \<open>The entries of a record directory that hold records, and what a file decodes to.\<close>

definition record_entry :: "string \<times> bool \<Rightarrow> bool" where
  "record_entry e \<longleftrightarrow> \<not> snd e \<and> path_ext (fst e) = jsonExt"

definition file_record :: "'a codec \<Rightarrow> fsys \<Rightarrow> string \<Rightarrow> 'a option" where
  "file_record C s path =
     (case map_of (fs_files s) path of
        None \<Rightarrow> None
      | Some text \<Rightarrow> (case of_json C text of Inl _ \<Rightarrow> None | Inr a \<Rightarrow> Some a))"

lemma wp_readJSON:
  assumes "\<And>e t. fs_files t = fs_files s \<Longrightarrow> fs_dirs t = fs_dirs s \<Longrightarrow> Q (Inl e) t"
    and "\<And>a t. fs_files t = fs_files s \<Longrightarrow> fs_dirs t = fs_dirs s \<Longrightarrow> file_record C s path = Some a \<Longrightarrow> Q (Inr a) t"
  shows "wp (readJSON C path) Q s"
  unfolding readJSON_def wp_bind wp_return
  apply (rule wp_read_file)
    apply (simp add: assms(1))
   apply (simp add: assms(1))
  subgoal for c t
    by (cases "of_json C c") (simp_all add: assms file_record_def)
  done

lemma wp_list_entries:
  "wp (list_entries C dir validate es) (\<lambda>r t. fs_files t = fs_files s \<and>
     (case r of
        Inl e \<Rightarrow> True
      | Inr recs \<Rightarrow> map Some recs = map (\<lambda>e. file_record C s (path_join [dir, fst e])) (filter record_entry es) \<and>
          (\<forall>a\<in>set recs. validate a = None))) s"
proof (induction es arbitrary: s)
  case (Cons e es)
  obtain name isdir where e: "e = (name, isdir)" by (cases e)
  show ?case
  proof (cases "record_entry e")
    case False
    then have f: "filter record_entry (e # es) = filter record_entry es" by simp
    from False show ?thesis unfolding f using Cons.IH [of s] by (auto simp: e record_entry_def)
  next
    case True
    have same: "file_record C t p = file_record C s p" if "fs_files t = fs_files s" for t p
      using that by (simp add: file_record_def)
    have f: "filter record_entry (e # es) = e # filter record_entry es" using True by simp
    show ?thesis
      unfolding f
      using True
      apply (simp add: e record_entry_def wp_bind)
      apply (rule wp_readJSON)
       apply (simp add: wp_return)
      subgoal for a t
        apply (cases "validate a")
         apply (simp add: wp_bind)
         apply (rule wp_mono [OF Cons.IH])
        subgoal for r u by (cases r) (simp_all add: wp_return same [of t] e)
        apply (simp add: wp_return)
        done
      done
  qed
qed (simp add: wp_return)

text \<open>Reading changes no file, so it changes no record.\<close>

lemma stored_files: "fs_files t = fs_files s \<Longrightarrow> provider_view C S t = provider_view C S s"
  by (rule ext) (simp add: provider_view_def stored_def)

lemma wp_list_keeps: "wp (listJSONRecords C S dirName validate key) (\<lambda>r t. fs_files t = fs_files s) s"
  unfolding listJSONRecords_def fs_read_dir_def wp_bind wp_syscall Let_def
  apply (cases "fs_fault s (fs_clock s)"; cases "path_join [st_root S, dirName] \<in> set (fs_dirs s)")
     apply (simp_all add: wp_return wp_bind)
  apply (rule wp_mono [OF wp_list_entries])
  apply (simp add: wp_return)
  done

lemma wp_get_keeps: "wp (get_at C validate path) (\<lambda>r t. fs_files t = fs_files s) s"
  unfolding get_at_def wp_bind by (rule wp_readJSON) (simp_all add: wp_return)

lemma wp_list_traces_keeps: "wp (list_traces L C S es) (\<lambda>r t. fs_files t = fs_files s) s"
proof (induction es arbitrary: s)
  case (Cons e es)
  obtain name isdir where e: "e = (name, isdir)" by (cases e)
  have get: "wp (GetTrace L C S name) (\<lambda>r t. fs_files t = fs_files s) s" for s
    by (auto simp: GetTrace_def wp_return wp_get_keeps split: option.split)
  show ?case
  proof (cases isdir)
    case True
    show ?thesis
      unfolding e list_traces.simps wp_if wp_bind
      using True by (auto intro!: wp_mono [OF get])
        (auto simp: wp_return wp_bind split: sum.split intro!: wp_mono [OF Cons.IH])
  qed (simp add: e Cons.IH)
qed (simp add: wp_return)

lemma wp_ListTraces_keeps: "wp (ListTraces L C S) (\<lambda>r t. fs_files t = fs_files s) s"
  unfolding ListTraces_def fs_read_dir_def wp_bind wp_syscall Let_def
  apply (cases "fs_fault s (fs_clock s)"; cases "path_join [st_root S, tracesDir] \<in> set (fs_dirs s)")
     apply (simp_all add: wp_return wp_bind)
  apply (rule wp_mono [OF wp_list_traces_keeps])
  apply (simp add: wp_return)
  done
text \<open>
  A successful listing of capabilities holds exactly the records the files of the directory
  decode to (those not directories whose extension is \<^verbatim>\<open>.json\<close>), each valid, in the order of
  their ids; a directory that does not exist lists as empty, and no file changes.
\<close>

theorem list_capabilities:
  assumes "run_state (ListCapabilities L C S) s = (Inr recs, t)"
  shows "fs_files t = fs_files s \<and> sorted (map cp_id recs) \<and> (\<forall>c\<in>set recs. ValidateCapability L c = None) \<and>
    (let dir = path_join [st_root S, capabilitiesDir];
         files = filter record_entry (dir_entries dir s) in
     mset (map Some recs) =
       (if dir \<in> set (fs_dirs s) then mset (map (\<lambda>e. file_record C s (path_join [dir, fst e])) files) else {#}))"
proof -
  let ?dir = "path_join [st_root S, capabilitiesDir]"
  have same: "file_record C u p = file_record C s p" if "fs_files u = fs_files s" for u p
    using that by (simp add: file_record_def)
  have entries: "dir_entries ?dir (s\<lparr>fs_clock := n\<rparr>) = dir_entries ?dir s" for n
    by (simp add: dir_entries_def)
  let ?post = "\<lambda>r t. case r of Inl e \<Rightarrow> True | Inr recs \<Rightarrow>
      fs_files t = fs_files s \<and> sorted (map cp_id recs) \<and> (\<forall>c\<in>set recs. ValidateCapability L c = None) \<and>
      mset (map Some recs) =
       (if ?dir \<in> set (fs_dirs s)
        then mset (map (\<lambda>e. file_record C s (path_join [?dir, fst e])) (filter record_entry (dir_entries ?dir s)))
        else {#})"
  have "wp (ListCapabilities L C S) ?post s"
    unfolding ListCapabilities_def listJSONRecords_def fs_read_dir_def wp_bind wp_syscall Let_def
    apply (cases "fs_fault s (fs_clock s)"; cases "?dir \<in> set (fs_dirs s)")
       apply (simp_all add: wp_return wp_bind entries err_not_exist_def)
    apply (rule wp_mono [OF wp_list_entries])
    subgoal for r u
    proof (cases r)
      case (Inr rs)
      assume r: "fs_files u = fs_files (s\<lparr>fs_clock := Suc (fs_clock s)\<rparr>) \<and> (case r of Inl e \<Rightarrow> True
        | Inr recs \<Rightarrow> map Some recs = map (\<lambda>e. file_record C (s\<lparr>fs_clock := Suc (fs_clock s)\<rparr>) (path_join [?dir, fst e]))
            (filter record_entry (dir_entries ?dir s)) \<and> (\<forall>a\<in>set recs. ValidateCapability L a = None))"
      have "mset (map Some (sort_key cp_id rs)) = mset (map Some rs)" by simp
      with r Inr show ?thesis by (simp add: wp_return same [of "s\<lparr>fs_clock := Suc (fs_clock s)\<rparr>"] del: mset_map)
    qed (simp add: wp_return)
    done
  from wp_run [OF this assms] show ?thesis by (simp add: Let_def)
qed

text \<open>
  A write that was interrupted leaves a temporary file whose name ends in \<^verbatim>\<open>.json\<close>: the next
  listing of the directory reads it as a record.
\<close>

definition stale_fs :: fsys where
  "stale_fs = saved_fs\<lparr>fs_files := fs_files saved_fs @ [(''/h/capabilities/.tmp-7.json'', ''c.d'')]\<rparr>"

definition stale_listing :: "capability list" where
  "stale_listing =
     (case fst (run_state (ListCapabilities plain_lib name_codec \<lparr>st_root = ''/h''\<rparr>) stale_fs) of
        Inl e \<Rightarrow> [] | Inr recs \<Rightarrow> recs)"

theorem list_capabilities_witness:
  "map cp_id stale_listing = [''a.b'', ''c.d''] \<and> sorted (map cp_id stale_listing)"
proof -
  have ids: "map cp_id stale_listing = [''a.b'', ''c.d'']" by code_simp
  have "run_state (ListCapabilities plain_lib name_codec \<lparr>st_root = ''/h''\<rparr>) stale_fs
    = (Inr stale_listing, snd (run_state (ListCapabilities plain_lib name_codec \<lparr>st_root = ''/h''\<rparr>) stale_fs))"
    using ids unfolding stale_listing_def
    by (cases "run_state (ListCapabilities plain_lib name_codec \<lparr>st_root = ''/h''\<rparr>) stale_fs")
      (auto split: sum.splits)
  from list_capabilities [OF this] ids show ?thesis by blast
qed

subsection \<open>Paths stay below the root\<close>

text \<open>
  The path of a record is the root of the store, one of its directories and the file of the id:
  an id that is accepted neither leaves that directory nor names another component.
\<close>

theorem record_path_inside:
  assumes "New root = Inr S" and "d \<in> {providersDir, capabilitiesDir, runsDir}"
    and "recordPath L S d i = Inr p"
  shows "comps p = comps root @ [d, i @ ''.json''] \<and> is_rooted p = is_rooted root"
proof -
  have d: "proper d" using assms(2) by (auto simp: proper_def)
  have i: "record_id i" and p: "p = path_join [st_root S, d, i @ jsonExt]"
    using assms(3) validateRecordID_None [of L i] by (auto simp: recordPath_def split: option.splits)
  have S: "st_root S = path_clean root" using assms(1) by (auto simp: New_def split: if_splits)
  have pr: "list_all proper [d, i @ ''.json'']" using d record_id_proper(2) [OF i] by simp
  have j: "join ''/'' [d, i @ ''.json''] = d @ slash # i @ ''.json''" by simp
  have p': "p = path_join [st_root S, join ''/'' [d, i @ ''.json'']]"
    using d by (simp add: p path_join_def proper_def S)
  have "comps p = comps (path_clean root) @ [d, i @ ''.json'']"
    using comps_join_inside [of "path_clean root", OF _ pr] unfolding p' S by simp
  moreover have "is_rooted p = is_rooted root"
  proof -
    have "is_rooted (q @ slash # x) = is_rooted q" if "q \<noteq> []" for q x
      using that by (cases q) (simp_all add: is_rooted_def)
    from this [of "path_clean root"] show ?thesis by (simp add: p S path_join_def)
  qed
  ultimately show ?thesis by simp
qed

theorem record_path_inside_witness:
  "comps ''/h/runs/run_1.json'' = comps ''/h/'' @ [runsDir, ''run_1'' @ ''.json'']
   \<and> is_rooted ''/h/runs/run_1.json'' = is_rooted ''/h/''"
proof (rule record_path_inside)
  show "New ''/h/'' = Inr \<lparr>st_root = ''/h''\<rparr>" by code_simp
  show "recordPath plain_lib \<lparr>st_root = ''/h''\<rparr> runsDir ''run_1'' = Inr ''/h/runs/run_1.json''" by code_simp
qed simp

subsection \<open>Saving succeeds\<close>

text \<open>
  A valid capability with a visible id is saved: without a fault of the file system, with no
  file where the record directory or one above it is needed, no directory at the record's path,
  fewer than 10000 files and a value that encodes, \<open>SaveCapability\<close> returns nil and the id reads
  as the round trip of the record.
\<close>

theorem save_capability_succeeds:
  assumes "ValidateCapability L c = None" and vis: "visible (cp_id c)" and "to_json C c = Inr text"
    and "fs_fault s = (\<lambda>_. None)" and "length (fs_files s) < 10000"
    and "\<forall>q\<in>set (ancestors (path_join [st_root S, capabilitiesDir])). map_of (fs_files s) q = None"
    and "json_path S capabilitiesDir (cp_id c) \<notin> set (fs_dirs s)"
  shows "\<exists>t. run_state (SaveCapability L C S (Some c)) s = (None, t) \<and>
    capability_view C S t = (capability_view C S s)(cp_id c := reread C c)"
proof -
  have d: "proper capabilitiesDir" by (simp add: proper_def)
  have i: "record_id (cp_id c)" using vis by (simp add: visible_def)
  note split = json_path_split [OF d i, of S]
  have "SaveCapability L C S (Some c) = WriteAtomic (json_path S capabilitiesDir (cp_id c)) (Inr text)"
    using assms(1,3) i
    by (simp add: SaveCapability_def saveJSONRecord_def recordPath_def record_id_valid json_path_def)
  moreover have "wp (WriteAtomic (json_path S capabilitiesDir (cp_id c)) (Inr text)) (\<lambda>r t. r = None) s"
    using assms(4-7) split by (intro WriteAtomic_succeeds) simp_all
  ultimately have "wp (SaveCapability L C S (Some c)) (\<lambda>r t. r = None) s" by simp
  from wp_conj [OF this capabilities.save_law [OF vis]]
  show ?thesis
    by (cases "run_state (SaveCapability L C S (Some c)) s") (auto simp: wp_def)
qed

theorem save_capability_succeeds_witness:
  "\<exists>t. run_state (SaveCapability plain_lib name_codec \<lparr>st_root = ''/h''\<rparr> (Some (named_capability ''a.b''))) empty_fs
      = (None, t) \<and>
    capability_view name_codec \<lparr>st_root = ''/h''\<rparr> t =
      (capability_view name_codec \<lparr>st_root = ''/h''\<rparr> empty_fs)(''a.b'' := reread name_codec (named_capability ''a.b''))"
proof -
  have "ValidateCapability plain_lib (named_capability ''a.b'') = None" by code_simp
  moreover have "visible (cp_id (named_capability ''a.b''))" by code_simp
  moreover have "to_json name_codec (named_capability ''a.b'') = Inr ''a.b''" by code_simp
  ultimately show ?thesis
    using save_capability_succeeds [of plain_lib "named_capability ''a.b''" name_codec "''a.b''" empty_fs "\<lparr>st_root = ''/h''\<rparr>"]
    by (simp add: empty_fs_def named_capability_def)
qed

end
