(* ===== verification/Cal_Run.thy ===== *)
theory Cal_Run
  imports Cal_Execute Cal_Check Cal_Store
begin

text \<open>
  \<^verbatim>\<open>internal/run\<close> and \<^verbatim>\<open>internal/run/resolve\<close>: the choice of a promoted binding and a formal
  run of it. The runner's dependencies are a record: the store's operations, the resolver, the
  executor and the checker, each of which may be nil. The runner emits progress events and
  records every run it starts, unless the store fails.
\<close>

section \<open>Choosing a binding\<close>

definition ErrBindingNotFound :: gerr where
  "ErrBindingNotFound = EVar ''resolve.ErrBindingNotFound'' ''binding not found''"

record resolve_request =
  sq_capability :: "capability option"
  sq_binding_id :: string
  sq_provider_id :: string
  sq_inputs :: ginputs
  sq_min_level :: string

record resolve_result =
  sr_capability :: capability
  sr_binding :: binding
  sr_required :: "string list"

definition eligible :: "resolve_request \<Rightarrow> binding \<Rightarrow> bool" where
  "eligible req b =
     (if bd_state b \<noteq> state_promoted then False
      else if \<not> blank (sq_binding_id req) \<and> bd_id b \<noteq> trim_space (sq_binding_id req) then False
      else if \<not> blank (sq_provider_id req) \<and> bd_provider_id b \<noteq> trim_space (sq_provider_id req) then False
      else if sq_min_level req \<noteq> [] then
        (case bd_verify b of
           None \<Rightarrow> False
         | Some v \<Rightarrow> \<not> VerifyLevelRank (vf_level v) < VerifyLevelRank (sq_min_level req))
      else True)"

fun inputsSatisfied :: "string list \<Rightarrow> ginputs \<Rightarrow> bool" where
  "inputsSatisfied [] inputs = True"
| "inputsSatisfied (name # names) inputs = (if \<not> present inputs name then False else inputsSatisfied names inputs)"

fun resolve_loop ::
    "resolve_request \<Rightarrow> capability \<Rightarrow> resolve_result option \<Rightarrow> binding list \<Rightarrow> resolve_result res" where
  "resolve_loop req c first [] =
     (case first of
        Some r \<Rightarrow> Inr r
      | None \<Rightarrow> Inl (EWrap [] ErrBindingNotFound ('': '' @ cp_id c)))"
| "resolve_loop req c first (b # bs) =
     (if \<not> eligible req b then resolve_loop req c first bs
      else (case RequiredInputs (Some (bd_execution b)) of
              Inl e \<Rightarrow> Inl e
            | Inr required \<Rightarrow>
                (let result = \<lparr>sr_capability = c, sr_binding = b, sr_required = required\<rparr>;
                     first' = (case first of None \<Rightarrow> Some result | Some r \<Rightarrow> Some r)
                 in if inputsSatisfied required (sq_inputs req) then Inr result
                    else resolve_loop req c first' bs)))"

definition resolve_Run :: "resolve_request option \<Rightarrow> resolve_result res" where
  "resolve_Run req0 =
     (case req0 of
        None \<Rightarrow> Inl (EVar ''resolve.ErrNilRequest'' ''resolve request is required'')
      | Some req \<Rightarrow>
          (case sq_capability req of
             None \<Rightarrow> Inl (EVar ''resolve.ErrNilCapability'' ''resolve capability is required'')
           | Some c \<Rightarrow> resolve_loop req c None (cp_bindings c)))"

section \<open>The outputs of a run\<close>

definition textOutput :: "outputs \<Rightarrow> string \<Rightarrow> string" where
  "textOutput outs name = (case map_of outs name of None \<Rightarrow> [] | Some out \<Rightarrow> ot_text out)"

definition numberOutput :: "outputs \<Rightarrow> string \<Rightarrow> int" where
  "numberOutput outs name =
     (case map_of outs name of
        None \<Rightarrow> 0
      | Some out \<Rightarrow> (case ot_number out of None \<Rightarrow> 0 | Some n \<Rightarrow> n))"

definition checkRequest :: "verify_spec option \<Rightarrow> ginputs \<Rightarrow> outputs \<Rightarrow> check_request" where
  "checkRequest spec inputs outs =
     \<lparr>cq_spec = spec, cq_inputs = inputs, cq_stdout = textOutput outs ''stdout'',
      cq_stderr = textOutput outs ''stderr'', cq_exit_code = numberOutput outs ''exit_code''\<rparr>"

definition durable_value :: "exec_output \<Rightarrow> gval option" where
  "durable_value out =
     (if ot_kind out = ''text'' then Some (GStr (ot_text out))
      else if ot_kind out = ''number'' then map_option GInt (ot_number out)
      else if ot_kind out = ''file'' then Some (GStr (ot_path out))
      else if ot_kind out = ''link'' then Some (GStr (ot_text out))
      else None)"

definition durableOutputs :: "outputs \<Rightarrow> ginputs" where
  "durableOutputs outs =
     foldl (\<lambda>values (name, out). case durable_value out of None \<Rightarrow> values | Some v \<Rightarrow> put name v values) [] outs"

definition mergeOutputs :: "outputs \<Rightarrow> ginputs \<Rightarrow> ginputs" where
  "mergeOutputs outs checked = foldl (\<lambda>m (k, v). put k v m) (durableOutputs outs) checked"

definition nonZeroExit :: "outputs \<Rightarrow> bool" where
  "nonZeroExit outs =
     (case map_of outs ''exit_code'' of
        None \<Rightarrow> False
      | Some out \<Rightarrow> (case ot_number out of None \<Rightarrow> False | Some n \<Rightarrow> n \<noteq> 0))"

section \<open>The runner\<close>

record run_request =
  rq_capability_id :: string
  rq_binding_id :: string
  rq_provider_id :: string
  rq_inputs :: "ginputs option"
  rq_verify :: bool
  rq_min_level :: string

record run_result =
  rr_run :: run
  rr_outputs :: outputs
  rr_evidence :: "evidence_ref list"

record 's run_store =
  rs_get_capability :: "string \<Rightarrow> ('s, capability option res) state"
  rs_get_provider :: "string \<Rightarrow> ('s, provider option res) state"
  rs_save_run :: "run option \<Rightarrow> ('s, gerr option) state"

type_synonym 's executor = "exec_request option \<Rightarrow> ('s world, exec_outcome) state"
type_synonym 's check_runner = "check_request option \<Rightarrow> ('s world, check_result option \<times> gerr option) state"

record 's run_runner =
  ru_store :: "'s run_store option"
  ru_resolver :: "(resolve_request option \<Rightarrow> resolve_result res) option"
  ru_executor :: "'s executor option"
  ru_checker :: "'s check_runner option"

definition run_NewDefaultRunner ::
    "'s run_store option \<Rightarrow> 's executor option \<Rightarrow> 's check_runner option \<Rightarrow> 's run_runner" where
  "run_NewDefaultRunner st exe chk =
     \<lparr>ru_store = st, ru_resolver = Some resolve_Run, ru_executor = exe, ru_checker = chk\<rparr>"

definition newRun :: "golib \<Rightarrow> run_request \<Rightarrow> int \<Rightarrow> run" where
  "newRun L req started =
     \<lparr>rn_id = RunID started, rn_capability_id = trim_space (rq_capability_id req), rn_binding_id = [],
      rn_provider_id = [], rn_inputs = (case rq_inputs req of None \<Rightarrow> [] | Some m \<Rightarrow> m), rn_outputs = [],
      rn_evidence = [], rn_status = [], rn_verified = False, rn_started_at = rfc3339 L started,
      rn_finished_at = [], rn_duration_ms = 0, rn_error = None\<rparr>"

definition finishSucceeded :: "golib \<Rightarrow> env \<Rightarrow> run \<Rightarrow> int \<Rightarrow> ('s world, run) state" where
  "finishSucceeded L E r started = do {
     finished \<leftarrow> now E;
     ret (r\<lparr>rn_status := ''succeeded'', rn_finished_at := rfc3339 L finished,
           rn_duration_ms := millis (finished - started), rn_error := None\<rparr>)}"

definition finishFailed :: "golib \<Rightarrow> env \<Rightarrow> run \<Rightarrow> int \<Rightarrow> string \<Rightarrow> string \<Rightarrow> ('s world, run) state" where
  "finishFailed L E r started code message = do {
     finished \<leftarrow> now E;
     ret (r\<lparr>rn_status := ''failed'', rn_verified := False, rn_finished_at := rfc3339 L finished,
           rn_duration_ms := millis (finished - started),
           rn_error := Some \<lparr>re_code = code, re_message = message\<rparr>\<rparr>)}"

definition runRecordError :: "string \<Rightarrow> string \<Rightarrow> record_error option" where
  "runRecordError code message = Some \<lparr>re_code = code, re_message = message\<rparr>"

definition first_set :: "string \<Rightarrow> string option \<Rightarrow> string" where
  "first_set a b = (if a \<noteq> [] then a else (case b of None \<Rightarrow> [] | Some s \<Rightarrow> s))"

definition run_event ::
    "golib \<Rightarrow> run_request option \<Rightarrow> run \<Rightarrow> progress_stage \<Rightarrow> progress_status \<Rightarrow> int
      \<Rightarrow> record_error option \<Rightarrow> int \<Rightarrow> progress_event" where
  "run_event L req r stage status started err t =
     \<lparr>pe_id = ProgressID t, pe_scope = ScopeRun, pe_stage = stage, pe_step = StepNone,
       pe_status = status, pe_message = [], pe_details = [], pe_trace_id = [], pe_run_id = rn_id r, pe_use_id = [],
       pe_provider_id = first_set (rn_provider_id r) (map_option rq_provider_id req),
       pe_capability_id = first_set (rn_capability_id r) (map_option rq_capability_id req),
       pe_binding_id = first_set (rn_binding_id r) (map_option rq_binding_id req),
       pe_duration_ms = (if status \<noteq> Started then millis (t - started) else 0),
       pe_error = err, pe_created_at = rfc3339 L t\<rparr>"

definition run_emitProgress ::
    "golib \<Rightarrow> env \<Rightarrow> run_request option \<Rightarrow> run \<Rightarrow> progress_stage \<Rightarrow> progress_status \<Rightarrow> int
      \<Rightarrow> record_error option \<Rightarrow> ('s world, unit) state" where
  "run_emitProgress L E req r stage status started err = do {
     t \<leftarrow> now E;
     log_event (run_event L req r stage status started err t)}"

definition run_validate :: "'s run_runner option \<Rightarrow> run_request option \<Rightarrow> gerr option" where
  "run_validate R0 req0 =
     (case R0 of
        None \<Rightarrow> Some (EVar ''run.ErrMissingStore'' ''run store is not configured'')
      | Some R \<Rightarrow>
          if ru_store R = None then Some (EVar ''run.ErrMissingStore'' ''run store is not configured'')
          else if ru_resolver R = None then Some (EVar ''run.ErrMissingResolver'' ''run resolver is not configured'')
          else if ru_executor R = None then Some (EVar ''run.ErrMissingExecutor'' ''run executor is not configured'')
          else (case req0 of
                  None \<Rightarrow> Some (EVar ''run.ErrNilRequest'' ''run request is required'')
                | Some req \<Rightarrow>
                    if blank (rq_capability_id req) then Some (EText ''invalid_run_input: capability_id is required'')
                    else if rq_inputs req = None then Some (EText ''invalid_run_input: inputs must be an object'')
                    else if rq_verify req \<and> ru_checker R = None
                    then Some (EVar ''run.ErrMissingChecker'' ''run checker is not configured'')
                    else None))"

text \<open>\<open>save\<close>, and \<open>fail\<close>, which is a save of the failed record without outputs.\<close>

definition run_save ::
    "golib \<Rightarrow> env \<Rightarrow> 's run_store \<Rightarrow> run \<Rightarrow> outputs \<Rightarrow> evidence_ref list \<Rightarrow> ('s world, run_result res) state" where
  "run_save L E st r outs evidence = do {
     stageStarted \<leftarrow> now E;
     _ \<leftarrow> run_emitProgress L E None r StageRecord Started stageStarted None;
     err \<leftarrow> call (rs_save_run st (Some r));
     (case err of
        Some e \<Rightarrow> do {
          _ \<leftarrow> run_emitProgress L E None r StageRecord Failed stageStarted (runRecordError ''run_store_failed'' (err_text e));
          ret (Inl (EWrap ''run_store_failed: '' e []))}
      | None \<Rightarrow> do {
          _ \<leftarrow> run_emitProgress L E None r StageRecord Succeeded stageStarted None;
          ret (Inr \<lparr>rr_run = r, rr_outputs = outs, rr_evidence = evidence\<rparr>)})}"

definition run_fail ::
    "golib \<Rightarrow> env \<Rightarrow> 's run_store \<Rightarrow> run \<Rightarrow> int \<Rightarrow> string \<Rightarrow> string \<Rightarrow> ('s world, run_result res) state" where
  "run_fail L E st r started code message = do {
     failed \<leftarrow> finishFailed L E r started code message;
     run_save L E st failed [] []}"

fun missingInputs :: "string list \<Rightarrow> ginputs \<Rightarrow> string list" where
  "missingInputs [] inputs = []"
| "missingInputs (name # names) inputs =
     (if \<not> present inputs name then name # missingInputs names inputs else missingInputs names inputs)"

text \<open>A stage that fails: its event, then the failed record.\<close>

definition run_fail_stage ::
    "golib \<Rightarrow> env \<Rightarrow> 's run_store \<Rightarrow> run_request \<Rightarrow> run \<Rightarrow> progress_stage \<Rightarrow> int \<Rightarrow> int \<Rightarrow> string \<Rightarrow> string
      \<Rightarrow> ('s world, run_result res) state" where
  "run_fail_stage L E st req r stage started stageStarted code message = do {
     _ \<leftarrow> run_emitProgress L E (Some req) r stage Failed stageStarted (runRecordError code message);
     run_fail L E st r started code message}"

text \<open>The rest of \<open>Run\<close> after a successful execution.\<close>

definition run_finish ::
    "golib \<Rightarrow> env \<Rightarrow> 's run_store \<Rightarrow> 's check_runner \<Rightarrow> run_request \<Rightarrow> ginputs \<Rightarrow> run \<Rightarrow> int \<Rightarrow> binding \<Rightarrow> outputs
      \<Rightarrow> ('s world, run_result res) state" where
  "run_finish L E st checker req inputs r started b outs =
     (if rq_verify req then do {
        stageStarted \<leftarrow> now E;
        _ \<leftarrow> run_emitProgress L E (Some req) r StageVerify Started stageStarted None;
        (if bd_verify b = None
         then run_fail_stage L E st req r StageVerify started stageStarted ''verification_failed''
                ''selected binding does not declare verify spec''
         else do {
           checked \<leftarrow> checker (Some (checkRequest (bd_verify b) inputs outs));
           (case checked of
              (_, Some e) \<Rightarrow> run_fail_stage L E st req r StageVerify started stageStarted
                ''verification_failed'' (err_text e)
            | (None, None) \<Rightarrow> run_fail_stage L E st req r StageVerify started stageStarted
                ''verification_failed'' ''check result is required''
            | (Some result, None) \<Rightarrow> do {
                let r1 = r\<lparr>rn_evidence := cr_evidence result, rn_outputs := mergeOutputs outs (cr_outputs result),
                           rn_verified := True\<rparr>;
                _ \<leftarrow> run_emitProgress L E (Some req) r1 StageVerify Succeeded stageStarted None;
                r2 \<leftarrow> finishSucceeded L E r1 started;
                run_save L E st r2 outs (cr_evidence result)})})}
      else if nonZeroExit outs
      then run_fail L E st r started ''execution_failed'' ''execution exited with non-zero status''
      else do {
        r1 \<leftarrow> finishSucceeded L E r started;
        run_save L E st r1 outs []})"

text \<open>The rest of \<open>Run\<close> once a binding and its provider are known and the inputs are complete.\<close>

definition run_execute ::
    "golib \<Rightarrow> env \<Rightarrow> 's run_store \<Rightarrow> 's executor \<Rightarrow> 's check_runner \<Rightarrow> run_request \<Rightarrow> ginputs \<Rightarrow> run \<Rightarrow> int
      \<Rightarrow> binding \<Rightarrow> provider \<Rightarrow> ('s world, run_result res) state" where
  "run_execute L E st executor checker req inputs r started b prov = do {
     stageStarted \<leftarrow> now E;
     _ \<leftarrow> run_emitProgress L E (Some req) r StageExecute Started stageStarted None;
     outcome \<leftarrow> executor (Some \<lparr>er_provider = Some prov, er_execution = Some (bd_execution b), er_inputs = inputs\<rparr>);
     (case outcome of
        (_, Some e) \<Rightarrow> run_fail_stage L E st req r StageExecute started stageStarted ''execution_failed'' (err_text e)
      | (None, None) \<Rightarrow> run_fail_stage L E st req r StageExecute started stageStarted ''execution_failed''
          ''execute result is required''
      | (Some outs, None) \<Rightarrow> do {
          let r1 = r\<lparr>rn_outputs := durableOutputs outs\<rparr>;
          _ \<leftarrow> run_emitProgress L E (Some req) r1 StageExecute Succeeded stageStarted None;
          run_finish L E st checker req inputs r1 started b outs})}"

definition run_start ::
    "golib \<Rightarrow> env \<Rightarrow> 's run_store \<Rightarrow> (resolve_request option \<Rightarrow> resolve_result res) \<Rightarrow> 's executor \<Rightarrow> 's check_runner
      \<Rightarrow> run_request \<Rightarrow> ginputs \<Rightarrow> ('s world, run_result res) state" where
  "run_start L E st resolver executor checker req inputs = do {
     started \<leftarrow> now E;
     let r = newRun L req started;
     stageStarted \<leftarrow> now E;
     _ \<leftarrow> run_emitProgress L E (Some req) r StageResolve Started stageStarted None;
     found \<leftarrow> call (rs_get_capability st (trim_space (rq_capability_id req)));
     (case found of
        Inl e \<Rightarrow> do {
          _ \<leftarrow> run_emitProgress L E (Some req) r StageResolve Failed stageStarted (runRecordError ''run_store_failed'' (err_text e));
          ret (Inl e)}
      | Inr None \<Rightarrow> run_fail_stage L E st req r StageResolve started stageStarted ''capability_not_found''
          (''capability '' @ quote L (rq_capability_id req) @ '' was not found'')
      | Inr (Some c) \<Rightarrow>
          (case resolver (Some \<lparr>sq_capability = Some c, sq_binding_id = rq_binding_id req,
                sq_provider_id = rq_provider_id req, sq_inputs = inputs, sq_min_level = rq_min_level req\<rparr>) of
             Inl e \<Rightarrow> run_fail_stage L E st req r StageResolve started stageStarted ''binding_not_found'' (err_text e)
           | Inr resolution \<Rightarrow> do {
               let b = sr_binding resolution;
               let r1 = r\<lparr>rn_binding_id := bd_id b, rn_provider_id := bd_provider_id b\<rparr>;
               prov \<leftarrow> call (rs_get_provider st (bd_provider_id b));
               (case prov of
                  Inl e \<Rightarrow> do {
                    _ \<leftarrow> run_emitProgress L E (Some req) r1 StageResolve Failed stageStarted
                          (runRecordError ''run_store_failed'' (err_text e));
                    ret (Inl e)}
                | Inr None \<Rightarrow> run_fail_stage L E st req r1 StageResolve started stageStarted ''provider_not_found''
                    (''provider '' @ quote L (bd_provider_id b) @ '' was not found'')
                | Inr (Some p) \<Rightarrow>
                    if missingInputs (sr_required resolution) inputs \<noteq> []
                    then run_fail_stage L E st req r1 StageResolve started stageStarted ''invalid_run_input''
                      (''missing required input: '' @ join '', '' (missingInputs (sr_required resolution) inputs))
                    else do {
                      _ \<leftarrow> run_emitProgress L E (Some req) r1 StageResolve Succeeded stageStarted None;
                      run_execute L E st executor checker req inputs r1 started b p})}))}"

definition no_checker :: "'s check_runner" where
  "no_checker req = ret (None, None)"

definition run_Run :: "golib \<Rightarrow> env \<Rightarrow> 's run_runner option \<Rightarrow> run_request option \<Rightarrow> ('s world, run_result res) state" where
  "run_Run L E R0 req0 =
     (case run_validate R0 req0 of
        Some e \<Rightarrow> ret (Inl e)
      | None \<Rightarrow>
          (let R = the R0; req = the req0 in
           run_start L E (the (ru_store R)) (the (ru_resolver R)) (the (ru_executor R))
             (case ru_checker R of None \<Rightarrow> no_checker | Some c \<Rightarrow> c) req (the (rq_inputs req))))"

section \<open>The binding chosen\<close>

definition required_of :: "binding \<Rightarrow> string list" where
  "required_of b = (case RequiredInputs (Some (bd_execution b)) of Inl e \<Rightarrow> [] | Inr names \<Rightarrow> names)"

definition resolution_of :: "capability \<Rightarrow> binding \<Rightarrow> resolve_result" where
  "resolution_of c b = \<lparr>sr_capability = c, sr_binding = b, sr_required = required_of b\<rparr>"

lemma inputsSatisfied_iff: "inputsSatisfied names inputs \<longleftrightarrow> (\<forall>n\<in>set names. present inputs n)"
  by (induction names) auto

lemma missingInputs_filter: "missingInputs names inputs = filter (\<lambda>n. \<not> present inputs n) names"
  by (induction names) auto

lemma resolve_loop_choice:
  assumes "\<forall>b\<in>set (filter (eligible req) bs). \<exists>names. RequiredInputs (Some (bd_execution b)) = Inr names"
  shows "resolve_loop req c first bs =
    (case find (\<lambda>b. inputsSatisfied (required_of b) (sq_inputs req)) (filter (eligible req) bs) of
       Some b \<Rightarrow> Inr (resolution_of c b)
     | None \<Rightarrow> (case first of
         Some r \<Rightarrow> Inr r
       | None \<Rightarrow> (case filter (eligible req) bs of
           [] \<Rightarrow> Inl (EWrap [] ErrBindingNotFound ('': '' @ cp_id c))
         | b # _ \<Rightarrow> Inr (resolution_of c b))))"
  using assms
proof (induction bs arbitrary: first)
  case (Cons b bs)
  show ?case
  proof (cases "eligible req b")
    case False
    then have f: "filter (eligible req) (b # bs) = filter (eligible req) bs" by simp
    with Cons False show ?thesis unfolding f by simp
  next
    case True
    then have f: "filter (eligible req) (b # bs) = b # filter (eligible req) bs" by simp
    from True obtain names where n: "RequiredInputs (Some (bd_execution b)) = Inr names" using Cons.prems by auto
    have r: "resolution_of c b = \<lparr>sr_capability = c, sr_binding = b, sr_required = names\<rparr>" "required_of b = names"
      using n by (simp_all add: resolution_of_def required_of_def)
    show ?thesis
      unfolding f
      using True n r Cons
      by (cases "inputsSatisfied names (sq_inputs req)"; cases first)
        (simp_all add: Let_def split: option.split)
  qed
qed (simp split: option.split)


lemma resolve_loop_member:
  "resolve_loop req c first bs = Inr r \<Longrightarrow>
   (first = Some r) \<or> (sr_capability r = c \<and> sr_binding r \<in> set bs \<and> eligible req (sr_binding r) \<and>
     RequiredInputs (Some (bd_execution (sr_binding r))) = Inr (sr_required r))"
  by (induction bs arbitrary: first) (fastforce split: if_splits sum.splits option.splits simp: Let_def)+

section \<open>What a run records and emits\<close>

text \<open>Stages with the status of their events; a stage is a start and one end.\<close>

definition stage_log :: "'s world \<Rightarrow> (progress_stage \<times> progress_status) list" where
  "stage_log w = map (\<lambda>e. (pe_stage e, pe_status e)) (w_events w)"

definition stage_pairs :: "(progress_stage \<times> bool) list \<Rightarrow> (progress_stage \<times> progress_status) list" where
  "stage_pairs fin = concat (map (\<lambda>(st, ok). [(st, Started), (st, if ok then Succeeded else Failed)]) fin)"

definition run_consistent :: "run_request \<Rightarrow> run_result \<Rightarrow> bool" where
  "run_consistent req x \<longleftrightarrow>
     (let r = rr_run x in
      rn_capability_id r = trim_space (rq_capability_id req) \<and>
      (\<exists>t. rn_id r = RunID t) \<and>
      (rn_status r = ''succeeded'' \<and> rn_error r = None \<and>
         rn_verified r = rq_verify req \<and> rn_evidence r = rr_evidence x \<and>
         (\<not> rq_verify req \<longrightarrow> \<not> nonZeroExit (rr_outputs x) \<and> rr_evidence x = [])
       \<or> rn_status r = ''failed'' \<and> rn_error r \<noteq> None \<and> \<not> rn_verified r \<and> rr_outputs x = [] \<and> rr_evidence x = []))"

lemma wp_run_emit [wp_simps]:
  "wp (run_emitProgress L E req r stage status started err) Q w =
     Q () (w\<lparr>w_tick := Suc (w_tick w),
       w_events := w_events w @ [run_event L req r stage status started err (env_time E (w_tick w))]\<rparr>)"
  by (simp add: run_emitProgress_def wp_simps)

lemma stage_log_simps [simp]:
  "stage_log (w\<lparr>w_tick := n\<rparr>) = stage_log w"
  "stage_log (w\<lparr>w_ext := s\<rparr>) = stage_log w"
  "stage_log (w\<lparr>w_events := evs @ [run_event L req r stage status started err t]\<rparr>)
     = map (\<lambda>e. (pe_stage e, pe_status e)) evs @ [(stage, status)]"
  by (simp_all add: stage_log_def run_event_def)

lemma wp_run_save:
  assumes "\<And>e v. stage_log v = stage_log w @ stage_pairs [(StageRecord, False)] \<Longrightarrow> Q (Inl e) v"
    and "\<And>v s0. stage_log v = stage_log w @ stage_pairs [(StageRecord, True)] \<Longrightarrow>
           run_state (rs_save_run st (Some r)) s0 = (None, w_ext v) \<Longrightarrow>
           Q (Inr \<lparr>rr_run = r, rr_outputs = outs, rr_evidence = ev\<rparr>) v"
  shows "wp (run_save L E st r outs ev) Q w"
proof -
  show ?thesis
    unfolding run_save_def
    apply (simp add: wp_simps)
    apply (simp add: wp_def [of "rs_save_run st (Some r)"] split: prod.split option.split)
    apply (intro allI impI conjI)
     apply (auto simp: wp_simps stage_pairs_def stage_log_def run_event_def intro!: assms(2))[1]
    apply (auto simp: wp_simps stage_pairs_def stage_log_def run_event_def intro!: assms(1))[1]
    done
qed

definition fresh_run :: "run_request \<Rightarrow> run \<Rightarrow> bool" where
  "fresh_run req r \<longleftrightarrow> rn_capability_id r = trim_space (rq_capability_id req) \<and> (\<exists>t. rn_id r = RunID t)
     \<and> \<not> rn_verified r \<and> rn_evidence r = []"

text \<open>How a run ends once it records: the record stage, and what a result then says.\<close>

definition run_recorded ::
    "'s run_store \<Rightarrow> run_request \<Rightarrow> (progress_stage \<times> progress_status) list \<Rightarrow> run_result res \<Rightarrow> 's world \<Rightarrow> bool" where
  "run_recorded st req pre x v \<longleftrightarrow>
     (case x of
        Inl e \<Rightarrow> stage_log v = pre @ stage_pairs [(StageRecord, False)]
      | Inr result \<Rightarrow> stage_log v = pre @ stage_pairs [(StageRecord, True)] \<and> run_consistent req result \<and>
          (\<exists>s0. run_state (rs_save_run st (Some (rr_run result))) s0 = (None, w_ext v)))"

lemma wp_run_fail:
  assumes "fresh_run req r"
  shows "wp (run_fail L E st r started code message) (run_recorded st req (stage_log w)) w"
  unfolding run_fail_def finishFailed_def
  apply (simp add: wp_simps)
  apply (rule wp_run_save)
   apply (simp add: run_recorded_def)
  apply (use assms in \<open>auto simp: run_recorded_def run_consistent_def fresh_run_def Let_def\<close>)
  done

lemma wp_run_fail_stage:
  assumes "fresh_run req r"
  shows "wp (run_fail_stage L E st rq r stage started t0 code message)
    (run_recorded st req (stage_log w @ [(stage, Failed)])) w"
  unfolding run_fail_stage_def
  apply (simp add: wp_simps)
  apply (rule wp_mono [OF wp_run_fail [OF assms]])
  apply (simp add: stage_log_def run_event_def)
  done

lemma wp_run_finish:
  assumes fresh: "fresh_run req r" and quiet: "\<And>q. quiet (checker q)"
  shows "wp (run_finish L E st checker req inputs r started b outs)
    (\<lambda>x v. \<exists>fin. map fst fin = (if rq_verify req then [StageVerify] else []) \<and>
       run_recorded st req (stage_log w @ stage_pairs fin) x v) w"
proof (cases "rq_verify req")
  case False
  show ?thesis
  proof (cases "nonZeroExit outs")
    case True
    with False show ?thesis
      unfolding run_finish_def
      by (simp, intro wp_mono [OF wp_run_fail [OF fresh]]) (auto intro!: exI [of _ "[]"] simp: stage_pairs_def)
  next
    case nz: False
    with False show ?thesis
      unfolding run_finish_def finishSucceeded_def
      apply (simp add: wp_simps)
      apply (rule wp_run_save)
       apply (simp add: run_recorded_def stage_pairs_def)
      apply (use fresh in \<open>auto simp: run_recorded_def run_consistent_def fresh_run_def Let_def stage_pairs_def\<close>)
      done
  qed
next
  case True
  let ?Q = "\<lambda>x v. \<exists>fin. map fst fin = [StageVerify] \<and> run_recorded st req (stage_log w @ stage_pairs fin) x v"
  have fail: "wp (run_fail_stage L E st req r StageVerify started t0 code message) ?Q v"
    if "stage_log v = stage_log w @ [(StageVerify, Started)]" for t0 code message v
    by (rule wp_mono [OF wp_run_fail_stage [OF fresh]])
      (use that True in \<open>auto intro!: exI [of _ "[(StageVerify, False)]"] simp: stage_pairs_def\<close>)
  have ok: "wp (finishSucceeded L E (r\<lparr>rn_evidence := cr_evidence result,
          rn_outputs := mergeOutputs outs (cr_outputs result), rn_verified := True\<rparr>) started)
        (\<lambda>r2. wp (run_save L E st r2 outs (cr_evidence result)) ?Q) v"
    if "stage_log v = stage_log w @ [(StageVerify, Started), (StageVerify, Succeeded)]" for v and result :: check_result
    unfolding finishSucceeded_def
    apply (simp add: wp_simps True)
    apply (rule wp_run_save)
     apply (use that True in \<open>auto intro!: exI [of _ "[(StageVerify, True)]"]
        simp: run_recorded_def run_consistent_def stage_pairs_def\<close>)[1]
    apply (use that True fresh in \<open>auto intro!: exI [of _ "[(StageVerify, True)]"]
        simp: run_recorded_def run_consistent_def fresh_run_def Let_def stage_pairs_def\<close>)
    done
  have "wp (run_finish L E st checker req inputs r started b outs) ?Q w"
    using True
    unfolding run_finish_def
    apply (simp add: wp_simps)
    apply (intro conjI impI)
     apply (rule fail, simp add: stage_log_def run_event_def)
    apply (rule wp_quiet [OF quiet])
    subgoal for a v
      apply (cases a; cases "fst a"; cases "snd a")
         subgoal by (simp, rule fail, simp add: stage_log_def run_event_def)
        subgoal by (simp, rule fail, simp add: stage_log_def run_event_def)
       subgoal by (simp add: wp_simps Let_def, rule ok, simp add: stage_log_def run_event_def)
      subgoal by (simp, rule fail, simp add: stage_log_def run_event_def)
      done
    done
  with True show ?thesis by simp
qed

text \<open>The part of a run from the end of the resolve stage on.\<close>

definition run_tail ::
    "'s run_store \<Rightarrow> run_request \<Rightarrow> (progress_stage \<times> progress_status) list \<Rightarrow> run_result res \<Rightarrow> 's world \<Rightarrow> bool" where
  "run_tail st req pre x v \<longleftrightarrow>
     (\<exists>fin. map fst fin \<in> {[StageExecute], [StageExecute, StageVerify]} \<and>
        run_recorded st req (pre @ stage_pairs fin) x v)"

lemma wp_run_execute:
  assumes fresh: "fresh_run req r" and quiet: "\<And>q. quiet (executor q)" "\<And>q. quiet (checker q)"
  shows "wp (run_execute L E st executor checker req inputs r started b prov)
    (run_tail st req (stage_log w)) w"
    (is "wp _ ?Q w")
proof -
  have fail: "wp (run_fail_stage L E st req r StageExecute started t0 code message) ?Q v"
    if "stage_log v = stage_log w @ [(StageExecute, Started)]" for t0 code message v
    by (rule wp_mono [OF wp_run_fail_stage [OF fresh]])
      (use that in \<open>auto intro!: exI [of _ "[(StageExecute, False)]"] simp: run_tail_def stage_pairs_def\<close>)
  have ok: "wp (run_finish L E st checker req inputs (r\<lparr>rn_outputs := durableOutputs outs\<rparr>) started b outs) ?Q v"
    if v: "stage_log v = stage_log w @ [(StageExecute, Started), (StageExecute, Succeeded)]" for v outs
  proof (rule wp_mono [OF wp_run_finish])
    show "fresh_run req (r\<lparr>rn_outputs := durableOutputs outs\<rparr>)" using fresh by (simp add: fresh_run_def)
    show "quiet (checker q)" for q by (rule quiet)
    fix x u
    assume "\<exists>fin. map fst fin = (if rq_verify req then [StageVerify] else []) \<and>
      run_recorded st req (stage_log v @ stage_pairs fin) x u"
    then obtain fin where f: "map fst fin = (if rq_verify req then [StageVerify] else [])"
      "run_recorded st req (stage_log v @ stage_pairs fin) x u" by blast
    have "stage_log v @ stage_pairs fin = stage_log w @ stage_pairs ((StageExecute, True) # fin)"
      using v by (simp add: stage_pairs_def)
    moreover have "map fst ((StageExecute, True) # fin) \<in> {[StageExecute], [StageExecute, StageVerify]}"
      using f(1) by (simp split: if_splits)
    ultimately show "?Q x u" unfolding run_tail_def using f(2) by metis
  qed
  show ?thesis
    unfolding run_execute_def
    apply (simp add: wp_simps)
    apply (rule wp_quiet [OF quiet(1)])
    subgoal for a v
      apply (cases a; cases "fst a"; cases "snd a")
         subgoal by (simp, rule fail, simp add: stage_log_def run_event_def)
        subgoal by (simp, rule fail, simp add: stage_log_def run_event_def)
       subgoal by (simp add: wp_simps Let_def, rule ok, simp add: stage_log_def run_event_def)
      subgoal by (simp, rule fail, simp add: stage_log_def run_event_def)
      done
    done
qed

text \<open>The stage sequences a run can go through: it stops at the stage that fails and then records.\<close>

definition run_stages :: "progress_stage list set" where
  "run_stages = {[StageResolve, StageRecord], [StageResolve, StageExecute, StageRecord],
     [StageResolve, StageExecute, StageVerify, StageRecord]}"

definition run_outcome_ok :: "'s run_store \<Rightarrow> run_request \<Rightarrow> 's world \<Rightarrow> run_result res \<Rightarrow> 's world \<Rightarrow> bool" where
  "run_outcome_ok st req w x v \<longleftrightarrow>
     (\<exists>fin. stage_log v = stage_log w @ stage_pairs fin \<and>
       (case x of
          Inl e \<Rightarrow> map fst fin \<in> insert [StageResolve] run_stages \<and> \<not> snd (last fin)
        | Inr result \<Rightarrow> map fst fin \<in> run_stages \<and> snd (last fin) \<and> run_consistent req result \<and>
            (\<exists>s0. run_state (rs_save_run st (Some (rr_run result))) s0 = (None, w_ext v))))"

lemma run_recorded_outcome:
  assumes "run_recorded st req (stage_log w @ stage_pairs fin) x v" and "map fst fin @ [StageRecord] \<in> run_stages"
  shows "run_outcome_ok st req w x v"
proof (cases x)
  case (Inl e)
  with assms have "stage_log v = stage_log w @ stage_pairs (fin @ [(StageRecord, False)])"
    by (simp add: run_recorded_def stage_pairs_def)
  with Inl assms(2) show ?thesis
    unfolding run_outcome_ok_def by (intro exI [of _ "fin @ [(StageRecord, False)]"]) simp
next
  case (Inr result)
  with assms have "stage_log v = stage_log w @ stage_pairs (fin @ [(StageRecord, True)])"
    by (simp add: run_recorded_def stage_pairs_def)
  with Inr assms show ?thesis
    unfolding run_outcome_ok_def by (intro exI [of _ "fin @ [(StageRecord, True)]"]) (simp add: run_recorded_def)
qed

lemma wp_run_start:
  assumes quiet: "\<And>q. quiet (executor q)" "\<And>q. quiet (checker q)"
  shows "wp (run_start L E st resolver executor checker req inputs) (run_outcome_ok st req w) w"
proof -
  let ?log = "\<lambda>v. stage_log v = stage_log w @ [(StageResolve, Started)]"
  have fresh: "fresh_run req (newRun L req t)" "fresh_run req (newRun L req t\<lparr>rn_binding_id := i, rn_provider_id := j\<rparr>)"
    for t i j by (auto simp: fresh_run_def newRun_def)
  have fail: "wp (run_fail_stage L E st req r StageResolve started t0 code message) (run_outcome_ok st req w) v"
    if "fresh_run req r" "?log v" for r started t0 code message v
    by (rule wp_mono [OF wp_run_fail_stage [OF that(1)]], rule run_recorded_outcome [where fin = "[(StageResolve, False)]"])
      (use that(2) in \<open>simp_all add: stage_pairs_def run_stages_def\<close>)
  have err: "run_outcome_ok st req w (Inl e) v" if "stage_log v = stage_log w @ [(StageResolve, Started), (StageResolve, Failed)]" for e v
    unfolding run_outcome_ok_def using that
    by (intro exI [of _ "[(StageResolve, False)]"]) (simp add: stage_pairs_def)
  have exec: "wp (run_execute L E st executor checker req inputs r started b p) (run_outcome_ok st req w) v"
    if "fresh_run req r" "stage_log v = stage_log w @ [(StageResolve, Started), (StageResolve, Succeeded)]" for r started b p v
  proof (rule wp_mono [OF wp_run_execute [OF that(1) quiet]])
    fix x u
    assume "run_tail st req (stage_log v) x u"
    then obtain fin where f: "map fst fin \<in> {[StageExecute], [StageExecute, StageVerify]}"
      "run_recorded st req (stage_log v @ stage_pairs fin) x u" unfolding run_tail_def by (elim exE conjE)
    show "run_outcome_ok st req w x u"
      by (rule run_recorded_outcome [where fin = "(StageResolve, True) # fin"])
        (use f that(2) in \<open>auto simp: stage_pairs_def run_stages_def\<close>)
  qed
  show ?thesis
    unfolding run_start_def
    apply (simp only: wp_bind wp_now wp_run_emit Let_def)
    apply (rule wp_call_any)
    subgoal for found s
      apply (cases found)
       subgoal by (simp add: wp_simps, rule err, simp add: stage_log_def run_event_def)
      subgoal for c
        apply (cases c)
         subgoal by (simp, rule fail, rule fresh, simp add: stage_log_def run_event_def)
        subgoal for cap
          apply (simp split: sum.split)
          apply (intro conjI allI impI)
           subgoal by (rule fail, rule fresh, simp add: stage_log_def run_event_def)
          subgoal for res
            apply (simp only: wp_bind)
            apply (rule wp_call_any)
            subgoal for prov s2
              apply (cases prov)
               subgoal by (simp add: wp_simps, rule err, simp add: stage_log_def run_event_def)
              subgoal for p
                apply (cases p)
                 subgoal by (simp, rule fail, rule fresh, simp add: stage_log_def run_event_def)
                subgoal by (simp add: wp_simps, intro conjI impI, rule fail, rule fresh,
                    simp add: stage_log_def run_event_def, rule exec, rule fresh, simp add: stage_log_def run_event_def)
                done
              done
            done
          done
        done
      done
    done
qed

text \<open>An executor and a checker that emit no run events.\<close>

definition quiet_parts :: "'s run_runner \<Rightarrow> bool" where
  "quiet_parts R \<longleftrightarrow> (\<forall>exe q. ru_executor R = Some exe \<longrightarrow> quiet (exe q)) \<and>
     (\<forall>chk q. ru_checker R = Some chk \<longrightarrow> quiet (chk q))"

lemma run_Run_outcome:
  assumes "run_validate (Some R) (Some req) = None"
    and "quiet_parts R"
  shows "wp (run_Run L E (Some R) (Some req)) (run_outcome_ok (the (ru_store R)) req w) w"
proof -
  obtain exe where exe: "ru_executor R = Some exe"
    using assms(1) by (auto simp: run_validate_def split: if_splits)
  have "quiet (no_checker q)" for q :: "check_request option"
    by (rule quietI) (simp add: no_checker_def wp_return)
  then have "quiet ((case ru_checker R of None \<Rightarrow> no_checker | Some c \<Rightarrow> c) q)" for q
    using assms(2) by (auto simp: quiet_parts_def split: option.split)
  with assms(1,2) exe show ?thesis
    unfolding run_Run_def quiet_parts_def by (simp add: Let_def) (rule wp_run_start; simp)
qed



section \<open>The runner on the program's own parts\<close>

text \<open>The store, the command-line executor and the checker reading the files of the moment.\<close>

definition file_run_store ::
    "golib \<Rightarrow> capability codec \<Rightarrow> provider codec \<Rightarrow> run codec \<Rightarrow> store \<Rightarrow> fsys run_store" where
  "file_run_store L CC CP CR S =
     \<lparr>rs_get_capability = GetCapability L CC S, rs_get_provider = GetProvider L CP S, rs_save_run = SaveRun L CR S\<rparr>"

definition fs_view :: "fsys \<Rightarrow> fsview" where
  "fs_view s =
     \<lparr>fv_read = (\<lambda>p. case map_of (fs_files s) p of None \<Rightarrow> Inl (not_exist ''open'' p) | Some c \<Rightarrow> Inr c),
      fv_size = (\<lambda>p. case map_of (fs_files s) p of None \<Rightarrow> Inl (not_exist ''stat'' p) | Some c \<Rightarrow> Inr (length c))\<rparr>"

definition file_checker :: "golib \<Rightarrow> env \<Rightarrow> fsys check_runner" where
  "file_checker L E req = State (\<lambda>w.
     (case check_Run L (fs_view (w_ext w)) (\<lambda>n. env_ctx E (w_tick w + n)) req of
        Inl e \<Rightarrow> (None, Some e)
      | Inr result \<Rightarrow> (Some result, None),
      w\<lparr>w_tick := Suc (w_tick w)\<rparr>))"

definition file_runner ::
    "golib \<Rightarrow> env \<Rightarrow> capability codec \<Rightarrow> provider codec \<Rightarrow> run codec \<Rightarrow> store \<Rightarrow> fsys machine \<Rightarrow> fsys run_runner" where
  "file_runner L E CC CP CR S M =
     run_NewDefaultRunner (Some (file_run_store L CC CP CR S)) (Some (execute_Run (Some (cli_Run L E M))))
       (Some (file_checker L E))"

lemma quiet_ret [keeps]: "quiet (ret a)"
  by (rule quietI) (simp add: wp_return)

lemma quiet_call [keeps]: "quiet (call m)"
  by (rule quietI) (rule wp_call_any, simp)

lemma quiet_ctx [keeps]: "quiet (ctx_err E)"
  by (rule quietI) (simp add: wp_ctx_err)

lemma quiet_bind [keeps]: "quiet m \<Longrightarrow> (\<And>a. quiet (f a)) \<Longrightarrow> quiet (State_Monad.bind m f)"
  by (rule quietI, simp add: wp_bind, erule wp_quiet) (rule wp_quiet, simp_all)

lemma quiet_writeStdoutTarget [keeps]: "quiet (writeStdoutTarget M req stdout result)"
  unfolding writeStdoutTarget_def
  by (auto intro!: keeps split: sum.split option.split)

lemma quiet_cli [keeps]: "quiet (cli_Run L E M req)"
  unfolding cli_Run_def runCommand_def Let_def
  by (auto intro!: keeps split: sum.split option.split prod.split)

lemma quiet_execute [keeps]: "quiet (execute_Run (Some (cli_Run L E M)) req)"
  unfolding execute_Run_def by (auto intro!: keeps split: option.split)

lemma quiet_file_checker [keeps]: "quiet (file_checker L E req)"
  by (rule quietI) (simp add: wp_def file_checker_def)

lemma digits_visible: "visible (RunID t)"
proof -
  have dig: "is_digit c" if "c \<in> set (nat_text n)" for c n
    using that nat_text_digits [of n] by (simp add: list_all_iff)
  have "trim_space (RunID t) = RunID t"
  proof (rule trim_space_visible)
    have "byte_in 33 126 c" if "is_digit c" for c
      using that by (simp add: is_digit_def byte_in_def)
    then show "list_all (byte_in 33 126) (RunID t)"
      using dig by (auto simp: RunID_def itoa_def byte_in_def list_all_iff)
  qed
  moreover have "\<not> is_digit slash" "\<not> is_digit (CHR 0x5C)" by (simp_all add: is_digit_def byte_in_def)
  then have "slash \<notin> set (RunID t)" "CHR 0x5C \<notin> set (RunID t)"
    using dig by (auto simp: RunID_def itoa_def)
  ultimately have "record_id (RunID t)" by (auto simp: record_id_def RunID_def)
  then show ?thesis by (rule visibleI) (simp add: RunID_def)
qed

text \<open>What a returned result has left in the store: the record, as it reads back.\<close>

definition run_stored :: "golib \<Rightarrow> run codec \<Rightarrow> store \<Rightarrow> run_request \<Rightarrow> run_result \<Rightarrow> fsys \<Rightarrow> bool" where
  "run_stored L CR S rq rr s \<longleftrightarrow> run_consistent rq rr \<and> ValidateRun L (rr_run rr) = None \<and>
     run_view CR S s (rn_id (rr_run rr)) = reread CR (rr_run rr)"

lemma file_run_saved:
  assumes "run_state (run_Run L E (Some (file_runner L E CC CP CR S M)) (Some req)) w = (Inr result, v)"
  shows "run_stored L CR S req result (w_ext v)"
proof -
  let ?R = "file_runner L E CC CP CR S M"
  have valid: "run_validate (Some ?R) (Some req) = None"
    using assms by (cases "run_validate (Some ?R) (Some req)") (simp_all add: run_Run_def)
  have "quiet_parts ?R"
    by (auto simp: quiet_parts_def file_runner_def run_NewDefaultRunner_def intro: keeps)
  from wp_run [OF run_Run_outcome [OF valid this] assms]
  have ok: "run_consistent req result"
    and "\<exists>s0. run_state (rs_save_run (the (ru_store ?R)) (Some (rr_run result))) s0 = (None, w_ext v)"
    by (auto simp: run_outcome_ok_def)
  then obtain s0 where save: "run_state (SaveRun L CR S (Some (rr_run result))) s0 = (None, w_ext v)"
    by (auto simp: file_runner_def run_NewDefaultRunner_def file_run_store_def)
  obtain t where t: "rn_id (rr_run result) = RunID t" using ok by (auto simp: run_consistent_def Let_def)
  have "visible (rn_id (rr_run result))" unfolding t by (rule digits_visible)
  from wp_run [OF runs.save_law [OF this] save] ok show ?thesis by (simp add: run_stored_def)
qed

text \<open>
  C3. On the program's own store, executor and checker, a run that returns a result has left its
  record in the store: the id of the run reads as the JSON round trip of the returned record, which
  is valid.
\<close>

theorem run_persisted:
  assumes "run_state (run_Run L E (Some (file_runner L E CC CP CR S M)) (Some req)) w = (Inr result, v)"
  shows "ValidateRun L (rr_run result) = None \<and>
    run_view CR S (w_ext v) (rn_id (rr_run result)) = reread CR (rr_run result)"
  using file_run_saved [OF assms] by (simp add: run_stored_def)

section \<open>An example run\<close>

definition demo_binding :: binding where
  "demo_binding = \<lparr>bd_id = ''binding_1'', bd_capability_id = ''text.echo'', bd_provider_id = ''provider_1'',
     bd_execution = \<lparr>ex_kind = kind_cli, ex_spec = [(''args'', GStrs [''{{text}}''])]\<rparr>,
     bd_verify = Some \<lparr>vf_level = L1, vf_method = method_execute, vf_checks =
       [\<lparr>vc_subject = \<lparr>vs_type = ''stdout'', vs_input = []\<rparr>, vc_predicate = ''non_empty'', vc_params = []\<rparr>]\<rparr>,
     bd_evidence = [\<lparr>ev_id = ''e1'', ev_type = [], ev_content = [], ev_ref = []\<rparr>],
     bd_state = state_promoted, bd_created_at = []\<rparr>"

definition demo_capability :: capability where
  "demo_capability = \<lparr>cp_id = ''text.echo'', cp_description = ''Print a text.'', cp_bindings = [demo_binding]\<rparr>"

definition demo_provider :: provider where
  "demo_provider = \<lparr>pv_id = ''provider_1'', pv_name = ''echo'', pv_kind = ''cli'', pv_path = ''/bin/echo'', pv_version = []\<rparr>"

text \<open>Codecs that write the id and read a fixed record.\<close>

definition demo_capabilities :: "capability codec" where
  "demo_capabilities = \<lparr>to_json = (\<lambda>c. Inr (cp_id c)), of_json = (\<lambda>t. Inr demo_capability)\<rparr>"

definition demo_providers :: "provider codec" where
  "demo_providers = \<lparr>to_json = (\<lambda>p. Inr (pv_id p)), of_json = (\<lambda>t. Inr demo_provider)\<rparr>"

definition demo_runs :: "run codec" where
  "demo_runs = \<lparr>to_json = (\<lambda>r. Inr (rn_id r)), of_json = (\<lambda>t. Inl ''not read'')\<rparr>"

definition demo_env :: env where
  "demo_env = \<lparr>env_time = (\<lambda>n. 0), env_ctx = (\<lambda>_. None)\<rparr>"

text \<open>A machine whose program prints its arguments.\<close>

definition echo_machine :: "'s machine" where
  "echo_machine = \<lparr>mc_exec = (\<lambda>p args. ret \<lparr>pc_stdout = join '' '' args, pc_stderr = [], pc_exit = Some 0, pc_err = None\<rparr>),
     mc_write = (\<lambda>p c. ret None)\<rparr>"

definition demo_world :: "fsys world" where
  "demo_world = \<lparr>w_tick = 0, w_events = [], w_ext =
     \<lparr>fs_files = [(''/h/capabilities/text.echo.json'', ''text.echo''), (''/h/providers/provider_1.json'', ''provider_1'')],
      fs_dirs = [''/h'', ''/h/capabilities'', ''/h/providers''], fs_clock = 0, fs_fault = (\<lambda>_. None)\<rparr>\<rparr>"

abbreviation demo_store :: store where
  "demo_store \<equiv> \<lparr>st_root = ''/h''\<rparr>"

definition demo_runner :: "fsys run_runner" where
  "demo_runner = file_runner plain_lib demo_env demo_capabilities demo_providers demo_runs demo_store echo_machine"

definition demo_request :: run_request where
  "demo_request = \<lparr>rq_capability_id = ''text.echo'', rq_binding_id = [], rq_provider_id = [],
     rq_inputs = Some [(''text'', GStr ''hello'')], rq_verify = True, rq_min_level = L1\<rparr>"

text \<open>The steps of the run, one by one.\<close>

definition demo_fs1 :: fsys where
  "demo_fs1 = snd (run_state (GetCapability plain_lib demo_capabilities demo_store ''text.echo'') (w_ext demo_world))"

definition demo_fs2 :: fsys where
  "demo_fs2 = snd (run_state (GetProvider plain_lib demo_providers demo_store ''provider_1'') demo_fs1)"

lemma demo_get_capability:
  "run_state (GetCapability plain_lib demo_capabilities demo_store ''text.echo'') (w_ext demo_world)
   = (Inr (Some demo_capability), demo_fs1)"
proof -
  have "fst (run_state (GetCapability plain_lib demo_capabilities demo_store ''text.echo'') (w_ext demo_world))
    = Inr (Some demo_capability)" by code_simp
  then show ?thesis by (simp add: demo_fs1_def prod_eq_iff)
qed

lemma demo_get_provider:
  "run_state (GetProvider plain_lib demo_providers demo_store ''provider_1'') demo_fs1
   = (Inr (Some demo_provider), demo_fs2)"
proof -
  have "fst (run_state (GetProvider plain_lib demo_providers demo_store ''provider_1'') demo_fs1)
    = Inr (Some demo_provider)" by code_simp
  then show ?thesis by (simp add: demo_fs2_def prod_eq_iff)
qed

definition demo_outputs :: outputs where
  "demo_outputs = resultFromProcess \<lparr>pc_stdout = ''hello'', pc_stderr = [], pc_exit = Some 0, pc_err = None\<rparr>"

lemma demo_execute:
  "run_state (execute_Run (Some (cli_Run plain_lib E echo_machine)) (Some \<lparr>er_provider = Some demo_provider,
      er_execution = Some (bd_execution demo_binding), er_inputs = [(''text'', GStr ''hello'')]\<rparr>)) w
   = ((Some demo_outputs, None), w\<lparr>w_tick := Suc (w_tick w)\<rparr>)"
proof -
  have args: "RenderArgs plain_lib (Some (bd_execution demo_binding)) [(''text'', GStr ''hello'')] = Inr [''hello'']"
    "StdoutPathInput (Some (bd_execution demo_binding)) = Inr None" "\<not> blank (pv_path demo_provider)"
    "ex_kind (bd_execution demo_binding) = kind_cli" "pv_kind demo_provider = ''cli''"
    by code_simp+
  show ?thesis
    by (simp add: execute_Run_def cli_Run_def validateRequest_def runCommand_def args echo_machine_def
        writeStdoutTarget_def run_eval demo_outputs_def cong: bind_weak_cong)
qed

definition demo_checked :: check_result where
  "demo_checked = \<lparr>cr_evidence =
     [\<lparr>ev_id = ''check_1_stdout_non_empty'', ev_type = ''non_empty'',
       ev_content = [(''subject'', subject_val \<lparr>vs_type = ''stdout'', vs_input = []\<rparr>), (''predicate'', GStr ''non_empty'')],
       ev_ref = []\<rparr>], cr_outputs = [(''stdout'', GStr ''hello'')]\<rparr>"

lemma demo_check:
  "run_state (file_checker plain_lib demo_env (Some (checkRequest (bd_verify demo_binding) [(''text'', GStr ''hello'')] demo_outputs))) w
   = ((Some demo_checked, None), w\<lparr>w_tick := Suc (w_tick w)\<rparr>)"
proof -
  have "check_Run plain_lib V (\<lambda>n. None)
      (Some (checkRequest (bd_verify demo_binding) [(''text'', GStr ''hello'')] demo_outputs)) = Inr demo_checked" for V
    by code_simp
  then show ?thesis by (simp add: file_checker_def demo_env_def)
qed

definition demo_run :: run where
  "demo_run = \<lparr>rn_id = RunID 0, rn_capability_id = ''text.echo'', rn_binding_id = ''binding_1'',
     rn_provider_id = ''provider_1'', rn_inputs = [(''text'', GStr ''hello'')],
     rn_outputs = mergeOutputs demo_outputs (cr_outputs demo_checked), rn_evidence = cr_evidence demo_checked,
     rn_status = ''succeeded'', rn_verified = True, rn_started_at = itoa 0, rn_finished_at = itoa 0,
     rn_duration_ms = 0, rn_error = None\<rparr>"

lemma demo_save: "fst (run_state (SaveRun plain_lib demo_runs demo_store (Some demo_run)) demo_fs2) = None"
  by code_simp

lemma demo_resolve:
  "resolve_Run (Some \<lparr>sq_capability = Some demo_capability, sq_binding_id = [], sq_provider_id = [],
      sq_inputs = [(''text'', GStr ''hello'')], sq_min_level = L1\<rparr>)
   = Inr \<lparr>sr_capability = demo_capability, sr_binding = demo_binding, sr_required = [''text'']\<rparr>"
  by code_simp

definition demo_result :: run_result where
  "demo_result = \<lparr>rr_run = demo_run, rr_outputs = demo_outputs, rr_evidence = cr_evidence demo_checked\<rparr>"

lemma demo_quiet: "quiet_parts demo_runner"
  by (auto simp: quiet_parts_def demo_runner_def file_runner_def run_NewDefaultRunner_def intro: keeps)

lemma demo_valid: "run_validate (Some demo_runner) (Some demo_request) = None"
proof -
  have "\<not> blank ''text.echo''" by code_simp
  then show ?thesis
    by (simp add: run_validate_def demo_runner_def file_runner_def run_NewDefaultRunner_def demo_request_def)
qed

lemma demo_succeeds:
  "\<exists>v. run_state (run_Run plain_lib demo_env (Some demo_runner) (Some demo_request)) demo_world = (Inr demo_result, v)"
proof -
  obtain fs3 where save: "run_state (SaveRun plain_lib demo_runs demo_store (Some demo_run)) demo_fs2 = (None, fs3)"
    using demo_save by (cases "run_state (SaveRun plain_lib demo_runs demo_store (Some demo_run)) demo_fs2") auto
  have trim: "trim_space ''text.echo'' = ''text.echo''" by code_simp
  have present: "present [(''text'', GStr ''hello'')] ''text''" by code_simp
  have b: "bd_id demo_binding = ''binding_1''" "bd_provider_id demo_binding = ''provider_1''" "bd_verify demo_binding \<noteq> None"
    by (simp_all add: demo_binding_def)
  have m: "millis 0 = 0" by (simp add: millis_def)
  have lib: "rfc3339 plain_lib t = itoa t" for t by (simp add: plain_lib_def)
  have env: "env_time demo_env n = 0" for n by (simp add: demo_env_def)
  show ?thesis
    using demo_valid
    apply (simp add: run_Run_def demo_runner_def file_runner_def run_NewDefaultRunner_def file_run_store_def demo_request_def)
    apply (simp add: run_start_def run_eval run_emitProgress_def Let_def run_execute_def run_finish_def
        run_save_def finishSucceeded_def newRun_def demo_result_def lib env
        demo_get_capability demo_get_provider demo_execute demo_check demo_resolve save [unfolded demo_run_def]
        trim present b m demo_run_def
        cong: bind_weak_cong)
    done
qed



theorem run_persisted_witness: "ValidateRun plain_lib (rr_run demo_result) = None"
  using demo_succeeds run_persisted unfolding demo_runner_def by blast

text \<open>Two eligible bindings: the second one has all its inputs.\<close>

definition other_binding :: binding where
  "other_binding = demo_binding\<lparr>bd_id := ''binding_2'',
     bd_execution := \<lparr>ex_kind = kind_cli, ex_spec = [(''args'', GStrs [''-''])]\<rparr>\<rparr>"


end
