(* ===== verification/Cal_Tracelog.thy ===== *)
theory Cal_Tracelog
  imports Cal_World Cal_Store
begin

text \<open>
  \<^verbatim>\<open>internal/tracelog\<close>: the writer of acquisition traces over a store. What a writer promises to the
  acquisition runner is the locale \<open>trace_sink\<close>, interpreted on the writer at the end.
\<close>

abbreviation "status_running \<equiv> ''running''"
abbreviation "status_completed \<equiv> ''completed''"
abbreviation "status_failed \<equiv> ''failed''"
abbreviation "status_canceled \<equiv> ''canceled''"

definition tracelog_error :: "string \<Rightarrow> string \<Rightarrow> gerr" where
  "tracelog_error code message = ECoded ''tracelog'' code message None"

definition tracelog_wrap :: "string \<Rightarrow> string \<Rightarrow> gerr \<Rightarrow> gerr" where
  "tracelog_wrap code message err = ECoded ''tracelog'' code message (Some err)"

record trace_request =
  wq_trace_id :: string
  wq_started_at :: string
  wq_hint :: string
  wq_provider_ids :: "string list"
  wq_observations :: "observation list"
  wq_proposal :: "proposal_trace option"
  wq_candidates :: "candidate list"
  wq_probes :: "probe list"
  wq_promotions :: "promotion list"
  wq_error :: "record_error option"

text \<open>A writer is its store, the operation \<open>SaveTrace\<close>; writer and store may be nil.\<close>

type_synonym 's trace_saver = "trace option \<Rightarrow> ('s, gerr option) state"
type_synonym trace_outcome = "trace option \<times> gerr option"

definition buildTrace :: "golib \<Rightarrow> trace_request \<Rightarrow> string \<Rightarrow> int \<Rightarrow> trace" where
  "buildTrace L req status t =
     (let startedAt = (if blank (wq_started_at req) then rfc3339 L t else trim_space (wq_started_at req));
          traceID = (if blank (wq_trace_id req) then TraceID t else trim_space (wq_trace_id req))
      in \<lparr>tr_id = traceID, tr_started_at = startedAt,
          tr_ended_at = (if status \<noteq> status_running then rfc3339 L t else []), tr_status = status,
          tr_hint = wq_hint req, tr_provider_ids = wq_provider_ids req, tr_observations = wq_observations req,
          tr_proposal = wq_proposal req, tr_candidates = wq_candidates req, tr_probes = wq_probes req,
          tr_promotions = wq_promotions req, tr_error = wq_error req\<rparr>)"

definition tracelog_validate :: "'s trace_saver option option \<Rightarrow> trace_request option \<Rightarrow> string \<Rightarrow> gerr option" where
  "tracelog_validate W req0 status =
     (let invalid = (\<lambda>m. Some (tracelog_error ''invalid_trace_input'' m)) in
      case W of
        None \<Rightarrow> invalid ''trace writer is required''
      | Some None \<Rightarrow> invalid ''trace store is required''
      | Some (Some _) \<Rightarrow>
          (case req0 of
             None \<Rightarrow> invalid ''trace request is required''
           | Some req \<Rightarrow>
               if status \<noteq> status_running \<and> blank (wq_trace_id req)
               then invalid ''trace id is required''
               else None))"

definition tracelog_write ::
    "golib \<Rightarrow> 's trace_saver option option \<Rightarrow> env \<Rightarrow> trace_request option \<Rightarrow> string \<Rightarrow> ('s world, trace_outcome) state" where
  "tracelog_write L W E req0 status =
     (case tracelog_validate W req0 status of
        Some e \<Rightarrow> ret (None, Some e)
      | None \<Rightarrow> do {
          c \<leftarrow> ctx_err E;
          (case c of
             Some e \<Rightarrow> ret (None, Some e)
           | None \<Rightarrow> do {
               t \<leftarrow> now E;
               let tr = buildTrace L (the req0) status t;
               err \<leftarrow> call ((the (the W)) (Some tr));
               ret (case err of
                 Some e \<Rightarrow> (None, Some (tracelog_wrap ''trace_store_failed'' ''save trace'' e))
               | None \<Rightarrow> (Some tr, None))})})"

definition tracelog_Start where "tracelog_Start L W E req = tracelog_write L W E req status_running"
definition tracelog_Complete where "tracelog_Complete L W E req = tracelog_write L W E req status_completed"
definition tracelog_Fail where "tracelog_Fail L W E req = tracelog_write L W E req status_failed"
definition tracelog_Cancel where "tracelog_Cancel L W E req = tracelog_write L W E req status_canceled"

section \<open>What a writer promises\<close>

text \<open>
  An operation with a status: on success the trace of the request was saved last and is returned;
  on failure there is an error and no trace. No event is emitted.
\<close>

definition writes_trace ::
    "golib \<Rightarrow> 's trace_saver \<Rightarrow> trace_request \<Rightarrow> string \<Rightarrow> trace_outcome \<Rightarrow> 's world \<Rightarrow> 's world \<Rightarrow> bool" where
  "writes_trace L save req status r w v \<longleftrightarrow>
     w_events v = w_events w \<and>
     (case r of
        (Some tr, e) \<Rightarrow> e = None \<and> (\<exists>t. tr = buildTrace L req status t) \<and>
          (\<exists>s0. run_state (save (Some tr)) s0 = (None, w_ext v))
      | (None, e) \<Rightarrow> e \<noteq> None)"

locale trace_sink =
  fixes L :: golib and save :: "'s trace_saver"
    and start complete fail cancel :: "env \<Rightarrow> trace_request option \<Rightarrow> ('s world, trace_outcome) state"
  assumes start_law: "wp (start E (Some req)) (\<lambda>r v. writes_trace L save req status_running r w v) w"
    and complete_law: "wp (complete E (Some req)) (\<lambda>r v. writes_trace L save req status_completed r w v) w"
    and fail_law: "wp (fail E (Some req)) (\<lambda>r v. writes_trace L save req status_failed r w v) w"
    and cancel_law: "wp (cancel E (Some req)) (\<lambda>r v. writes_trace L save req status_canceled r w v) w"
begin

lemmas laws = start_law complete_law fail_law cancel_law

text \<open>The choice the acquisition makes between its two unsuccessful ends.\<close>

lemma terminal_law:
  "wp (if canceled then cancel E (Some req) else fail E (Some req))
     (\<lambda>r v. writes_trace L save req (if canceled then status_canceled else status_failed) r w v) w"
  by (simp add: cancel_law fail_law)

end

lemma wp_tracelog_write:
  "wp (tracelog_write L (Some (Some save)) E (Some req) status) (\<lambda>r v. writes_trace L save req status r w v) w"
proof (cases "tracelog_validate (Some (Some save)) (Some req) status")
  case None
  show ?thesis
    unfolding tracelog_write_def None option.case
    apply (simp add: wp_simps split: option.split)
    apply (simp add: Let_def writes_trace_def wp_call wp_iff wp_return split: option.split)
    apply blast
    done
qed (simp add: tracelog_write_def wp_return writes_trace_def)

interpretation writer: trace_sink L save "tracelog_Start L (Some (Some save))"
    "tracelog_Complete L (Some (Some save))" "tracelog_Fail L (Some (Some save))" "tracelog_Cancel L (Some (Some save))"
  for L and save :: "'s trace_saver"
  by unfold_locales
    (simp_all add: tracelog_Start_def tracelog_Complete_def tracelog_Fail_def tracelog_Cancel_def wp_tracelog_write)

end
