(* ===== verification/Cal_Plans.thy ===== *)
theory Cal_Plans
  imports Cal_Model "HOL-Library.Sublist"
begin

text \<open>
  The result of a proposal and its mechanical cleanup: \<^verbatim>\<open>internal/proposal/result.go\<close> and
  \<^verbatim>\<open>internal/proposal/select.go\<close>. What the cleanup keeps is stated by the predicate
  \<open>normalized\<close>; a result that satisfies it is a fixed point.
\<close>

record fixture =
  fx_input :: string
  fx_filename :: string
  fx_content :: string

record probe_plan =
  pp_index :: int
  pp_inputs :: ginputs
  pp_fixtures :: "fixture list"
  pp_verify :: verify_spec

record proposal_result =
  pr_candidates :: "candidate list"
  pr_plans :: "probe_plan list"
  pr_diagnostics :: "proposal_trace option"

record proposal_request =
  lq_provider :: "provider option"
  lq_observations :: "observation list"
  lq_catalog :: "capability list"
  lq_hint :: string
  lq_trace_id :: string

record normalize_options =
  no_provider_id :: string
  no_limit :: int

definition candidateIdentity :: "golib \<Rightarrow> candidate \<Rightarrow> string res" where
  "candidateIdentity L c =
     (case CanonicalExecution L (cd_execution c) of
        Inl e \<Rightarrow> Inl e
      | Inr canonical \<Rightarrow> Inr (cd_provider_id c @ ''|'' @ cd_capability_id c @ ''|'' @ canonical))"

definition candidateCapabilityKey :: "candidate \<Rightarrow> string" where
  "candidateCapabilityKey c = cd_provider_id c @ ''|'' @ cd_capability_id c"

text \<open>The loop that indexes the plans by candidate.\<close>

fun index_plans :: "int \<Rightarrow> (int, probe_plan) gomap \<Rightarrow> probe_plan list \<Rightarrow> (int, probe_plan) gomap res" where
  "index_plans n m [] = Inr m"
| "index_plans n m (p # ps) =
     (if pp_index p < 0 \<or> n \<le> pp_index p
      then Inl (EText (''probe plan candidate_index '' @ itoa (pp_index p) @ '' is out of range''))
      else if map_of m (pp_index p) \<noteq> None
      then Inl (EText (''candidate '' @ itoa (pp_index p) @ '' has duplicate probe plans''))
      else index_plans n (put (pp_index p) p m) ps)"

text \<open>The loop over the candidates: the keys seen so far and the result selected so far.\<close>

fun select_loop ::
    "golib \<Rightarrow> normalize_options \<Rightarrow> (int, probe_plan) gomap \<Rightarrow> int \<Rightarrow> string list \<Rightarrow> string list
      \<Rightarrow> proposal_result \<Rightarrow> candidate list \<Rightarrow> proposal_result res" where
  "select_loop L opts plans index seenE seenC selected [] = Inr selected"
| "select_loop L opts plans index seenE seenC selected (c # cs) =
     (if no_provider_id opts \<noteq> [] \<and> cd_provider_id c \<noteq> no_provider_id opts
      then select_loop L opts plans (index + 1) seenE seenC selected cs
      else (case map_of plans index of
              None \<Rightarrow> Inl (EText (''candidate '' @ itoa index @ '' has no probe plan''))
            | Some plan \<Rightarrow>
                (case candidateIdentity L c of
                   Inl e \<Rightarrow> Inl e
                 | Inr key \<Rightarrow>
                     if key \<in> set seenE
                     then select_loop L opts plans (index + 1) seenE seenC selected cs
                     else if candidateCapabilityKey c \<in> set seenC
                     then select_loop L opts plans (index + 1) seenE seenC selected cs
                     else if 0 < no_limit opts \<and> no_limit opts \<le> int (length (pr_candidates selected))
                     then Inr selected
                     else select_loop L opts plans (index + 1) (key # seenE) (candidateCapabilityKey c # seenC)
                       (selected\<lparr>pr_candidates := pr_candidates selected @ [c],
                          pr_plans := pr_plans selected @ [plan\<lparr>pp_index := int (length (pr_candidates selected))\<rparr>]\<rparr>)
                       cs)))"

definition selectResult :: "golib \<Rightarrow> proposal_result option \<Rightarrow> normalize_options \<Rightarrow> proposal_result res" where
  "selectResult L result0 opts =
     (case result0 of
        None \<Rightarrow> Inl (EText ''proposal result is required'')
      | Some result \<Rightarrow>
          (case index_plans (int (length (pr_candidates result))) [] (pr_plans result) of
             Inl e \<Rightarrow> Inl e
           | Inr plans \<Rightarrow> select_loop L opts plans 0 [] []
               \<lparr>pr_candidates = [], pr_plans = [], pr_diagnostics = pr_diagnostics result\<rparr> (pr_candidates result)))"

definition NormalizeResult :: "golib \<Rightarrow> proposal_result option \<Rightarrow> normalize_options \<Rightarrow> proposal_result res" where
  "NormalizeResult L result opts =
     selectResult L result \<lparr>no_provider_id = no_provider_id opts, no_limit = no_limit opts\<rparr>"

section \<open>What is selected\<close>

definition within_limit :: "normalize_options \<Rightarrow> nat \<Rightarrow> bool" where
  "within_limit opts n = (no_limit opts \<le> 0 \<or> int n \<le> no_limit opts)"

definition normalized :: "golib \<Rightarrow> normalize_options \<Rightarrow> proposal_result \<Rightarrow> bool" where
  "normalized L opts r \<longleftrightarrow>
     map pp_index (pr_plans r) = map int [0..<length (pr_candidates r)] \<and>
     distinct (map candidateCapabilityKey (pr_candidates r)) \<and>
     distinct (map (candidateIdentity L) (pr_candidates r)) \<and>
     list_all (\<lambda>c. \<not> isl (candidateIdentity L c)) (pr_candidates r) \<and>
     list_all (\<lambda>c. no_provider_id opts = [] \<or> cd_provider_id c = no_provider_id opts) (pr_candidates r) \<and>
     within_limit opts (length (pr_candidates r))"

text \<open>Every selected plan is the plan of the candidate at its position, with its index replaced.\<close>

definition plan_kept :: "candidate list \<Rightarrow> probe_plan list \<Rightarrow> candidate \<times> probe_plan \<Rightarrow> bool" where
  "plan_kept cs ps = (\<lambda>(c, p). \<exists>j<length cs. cs ! j = c \<and> (\<exists>q\<in>set ps. pp_index q = int j \<and> p = q\<lparr>pp_index := pp_index p\<rparr>))"

lemma index_plans_Inr:
  "index_plans n m ps = Inr m' \<longleftrightarrow>
     list_all (\<lambda>p. 0 \<le> pp_index p \<and> pp_index p < n) ps \<and> distinct (map pp_index ps) \<and>
     list_all (\<lambda>p. map_of m (pp_index p) = None) ps \<and> m' = foldl (\<lambda>m p. put (pp_index p) p m) m ps"
  by (induction n m ps arbitrary: m' rule: index_plans.induct) (auto simp: list_all_iff image_iff)

lemma indexed_lookup:
  assumes "distinct (map pp_index ps)"
  shows "map_of (foldl (\<lambda>m p. put (pp_index p) p m) m ps) i =
     (case find (\<lambda>p. pp_index p = i) ps of Some p \<Rightarrow> Some p | None \<Rightarrow> map_of m i)"
  using assms
proof (induction ps arbitrary: m)
  case (Cons p ps)
  have "find (\<lambda>q. pp_index q = i) ps = None" if "pp_index p = i"
    using Cons.prems that by (auto simp: find_None_all image_iff)
  then show ?case using Cons by (auto split: option.splits)
qed simp


definition covered :: "golib \<Rightarrow> normalize_options \<Rightarrow> candidate list \<Rightarrow> candidate \<Rightarrow> bool" where
  "covered L opts chosen c =
     (if no_provider_id opts \<noteq> [] \<and> cd_provider_id c \<noteq> no_provider_id opts then True
      else list_ex (\<lambda>d. candidateCapabilityKey d = candidateCapabilityKey c \<or> candidateIdentity L d = candidateIdentity L c)
             chosen)"

text \<open>The invariant of the loop after the candidates \<open>pre\<close> of \<open>all\<close>.\<close>

definition select_inv ::
    "golib \<Rightarrow> normalize_options \<Rightarrow> probe_plan list \<Rightarrow> candidate list \<Rightarrow> candidate list \<Rightarrow> string list \<Rightarrow> string list
      \<Rightarrow> proposal_result \<Rightarrow> bool" where
  "select_inv L opts ps all pre seenE seenC sel \<longleftrightarrow>
     normalized L opts sel \<and> set seenC = set (map candidateCapabilityKey (pr_candidates sel)) \<and>
     Inr ` set seenE = set (map (candidateIdentity L) (pr_candidates sel)) \<and>
     subseq (pr_candidates sel) pre \<and> list_all (plan_kept all ps) (zip (pr_candidates sel) (pr_plans sel)) \<and>
     list_all (covered L opts (pr_candidates sel)) pre"

lemma covered_mono: "covered L opts chosen c \<Longrightarrow> covered L opts (chosen @ extra) c"
  by (auto simp: covered_def)

lemma select_inv_skip:
  assumes "select_inv L opts ps all pre seenE seenC sel" and "covered L opts (pr_candidates sel) c"
  shows "select_inv L opts ps all (pre @ [c]) seenE seenC sel"
  using assms by (auto simp: select_inv_def)

lemma select_inv_take:
  assumes inv: "select_inv L opts ps all pre seenE seenC sel"
    and c: "no_provider_id opts = [] \<or> cd_provider_id c = no_provider_id opts"
    and key: "candidateIdentity L c = Inr key" "key \<notin> set seenE" "candidateCapabilityKey c \<notin> set seenC"
    and room: "\<not> (0 < no_limit opts \<and> no_limit opts \<le> int (length (pr_candidates sel)))"
    and plan: "plan \<in> set ps" "pp_index plan = int (length pre)" and all: "all = pre @ c # post"
  shows "select_inv L opts ps all (pre @ [c]) (key # seenE) (candidateCapabilityKey c # seenC)
    (sel\<lparr>pr_candidates := pr_candidates sel @ [c],
         pr_plans := pr_plans sel @ [plan\<lparr>pp_index := int (length (pr_candidates sel))\<rparr>]\<rparr>)"
proof -
  have norm: "normalized L opts sel" and sC: "set seenC = candidateCapabilityKey ` set (pr_candidates sel)"
    and sE: "Inr ` set seenE = candidateIdentity L ` set (pr_candidates sel)"
    using inv by (auto simp: select_inv_def)
  have "length (pr_plans sel) = length (pr_candidates sel)"
    using norm unfolding normalized_def by (metis length_map length_upt minus_nat.diff_0)
  moreover have "(Inr key :: string res) \<notin> Inr ` set seenE" using key(2) by auto
  then have "candidateIdentity L c \<notin> candidateIdentity L ` set (pr_candidates sel)"
    using sE key(1) by simp
  moreover have "plan_kept all ps (c, plan\<lparr>pp_index := k\<rparr>)" for k
    using plan all by (auto simp: plan_kept_def intro!: exI [of _ "length pre"] bexI [of _ plan])
  moreover have "covered L opts (pr_candidates sel @ [c]) d" if "d \<in> set pre \<or> d = c" for d
    using inv that by (auto simp: select_inv_def list_all_iff covered_def)
  ultimately show ?thesis
    using inv c key room sC sE unfolding select_inv_def normalized_def
    by (auto simp: within_limit_def list_all_iff list_emb_append_mono)
qed


lemma select_loop_inv:
  assumes "select_loop L opts m (int (length pre)) seenE seenC sel cs = Inr r"
    and "select_inv L opts ps all pre seenE seenC sel" and "all = pre @ cs"
    and m: "\<And>i p. map_of m i = Some p \<Longrightarrow> p \<in> set ps \<and> pp_index p = i"
  shows "\<exists>seenE' seenC' pre' post. select_inv L opts ps all pre' seenE' seenC' r \<and> all = pre' @ post \<and>
    (no_limit opts \<le> 0 \<longrightarrow> post = []) \<and> pr_diagnostics r = pr_diagnostics sel"
  using assms(1-3)
proof (induction cs arbitrary: pre seenE seenC sel)
  case Nil
  then have "select_inv L opts ps all pre seenE seenC r \<and> all = pre @ [] \<and>
      (no_limit opts \<le> 0 \<longrightarrow> [] = ([] :: candidate list)) \<and> pr_diagnostics r = pr_diagnostics sel"
    by simp
  then show ?case by blast
next
  case (Cons c cs)
  have idx: "int (length pre) + 1 = int (length (pre @ [c]))" by simp
  note step = Cons.IH [of "pre @ [c]", folded idx]
  show ?case
  proof (cases "no_provider_id opts \<noteq> [] \<and> cd_provider_id c \<noteq> no_provider_id opts")
    case True
    then have "covered L opts (pr_candidates sel) c" by (simp add: covered_def)
    from step [OF _ select_inv_skip [OF Cons.prems(2) this]] True Cons.prems(1,3) show ?thesis by auto
  next
    case False
    obtain plan where plan: "map_of m (int (length pre)) = Some plan"
      using Cons.prems(1) False by (auto split: option.splits)
    obtain key where key: "candidateIdentity L c = Inr key"
      using Cons.prems(1) False plan by (auto split: sum.splits)
    show ?thesis
    proof (cases "key \<in> set seenE \<or> candidateCapabilityKey c \<in> set seenC")
      case True
      have "covered L opts (pr_candidates sel) c"
      proof (cases "key \<in> set seenE")
        case True
        then have "Inr key \<in> set (map (candidateIdentity L) (pr_candidates sel))"
          using Cons.prems(2) unfolding select_inv_def by blast
        then show ?thesis using key by (fastforce simp: covered_def list_ex_iff)
      next
        case False
        then have "candidateCapabilityKey c \<in> set (map candidateCapabilityKey (pr_candidates sel))"
          using Cons.prems(2) True unfolding select_inv_def by blast
        then show ?thesis by (fastforce simp: covered_def list_ex_iff)
      qed
      from step [OF _ select_inv_skip [OF Cons.prems(2) this]] True False plan key Cons.prems(1,3)
      show ?thesis by (auto split: if_splits)
    next
      case fresh: False
      show ?thesis
      proof (cases "0 < no_limit opts \<and> no_limit opts \<le> int (length (pr_candidates sel))")
        case True
        then have "r = sel" using Cons.prems(1) False fresh plan key by simp
        with Cons.prems(2,3) True have "select_inv L opts ps all pre seenE seenC r \<and> all = pre @ (c # cs) \<and>
            (no_limit opts \<le> 0 \<longrightarrow> c # cs = []) \<and> pr_diagnostics r = pr_diagnostics sel" by simp
        then show ?thesis by blast
      next
        case room: False
        from step [OF _ select_inv_take [OF Cons.prems(2) _ key _ _ room _ _ Cons.prems(3)], of plan]
          m [OF plan] False fresh room plan key Cons.prems(1,3)
        show ?thesis by auto
      qed
    qed
  qed
qed

lemma select_inv_start:
  "select_inv L opts ps all [] [] [] \<lparr>pr_candidates = [], pr_plans = [], pr_diagnostics = d\<rparr>"
  by (auto simp: select_inv_def normalized_def within_limit_def)

text \<open>On a normalized result the loop takes every candidate.\<close>

lemma select_loop_all:
  assumes "normalized L opts \<lparr>pr_candidates = cs0 @ cs, pr_plans = ps0 @ ps, pr_diagnostics = d\<rparr>"
    and "length ps0 = length cs0" and m: "\<And>p. p \<in> set ps \<Longrightarrow> map_of m (pp_index p) = Some p"
    and "Inr ` set seenE = candidateIdentity L ` set cs0" and "set seenC = candidateCapabilityKey ` set cs0"
  shows "select_loop L opts m (int (length cs0)) seenE seenC
      \<lparr>pr_candidates = cs0, pr_plans = ps0, pr_diagnostics = d\<rparr> cs
    = Inr \<lparr>pr_candidates = cs0 @ cs, pr_plans = ps0 @ ps, pr_diagnostics = d\<rparr>"
  using assms
proof (induction cs arbitrary: cs0 ps0 ps seenE seenC)
  case Nil
  then have "length (ps0 @ ps) = length (cs0 :: candidate list)"
    unfolding normalized_def by (metis append_Nil2 length_map length_upt minus_nat.diff_0 proposal_result.select_convs(1,2))
  with Nil show ?case by simp
next
  case (Cons c cs)
  have len: "length (ps0 @ ps) = length (cs0 @ c # cs)"
    using Cons.prems(1) unfolding normalized_def by (metis length_map length_upt minus_nat.diff_0 proposal_result.select_convs(1,2))
  then obtain p ps' where ps: "ps = p # ps'" using Cons.prems(2) by (cases ps) auto
  have all: "map pp_index (ps0 @ p # ps') = map int [0..<length (cs0 @ c # cs)]"
    using Cons.prems(1) unfolding normalized_def ps by simp
  have "map pp_index (ps0 @ p # ps') ! length cs0 = int (length cs0)"
    unfolding all by (simp add: nth_append)
  then have idx: "pp_index p = int (length cs0)" using Cons.prems(2) by (simp add: nth_append)
  have look: "map_of m (int (length cs0)) = Some p" using Cons.prems(3) [of p] ps idx by simp
  obtain key where key: "candidateIdentity L c = Inr key"
    using Cons.prems(1) by (cases "candidateIdentity L c") (auto simp: normalized_def)
  have nk: "key \<notin> set seenE"
    using Cons.prems(1) key Cons.prems(4) by (auto simp: normalized_def)
  have nc: "candidateCapabilityKey c \<notin> set seenC"
    using Cons.prems(1,5) by (auto simp: normalized_def)
  have room: "\<not> (0 < no_limit opts \<and> no_limit opts \<le> int (length cs0))"
    using Cons.prems(1) by (auto simp: normalized_def within_limit_def)
  have prov: "\<not> (no_provider_id opts \<noteq> [] \<and> cd_provider_id c \<noteq> no_provider_id opts)"
    using Cons.prems(1) by (auto simp: normalized_def)
  have same: "p\<lparr>pp_index := int (length cs0)\<rparr> = p" using idx by simp
  have "select_loop L opts m (int (length cs0)) seenE seenC
      \<lparr>pr_candidates = cs0, pr_plans = ps0, pr_diagnostics = d\<rparr> (c # cs)
    = select_loop L opts m (int (length (cs0 @ [c]))) (key # seenE) (candidateCapabilityKey c # seenC)
      \<lparr>pr_candidates = cs0 @ [c], pr_plans = ps0 @ [p], pr_diagnostics = d\<rparr> cs"
    by (simp only: select_loop.simps prov look key nk nc room same if_False option.case sum.case
        proposal_result.simps length_append list.size of_nat_add add_0_right) simp
  also have "\<dots> = Inr \<lparr>pr_candidates = (cs0 @ [c]) @ cs, pr_plans = (ps0 @ [p]) @ ps', pr_diagnostics = d\<rparr>"
    by (rule Cons.IH) (use Cons.prems ps key in auto)
  finally show ?case using ps by simp
qed


section \<open>Properties\<close>

lemma selectResult_inv:
  assumes "selectResult L (Some result) opts = Inr r"
  shows "\<exists>seenE seenC pre post. select_inv L opts (pr_plans result) (pr_candidates result) pre seenE seenC r \<and>
    pr_candidates result = pre @ post \<and> (no_limit opts \<le> 0 \<longrightarrow> post = []) \<and> pr_diagnostics r = pr_diagnostics result"
proof -
  let ?ps = "pr_plans result"
  let ?m = "foldl (\<lambda>m p. put (pp_index p) p m) [] ?ps"
  have ok: "distinct (map pp_index ?ps)" and loop: "select_loop L opts ?m 0 [] []
      \<lparr>pr_candidates = [], pr_plans = [], pr_diagnostics = pr_diagnostics result\<rparr> (pr_candidates result) = Inr r"
    using assms by (auto simp: selectResult_def index_plans_Inr split: sum.splits)
  have m: "p \<in> set ?ps \<and> pp_index p = i" if "map_of ?m i = Some p" for i p
    using that by (auto simp: indexed_lookup [OF ok] dest: find_SomeD split: option.splits)
  have "select_loop L opts ?m (int (length ([] :: candidate list))) [] []
      \<lparr>pr_candidates = [], pr_plans = [], pr_diagnostics = pr_diagnostics result\<rparr> (pr_candidates result) = Inr r"
    using loop by simp
  from select_loop_inv [OF this select_inv_start _ m] show ?thesis by simp
qed

lemma NormalizeResult_select: "NormalizeResult L result opts = selectResult L result opts"
  by (cases opts) (simp add: NormalizeResult_def)

text \<open>What the selection promises, over the result it was given.\<close>

definition selection_of :: "golib \<Rightarrow> normalize_options \<Rightarrow> proposal_result \<Rightarrow> proposal_result \<Rightarrow> bool" where
  "selection_of L opts result r \<longleftrightarrow>
     normalized L opts r \<and> subseq (pr_candidates r) (pr_candidates result) \<and>
     list_all (plan_kept (pr_candidates result) (pr_plans result)) (zip (pr_candidates r) (pr_plans r)) \<and>
     (0 < no_limit opts \<or> list_all (covered L opts (pr_candidates r)) (pr_candidates result)) \<and>
     pr_diagnostics r = pr_diagnostics result"


text \<open>
  The cleanup is idempotent: a result it returned is returned unchanged when it is cleaned up again
  with the same options.
\<close>

theorem normalize_idempotent:
  assumes "NormalizeResult L (Some result) opts = Inr r"
  shows "NormalizeResult L (Some r) opts = Inr r"
proof -
  have "selectResult L (Some result) opts = Inr r" using assms by (simp add: NormalizeResult_select)
  from selectResult_inv [OF this] have norm: "normalized L opts r" by (auto simp: select_inv_def)
  let ?m = "foldl (\<lambda>m p. put (pp_index p) p m) [] (pr_plans r)"
  have idx: "map pp_index (pr_plans r) = map int [0..<length (pr_candidates r)]"
    using norm by (simp add: normalized_def)
  then have dist: "distinct (map pp_index (pr_plans r))" by (simp add: distinct_map inj_on_def)
  have range: "0 \<le> pp_index p \<and> pp_index p < int (length (pr_candidates r))" if "p \<in> set (pr_plans r)" for p
  proof -
    have "pp_index p \<in> set (map pp_index (pr_plans r))" using that by simp
    then show ?thesis unfolding idx by auto
  qed
  have look: "map_of ?m (pp_index p) = Some p" if p: "p \<in> set (pr_plans r)" for p
  proof -
    obtain q where q: "find (\<lambda>x. pp_index x = pp_index p) (pr_plans r) = Some q"
      using p find_None_all [of "\<lambda>x. pp_index x = pp_index p" "pr_plans r"] by fastforce
    then have "q = p" using find_SomeD [OF q] p dist by (auto simp: distinct_map inj_on_def)
    with q show ?thesis by (simp add: indexed_lookup [OF dist])
  qed
  have "select_loop L opts ?m (int (length ([] :: candidate list))) [] []
      \<lparr>pr_candidates = [], pr_plans = [], pr_diagnostics = pr_diagnostics r\<rparr> (pr_candidates r)
    = Inr \<lparr>pr_candidates = [] @ pr_candidates r, pr_plans = [] @ pr_plans r, pr_diagnostics = pr_diagnostics r\<rparr>"
    by (rule select_loop_all) (use norm look in \<open>simp_all add: normalized_def\<close>)
  moreover have "index_plans (int (length (pr_candidates r))) [] (pr_plans r) = Inr ?m"
    using dist range by (simp add: index_plans_Inr list_all_iff)
  ultimately show ?thesis by (simp add: NormalizeResult_select selectResult_def)
qed

definition sample_candidate :: "string \<Rightarrow> string \<Rightarrow> candidate" where
  "sample_candidate provider cap = \<lparr>cd_provider_id = provider, cd_capability_id = cap, cd_description = ''d'',
     cd_source = ''proposal'', cd_provenance = None, cd_execution = \<lparr>ex_kind = kind_cli, ex_spec = []\<rparr>,
     cd_created_at = []\<rparr>"

definition sample_plan :: "int \<Rightarrow> probe_plan" where
  "sample_plan i = \<lparr>pp_index = i, pp_inputs = [], pp_fixtures = [],
     pp_verify = \<lparr>vf_level = L1, vf_method = method_contract, vf_checks = []\<rparr>\<rparr>"

definition sample_proposal :: proposal_result where
  "sample_proposal = \<lparr>pr_candidates = [sample_candidate ''q'' ''a.b'', sample_candidate ''p'' ''a.b'',
       sample_candidate ''p'' ''a.b'', sample_candidate ''p'' ''c.d''],
     pr_plans = [sample_plan 3, sample_plan 2, sample_plan 1, sample_plan 0], pr_diagnostics = None\<rparr>"

definition sample_selection :: proposal_result where
  "sample_selection = \<lparr>pr_candidates = [sample_candidate ''p'' ''a.b'', sample_candidate ''p'' ''c.d''],
     pr_plans = [sample_plan 0, sample_plan 1], pr_diagnostics = None\<rparr>"

lemma sample_select:
  "NormalizeResult plain_lib (Some sample_proposal) \<lparr>no_provider_id = ''p'', no_limit = 0\<rparr> = Inr sample_selection"
  by code_simp


theorem normalize_idempotent_witness:
  "NormalizeResult plain_lib (Some sample_selection) \<lparr>no_provider_id = ''p'', no_limit = 0\<rparr> = Inr sample_selection"
  by (rule normalize_idempotent [OF sample_select])

end
