(* ===== verification/Cal_Probe.thy ===== *)
theory Cal_Probe
  imports Cal_Plans Cal_Run
begin

text \<open>
  \<^verbatim>\<open>internal/probe\<close>: every proposed candidate is executed in a work directory of its own and
  checked against its verification spec. The operations on the file system are a record, the files
  the checker reads are a view of the state, and a context with a timeout is an environment derived
  from the caller's.
\<close>

abbreviation "CodeInvalidProbeInput \<equiv> ''invalid_probe_input''"
abbreviation "CodeProbeMaterializeFailed \<equiv> ''probe_materialize_failed''"
abbreviation "CodeVerificationPlanInvalid \<equiv> ''verification_plan_invalid''"

definition probe_error :: "string \<Rightarrow> string \<Rightarrow> gerr" where
  "probe_error code message = ECoded ''probe'' code message None"

definition probe_wrap :: "string \<Rightarrow> string \<Rightarrow> gerr \<Rightarrow> gerr" where
  "probe_wrap code message err = ECoded ''probe'' code message (Some err)"

definition isStructuralProbeError :: "gerr \<Rightarrow> bool" where
  "isStructuralProbeError err = (err_as_code ''probe'' err = Some CodeInvalidProbeInput)"

record probe_options =
  po_timeout :: int
  po_keep :: bool

definition probe_normalizeOptions :: "probe_options \<Rightarrow> probe_options" where
  "probe_normalizeOptions o1 = (if po_timeout o1 \<le> 0 then o1\<lparr>po_timeout := 30000000000\<rparr> else o1)"

record probe_request =
  bq_provider :: "provider option"
  bq_candidates :: "candidate list"
  bq_plans :: "probe_plan list"
  bq_trace_id :: string
  bq_work_root :: string

record probe_target =
  bt_index :: int
  bt_candidate :: candidate
  bt_plan :: probe_plan
  bt_workdir :: string

record materialized =
  mz_index :: int
  mz_inputs :: ginputs
  mz_verify :: verify_spec
  mz_workdir :: string

text \<open>\<^verbatim>\<open>os.MkdirAll\<close>, \<^verbatim>\<open>os.WriteFile\<close>, \<^verbatim>\<open>os.RemoveAll\<close>.\<close>

record 's workdir_ops =
  wk_mkdir_all :: "string \<Rightarrow> ('s, gerr option) state"
  wk_write_file :: "string \<Rightarrow> string \<Rightarrow> ('s, gerr option) state"
  wk_remove_all :: "string \<Rightarrow> ('s, gerr option) state"

section \<open>Targets\<close>

definition candidateWorkDir :: "string \<Rightarrow> int \<Rightarrow> string" where
  "candidateWorkDir root i = path_join [path_clean root, ''probes'', itoa i]"

fun plan_positions :: "int \<Rightarrow> (int, nat) gomap \<Rightarrow> nat \<Rightarrow> probe_plan list \<Rightarrow> (int, nat) gomap res" where
  "plan_positions n m i [] = Inr m"
| "plan_positions n m i (p # ps) =
     (if pp_index p < 0 \<or> n \<le> pp_index p
      then Inl (probe_error CodeInvalidProbeInput ''probe plan candidate index is out of range'')
      else if map_of m (pp_index p) \<noteq> None
      then Inl (probe_error CodeInvalidProbeInput ''duplicate probe plan candidate index'')
      else plan_positions n (put (pp_index p) i m) (Suc i) ps)"

fun probe_targets ::
    "(int, nat) gomap \<Rightarrow> probe_plan list \<Rightarrow> string \<Rightarrow> int \<Rightarrow> candidate list \<Rightarrow> probe_target list res" where
  "probe_targets m plans root i [] = Inr []"
| "probe_targets m plans root i (c # cs) =
     (case map_of m i of
        None \<Rightarrow> Inl (probe_error CodeInvalidProbeInput ''candidate is missing probe plan'')
      | Some j \<Rightarrow>
          (case probe_targets m plans root (i + 1) cs of
             Inl e \<Rightarrow> Inl e
           | Inr ts \<Rightarrow> Inr (\<lparr>bt_index = i, bt_candidate = c, bt_plan = plans ! j,
               bt_workdir = candidateWorkDir root i\<rparr> # ts)))"

definition probe_buildTargets :: "probe_request \<Rightarrow> probe_target list res" where
  "probe_buildTargets req =
     (case plan_positions (int (length (bq_candidates req))) [] 0 (bq_plans req) of
        Inl e \<Rightarrow> Inl e
      | Inr m \<Rightarrow> probe_targets m (bq_plans req) (bq_work_root req) 0 (bq_candidates req))"

section \<open>Materialization\<close>

definition writeFixture :: "'s workdir_ops \<Rightarrow> string \<Rightarrow> fixture \<Rightarrow> ('s, string res) state" where
  "writeFixture W workDir fx =
     (if blank (fx_input fx) then ret (Inl (EText ''probe fixture input is required''))
      else if blank (fx_filename fx) then ret (Inl (EText ''probe fixture filename is required''))
      else if path_is_abs (fx_filename fx) then ret (Inl (EText ''probe fixture filename must be relative''))
      else (let clean = path_clean (fx_filename fx) in
        if clean = ''.'' \<or> clean = ''..'' \<or> has_prefix ''../'' clean
        then ret (Inl (EText ''probe fixture filename escapes probe workdir''))
        else (let path = path_join [workDir, clean] in do {
          d \<leftarrow> wk_mkdir_all W (path_dir path);
          (case d of
             Some e \<Rightarrow> ret (Inl (EWrap ''create probe fixture directory: '' e []))
           | None \<Rightarrow> do {
               f \<leftarrow> wk_write_file W path (fx_content fx);
               ret (case f of
                 Some e \<Rightarrow> Inl (EWrap ''write probe fixture: '' e [])
               | None \<Rightarrow> Inr path)})})))"

fun materialize_loop :: "golib \<Rightarrow> string \<Rightarrow> ginputs \<Rightarrow> ginputs \<Rightarrow> ginputs res" where
  "materialize_loop L workDir acc [] = Inr acc"
| "materialize_loop L workDir acc ((key, value) # inputs) =
     (case is_str value of
        None \<Rightarrow> materialize_loop L workDir (put key value acc) inputs
      | Some text \<Rightarrow>
          (let rendered = replace_all ''{{workdir}}'' workDir text in
           if unrendered rendered
           then Inl (EText (''probe input '' @ quote L key @ '' has unresolved template''))
           else materialize_loop L workDir (put key (GStr rendered) acc) inputs))"

definition materializeInputs :: "golib \<Rightarrow> string \<Rightarrow> ginputs \<Rightarrow> ginputs res" where
  "materializeInputs L workDir inputs = materialize_loop L workDir [] inputs"

fun write_fixtures :: "'s workdir_ops \<Rightarrow> string \<Rightarrow> ginputs \<Rightarrow> fixture list \<Rightarrow> ('s, ginputs res) state" where
  "write_fixtures W workDir inputs [] = ret (Inr inputs)"
| "write_fixtures W workDir inputs (fx # fxs) = do {
     r \<leftarrow> writeFixture W workDir fx;
     (case r of
        Inl e \<Rightarrow> ret (Inl e)
      | Inr path \<Rightarrow> write_fixtures W workDir (put (fx_input fx) (GStr path) inputs) fxs)}"

definition Materialize :: "golib \<Rightarrow> 's workdir_ops \<Rightarrow> probe_target option \<Rightarrow> ('s, materialized res) state" where
  "Materialize L W target0 =
     (case target0 of
        None \<Rightarrow> ret (Inl (probe_error CodeInvalidProbeInput ''probe target plan is required''))
      | Some target \<Rightarrow>
          (case materializeInputs L (bt_workdir target) (pp_inputs (bt_plan target)) of
             Inl e \<Rightarrow> ret (Inl e)
           | Inr inputs \<Rightarrow> do {
               r \<leftarrow> write_fixtures W (bt_workdir target) inputs (pp_fixtures (bt_plan target));
               ret (case r of
                 Inl e \<Rightarrow> Inl e
               | Inr inputs' \<Rightarrow> Inr \<lparr>mz_index = bt_index target, mz_inputs = inputs',
                   mz_verify = pp_verify (bt_plan target), mz_workdir = bt_workdir target\<rparr>)}))"

section \<open>Probe records\<close>

definition copyInputs :: "ginputs \<Rightarrow> ginputs" where
  "copyInputs inputs = (if inputs = [] then [] else foldl (\<lambda>copied (k, v). put k v copied) [] inputs)"

definition passedProbe :: "golib \<Rightarrow> probe_target \<Rightarrow> materialized \<Rightarrow> evidence_ref list \<Rightarrow> int \<Rightarrow> probe" where
  "passedProbe L target plan evidence t =
     \<lparr>pb_candidate_index = bt_index target, pb_passed = True, pb_inputs = copyInputs (mz_inputs plan),
      pb_verify = mz_verify plan, pb_evidence = evidence, pb_reason = ''verify_checks_passed'',
      pb_error = None, pb_created_at = rfc3339 L t\<rparr>"

definition contractProbe :: "golib \<Rightarrow> probe_target \<Rightarrow> materialized \<Rightarrow> int \<Rightarrow> probe" where
  "contractProbe L target plan t =
     \<lparr>pb_candidate_index = bt_index target, pb_passed = True, pb_inputs = copyInputs (mz_inputs plan),
      pb_verify = mz_verify plan,
      pb_evidence = [\<lparr>ev_id = ''contract_probe_not_executed'', ev_type = ''contract'',
        ev_content = [(''level'', GStr (vf_level (mz_verify plan))), (''method'', GStr (vf_method (mz_verify plan))),
          (''reason'', GStr ''contract_evidence_recorded'')], ev_ref = []\<rparr>],
      pb_reason = ''contract_evidence_recorded'', pb_error = None, pb_created_at = rfc3339 L t\<rparr>"

definition l0Probe :: "golib \<Rightarrow> probe_target \<Rightarrow> materialized \<Rightarrow> int \<Rightarrow> probe" where
  "l0Probe L target plan t =
     \<lparr>pb_candidate_index = bt_index target, pb_passed = False, pb_inputs = copyInputs (mz_inputs plan),
      pb_verify = mz_verify plan, pb_evidence = [], pb_reason = ''verification_level_l0'',
      pb_error = None, pb_created_at = rfc3339 L t\<rparr>"

definition failedProbe ::
    "golib \<Rightarrow> int \<Rightarrow> ginputs \<Rightarrow> verify_spec \<Rightarrow> string \<Rightarrow> string \<Rightarrow> gerr option \<Rightarrow> int \<Rightarrow> probe" where
  "failedProbe L candidateIndex inputs verify reason code err t =
     \<lparr>pb_candidate_index = candidateIndex, pb_passed = False, pb_inputs = copyInputs inputs,
      pb_verify = verify, pb_evidence = [], pb_reason = reason,
      pb_error = Some \<lparr>re_code = code, re_message = (case err of None \<Rightarrow> [] | Some e \<Rightarrow> err_text e)\<rparr>,
      pb_created_at = rfc3339 L t\<rparr>"

definition materializeFailedProbe :: "golib \<Rightarrow> probe_target \<Rightarrow> verify_spec \<Rightarrow> gerr \<Rightarrow> int \<Rightarrow> probe" where
  "materializeFailedProbe L target verify err t =
     failedProbe L (bt_index target) [] verify CodeProbeMaterializeFailed CodeProbeMaterializeFailed (Some err) t"

definition invalidVerifyProbe :: "golib \<Rightarrow> probe_target \<Rightarrow> materialized \<Rightarrow> gerr \<Rightarrow> int \<Rightarrow> probe" where
  "invalidVerifyProbe L target plan err t =
     failedProbe L (bt_index target) (mz_inputs plan) (mz_verify plan) CodeVerificationPlanInvalid
       CodeVerificationPlanInvalid (Some err) t"

definition executionFailedProbe :: "golib \<Rightarrow> probe_target \<Rightarrow> materialized \<Rightarrow> gerr \<Rightarrow> int \<Rightarrow> probe" where
  "executionFailedProbe L target plan err t =
     (let code = (if err_is err EDeadline then ''execution_timeout'' else ''execution_failed'')
      in failedProbe L (bt_index target) (mz_inputs plan) (mz_verify plan) code code (Some err) t)"

definition verificationFailedProbe :: "golib \<Rightarrow> probe_target \<Rightarrow> materialized \<Rightarrow> gerr \<Rightarrow> int \<Rightarrow> probe" where
  "verificationFailedProbe L target plan err t =
     failedProbe L (bt_index target) (mz_inputs plan) (mz_verify plan) ''verification_failed''
       ''verification_failed'' (Some err) t"

section \<open>The runner\<close>

text \<open>
  The executor takes a context; the checker is given by the files it reads. Either may be nil.
\<close>

record 's probe_runner =
  bx_executor :: "(env \<Rightarrow> 's executor) option"
  bx_view :: "('s \<Rightarrow> fsview) option"
  bx_work :: "'s workdir_ops"
  bx_options :: probe_options

definition probe_NewRunner ::
    "(env \<Rightarrow> 's executor) option \<Rightarrow> ('s \<Rightarrow> fsview) option \<Rightarrow> 's workdir_ops \<Rightarrow> probe_options \<Rightarrow> 's probe_runner" where
  "probe_NewRunner executor view W o1 =
     \<lparr>bx_executor = executor, bx_view = view, bx_work = W, bx_options = probe_normalizeOptions o1\<rparr>"

definition world_checker :: "golib \<Rightarrow> ('s \<Rightarrow> fsview) \<Rightarrow> env \<Rightarrow> 's check_runner" where
  "world_checker L view E req = State (\<lambda>w.
     (case check_Run L (view (w_ext w)) (\<lambda>n. env_ctx E (w_tick w + n)) req of
        Inl e \<Rightarrow> (None, Some e)
      | Inr result \<Rightarrow> (Some result, None),
      w\<lparr>w_tick := Suc (w_tick w)\<rparr>))"

text \<open>The result is the cleanup or an error; after an error the deferred cleanup does nothing.\<close>

definition prepareWorkDir :: "'s workdir_ops \<Rightarrow> string \<Rightarrow> bool \<Rightarrow> ('s, gerr + ('s, unit) state) state" where
  "prepareWorkDir W path keep =
     (if path = [] then ret (Inl (probe_error CodeInvalidProbeInput ''probe workdir is required''))
      else do {
        d \<leftarrow> wk_mkdir_all W path;
        ret (case d of
          Some e \<Rightarrow> Inl (probe_wrap CodeProbeMaterializeFailed ''create probe workdir'' e)
        | None \<Rightarrow> if keep then Inr (ret ()) else Inr (do { _ \<leftarrow> wk_remove_all W path; ret () }))})"

definition executeAndCheck ::
    "golib \<Rightarrow> env \<Rightarrow> (env \<Rightarrow> 's executor) \<Rightarrow> ('s \<Rightarrow> fsview) \<Rightarrow> int \<Rightarrow> provider option \<Rightarrow> probe_target
      \<Rightarrow> materialized \<Rightarrow> int \<Rightarrow> ('s world, probe \<times> gerr option) state" where
  "executeAndCheck L E executor view timeout prov target plan t = do {
     X \<leftarrow> with_timeout E timeout;
     outcome \<leftarrow> executor X (Some \<lparr>er_provider = prov, er_execution = Some (cd_execution (bt_candidate target)),
       er_inputs = mz_inputs plan\<rparr>);
     (case outcome of
        (_, Some err) \<Rightarrow> do {
          ctxErr \<leftarrow> ctx_err X;
          let err' = (case ctxErr of Some e \<Rightarrow> e | None \<Rightarrow> err);
          ret (executionFailedProbe L target plan err' t, Some err')}
      | (None, None) \<Rightarrow>
          (let err = EText ''execute result is required''
           in ret (executionFailedProbe L target plan err t, Some err))
      | (Some outs, None) \<Rightarrow> do {
          checked \<leftarrow> world_checker L view E (Some (checkRequest (Some (mz_verify plan)) (mz_inputs plan) outs));
          ret (case checked of
             (_, Some err) \<Rightarrow> (verificationFailedProbe L target plan err t, Some err)
           | (None, None) \<Rightarrow>
               (let err = EText ''check result is required''
                in (verificationFailedProbe L target plan err t, Some err))
           | (Some result, None) \<Rightarrow> (passedProbe L target plan (cr_evidence result) t, None))})}"

text \<open>\<open>runTarget\<close> after the work directory is prepared.\<close>

definition probe_attempt ::
    "golib \<Rightarrow> env \<Rightarrow> 's probe_runner \<Rightarrow> (env \<Rightarrow> 's executor) \<Rightarrow> ('s \<Rightarrow> fsview) \<Rightarrow> provider option
      \<Rightarrow> probe_target \<Rightarrow> int \<Rightarrow> ('s world, probe \<times> gerr option) state" where
  "probe_attempt L E R executor view prov target t = do {
     m \<leftarrow> call (Materialize L (bx_work R) (Some target));
     (case m of
        Inl err \<Rightarrow> ret (materializeFailedProbe L target (pp_verify (bt_plan target)) err t, Some err)
      | Inr plan \<Rightarrow>
          (case check_Validate L (Some (mz_verify plan)) of
             Some err \<Rightarrow> ret (invalidVerifyProbe L target plan err t, Some err)
           | None \<Rightarrow>
               if vf_level (mz_verify plan) = L0 then ret (l0Probe L target plan t, None)
               else if vf_method (mz_verify plan) = method_contract then ret (contractProbe L target plan t, None)
               else if vf_method (mz_verify plan) = method_execute
               then executeAndCheck L E executor view (po_timeout (bx_options R)) prov target plan t
               else (let err = probe_error ''unsupported_verify_method'' ''verify method is not supported''
                     in ret (invalidVerifyProbe L target plan err t, Some err))))}"

definition runTarget ::
    "golib \<Rightarrow> env \<Rightarrow> 's probe_runner \<Rightarrow> (env \<Rightarrow> 's executor) \<Rightarrow> ('s \<Rightarrow> fsview) \<Rightarrow> provider option
      \<Rightarrow> probe_target \<Rightarrow> int \<Rightarrow> ('s world, probe \<times> gerr option) state" where
  "runTarget L E R executor view prov target t = do {
     prepared \<leftarrow> call (prepareWorkDir (bx_work R) (bt_workdir target) (po_keep (bx_options R)));
     (case prepared of
        Inl err \<Rightarrow> ret (materializeFailedProbe L target (pp_verify (bt_plan target)) err t, Some err)
      | Inr cleanup \<Rightarrow> do {
          result \<leftarrow> probe_attempt L E R executor view prov target t;
          _ \<leftarrow> call cleanup;
          ret result})}"

fun probe_loop ::
    "golib \<Rightarrow> env \<Rightarrow> 's probe_runner \<Rightarrow> (env \<Rightarrow> 's executor) \<Rightarrow> ('s \<Rightarrow> fsview) \<Rightarrow> provider option \<Rightarrow> int
      \<Rightarrow> probe list \<Rightarrow> probe_target list \<Rightarrow> ('s world, probe list option \<times> gerr option) state" where
  "probe_loop L E R executor view prov t probes [] = ret (Some probes, None)"
| "probe_loop L E R executor view prov t probes (target # targets) = do {
     r \<leftarrow> runTarget L E R executor view prov target t;
     (case r of (record, err) \<Rightarrow>
        if err \<noteq> None \<and> isStructuralProbeError (the err) then ret (Some (probes @ [record]), err)
        else probe_loop L E R executor view prov t (probes @ [record]) targets)}"

definition probe_validate :: "'s probe_runner option \<Rightarrow> probe_request option \<Rightarrow> gerr option" where
  "probe_validate R0 req0 =
     (let invalid = (\<lambda>m. Some (probe_error CodeInvalidProbeInput m)) in
      case R0 of
        None \<Rightarrow> invalid ''probe runner is required''
      | Some R \<Rightarrow>
          if bx_executor R = None then invalid ''probe executor is required''
          else if bx_view R = None then invalid ''probe checker is required''
          else (case req0 of
                  None \<Rightarrow> invalid ''probe request is required''
                | Some req \<Rightarrow>
                    if (case bq_provider req of None \<Rightarrow> True | Some p \<Rightarrow> blank (pv_id p))
                    then invalid ''provider is required''
                    else if blank (bq_work_root req) then invalid ''work root is required''
                    else if length (bq_candidates req) \<noteq> length (bq_plans req)
                    then invalid ''candidates and probe plans must have the same length''
                    else None))"

definition probe_Run ::
    "golib \<Rightarrow> env \<Rightarrow> 's probe_runner option \<Rightarrow> probe_request option
      \<Rightarrow> ('s world, probe list option \<times> gerr option) state" where
  "probe_Run L E R0 req0 =
     (case probe_validate R0 req0 of
        Some e \<Rightarrow> ret (None, Some e)
      | None \<Rightarrow>
          (let R = the R0; req = the req0 in
           case probe_buildTargets req of
             Inl e \<Rightarrow> ret (None, Some e)
           | Inr targets \<Rightarrow> do {
               t \<leftarrow> now E;
               probe_loop L E R (the (bx_executor R)) (the (bx_view R)) (bq_provider req) t [] targets}))"

section \<open>Targets: one per candidate, with the plan of its index\<close>

definition plan_of :: "probe_plan list \<Rightarrow> int \<Rightarrow> probe_plan" where
  "plan_of plans i = the (find (\<lambda>p. pp_index p = i) plans)"

definition target_at :: "probe_request \<Rightarrow> nat \<Rightarrow> probe_target" where
  "target_at req i = \<lparr>bt_index = int i, bt_candidate = bq_candidates req ! i,
     bt_plan = plan_of (bq_plans req) (int i), bt_workdir = candidateWorkDir (bq_work_root req) (int i)\<rparr>"

definition plan_indices_ok :: "int \<Rightarrow> probe_plan list \<Rightarrow> bool" where
  "plan_indices_ok n ps = (list_all (\<lambda>p. 0 \<le> pp_index p \<and> pp_index p < n) ps \<and> distinct (map pp_index ps))"

lemma ex_less_Suc_shift: "(\<exists>q<Suc n. P q) \<longleftrightarrow> P 0 \<or> (\<exists>q<n. P (Suc q))"
  by (auto simp: less_Suc_eq_0_disj)

lemma all_less_Suc_shift: "(\<forall>q<Suc n. P q) \<longleftrightarrow> P 0 \<and> (\<forall>q<n. P (Suc q))"
  by (auto simp: less_Suc_eq_0_disj)

lemma plan_positions_ok:
  "plan_positions n m i ps = Inr m' \<Longrightarrow>
     plan_indices_ok n ps \<and> list_all (\<lambda>p. map_of m (pp_index p) = None) ps \<and>
     (\<forall>k j. map_of m' k = Some j \<longleftrightarrow> map_of m k = Some j \<or> (\<exists>q<length ps. j = i + q \<and> pp_index (ps ! q) = k))"
proof (induction n m i ps rule: plan_positions.induct)
  case (2 n m i p ps)
  then have p: "0 \<le> pp_index p" "pp_index p < n" "map_of m (pp_index p) = None"
    and rest: "plan_positions n (put (pp_index p) i m) (Suc i) ps = Inr m'"
    by (auto split: if_splits)
  with 2 have IH: "plan_indices_ok n ps" "list_all (\<lambda>q. map_of (put (pp_index p) i m) (pp_index q) = None) ps"
    "\<And>k j. map_of m' k = Some j \<longleftrightarrow> map_of (put (pp_index p) i m) k = Some j \<or>
       (\<exists>q<length ps. j = Suc i + q \<and> pp_index (ps ! q) = k)"
    by auto
  have fresh: "pp_index q \<noteq> pp_index p \<and> map_of m (pp_index q) = None" if "q \<in> set ps" for q
    using IH(2) that by (auto simp: list_all_iff split: if_splits)
  have "map_of m' k = Some j \<longleftrightarrow> map_of m k = Some j \<or> (\<exists>q<length (p # ps). j = i + q \<and> pp_index ((p # ps) ! q) = k)"
    for k j
    unfolding IH(3) using p(3) by (auto simp: ex_less_Suc_shift)
  moreover have "plan_indices_ok n (p # ps)"
    using IH(1) p fresh by (force simp: plan_indices_ok_def)
  moreover have "list_all (\<lambda>q. map_of m (pp_index q) = None) (p # ps)"
    using p(3) fresh by (auto simp: list_all_iff)
  ultimately show ?case by blast
qed (simp add: plan_indices_ok_def)

lemma plan_positions_defined:
  "plan_indices_ok n ps \<Longrightarrow> list_all (\<lambda>p. map_of m (pp_index p) = None) ps \<Longrightarrow>
     \<exists>m'. plan_positions n m i ps = Inr m'"
proof (induction n m i ps rule: plan_positions.induct)
  case (2 n m i p ps)
  have "list_all (\<lambda>q. map_of (put (pp_index p) i m) (pp_index q) = None) ps"
    using 2(2,3) by (auto simp: list_all_iff plan_indices_ok_def image_iff)
  with 2 show ?case by (auto simp: plan_indices_ok_def)
qed simp

lemma find_nth_distinct:
  assumes "distinct (map f xs)" and "q < length xs"
  shows "find (\<lambda>x. f x = f (xs ! q)) xs = Some (xs ! q)"
proof -
  have "find (\<lambda>x. f x = f (xs ! q)) xs \<noteq> None"
    unfolding find_None_all using assms(2) nth_mem by blast
  then obtain y where y: "find (\<lambda>x. f x = f (xs ! q)) xs = Some y" by blast
  then have "y \<in> set xs" "f y = f (xs ! q)" using find_SomeD [OF y] by auto
  moreover have "inj_on f (set xs)" using assms(1) by (simp add: distinct_map)
  ultimately have "y = xs ! q" using assms(2) by (simp add: inj_on_def)
  with y show ?thesis by simp
qed

lemma probe_targets_Inr:
  "probe_targets m plans root i cs = Inr ts \<longleftrightarrow>
     (\<forall>q<length cs. map_of m (i + int q) \<noteq> None) \<and> length ts = length cs \<and>
     (\<forall>q<length cs. ts ! q = \<lparr>bt_index = i + int q, bt_candidate = cs ! q,
        bt_plan = plans ! the (map_of m (i + int q)), bt_workdir = candidateWorkDir root (i + int q)\<rparr>)"
proof (induction cs arbitrary: i ts)
  case (Cons c cs)
  show ?case
  proof (cases "map_of m i")
    case (Some j)
    show ?thesis
    proof (cases ts)
      case Nil
      with Some show ?thesis by (auto split: sum.splits)
    next
      case ts: (Cons t ts')
      have step: "probe_targets m plans root i (c # cs) = Inr ts \<longleftrightarrow>
          t = \<lparr>bt_index = i, bt_candidate = c, bt_plan = plans ! j, bt_workdir = candidateWorkDir root i\<rparr> \<and>
          probe_targets m plans root (i + 1) cs = Inr ts'"
        using Some ts by (auto split: sum.splits)
      have e: "i + 1 + int q = i + int (Suc q)" for q by simp
      have z: "i + int 0 = i" by simp
      show ?thesis
        unfolding step Cons.IH e unfolding ts length_Cons all_less_Suc_shift nth_Cons_0 nth_Cons_Suc z Some
        by (simp only: option.sel option.distinct simp_thms nat.inject) blast
    qed
  qed (auto simp: all_less_Suc_shift)
qed auto


lemma plan_indices_cover:
  assumes "plan_indices_ok (int n) ps"
  shows "(\<forall>k<n. \<exists>q<length ps. pp_index (ps ! q) = int k) \<longleftrightarrow> length ps = n"
proof -
  have sub: "pp_index ` set ps \<subseteq> int ` {..<n}"
  proof
    fix i assume "i \<in> pp_index ` set ps"
    then have "0 \<le> i" "i < int n" using assms by (auto simp: plan_indices_ok_def list_all_iff)
    then show "i \<in> int ` {..<n}" by (intro image_eqI [of _ _ "nat i"]) auto
  qed
  have card: "card (pp_index ` set ps) = length ps"
    using assms by (metis distinct_card length_map plan_indices_ok_def set_map)
  have cn: "card (int ` {..<n}) = n" by (simp add: card_image)
  have "(\<forall>k<n. \<exists>q<length ps. pp_index (ps ! q) = int k) \<longleftrightarrow> int ` {..<n} \<subseteq> pp_index ` set ps"
    by (force simp: in_set_conv_nth image_iff)
  also have "\<dots> \<longleftrightarrow> pp_index ` set ps = int ` {..<n}" using sub by blast
  also have "\<dots> \<longleftrightarrow> length ps = n"
    using sub card cn by (metis card_subset_eq finite_imageI finite_lessThan)
  finally show ?thesis .
qed

lemma proper_itoa: "proper (itoa (int n))"
proof -
  have dig: "is_digit c" if "c \<in> set (nat_text n)" for c
    using that nat_text_digits [of n] by (simp add: list_all_iff)
  have nd: "\<not> is_digit CHR ''.''" "\<not> is_digit slash" by (simp_all add: is_digit_def byte_in_def)
  have "CHR ''.'' \<notin> set (nat_text n)" "slash \<notin> set (nat_text n)" using dig nd by auto
  then show ?thesis by (auto simp: proper_def itoa_def)
qed

lemma candidateWorkDir_split:
  "candidateWorkDir root (int i) = path_join [path_clean root, ''probes''] @ slash # nat_text i"
proof -
  have "proper ''probes''" by (simp add: proper_def)
  from path_join_snoc [OF this proper_itoa [of i]] show ?thesis
    by (simp add: candidateWorkDir_def itoa_def)
qed

lemma candidateWorkDir_inj: "candidateWorkDir root (int i) = candidateWorkDir root (int j) \<Longrightarrow> i = j"
  by (simp add: candidateWorkDir_split nat_text_inj)

lemma probe_buildTargets_Inr:
  "probe_buildTargets req = Inr ts \<longleftrightarrow>
     plan_indices_ok (int (length (bq_candidates req))) (bq_plans req) \<and>
     length (bq_plans req) = length (bq_candidates req) \<and>
     ts = map (target_at req) [0..<length (bq_candidates req)]"
proof -
  let ?n = "length (bq_candidates req)" and ?ps = "bq_plans req"
  show ?thesis
  proof (cases "plan_positions (int ?n) [] 0 ?ps")
    case (Inl e)
    then have "\<not> plan_indices_ok (int ?n) ?ps" using plan_positions_defined [of "int ?n" ?ps "[]" 0] by (auto simp: list_all_iff)
    with Inl show ?thesis by (simp add: probe_buildTargets_def)
  next
    case (Inr m)
    then have ok: "plan_indices_ok (int ?n) ?ps"
      and m: "\<And>k j. map_of m k = Some j \<longleftrightarrow> (j < length ?ps \<and> pp_index (?ps ! j) = k)"
      using plan_positions_ok [OF Inr] by auto
    have "(\<forall>q<?n. map_of m (int q) \<noteq> None) \<longleftrightarrow> (\<forall>k<?n. \<exists>q<length ?ps. pp_index (?ps ! q) = int k)"
      using m by (metis not_None_eq)
    then have cover: "(\<forall>q<?n. map_of m (int q) \<noteq> None) \<longleftrightarrow> length ?ps = ?n"
      using plan_indices_cover [OF ok] by simp
    have plan: "?ps ! the (map_of m (int q)) = plan_of ?ps (int q)" if q: "map_of m (int q) \<noteq> None" for q
    proof -
      obtain j where j: "map_of m (int q) = Some j" using q by blast
      then have "j < length ?ps" "pp_index (?ps ! j) = int q" using m by auto
      then have "find (\<lambda>p. pp_index p = int q) ?ps = Some (?ps ! j)"
        using find_nth_distinct [of pp_index ?ps j] ok by (simp add: plan_indices_ok_def)
      with j show ?thesis by (simp add: plan_of_def)
    qed
    have "probe_buildTargets req = Inr ts \<longleftrightarrow> (\<forall>q<?n. map_of m (int q) \<noteq> None) \<and> length ts = ?n \<and>
        (\<forall>q<?n. ts ! q = target_at req q)"
      using plan unfolding probe_buildTargets_def Inr sum.case probe_targets_Inr target_at_def by auto
    also have "\<dots> \<longleftrightarrow> length ?ps = ?n \<and> ts = map (target_at req) [0..<?n]"
      unfolding cover by (auto intro: nth_equalityI)
    finally show ?thesis using ok by simp
  qed
qed

text \<open>
  The probe runner builds its targets exactly when the plans name every candidate once: the
  candidate indices of the plans are in range, all different, and as many as the candidates. Target
  \<open>i\<close> then has candidate \<open>i\<close>, the plan whose index is \<open>i\<close>, wherever it stands in the list of plans, and a
  work directory that no other target has.
\<close>

theorem probe_targets_exact:
  "(probe_buildTargets req = Inr ts \<longleftrightarrow>
     plan_indices_ok (int (length (bq_candidates req))) (bq_plans req) \<and>
     length (bq_plans req) = length (bq_candidates req) \<and>
     ts = map (target_at req) [0..<length (bq_candidates req)]) \<and>
   distinct (map bt_workdir (map (target_at req) [0..<length (bq_candidates req)]))"
  by (auto simp: probe_buildTargets_Inr distinct_map inj_on_def target_at_def dest: candidateWorkDir_inj)

section \<open>Fixtures stay in the work directory\<close>

text \<open>A path that is \<open>d\<close> followed by proper names, with no way up.\<close>

definition inside_dir :: "string \<Rightarrow> string \<Rightarrow> bool" where
  "inside_dir d p \<longleftrightarrow> path_clean p = p \<and> is_rooted p = is_rooted d \<and>
     (\<exists>cs. cs \<noteq> [] \<and> list_all proper cs \<and> comps p = comps d @ cs)"

text \<open>
  C32. A fixture that is written is written inside the work directory: the path is the work directory
  followed by one or more proper names (no \<open>..\<close>), whatever the file name of the plan is, and the
  last effect is the write of the fixture's content at exactly that path.
\<close>

theorem fixture_contained:
  assumes "run_state (writeFixture W workDir fx) s = (Inr p, t)" and "workDir \<noteq> []"
  shows "inside_dir workDir p \<and> (\<exists>u. run_state (wk_write_file W p (fx_content fx)) u = (None, t))"
proof -
  let ?clean = "path_clean (fx_filename fx)"
  have guards: "\<not> path_is_abs (fx_filename fx)" "?clean \<noteq> ''.''" "?clean \<noteq> ''..''" "\<not> has_prefix ''../'' ?clean"
    using assms(1) by (auto simp: writeFixture_def Let_def State_Monad.return_def split: if_splits)
  have p: "p = path_join [workDir, ?clean]" and u: "\<exists>u. run_state (wk_write_file W p (fx_content fx)) u = (None, t)"
    using assms(1)
    by (auto simp: writeFixture_def Let_def run_bind run_ret split: if_splits option.splits prod.splits)
  have cs: "comps (fx_filename fx) \<noteq> []" "list_all proper (comps (fx_filename fx))"
    "?clean = join ''/'' (comps (fx_filename fx))"
    using inside_comps [OF _ guards(2-4)] guards(1) by (auto simp: path_is_abs_def)
  from comps_join_inside [OF assms(2) cs(2,1)] cs(3)
  have "p = path_clean (workDir @ slash # ?clean)" "comps p = comps workDir @ comps (fx_filename fx)"
    unfolding p by simp_all
  moreover have "is_rooted (workDir @ slash # ?clean) = is_rooted workDir"
    using assms(2) by (cases workDir) (simp_all add: is_rooted_def)
  ultimately have "inside_dir workDir p" using cs(1,2) unfolding inside_dir_def by (metis is_rooted_clean path_clean_idem)
  with u show ?thesis by blast
qed

text \<open>An example: operations that succeed and log what they write.\<close>

definition log_ops :: "(string \<times> string) list workdir_ops" where
  "log_ops = \<lparr>wk_mkdir_all = (\<lambda>d. ret None), wk_write_file = (\<lambda>p c. State (\<lambda>l. (None, l @ [(p, c)]))),
     wk_remove_all = (\<lambda>d. ret None)\<rparr>"

theorem fixture_contained_witness:
  "inside_dir ''/w/probes/0'' ''/w/probes/0/a/b.txt'' \<and>
   run_state (writeFixture log_ops ''/w/probes/0'' \<lparr>fx_input = ''in'', fx_filename = ''./a/../a/b.txt'', fx_content = ''x''\<rparr>) []
     = (Inr ''/w/probes/0/a/b.txt'', [(''/w/probes/0/a/b.txt'', ''x'')])"
proof -
  have "run_state (writeFixture log_ops ''/w/probes/0'' \<lparr>fx_input = ''in'', fx_filename = ''./a/../a/b.txt'', fx_content = ''x''\<rparr>) []
     = (Inr ''/w/probes/0/a/b.txt'', [(''/w/probes/0/a/b.txt'', ''x'')])"
    by code_simp
  from this fixture_contained [OF this] show ?thesis by simp
qed

section \<open>What a probe run returns\<close>

lemma wp_write_fixtures: "wp (write_fixtures W d inputs fxs) (\<lambda>_ _. True) s"
  by simp

lemma wp_Materialize:
  "wp (Materialize L W (Some target)) (\<lambda>r _. case r of Inl _ \<Rightarrow> True
     | Inr plan \<Rightarrow> mz_verify plan = pp_verify (bt_plan target)) s"
  by (simp add: Materialize_def wp_simps wp_any split: sum.split)

text \<open>What a record must satisfy to count as a verified probe of a target.\<close>

definition verified_by ::
    "golib \<Rightarrow> ('s \<Rightarrow> fsview) \<Rightarrow> probe \<Rightarrow> bool" where
  "verified_by L view p \<longleftrightarrow> (\<exists>s ctx inputs outs result. pb_inputs p = copyInputs inputs \<and>
     check_Run L (view s) ctx (Some (checkRequest (Some (pb_verify p)) inputs outs)) = Inr result \<and>
     pb_evidence p = cr_evidence result)"

definition probe_sound :: "golib \<Rightarrow> ('s \<Rightarrow> fsview) \<Rightarrow> probe_target \<Rightarrow> probe \<Rightarrow> bool" where
  "probe_sound L view target p \<longleftrightarrow>
     pb_candidate_index p = bt_index target \<and> pb_verify p = pp_verify (bt_plan target) \<and>
     (pb_passed p \<longrightarrow> check_Validate L (Some (pb_verify p)) = None \<and> vf_level (pb_verify p) \<noteq> L0 \<and>
        pb_error p = None \<and> pb_evidence p \<noteq> [] \<and> list_all (\<lambda>e. evidence_err e = None) (pb_evidence p) \<and>
        (vf_method (pb_verify p) = method_contract \<or> verified_by L view p))"

lemma failed_sound:
  "verify = pp_verify (bt_plan target) \<Longrightarrow> probe_sound L view target (failedProbe L (bt_index target) i verify reason code err t)"
  by (simp add: probe_sound_def failedProbe_def)

lemmas failed_probes = materializeFailedProbe_def invalidVerifyProbe_def executionFailedProbe_def
  verificationFailedProbe_def Let_def

lemma check_evidence_ok:
  assumes "check_Run L V ctx (Some req) = Inr result"
  shows "cr_evidence result \<noteq> [] \<and> list_all (\<lambda>e. evidence_err e = None) (cr_evidence result)"
proof -
  have id: "\<not> blank (''check_'' @ rest)" for rest
    using trim_space_keeps [of "CHR ''c''" "''check_'' @ rest"] by (auto simp: byte_in_def)
  from check_Run_facts [OF assms] obtain spec :: verify_spec where
    "vf_checks spec \<noteq> []" "length (cr_evidence result) = length (vf_checks spec)"
    and ids: "\<forall>e\<in>set (cr_evidence result). \<exists>rest. ev_id e = ''check_'' @ rest"
    by blast
  then have "cr_evidence result \<noteq> []" by auto
  moreover have "evidence_err e = None" if "e \<in> set (cr_evidence result)" for e
    using ids that id by (auto simp: evidence_err_def)
  ultimately show ?thesis by (simp add: list_all_iff)
qed


lemma passed_sound:
  assumes "mz_verify plan = pp_verify (bt_plan target)" and "check_Validate L (Some (mz_verify plan)) = None"
    and "vf_level (mz_verify plan) \<noteq> L0"
    and "check_Run L (view s) ctx (Some (checkRequest (Some (mz_verify plan)) (mz_inputs plan) outs)) = Inr result"
  shows "probe_sound L view target (passedProbe L target plan (cr_evidence result) t)"
proof -
  let ?p = "passedProbe L target plan (cr_evidence result) t"
  have "pb_inputs ?p = copyInputs (mz_inputs plan) \<and>
      check_Run L (view s) ctx (Some (checkRequest (Some (pb_verify ?p)) (mz_inputs plan) outs)) = Inr result \<and>
      pb_evidence ?p = cr_evidence result"
    using assms(4) by (simp add: passedProbe_def)
  then have "verified_by L view ?p" unfolding verified_by_def by blast
  with assms(1-3) check_evidence_ok [OF assms(4)] show ?thesis
    by (simp add: probe_sound_def passedProbe_def)
qed

lemma wp_world_checker:
  assumes "\<And>e v. Q (None, Some e) v"
    and "\<And>result s ctx v. check_Run L (view s) ctx req = Inr result \<Longrightarrow> Q (Some result, None) v"
  shows "wp (world_checker L view E req) Q w"
  using assms by (auto simp: wp_def world_checker_def split: sum.splits)

lemma wp_executeAndCheck:
  assumes "mz_verify plan = pp_verify (bt_plan target)" and "check_Validate L (Some (mz_verify plan)) = None"
    and "vf_level (mz_verify plan) \<noteq> L0"
  shows "wp (executeAndCheck L E executor view timeout prov target plan t)
    (\<lambda>r (v :: 's world). probe_sound L view target (fst r)) w"
  unfolding executeAndCheck_def wp_bind
  apply (rule wp_any, rule wp_any)
  subgoal for X u outcome v
    using assms
    by (cases "fst outcome"; cases "snd outcome"; cases outcome)
       (auto simp: wp_simps Let_def failed_probes intro!: failed_sound passed_sound wp_world_checker)
  done

lemma contract_sound:
  assumes "mz_verify plan = pp_verify (bt_plan target)" and "check_Validate L (Some (mz_verify plan)) = None"
    and "vf_level (mz_verify plan) \<noteq> L0" and "vf_method (mz_verify plan) = method_contract"
  shows "probe_sound L view target (contractProbe L target plan t)"
proof -
  have "\<not> blank ''contract_probe_not_executed''" by code_simp
  with assms show ?thesis by (simp add: probe_sound_def contractProbe_def evidence_err_def)
qed

lemma l0_sound:
  "mz_verify plan = pp_verify (bt_plan target) \<Longrightarrow> probe_sound L view target (l0Probe L target plan t)"
  by (simp add: probe_sound_def l0Probe_def)

lemma wp_probe_attempt:
  "wp (probe_attempt L E R executor view prov target t) (\<lambda>r (v :: 's world). probe_sound L view target (fst r)) w"
  unfolding probe_attempt_def wp_bind wp_call
  apply (rule wp_mono [OF wp_Materialize])
  apply (auto simp: wp_simps Let_def failed_probes
      intro!: failed_sound l0_sound contract_sound wp_executeAndCheck split: sum.splits option.splits)
  done

lemma wp_runTarget:
  "wp (runTarget L E R executor view prov target t) (\<lambda>r (v :: 's world). probe_sound L view target (fst r)) w"
  unfolding runTarget_def wp_bind wp_call
  apply (rule wp_any)
  apply (auto simp: wp_simps materializeFailedProbe_def intro!: failed_sound split: sum.split)
  apply (rule wp_mono [OF wp_probe_attempt])
  apply (simp only: wp_bind wp_return)
  apply (rule wp_any)
  apply (simp add: wp_return)
  done


definition loop_post ::
    "golib \<Rightarrow> ('s \<Rightarrow> fsview) \<Rightarrow> probe list \<Rightarrow> probe_target list \<Rightarrow> probe list option \<times> gerr option \<Rightarrow> bool" where
  "loop_post L view probes ts r \<longleftrightarrow> (\<exists>new. fst r = Some (probes @ new) \<and> length new \<le> length ts \<and>
     list_all2 (probe_sound L view) (take (length new) ts) new \<and>
     (case snd r of None \<Rightarrow> length new = length ts | Some e \<Rightarrow> isStructuralProbeError e))"

lemma loop_post_step:
  "probe_sound L view t p \<Longrightarrow> loop_post L view (probes @ [p]) ts r \<Longrightarrow> loop_post L view probes (t # ts) r"
  unfolding loop_post_def by (elim exE, rule_tac x = "p # new" in exI) (auto split: option.splits)

lemma wp_probe_loop:
  "wp (probe_loop L E R executor view prov t probes ts) (\<lambda>r (v :: 's world). loop_post L view probes ts r) w"
proof (induction ts arbitrary: probes w)
  case Nil
  then show ?case by (simp add: wp_return loop_post_def)
next
  case (Cons target ts)
  show ?case
    unfolding probe_loop.simps wp_bind
  proof (rule wp_mono [OF wp_runTarget])
    fix r :: "probe \<times> gerr option" and v :: "'s world" assume r: "probe_sound L view target (fst r)"
    obtain p err where pe: "r = (p, err)" by fastforce
    show "wp (case r of (record, err) \<Rightarrow>
        if err \<noteq> None \<and> isStructuralProbeError (the err) then ret (Some (probes @ [record]), err)
        else probe_loop L E R executor view prov t (probes @ [record]) ts)
        (\<lambda>r v. loop_post L view probes (target # ts) r) v"
    proof (cases "err \<noteq> None \<and> isStructuralProbeError (the err)")
      case True
      then have "loop_post L view probes (target # ts) (Some (probes @ [p]), err)"
        using r pe by (auto simp: loop_post_def intro!: exI [of _ "[p]"])
      with True show ?thesis by (simp add: pe wp_return)
    next
      case False
      have "wp (probe_loop L E R executor view prov t (probes @ [p]) ts)
          (\<lambda>r (v :: 's world). loop_post L view probes (target # ts) r) v"
        by (rule wp_mono [OF Cons.IH]) (use r pe in \<open>auto intro: loop_post_step\<close>)
      with False show ?thesis by (auto simp: pe)
    qed
  qed
qed

definition probes_ok :: "golib \<Rightarrow> ('s \<Rightarrow> fsview) \<Rightarrow> probe_request \<Rightarrow> gerr option \<Rightarrow> probe list \<Rightarrow> bool" where
  "probes_ok L view req err probes \<longleftrightarrow> map pb_candidate_index probes = map int [0..<length probes] \<and>
    list_all2 (probe_sound L view) (map (target_at req) [0..<length probes]) probes \<and>
    (case err of None \<Rightarrow> length probes = length (bq_candidates req)
      | Some e \<Rightarrow> isStructuralProbeError e \<and> length probes \<le> length (bq_candidates req))"

lemma loop_probes_ok:
  assumes "probe_buildTargets req = Inr ts" and "loop_post L view [] ts (Some probes, err)"
  shows "probes_ok L view req err probes"
proof -
  let ?n = "length (bq_candidates req)"
  from assms(2) have post: "length probes \<le> length ts"
    "list_all2 (probe_sound L view) (take (length probes) ts) probes"
    "case err of None \<Rightarrow> length probes = length ts | Some e \<Rightarrow> isStructuralProbeError e"
    by (auto simp: loop_post_def)
  have ts: "ts = map (target_at req) [0..<?n]"
    using assms(1) by (simp add: probe_buildTargets_Inr)
  then have tk: "take (length probes) ts = map (target_at req) [0..<length probes]"
    using post(1) by (simp add: take_map)
  have "map pb_candidate_index probes = map bt_index (take (length probes) ts)"
    using post(2) by (auto simp: list_all2_conv_all_nth probe_sound_def intro: nth_equalityI)
  also have "\<dots> = map int [0..<length probes]" by (simp add: tk target_at_def)
  finally show ?thesis using post tk ts by (auto simp: probes_ok_def split: option.splits)
qed

lemma wp_probe_Run:
  "wp (probe_Run L E (Some R) (Some req)) (\<lambda>r _. \<forall>probes. fst r = Some probes \<longrightarrow>
     probes_ok L (the (bx_view R)) req (snd r) probes) w"
proof (cases "probe_validate (Some R) (Some req)")
  case None
  show ?thesis
  proof (cases "probe_buildTargets req")
    case (Inr ts)
    have "wp (probe_Run L E (Some R) (Some req)) (\<lambda>r _. loop_post L (the (bx_view R)) [] ts r) w"
      using None Inr by (simp add: probe_Run_def wp_simps wp_probe_loop Let_def)
    then show ?thesis by (rule wp_mono) (auto simp: prod_eq_iff intro!: loop_probes_ok [OF Inr])
  qed (use None in \<open>simp add: probe_Run_def wp_return Let_def\<close>)
qed (simp add: probe_Run_def wp_return)

text \<open>
  C33. A probe run returns the records of an initial segment of the candidates, in their order: record
  \<open>i\<close> has candidate index \<open>i\<close> and the verification spec of the plan for \<open>i\<close>, and all candidates have one
  unless the run stopped at a structural error. A record that passed has a spec the checker accepts,
  above L0, evidence items with ids and no error; and unless its method is the contract method the
  evidence is what a successful run of the checker on this spec produced.
\<close>

theorem probe_run_sound:
  assumes "run_state (probe_Run L E (Some R) (Some req)) w = ((Some probes, err), v)"
  shows "map pb_candidate_index probes = map int [0..<length probes] \<and>
    list_all2 (probe_sound L (the (bx_view R))) (map (target_at req) [0..<length probes]) probes \<and>
    (case err of None \<Rightarrow> length probes = length (bq_candidates req)
      | Some e \<Rightarrow> isStructuralProbeError e \<and> length probes \<le> length (bq_candidates req))"
  using wp_run [OF wp_probe_Run assms] by (simp add: probes_ok_def)


text \<open>An example: a contract plan given out of order with an L0 plan.\<close>

definition demo_probe_request :: probe_request where
  "demo_probe_request = \<lparr>bq_provider = Some \<lparr>pv_id = ''p'', pv_name = ''p'', pv_kind = ''cli'', pv_path = ''/p'',
       pv_version = []\<rparr>,
     bq_candidates = [sample_candidate ''p'' ''a.b'', sample_candidate ''p'' ''c.d''],
     bq_plans = [(sample_plan 1)\<lparr>pp_verify := \<lparr>vf_level = L0, vf_method = method_contract, vf_checks = []\<rparr>\<rparr>,
       (sample_plan 0)\<lparr>pp_fixtures := [\<lparr>fx_input = ''in'', fx_filename = ''x'', fx_content = ''c''\<rparr>]\<rparr>],
     bq_trace_id = ''t'', bq_work_root = ''/w''\<rparr>"

definition demo_probe_runner :: "(string \<times> string) list probe_runner" where
  "demo_probe_runner = probe_NewRunner (Some (\<lambda>E req. ret (None, Some ECanceled))) (Some (\<lambda>_. no_files)) log_ops
     \<lparr>po_timeout = 0, po_keep = False\<rparr>"

definition demo_probe_run :: "(probe list option \<times> gerr option) \<times> (string \<times> string) list world" where
  "demo_probe_run = run_state (probe_Run plain_lib \<lparr>env_time = (\<lambda>n. 0), env_ctx = (\<lambda>_. None)\<rparr> (Some demo_probe_runner)
     (Some demo_probe_request)) \<lparr>w_tick = 0, w_events = [], w_ext = []\<rparr>"

lemma demo_probe_result:
  "(case demo_probe_run of ((r, err), w) \<Rightarrow> (map_option (map pb_passed) r, err, w_ext w))
   = (Some [True, False], None, [(''/w/probes/0/x'', ''c'')])"
  by code_simp

theorem probe_run_sound_witness:
  "\<exists>p q v. demo_probe_run = ((Some [p, q], None), v) \<and> pb_passed p \<and> \<not> pb_passed q \<and>
     pb_candidate_index p = 0 \<and> pb_candidate_index q = 1"
proof -
  obtain r err v where c: "demo_probe_run = ((r, err), v)" by (metis surj_pair)
  have "map_option (map pb_passed) r = Some [True, False]" "err = None"
    using demo_probe_result [unfolded c] by (simp_all only: prod.case prod.inject)
  then obtain ps :: "probe list" where ps: "map pb_passed ps = [True, False]" and "r = Some ps" "err = None"
    unfolding map_option_eq_Some by (elim exE conjE) (rule that)
  then have run: "demo_probe_run = ((Some ps, None), v)" using c by simp
  from probe_run_sound [OF run [unfolded demo_probe_run_def]]
  have "map pb_candidate_index ps = map int [0..<length ps]" by simp
  moreover obtain p q where "ps = [p, q]" "pb_passed p" "\<not> pb_passed q" using ps by auto
  ultimately show ?thesis using run by (auto simp: upt_rec)
qed

end
