(* ===== verification/Cal_Promote.thy ===== *)
theory Cal_Promote
  imports Cal_World Cal_Store
begin

text \<open>
  \<^verbatim>\<open>internal/promote\<close>: passed probes become bindings of stored capabilities. The lemmas of the
  merge and of one promotion are proved over any store that keeps the contract \<open>record_store\<close>.
\<close>

abbreviation "CodeInvalidPromotionInput \<equiv> ''invalid_promotion_input''"
abbreviation "CodePromotionRejected \<equiv> ''promotion_rejected''"
abbreviation "CodePromotionStoreFailed \<equiv> ''promotion_store_failed''"

definition promote_error :: "string \<Rightarrow> string \<Rightarrow> gerr" where
  "promote_error code message = ECoded ''promote'' code message None"

definition promote_wrap :: "string \<Rightarrow> string \<Rightarrow> gerr \<Rightarrow> gerr" where
  "promote_wrap code message err = ECoded ''promote'' code message (Some err)"

record promote_request =
  pq_candidates :: "candidate list"
  pq_probes :: "probe list"

record promote_target =
  tg_index :: int
  tg_candidate :: "candidate option"
  tg_probe :: "probe option"

record 's promote_store =
  pst_get :: "string \<Rightarrow> ('s, capability option res) state"
  pst_save :: "capability option \<Rightarrow> ('s, gerr option) state"

section \<open>Targets\<close>

fun promote_targets :: "candidate list \<Rightarrow> int list \<Rightarrow> probe list \<Rightarrow> promote_target list res" where
  "promote_targets cs seen [] = Inr []"
| "promote_targets cs seen (p # ps) =
     (if \<not> pb_passed p then promote_targets cs seen ps
      else if pb_candidate_index p < 0 \<or> int (length cs) \<le> pb_candidate_index p
      then Inl (promote_error CodeInvalidPromotionInput ''passed probe candidate index is out of range'')
      else if pb_candidate_index p \<in> set seen
      then Inl (promote_error CodeInvalidPromotionInput ''duplicate passed probe candidate index'')
      else (case promote_targets cs (pb_candidate_index p # seen) ps of
              Inl e \<Rightarrow> Inl e
            | Inr ts \<Rightarrow> Inr (\<lparr>tg_index = pb_candidate_index p,
                tg_candidate = Some (cs ! nat (pb_candidate_index p)), tg_probe = Some p\<rparr> # ts)))"

definition promote_buildTargets :: "promote_request \<Rightarrow> promote_target list res" where
  "promote_buildTargets req = promote_targets (pq_candidates req) [] (pq_probes req)"

section \<open>The promoted capability\<close>

definition promotedCapability ::
    "golib \<Rightarrow> candidate option \<Rightarrow> probe option \<Rightarrow> int \<Rightarrow> (capability \<times> binding) res" where
  "promotedCapability L c0 p0 t =
     (let reject = (\<lambda>m. Inl (promote_error CodePromotionRejected m)) in
      case (c0, p0) of
        (Some c, Some p) \<Rightarrow>
          if \<not> pb_passed p then reject ''cannot promote failed probe''
          else (let providerID = trim_space (cd_provider_id c);
                    capabilityID = trim_space (cd_capability_id c);
                    description = trim_space (cd_description c)
                in if providerID = [] then reject ''candidate provider id is required''
                   else if capabilityID = [] then reject ''candidate capability id is required''
                   else if \<not> ValidCapabilityID capabilityID
                   then reject (''candidate capability id '' @ quote L capabilityID @ '' is invalid'')
                   else if description = [] then reject ''candidate description is required''
                   else if ex_kind (cd_execution c) = [] then reject ''candidate execution is required''
                   else if vf_level (pb_verify p) = [] then reject ''probe verify level is required''
                   else if vf_level (pb_verify p) = L0 then reject ''cannot promote L0 verification''
                   else if vf_method (pb_verify p) = [] then reject ''probe verify method is required''
                   else if pb_evidence p = [] then reject ''probe evidence is required''
                   else (case BindingIDForExecution L capabilityID providerID (cd_execution c) of
                           Inl e \<Rightarrow> Inl (promote_wrap CodePromotionRejected ''derive binding id'' e)
                         | Inr bindingID \<Rightarrow>
                             (let b = \<lparr>bd_id = bindingID, bd_capability_id = capabilityID,
                                    bd_provider_id = providerID, bd_execution = cd_execution c,
                                    bd_verify = Some (pb_verify p), bd_evidence = pb_evidence p,
                                    bd_state = state_promoted, bd_created_at = rfc3339 L t\<rparr>;
                                  cap = \<lparr>cp_id = capabilityID, cp_description = description, cp_bindings = [b]\<rparr>
                              in case ValidateCapability L cap of
                                   Some e \<Rightarrow> Inl (promote_wrap CodePromotionRejected ''validate promoted capability'' e)
                                 | None \<Rightarrow> Inr (cap, b))))
      | _ \<Rightarrow> reject ''candidate and probe are required'')"

definition bindingByID :: "binding list \<Rightarrow> string \<Rightarrow> binding option" where
  "bindingByID bs i = find (\<lambda>b. bd_id b = i) bs"

definition hasBinding :: "capability \<Rightarrow> string \<Rightarrow> bool" where
  "hasBinding c i = (bindingByID (cp_bindings c) i \<noteq> None)"

text \<open>The first loop of the merge: existing bindings, replaced where a promoted one has their id.\<close>

fun merge_existing :: "binding list \<Rightarrow> binding list \<Rightarrow> binding list \<times> string list" where
  "merge_existing promoted [] = ([], [])"
| "merge_existing promoted (b # bs) =
     (case merge_existing promoted bs of (rest, replaced) \<Rightarrow>
        (case bindingByID promoted (bd_id b) of
           Some r \<Rightarrow> (r # rest, bd_id b # replaced)
         | None \<Rightarrow> (b # rest, replaced)))"

definition mergeCapability :: "capability \<Rightarrow> capability \<Rightarrow> capability" where
  "mergeCapability existing promoted =
     (case merge_existing (cp_bindings promoted) (cp_bindings existing) of (kept, replaced) \<Rightarrow>
        existing\<lparr>cp_description := (if blank (cp_description existing) then cp_description promoted
                                    else cp_description existing),
                 cp_bindings := kept @ filter (\<lambda>b. bd_id b \<notin> set replaced) (cp_bindings promoted)\<rparr>)"

section \<open>The runner\<close>

text \<open>What \<open>promoteTarget\<close> does once the stored capability is known to exist or not.\<close>

definition promote_into ::
    "golib \<Rightarrow> 's promote_store \<Rightarrow> promote_target \<Rightarrow> int \<Rightarrow> capability \<Rightarrow> binding \<Rightarrow> capability option
      \<Rightarrow> ('s, promotion res) state" where
  "promote_into L st target t promoted b existing =
     (let capabilityAction = (case existing of None \<Rightarrow> ''created'' | Some _ \<Rightarrow> ''reused'');
          bindingAction = (case existing of None \<Rightarrow> ''created''
            | Some c \<Rightarrow> if hasBinding c (bd_id b) then ''updated'' else ''created'');
          cap = (case existing of None \<Rightarrow> promoted | Some c \<Rightarrow> mergeCapability c promoted)
      in do {
        err \<leftarrow> pst_save st (Some cap);
        ret (case err of
          Some e \<Rightarrow> Inl (promote_wrap CodePromotionStoreFailed ''save capability'' e)
        | None \<Rightarrow> Inr \<lparr>pm_candidate_index = tg_index target, pm_capability_id = cp_id cap,
            pm_binding_id = bd_id b, pm_provider_id = bd_provider_id b,
            pm_capability_action = capabilityAction, pm_binding_action = bindingAction,
            pm_created_at = rfc3339 L t\<rparr>)})"

definition promoteTarget ::
    "golib \<Rightarrow> 's promote_store \<Rightarrow> promote_target \<Rightarrow> int \<Rightarrow> ('s, promotion res) state" where
  "promoteTarget L st target t =
     (case promotedCapability L (tg_candidate target) (tg_probe target) t of
        Inl e \<Rightarrow> ret (Inl e)
      | Inr (promoted, b) \<Rightarrow> do {
          found \<leftarrow> pst_get st (cp_id promoted);
          (case found of
             Inl e \<Rightarrow> ret (Inl (promote_wrap CodePromotionStoreFailed ''load capability'' e))
           | Inr existing \<Rightarrow> promote_into L st target t promoted b existing)})"

text \<open>The result may be there together with an error: the promotions made so far.\<close>

fun promote_loop ::
    "golib \<Rightarrow> env \<Rightarrow> 's promote_store \<Rightarrow> promotion list \<Rightarrow> promote_target list
      \<Rightarrow> ('s world, promotion list \<times> gerr option) state" where
  "promote_loop L E st acc [] = ret (acc, None)"
| "promote_loop L E st acc (t # ts) = do {
     c \<leftarrow> ctx_err E;
     (case c of
        Some e \<Rightarrow> ret (acc, Some e)
      | None \<Rightarrow> do {
          time \<leftarrow> now E;
          r \<leftarrow> call (promoteTarget L st t time);
          (case r of
             Inl e \<Rightarrow> ret (acc, Some e)
           | Inr p \<Rightarrow> promote_loop L E st (acc @ [p]) ts)})}"

definition promote_validate :: "'s promote_store option option \<Rightarrow> promote_request option \<Rightarrow> gerr option" where
  "promote_validate runner req =
     (case runner of
        None \<Rightarrow> Some (promote_error CodeInvalidPromotionInput ''promotion runner is required'')
      | Some st \<Rightarrow>
          if st = None then Some (promote_error CodeInvalidPromotionInput ''promotion store is required'')
          else if req = None then Some (promote_error CodeInvalidPromotionInput ''promotion request is required'')
          else None)"

definition promote_Run ::
    "golib \<Rightarrow> env \<Rightarrow> 's promote_store option option \<Rightarrow> promote_request option
      \<Rightarrow> ('s world, promotion list option \<times> gerr option) state" where
  "promote_Run L E runner req =
     (case promote_validate runner req of
        Some e \<Rightarrow> ret (None, Some e)
      | None \<Rightarrow>
          (case promote_buildTargets (the req) of
             Inl e \<Rightarrow> ret (None, Some e)
           | Inr targets \<Rightarrow> do {
               (acc, e) \<leftarrow> promote_loop L E (the (the runner)) [] targets;
               ret (Some acc, e)}))"

section \<open>Targets are the passed probes\<close>

definition target_of :: "candidate list \<Rightarrow> probe \<Rightarrow> promote_target" where
  "target_of cs p = \<lparr>tg_index = pb_candidate_index p, tg_candidate = Some (cs ! nat (pb_candidate_index p)), tg_probe = Some p\<rparr>"

definition targets_ok :: "candidate list \<Rightarrow> int list \<Rightarrow> probe list \<Rightarrow> bool" where
  "targets_ok cs seen passed \<longleftrightarrow>
     list_all (\<lambda>p. 0 \<le> pb_candidate_index p \<and> pb_candidate_index p < int (length cs)) passed \<and>
     distinct (map pb_candidate_index passed) \<and> set (map pb_candidate_index passed) \<inter> set seen = {}"

lemma promote_targets_ok:
  "targets_ok cs seen (filter pb_passed ps) \<Longrightarrow>
   promote_targets cs seen ps = Inr (map (target_of cs) (filter pb_passed ps))"
  by (induction ps arbitrary: seen) (auto simp: targets_ok_def target_of_def)

lemma promote_targets_Inr:
  "promote_targets cs seen ps = Inr ts \<Longrightarrow> targets_ok cs seen (filter pb_passed ps)"
  by (induction ps arbitrary: seen ts) (fastforce simp: targets_ok_def split: if_splits sum.splits)+

text \<open>
  The promotion targets are the passed probes in order, each with the candidate its index names;
  building them fails exactly when an index of a passed probe is out of range or occurs twice.
\<close>

theorem promote_targets_exact:
  "promote_buildTargets req = Inr ts \<longleftrightarrow>
     (let passed = filter pb_passed (pq_probes req) in
      distinct (map pb_candidate_index passed) \<and>
      list_all (\<lambda>p. 0 \<le> pb_candidate_index p \<and> pb_candidate_index p < int (length (pq_candidates req))) passed \<and>
      ts = map (\<lambda>p. \<lparr>tg_index = pb_candidate_index p,
        tg_candidate = Some (pq_candidates req ! nat (pb_candidate_index p)), tg_probe = Some p\<rparr>) passed)"
proof -
  have "map (\<lambda>p. \<lparr>tg_index = pb_candidate_index p,
        tg_candidate = Some (pq_candidates req ! nat (pb_candidate_index p)), tg_probe = Some p\<rparr>) ps
      = map (target_of (pq_candidates req)) ps" for ps
    by (simp add: target_of_def)
  then have mk: "\<And>ps. map (\<lambda>p. \<lparr>tg_index = pb_candidate_index p,
        tg_candidate = Some (pq_candidates req ! nat (pb_candidate_index p)), tg_probe = Some p\<rparr>) ps
      = map (target_of (pq_candidates req)) ps" .
  let ?ok = "targets_ok (pq_candidates req) [] (filter pb_passed (pq_probes req))"
  have ok: "?ok \<longleftrightarrow> distinct (map pb_candidate_index (filter pb_passed (pq_probes req))) \<and>
      list_all (\<lambda>p. 0 \<le> pb_candidate_index p \<and> pb_candidate_index p < int (length (pq_candidates req)))
        (filter pb_passed (pq_probes req))"
    unfolding targets_ok_def by (simp add: conj_commute)
  have "promote_buildTargets req = Inr ts \<longleftrightarrow>
      ?ok \<and> ts = map (target_of (pq_candidates req)) (filter pb_passed (pq_probes req))"
    unfolding promote_buildTargets_def
    by (metis promote_targets_ok promote_targets_Inr sum.inject(2))
  then show ?thesis unfolding Let_def mk ok by blast
qed

section \<open>What is promoted\<close>

text \<open>
  C30. Whatever is promoted satisfies the contract of stored capabilities and comes from the probe:
  one promoted binding that carries the probe's verify spec, at a level other than L0, and its
  evidence, and whose id is derived from capability, provider and execution.
\<close>

theorem promoted_is_valid:
  assumes "promotedCapability L (Some c) (Some p) t = Inr (cap, b)"
  shows "capability_ok cap \<and> cp_id cap = trim_space (cd_capability_id c) \<and> cp_bindings cap = [b] \<and>
    pb_passed p \<and> bd_verify b = Some (pb_verify p) \<and> vf_level (pb_verify p) \<noteq> L0 \<and> bd_evidence b = pb_evidence p \<and>
    BindingIDForExecution L (cp_id cap) (bd_provider_id b) (bd_execution b) = Inr (bd_id b)"
  using assms
  by (auto simp: promotedCapability_def Let_def ValidateCapability_None split: if_splits sum.splits option.splits)

section \<open>Merging\<close>

lemma bindingByID_Some: "bindingByID bs i = Some b \<Longrightarrow> b \<in> set bs \<and> bd_id b = i"
  unfolding bindingByID_def by (rule find_SomeD)

lemma bindingByID_None: "bindingByID bs i = None \<longleftrightarrow> i \<notin> bd_id ` set bs"
  by (auto simp: bindingByID_def find_None_all)

definition replace_by :: "binding list \<Rightarrow> binding \<Rightarrow> binding" where
  "replace_by promoted b = (case bindingByID promoted (bd_id b) of Some r \<Rightarrow> r | None \<Rightarrow> b)"

lemma merge_existing_eq:
  "merge_existing promoted bs =
     (map (replace_by promoted) bs, filter (\<lambda>i. bindingByID promoted i \<noteq> None) (map bd_id bs))"
  by (induction bs) (auto simp: replace_by_def split: option.split)

lemma replace_by_id [simp]: "bd_id (replace_by promoted b) = bd_id b"
  by (auto simp: replace_by_def dest: bindingByID_Some split: option.split)

lemma merge_bindings:
  "cp_bindings (mergeCapability existing promoted) =
     map (replace_by (cp_bindings promoted)) (cp_bindings existing) @
     filter (\<lambda>b. bd_id b \<notin> bd_id ` set (cp_bindings existing)) (cp_bindings promoted)"
  by (auto simp: mergeCapability_def merge_existing_eq bindingByID_None intro!: filter_cong)

lemma merge_id [simp]: "cp_id (mergeCapability existing promoted) = cp_id existing"
  by (simp add: mergeCapability_def split: prod.split)

lemma merge_description:
  "cp_description (mergeCapability existing promoted) =
     (if blank (cp_description existing) then cp_description promoted else cp_description existing)"
  by (simp add: mergeCapability_def split: prod.split)

lemma merge_ok [keeps]:
  assumes "capability_ok existing" and "capability_ok promoted" and "cp_id existing = cp_id promoted"
    and "cp_bindings promoted \<noteq> []"
  shows "capability_ok (mergeCapability existing promoted)"
proof -
  have r: "binding_ok (cp_id existing) (replace_by (cp_bindings promoted) b)" if "b \<in> set (cp_bindings existing)" for b
    using that assms by (auto simp: replace_by_def capability_ok_def dest: bindingByID_Some split: option.split)
  then show ?thesis
    using assms by (auto simp: capability_ok_def merge_bindings merge_description)
qed

lemma replace_by_single: "replace_by [b] x = (if bd_id x = bd_id b then b else x)"
  by (auto simp: replace_by_def bindingByID_def)

lemma merge_bindings_single:
  "cp_bindings promoted = [b] \<Longrightarrow> cp_bindings (mergeCapability existing promoted) =
     map (\<lambda>x. if bd_id x = bd_id b then b else x) (cp_bindings existing)
      @ (if bd_id b \<in> bd_id ` set (cp_bindings existing) then [] else [b])"
  by (auto simp: merge_bindings replace_by_single)

text \<open>
  Merging a promoted capability into a stored one of the same id keeps the contract of stored
  capabilities, keeps every stored binding with another id, in order, replaces those with the id of
  a promoted binding, adds the others at the end, and is idempotent.
\<close>

theorem merge_capability:
  assumes "capability_ok existing" and "capability_ok promoted" and "cp_id existing = cp_id promoted"
    and "cp_bindings promoted = [b]"
  shows "capability_ok (mergeCapability existing promoted) \<and>
    filter (\<lambda>x. bd_id x \<noteq> bd_id b) (cp_bindings (mergeCapability existing promoted))
      = filter (\<lambda>x. bd_id x \<noteq> bd_id b) (cp_bindings existing) \<and>
    (\<forall>x\<in>set (cp_bindings (mergeCapability existing promoted)). bd_id x = bd_id b \<longrightarrow> x = b) \<and>
    b \<in> set (cp_bindings (mergeCapability existing promoted)) \<and>
    mergeCapability (mergeCapability existing promoted) promoted = mergeCapability existing promoted"
proof -
  let ?m = "mergeCapability existing promoted"
  note rb = replace_by_single
  note bs = merge_bindings_single [OF assms(4), of existing]
  have "capability_ok ?m" using assms by (simp add: merge_ok)
  moreover have "filter (\<lambda>x. bd_id x \<noteq> bd_id b) (map (\<lambda>x. if bd_id x = bd_id b then b else x) xs)
      = filter (\<lambda>x. bd_id x \<noteq> bd_id b) xs" for xs
    by (induction xs) auto
  moreover have "b \<in> set (cp_bindings ?m)" using bs by auto
  moreover have "mergeCapability ?m promoted = ?m"
  proof (rule capability.equality)
    have "map (\<lambda>x. if bd_id x = bd_id b then b else x) (cp_bindings ?m) = cp_bindings ?m"
      unfolding bs by auto
    moreover have "bd_id b \<in> bd_id ` set (cp_bindings ?m)" using \<open>b \<in> set (cp_bindings ?m)\<close> by simp
    ultimately show "cp_bindings (mergeCapability ?m promoted) = cp_bindings ?m"
      using merge_bindings [of ?m promoted] assms(4) by (simp add: rb cong: map_cong)
    show "cp_description (mergeCapability ?m promoted) = cp_description ?m" by (simp add: merge_description)
  qed simp_all
  ultimately show ?thesis unfolding bs by auto
qed

section \<open>Promotion into a store\<close>

text \<open>
  The interface of promotion: a store of capabilities whose valid records satisfy the contract of
  capabilities and which holds every valid capability id.
\<close>

locale capability_store = record_store "pst_get st" "\<lambda>c. pst_save st (Some c)" view cp_id ok again vis
  for st :: "'s promote_store"
    and view :: "'s \<Rightarrow> string \<Rightarrow> capability option"
    and ok :: "capability \<Rightarrow> bool" and again :: "capability \<Rightarrow> capability option" and vis :: "string \<Rightarrow> bool" +
  assumes ok_contract: "ok c \<Longrightarrow> capability_ok c"
    and vis_id: "ValidCapabilityID i \<Longrightarrow> vis i"
begin

definition merged :: "capability option \<Rightarrow> capability \<Rightarrow> capability" where
  "merged existing promoted = (case existing of None \<Rightarrow> promoted | Some c \<Rightarrow> mergeCapability c promoted)"

lemma merged_has_binding:
  "cp_bindings promoted = [b] \<Longrightarrow> b \<in> set (cp_bindings (merged existing promoted))"
  unfolding merged_def
  by (cases existing) (auto simp: merge_bindings_single)

definition promoted_effect ::
    "promote_target \<Rightarrow> capability \<Rightarrow> binding \<Rightarrow> 's \<Rightarrow> promotion res \<Rightarrow> 's \<Rightarrow> bool" where
  "promoted_effect target promoted b s r u \<longleftrightarrow>
     (case r of
        Inl e \<Rightarrow> view u = view s
      | Inr pm \<Rightarrow>
          let c = merged (view s (cp_id promoted)) promoted in
          view u = (view s)(cp_id c := again c) \<and> ok c \<and> pm_capability_id pm = cp_id c \<and>
          pm_binding_id pm = bd_id b \<and> pm_provider_id pm = bd_provider_id b \<and>
          pm_candidate_index pm = tg_index target \<and>
          (pm_capability_action pm = ''created'' \<longleftrightarrow> view s (cp_id promoted) = None))"

lemma wp_promote_into:
  assumes "view u = view s" and "vis (cp_id (merged (view s (cp_id promoted)) promoted))"
  shows "wp (promote_into L st target t promoted b (view s (cp_id promoted)))
    (promoted_effect target promoted b s) u"
proof -
  have m: "(case view s (cp_id promoted) of None \<Rightarrow> promoted | Some c \<Rightarrow> mergeCapability c promoted)
      = merged (view s (cp_id promoted)) promoted"
    by (simp add: merged_def)
  show ?thesis
    unfolding promote_into_def Let_def m wp_bind
    by (rule wp_save [OF assms(2)])
      (simp_all add: wp_return promoted_effect_def Let_def assms(1) split: option.split)
qed

lemma wp_promoteTarget:
  assumes p: "promotedCapability L (tg_candidate target) (tg_probe target) t = Inr (promoted, b)"
    and promoted: "capability_ok promoted"
  shows "wp (promoteTarget L st target t)
    (promoted_effect target promoted b s) s"
proof -
  have vis: "vis (cp_id promoted)" using promoted by (simp add: vis_id capability_ok_def)
  show ?thesis
    unfolding promoteTarget_def p sum.case prod.case wp_bind
  proof (rule wp_get [OF vis])
    fix u :: 's assume u: "view u = view s" and none: "view s (cp_id promoted) = None"
    have "vis (cp_id (merged (view s (cp_id promoted)) promoted))" using vis none by (simp add: merged_def)
    from wp_promote_into [OF u this] show "wp (case Inr None of
        Inl e \<Rightarrow> ret (Inl (promote_wrap CodePromotionStoreFailed ''load capability'' e))
      | Inr existing \<Rightarrow> promote_into L st target t promoted b existing)
      (promoted_effect target promoted b s) u" unfolding none by simp
  next
    fix a and u :: 's assume u: "view u = view s" and some: "view s (cp_id promoted) = Some a" and "ok a"
    then have "vis (cp_id (merged (view s (cp_id promoted)) promoted))"
      using ok_contract by (simp add: merged_def vis_id capability_ok_def)
    from wp_promote_into [OF u this] show "wp (case Inr (Some a) of
        Inl e \<Rightarrow> ret (Inl (promote_wrap CodePromotionStoreFailed ''load capability'' e))
      | Inr existing \<Rightarrow> promote_into L st target t promoted b existing)
      (promoted_effect target promoted b s) u" unfolding some by simp
  qed (simp add: wp_return promoted_effect_def)
qed

end

lemma ValidCapabilityID_visible_record:
  assumes "ValidCapabilityID i"
  shows "visible i"
proof -
  obtain a b where i: "i = a @ ''.'' @ b" "a \<noteq> []" "b \<noteq> []" "list_all id_char a" "list_all id_char b"
    using assms by (auto simp: ValidCapabilityID_iff)
  have "\<not> id_char slash" "\<not> id_char (CHR 0x5C)" by (simp_all add: id_char_def byte_in_def)
  then have "slash \<notin> set i" "CHR 0x5C \<notin> set i" using i by (auto simp: list_all_iff)
  moreover have "\<not> blank i" using ValidCapabilityID_trim [OF assms] i by simp
  moreover have "hd i \<noteq> CHR ''.''"
    using i by (cases a) auto
  ultimately show ?thesis by (intro visibleI) (auto simp: record_id_def)
qed

definition file_promote_store :: "golib \<Rightarrow> capability codec \<Rightarrow> store \<Rightarrow> fsys promote_store" where
  "file_promote_store L C S = \<lparr>pst_get = GetCapability L C S, pst_save = SaveCapability L C S\<rparr>"

interpretation promotions: capability_store
  "file_promote_store L C S" "capability_view C S" "\<lambda>c. ValidateCapability L c = None" "reread C" visible
  for L C S
proof (rule capability_store.intro)
  show "record_store (pst_get (file_promote_store L C S)) (\<lambda>c. pst_save (file_promote_store L C S) (Some c))
    (capability_view C S) cp_id (\<lambda>c. ValidateCapability L c = None) (reread C) visible"
    unfolding file_promote_store_def promote_store.select_convs by (rule capabilities.record_store_axioms)
qed (unfold_locales, simp_all add: ValidateCapability_None ValidCapabilityID_visible_record)

text \<open>
  C8. Promoting one target into CAL's store: on success the stored capability of the promoted id is
  the promoted one, or the existing one merged with it, as JSON reads it back; it is valid, holds
  the new binding and is the one named in the promotion; no other capability changes; and the
  action is \<^verbatim>\<open>created\<close> exactly when there was none. On failure no capability changes.
\<close>

theorem promote_target_effect:
  assumes p: "promotedCapability L (tg_candidate target) (tg_probe target) t = Inr (promoted, b)"
    and run: "run_state (promoteTarget L (file_promote_store L C S) target t) s = (r, u)"
  shows "(case r of
       Inl e \<Rightarrow> capability_view C S u = capability_view C S s
     | Inr pm \<Rightarrow>
         let existing = capability_view C S s (cp_id promoted);
             c = (case existing of None \<Rightarrow> promoted | Some e \<Rightarrow> mergeCapability e promoted) in
         capability_view C S u = (capability_view C S s)(cp_id c := reread C c) \<and>
         ValidateCapability L c = None \<and> b \<in> set (cp_bindings c) \<and>
         pm_capability_id pm = cp_id c \<and> pm_binding_id pm = bd_id b \<and>
         (pm_capability_action pm = ''created'' \<longleftrightarrow> existing = None))"
proof -
  obtain c q where cq: "tg_candidate target = Some c" "tg_probe target = Some q"
    using p by (cases "tg_candidate target"; cases "tg_probe target") (auto simp: promotedCapability_def Let_def)
  have v: "capability_ok promoted" "cp_bindings promoted = [b]"
    using p unfolding cq
    by (auto simp: promotedCapability_def Let_def ValidateCapability_None split: if_splits sum.splits option.splits)
  have "promotions.promoted_effect C S L target promoted b s r u"
    by (rule wp_run [OF promotions.wp_promoteTarget [where L = L and t = t, OF p v(1)] run])
  then show ?thesis
    using promotions.merged_has_binding [OF v(2)]
    by (cases r) (auto simp: promotions.promoted_effect_def promotions.merged_def Let_def)
qed

section \<open>A promotion run\<close>

lemma wp_promote_loop:
  "wp (promote_loop L E st acc ts) (\<lambda>(r, e) v.
     \<exists>n\<le>length ts. map pm_candidate_index r = map pm_candidate_index acc @ map tg_index (take n ts)
       \<and> (e = None \<longrightarrow> n = length ts)) w"
proof (induction ts arbitrary: acc w)
  case (Cons t ts acc w)
  have stop: "\<exists>n\<le>length (t # ts). map pm_candidate_index acc = map pm_candidate_index acc @ map tg_index (take n (t # ts))
       \<and> (Some e = None \<longrightarrow> n = length (t # ts))" for e :: gerr
    by (intro exI [of _ 0]) simp
  have idx: "wp (promoteTarget L st t time) (\<lambda>r _. case r of Inl _ \<Rightarrow> True | Inr p \<Rightarrow> pm_candidate_index p = tg_index t) s" for time s
    unfolding promoteTarget_def promote_into_def Let_def
    by (auto simp: wp_def State_Monad.return_def split: sum.split prod.split option.split)
  show ?case
    apply (simp only: promote_loop.simps wp_bind wp_ctx_err)
    apply (cases "env_ctx E (w_tick w)")
     apply (simp only: option.case wp_bind wp_now wp_call)
     apply (rule wp_mono [OF idx])
    subgoal for r s
      apply (cases r)
       apply (simp add: wp_return stop del: take_Suc_Cons)
      subgoal for p
        apply simp
        apply (rule wp_mono [OF Cons.IH])
        subgoal for a u
          apply (cases a)
          apply (clarsimp)
          subgoal for r' e n by (rule exI [of _ "Suc n"]) auto
          done
        done
      done
    apply (simp add: wp_return stop del: take_Suc_Cons)
    done
qed (simp add: wp_return)

definition promoted_prefix :: "promote_request \<Rightarrow> gerr option \<Rightarrow> promotion list \<Rightarrow> bool" where
  "promoted_prefix req e ps \<longleftrightarrow> (\<exists>n\<le>length (filter pb_passed (pq_probes req)).
    map pm_candidate_index ps = map pb_candidate_index (take n (filter pb_passed (pq_probes req))) \<and>
    (e = None \<longrightarrow> n = length (filter pb_passed (pq_probes req))))"

lemma wp_promote_Run:
  "wp (promote_Run L E (Some (Some st)) (Some req)) (\<lambda>r _. \<forall>ps. fst r = Some ps \<longrightarrow> promoted_prefix req (snd r) ps) w"
proof (cases "promote_buildTargets req")
  case (Inr ts)
  then have ts: "ts = map (target_of (pq_candidates req)) (filter pb_passed (pq_probes req))"
    using promote_targets_ok promote_targets_Inr unfolding promote_buildTargets_def by (metis sum.inject(2))
  have pre: "promoted_prefix req e ps"
    if "n \<le> length ts" "map pm_candidate_index ps = map tg_index (take n ts)" "e = None \<longrightarrow> n = length ts" for n ps e
    using that unfolding promoted_prefix_def ts
    by (intro exI [of _ n]) (simp add: take_map target_of_def)
  show ?thesis
    using Inr by (simp add: promote_Run_def promote_validate_def wp_bind)
      (rule wp_mono [OF wp_promote_loop], simp add: wp_return split: prod.splits, blast intro: pre)
qed (simp add: promote_Run_def promote_validate_def wp_return)


section \<open>Examples\<close>

definition demo_candidate :: candidate where
  "demo_candidate = \<lparr>cd_provider_id = ''p1'', cd_capability_id = ''text.echo'', cd_description = ''Print a text.'',
     cd_source = [], cd_provenance = None, cd_execution = \<lparr>ex_kind = kind_cli, ex_spec = []\<rparr>, cd_created_at = []\<rparr>"

definition demo_probe :: probe where
  "demo_probe = \<lparr>pb_candidate_index = 0, pb_passed = True, pb_inputs = [],
     pb_verify = \<lparr>vf_level = L1, vf_method = method_execute, vf_checks = []\<rparr>,
     pb_evidence = [\<lparr>ev_id = ''e1'', ev_type = [], ev_content = [], ev_ref = []\<rparr>],
     pb_reason = [], pb_error = None, pb_created_at = []\<rparr>"

definition demo_promoted :: "capability \<times> binding" where
  "demo_promoted =
     (case promotedCapability plain_lib (Some demo_candidate) (Some demo_probe) 0 of
        Inr x \<Rightarrow> x | Inl e \<Rightarrow> (named_capability [], \<lparr>bd_id = [], bd_capability_id = [], bd_provider_id = [],
          bd_execution = \<lparr>ex_kind = [], ex_spec = []\<rparr>, bd_verify = None, bd_evidence = [], bd_state = [],
          bd_created_at = []\<rparr>))"

lemma demo_promotes:
  "promotedCapability plain_lib (Some demo_candidate) (Some demo_probe) 0 = Inr (fst demo_promoted, snd demo_promoted)"
  by code_simp

theorem promoted_is_valid_witness:
  "capability_ok (fst demo_promoted) \<and> cp_id (fst demo_promoted) = ''text.echo''"
proof -
  have "trim_space (cd_capability_id demo_candidate) = ''text.echo''" by code_simp
  with promoted_is_valid [OF demo_promotes] show ?thesis by simp
qed

theorem merge_capability_witness:
  "mergeCapability (mergeCapability (fst demo_promoted) (fst demo_promoted)) (fst demo_promoted)
   = mergeCapability (fst demo_promoted) (fst demo_promoted)"
proof -
  have "capability_ok (fst demo_promoted)" by code_simp
  moreover have "cp_bindings (fst demo_promoted) = [snd demo_promoted]" by code_simp
  ultimately show ?thesis using merge_capability by blast
qed

definition demo_target :: promote_target where
  "demo_target = \<lparr>tg_index = 0, tg_candidate = Some demo_candidate, tg_probe = Some demo_probe\<rparr>"

text \<open>Into an empty store: the promotion succeeds and creates the capability.\<close>

definition demo_promotion :: "promotion res \<times> fsys" where
  "demo_promotion = run_state (promoteTarget plain_lib
     (file_promote_store plain_lib name_codec \<lparr>st_root = ''/h''\<rparr>) demo_target 0) empty_fs"

theorem promote_target_effect_witness:
  "(case fst demo_promotion of Inl e \<Rightarrow> False | Inr pm \<Rightarrow> pm_capability_action pm = ''created'') \<and>
   capability_view name_codec \<lparr>st_root = ''/h''\<rparr> empty_fs ''text.echo'' = None"
proof -
  have p: "promotedCapability plain_lib (tg_candidate demo_target) (tg_probe demo_target) 0
      = Inr (fst demo_promoted, snd demo_promoted)"
    using demo_promotes by (simp add: demo_target_def)
  have "run_state (promoteTarget plain_lib (file_promote_store plain_lib name_codec \<lparr>st_root = ''/h''\<rparr>) demo_target 0) empty_fs
      = (fst demo_promotion, snd demo_promotion)" by (simp add: demo_promotion_def)
  note e = promote_target_effect [OF p this]
  have empty: "capability_view name_codec \<lparr>st_root = ''/h''\<rparr> empty_fs (cp_id (fst demo_promoted)) = None"
    by (simp add: capability_view_def stored_def empty_fs_def)
  have "\<exists>pm. fst demo_promotion = Inr pm"
  proof -
    have "isl (fst demo_promotion) = False" by code_simp
    then show ?thesis by (cases "fst demo_promotion") auto
  qed
  with e empty show ?thesis
    by (auto simp: Let_def capability_view_def stored_def empty_fs_def)
qed

definition demo_promote_world :: "fsys world" where
  "demo_promote_world = \<lparr>w_tick = 0, w_events = [], w_ext = empty_fs\<rparr>"

definition still_env :: env where
  "still_env = \<lparr>env_time = (\<lambda>_. 0), env_ctx = (\<lambda>_. None)\<rparr>"


end
