(* ===== verification/Cal_Acquisition.thy ===== *)
theory Cal_Acquisition
  imports Cal_Tracelog Cal_Probe Cal_Promote
begin

text \<open>
  \<^verbatim>\<open>internal/acquisition\<close>: one provider is loaded, observed, proposed for, probed and promoted, and
  the flow is recorded in a trace. The runner's dependencies are a record of operations, each of
  which may be nil. The four stages observe, proposal, probe and promote have the same shape in the
  source and are instances of \<open>acq_stage\<close>.
\<close>

abbreviation "CodeProviderLoadFailed \<equiv> ''provider_load_failed''"
abbreviation "CodeCatalogLoadFailed \<equiv> ''catalog_load_failed''"
abbreviation "CodeObserveFailed \<equiv> ''observe_failed''"
abbreviation "CodeProposalFailed \<equiv> ''proposal_failed''"
abbreviation "CodeProbeFailed \<equiv> ''probe_failed''"
abbreviation "CodePromotionFailed \<equiv> ''promotion_failed''"
abbreviation "CodeTraceWriteFailed \<equiv> ''trace_write_failed''"

definition acq_error :: "string \<Rightarrow> string \<Rightarrow> gerr" where
  "acq_error code message = ECoded ''acquisition'' code message None"

definition acq_wrap :: "string \<Rightarrow> string \<Rightarrow> gerr \<Rightarrow> gerr" where
  "acq_wrap code message err = ECoded ''acquisition'' code message (Some err)"

record acq_request =
  aq_provider_id :: string
  aq_hint :: string
  aq_trace_id :: string
  aq_work_root :: string

record acq_state =
  as_trace_id :: string
  as_started_at :: string
  as_provider :: "provider option"
  as_catalog :: "capability list"
  as_observations :: "observation list"
  as_proposal :: "proposal_trace option"
  as_candidates :: "candidate list"
  as_plans :: "probe_plan list"
  as_probes :: "probe list"
  as_promotions :: "promotion list"

definition acq_state0 :: acq_state where
  "acq_state0 = \<lparr>as_trace_id = [], as_started_at = [], as_provider = None, as_catalog = [], as_observations = [],
     as_proposal = None, as_candidates = [], as_plans = [], as_probes = [], as_promotions = []\<rparr>"

record 's tracer =
  tc_start :: "env \<Rightarrow> trace_request option \<Rightarrow> ('s world, trace_outcome) state"
  tc_complete :: "env \<Rightarrow> trace_request option \<Rightarrow> ('s world, trace_outcome) state"
  tc_fail :: "env \<Rightarrow> trace_request option \<Rightarrow> ('s world, trace_outcome) state"
  tc_cancel :: "env \<Rightarrow> trace_request option \<Rightarrow> ('s world, trace_outcome) state"

record 's acq_runner =
  ar_loader :: "(env \<Rightarrow> string \<Rightarrow> ('s world, provider outcome) state) option"
  ar_catalog :: "('s, capability list res) state option"
  ar_observer :: "(env \<Rightarrow> provider option \<Rightarrow> ('s world, observation list outcome) state) option"
  ar_proposer :: "(env \<Rightarrow> proposal_request option \<Rightarrow> ('s world, proposal_result outcome) state) option"
  ar_prober :: "(env \<Rightarrow> probe_request option \<Rightarrow> ('s world, probe list outcome) state) option"
  ar_promoter :: "(env \<Rightarrow> promote_request option \<Rightarrow> ('s world, promotion list outcome) state) option"
  ar_tracer :: "'s tracer option"

definition acq_recordError :: "string \<Rightarrow> string \<Rightarrow> gerr option \<Rightarrow> record_error" where
  "acq_recordError code message err =
     (case err of
        None \<Rightarrow> \<lparr>re_code = code, re_message = message\<rparr>
      | Some e \<Rightarrow> \<lparr>re_code = code, re_message = message @ '': '' @ err_text e\<rparr>)"

definition as_providerIDs :: "acq_state \<Rightarrow> string list" where
  "as_providerIDs st =
     (case as_provider st of None \<Rightarrow> [] | Some p \<Rightarrow> if pv_id p = [] then [] else [pv_id p])"

definition as_providerID :: "acq_state \<Rightarrow> acq_request option \<Rightarrow> string" where
  "as_providerID st req =
     (let other = (case req of None \<Rightarrow> [] | Some r \<Rightarrow> aq_provider_id r) in
      case as_provider st of None \<Rightarrow> other | Some p \<Rightarrow> if pv_id p \<noteq> [] then pv_id p else other)"

definition as_traceRequest :: "acq_state \<Rightarrow> acq_request \<Rightarrow> record_error option \<Rightarrow> trace_request" where
  "as_traceRequest st req err =
     \<lparr>wq_trace_id = as_trace_id st, wq_started_at = as_started_at st, wq_hint = aq_hint req,
      wq_provider_ids = as_providerIDs st, wq_observations = as_observations st, wq_proposal = as_proposal st,
      wq_candidates = as_candidates st, wq_probes = as_probes st, wq_promotions = as_promotions st, wq_error = err\<rparr>"

definition isContextDone :: "env \<Rightarrow> gerr option \<Rightarrow> ('s world, bool) state" where
  "isContextDone E err = do {
     c \<leftarrow> ctx_err E;
     ret (c \<noteq> None \<or> (case err of None \<Rightarrow> False | Some e \<Rightarrow> err_is e ECanceled \<or> err_is e EDeadline))}"

definition acq_progressStatus :: "env \<Rightarrow> gerr option \<Rightarrow> ('s world, progress_status) state" where
  "acq_progressStatus E err = do {
     d \<leftarrow> isContextDone E err;
     ret (if d then Canceled else if err \<noteq> None then Failed else Succeeded)}"

definition acq_event ::
    "golib \<Rightarrow> acq_request \<Rightarrow> acq_state \<Rightarrow> progress_stage \<Rightarrow> progress_status \<Rightarrow> int \<Rightarrow> record_error option \<Rightarrow> int
      \<Rightarrow> progress_event" where
  "acq_event L req st stage status started err t =
     \<lparr>pe_id = ProgressID t, pe_scope = ScopeAcquisition, pe_stage = stage, pe_step = StepNone, pe_status = status,
      pe_message = [], pe_details = [], pe_trace_id = as_trace_id st, pe_run_id = [], pe_use_id = [],
      pe_provider_id = as_providerID st (Some req), pe_capability_id = [], pe_binding_id = [],
      pe_duration_ms = (if status \<noteq> Started then millis (t - started) else 0), pe_error = err,
      pe_created_at = rfc3339 L t\<rparr>"

definition acq_emit ::
    "golib \<Rightarrow> env \<Rightarrow> acq_request \<Rightarrow> acq_state \<Rightarrow> progress_stage \<Rightarrow> progress_status \<Rightarrow> int \<Rightarrow> record_error option
      \<Rightarrow> ('s world, unit) state" where
  "acq_emit L E req st stage status started err = do {
     t \<leftarrow> now E;
     log_event (acq_event L req st stage status started err t)}"

text \<open>\<^verbatim>\<open>context.WithoutCancel\<close>.\<close>

definition without_cancel :: "env \<Rightarrow> env" where
  "without_cancel E = E\<lparr>env_ctx := (\<lambda>_. None)\<rparr>"

definition acq_terminate ::
    "env \<Rightarrow> 's tracer \<Rightarrow> acq_request \<Rightarrow> acq_state \<Rightarrow> string \<Rightarrow> string \<Rightarrow> gerr \<Rightarrow> ('s world, trace_outcome) state" where
  "acq_terminate E T req st code message err =
     (let stageErr = acq_wrap code message err;
          traceReq = as_traceRequest st req (Some (acq_recordError code message (Some err)));
          traceE = without_cancel E
      in do {
        canceled \<leftarrow> isContextDone E (Some err);
        written \<leftarrow> (if canceled then tc_cancel T traceE (Some traceReq) else tc_fail T traceE (Some traceReq));
        ret (case written of
          (_, Some traceErr) \<Rightarrow>
            (None, Some (acq_wrap CodeTraceWriteFailed ''write terminal trace'' (EJoin [stageErr, traceErr])))
        | (None, None) \<Rightarrow> (None, Some (acq_wrap CodeTraceWriteFailed ''write terminal trace'' stageErr))
        | (Some tr, None) \<Rightarrow> (Some tr, Some stageErr))})"


text \<open>A stage that did not end well: its event, then the terminal trace.\<close>

definition acq_abort ::
    "golib \<Rightarrow> env \<Rightarrow> 's tracer \<Rightarrow> acq_request \<Rightarrow> acq_state \<Rightarrow> progress_stage \<Rightarrow> progress_status \<Rightarrow> int
      \<Rightarrow> string \<Rightarrow> string \<Rightarrow> gerr \<Rightarrow> ('s world, trace_outcome) state" where
  "acq_abort L E T req st stage status started code message err = do {
     _ \<leftarrow> acq_emit L E req st stage status started (Some (acq_recordError code message (Some err)));
     acq_terminate E T req st code message err}"

text \<open>
  The shape of the stages: \<open>op\<close> is the call, \<open>keep\<close> stores what it returned, also beside an error,
  and \<open>k\<close> is the rest of the run.
\<close>

definition acq_stage ::
    "golib \<Rightarrow> env \<Rightarrow> 's tracer \<Rightarrow> acq_request \<Rightarrow> acq_state \<Rightarrow> progress_stage \<Rightarrow> string \<Rightarrow> string \<Rightarrow> string
      \<Rightarrow> ('s world, 'a outcome) state \<Rightarrow> ('a \<Rightarrow> acq_state \<Rightarrow> acq_state)
      \<Rightarrow> (acq_state \<Rightarrow> ('s world, trace_outcome) state) \<Rightarrow> ('s world, trace_outcome) state" where
  "acq_stage L E T req st stage code message required op keep k = do {
     started \<leftarrow> now E;
     _ \<leftarrow> acq_emit L E req st stage Started started None;
     r \<leftarrow> op;
     (let st1 = (case fst r of None \<Rightarrow> st | Some x \<Rightarrow> keep x st) in
      case r of
        (_, Some err) \<Rightarrow> do {
          status \<leftarrow> acq_progressStatus E (Some err);
          acq_abort L E T req st1 stage status started code message err}
      | (None, None) \<Rightarrow> acq_abort L E T req st1 stage Failed started code message (EText required)
      | (Some _, None) \<Rightarrow> do {
          _ \<leftarrow> acq_emit L E req st1 stage Succeeded started None;
          k st1})}"

definition acq_complete :: "env \<Rightarrow> 's tracer \<Rightarrow> acq_request \<Rightarrow> acq_state \<Rightarrow> ('s world, trace_outcome) state" where
  "acq_complete E T req st = do {
     completed \<leftarrow> tc_complete T E (Some (as_traceRequest st req None));
     ret (case completed of
       (_, Some e) \<Rightarrow> (None, Some (acq_wrap CodeTraceWriteFailed ''complete trace'' e))
     | (None, None) \<Rightarrow> (None, Some (acq_error CodeTraceWriteFailed ''complete trace result is required''))
     | (Some tr, None) \<Rightarrow> (Some tr, None))}"

definition acq_promote ::
    "golib \<Rightarrow> env \<Rightarrow> 's acq_runner \<Rightarrow> 's tracer \<Rightarrow> acq_request \<Rightarrow> acq_state \<Rightarrow> ('s world, trace_outcome) state" where
  "acq_promote L E A T req st =
     acq_stage L E T req st StagePromote CodePromotionFailed ''promote candidates'' ''promotion result is required''
       (the (ar_promoter A) E (Some \<lparr>pq_candidates = as_candidates st, pq_probes = as_probes st\<rparr>))
       (\<lambda>promotions st. st\<lparr>as_promotions := promotions\<rparr>)
       (acq_complete E T req)"

definition acq_probe ::
    "golib \<Rightarrow> env \<Rightarrow> 's acq_runner \<Rightarrow> 's tracer \<Rightarrow> acq_request \<Rightarrow> acq_state \<Rightarrow> ('s world, trace_outcome) state" where
  "acq_probe L E A T req st =
     acq_stage L E T req st StageProbe CodeProbeFailed ''probe candidates'' ''probe result is required''
       (the (ar_prober A) E (Some \<lparr>bq_provider = as_provider st, bq_candidates = as_candidates st, bq_plans = as_plans st,
          bq_trace_id = as_trace_id st, bq_work_root = trim_space (aq_work_root req)\<rparr>))
       (\<lambda>probes st. st\<lparr>as_probes := probes\<rparr>)
       (acq_promote L E A T req)"

definition acq_propose ::
    "golib \<Rightarrow> env \<Rightarrow> 's acq_runner \<Rightarrow> 's tracer \<Rightarrow> acq_request \<Rightarrow> acq_state \<Rightarrow> ('s world, trace_outcome) state" where
  "acq_propose L E A T req st =
     acq_stage L E T req st StageProposal CodeProposalFailed ''propose candidates'' ''proposal result is required''
       (the (ar_proposer A) E (Some \<lparr>lq_provider = as_provider st, lq_observations = as_observations st,
          lq_catalog = as_catalog st, lq_hint = trim_space (aq_hint req), lq_trace_id = as_trace_id st\<rparr>))
       (\<lambda>proposed st. st\<lparr>as_proposal := pr_diagnostics proposed, as_candidates := pr_candidates proposed,
          as_plans := pr_plans proposed\<rparr>)
       (acq_probe L E A T req)"

definition acq_observe ::
    "golib \<Rightarrow> env \<Rightarrow> 's acq_runner \<Rightarrow> 's tracer \<Rightarrow> acq_request \<Rightarrow> acq_state \<Rightarrow> ('s world, trace_outcome) state" where
  "acq_observe L E A T req st =
     acq_stage L E T req st StageObserve CodeObserveFailed ''observe provider'' ''observe result is required''
       (the (ar_observer A) E (as_provider st))
       (\<lambda>observations st. st\<lparr>as_observations := observations\<rparr>)
       (acq_propose L E A T req)"

definition acq_catalog ::
    "golib \<Rightarrow> env \<Rightarrow> 's acq_runner \<Rightarrow> 's tracer \<Rightarrow> acq_request \<Rightarrow> acq_state \<Rightarrow> ('s world, trace_outcome) state" where
  "acq_catalog L E A T req st = do {
     started \<leftarrow> now E;
     _ \<leftarrow> acq_emit L E req st StageCatalog Started started None;
     c \<leftarrow> ctx_err E;
     (case c of
        Some err \<Rightarrow> acq_abort L E T req st StageCatalog Canceled started CodeCatalogLoadFailed ''load capability catalog'' err
      | None \<Rightarrow> do {
          listed \<leftarrow> call (the (ar_catalog A));
          (case listed of
             Inl err \<Rightarrow> acq_abort L E T req st StageCatalog Failed started CodeCatalogLoadFailed ''load capability catalog'' err
           | Inr catalog \<Rightarrow> do {
               let st1 = st\<lparr>as_catalog := catalog\<rparr>;
               _ \<leftarrow> acq_emit L E req st1 StageCatalog Succeeded started None;
               acq_observe L E A T req st1})})}"

definition acq_entry ::
    "golib \<Rightarrow> env \<Rightarrow> 's acq_runner \<Rightarrow> 's tracer \<Rightarrow> acq_request \<Rightarrow> ('s world, trace_outcome) state" where
  "acq_entry L E A T req =
     (let st = acq_state0 in do {
        started \<leftarrow> now E;
        _ \<leftarrow> acq_emit L E req st StageEntry Started started None;
        loaded \<leftarrow> the (ar_loader A) E (trim_space (aq_provider_id req));
        (case loaded of
           (_, Some err) \<Rightarrow> do {
             status \<leftarrow> acq_progressStatus E (Some err);
             _ \<leftarrow> acq_emit L E req st StageEntry status started
                   (Some (acq_recordError CodeProviderLoadFailed ''load provider'' (Some err)));
             ret (None, Some (acq_wrap CodeProviderLoadFailed ''load provider'' err))}
         | (None, None) \<Rightarrow> do {
             _ \<leftarrow> acq_emit L E req st StageEntry Failed started
                   (Some (acq_recordError CodeProviderLoadFailed ''load provider'' (Some (EText ''load provider result is required''))));
             ret (None, Some (acq_error CodeProviderLoadFailed ''load provider result is required''))}
         | (Some p, None) \<Rightarrow> do {
             let st1 = st\<lparr>as_provider := Some p\<rparr>;
             _ \<leftarrow> acq_emit L E req st1 StageEntry Succeeded started None;
             begun \<leftarrow> tc_start T E (Some \<lparr>wq_trace_id = trim_space (aq_trace_id req), wq_started_at = [],
               wq_hint = aq_hint req, wq_provider_ids = as_providerIDs st1, wq_observations = [], wq_proposal = None,
               wq_candidates = [], wq_probes = [], wq_promotions = [], wq_error = None\<rparr>);
             (case begun of
                (_, Some e) \<Rightarrow> ret (None, Some (acq_wrap CodeTraceWriteFailed ''start trace'' e))
              | (None, None) \<Rightarrow> ret (None, Some (acq_error CodeTraceWriteFailed ''start trace result is required''))
              | (Some tr, None) \<Rightarrow>
                  acq_catalog L E A T req (st1\<lparr>as_trace_id := tr_id tr, as_started_at := tr_started_at tr\<rparr>))})})"

definition acq_validate :: "'s acq_runner option \<Rightarrow> acq_request option \<Rightarrow> gerr option" where
  "acq_validate A0 req0 =
     (let invalid = (\<lambda>m. Some (acq_error ''invalid_acquisition_input'' m)) in
      case A0 of
        None \<Rightarrow> invalid ''acquisition runner is required''
      | Some A \<Rightarrow>
          if ar_loader A = None \<or> ar_catalog A = None \<or> ar_observer A = None \<or> ar_proposer A = None
             \<or> ar_prober A = None \<or> ar_promoter A = None \<or> ar_tracer A = None
          then invalid ''all acquisition dependencies are required''
          else (case req0 of
                  None \<Rightarrow> invalid ''acquisition request is required''
                | Some req \<Rightarrow>
                    if blank (aq_provider_id req) then invalid ''provider_id is required''
                    else if blank (aq_work_root req) then invalid ''work_root is required''
                    else None))"

text \<open>A nil context is replaced by one that is never done.\<close>

definition acq_Run ::
    "golib \<Rightarrow> env \<Rightarrow> 's acq_runner option \<Rightarrow> acq_request option \<Rightarrow> ('s world, trace_outcome) state" where
  "acq_Run L E A0 req0 =
     (case acq_validate A0 req0 of
        Some e \<Rightarrow> ret (None, Some e)
      | None \<Rightarrow> acq_entry L E (the A0) (the (ar_tracer (the A0))) (the req0))"


section \<open>Stages, ends and the terminal trace\<close>

text \<open>The stage events; the events of a step within a stage are left out.\<close>

definition log_of :: "progress_event list \<Rightarrow> (progress_stage \<times> progress_status) list" where
  "log_of evs = map (\<lambda>e. (pe_stage e, pe_status e)) (filter (\<lambda>e. pe_step e = StepNone) evs)"

abbreviation main_log :: "'s world \<Rightarrow> (progress_stage \<times> progress_status) list" where
  "main_log w \<equiv> log_of (w_events w)"

definition steps_only :: "('s world, 'a) state \<Rightarrow> bool" where
  "steps_only m = (\<forall>w. main_log (snd (run_state m w)) = main_log w)"

definition stage_ends :: "(progress_stage \<times> progress_status) list \<Rightarrow> (progress_stage \<times> progress_status) list" where
  "stage_ends fin = concat (map (\<lambda>(st, e). [(st, Started), (st, e)]) fin)"

definition acq_stages :: "progress_stage list" where
  "acq_stages = [StageEntry, StageCatalog, StageObserve, StageProposal, StageProbe, StagePromote]"

fun stage_code :: "progress_stage \<Rightarrow> string" where
  "stage_code StageEntry = CodeProviderLoadFailed"
| "stage_code StageCatalog = CodeCatalogLoadFailed"
| "stage_code StageObserve = CodeObserveFailed"
| "stage_code StageProposal = CodeProposalFailed"
| "stage_code StageProbe = CodeProbeFailed"
| "stage_code StagePromote = CodePromotionFailed"
| "stage_code _ = []"

definition saved_last :: "'s trace_saver \<Rightarrow> trace \<Rightarrow> 's world \<Rightarrow> bool" where
  "saved_last save tr v = (\<exists>s0. run_state (save (Some tr)) s0 = (None, w_ext v))"

text \<open>The trace of a stage that failed.\<close>

definition stopped_trace :: "string \<Rightarrow> gerr \<Rightarrow> trace \<Rightarrow> bool" where
  "stopped_trace code stageErr tr \<longleftrightarrow>
     (\<exists>message err. stageErr = acq_wrap code message err \<and>
        tr_error tr = Some (acq_recordError code message (Some err)) \<and>
        (tr_status tr = status_canceled \<or>
         tr_status tr = status_failed \<and> \<not> err_is err ECanceled \<and> \<not> err_is err EDeadline))"

text \<open>
  How the rest of a run ends when the stages \<open>todo\<close> are still to come: the stages that ran, each with
  its end, and what the result says.
\<close>

definition ends_well :: "progress_stage list \<Rightarrow> (progress_stage \<times> progress_status) list \<Rightarrow> bool" where
  "ends_well todo fin \<longleftrightarrow> fin = map (\<lambda>s. (s, Succeeded)) todo"

definition ends_early :: "progress_stage list \<Rightarrow> (progress_stage \<times> progress_status) list \<Rightarrow> bool" where
  "ends_early todo fin \<longleftrightarrow>
     (\<exists>as s bs e. todo = as @ s # bs \<and> fin = map (\<lambda>s. (s, Succeeded)) as @ [(s, e)] \<and> e \<in> {Failed, Canceled})"

definition acq_result :: "'s trace_saver \<Rightarrow> progress_stage list \<Rightarrow> (progress_stage \<times> progress_status) list
    \<Rightarrow> trace_outcome \<Rightarrow> 's world \<Rightarrow> bool" where
  "acq_result save todo fin r v \<longleftrightarrow>
     (case r of
        (Some tr, None) \<Rightarrow> ends_well todo fin \<and> tr_status tr = status_completed \<and> tr_error tr = None \<and>
          saved_last save tr v
      | (Some tr, Some e) \<Rightarrow> ends_early todo fin \<and> stopped_trace (stage_code (fst (last fin))) e tr \<and>
          saved_last save tr v
      | (None, None) \<Rightarrow> False
      | (None, Some e) \<Rightarrow> (\<exists>n. ends_well (take n todo) fin) \<or> ends_early todo fin)"

definition acq_post :: "'s trace_saver \<Rightarrow> progress_stage list \<Rightarrow> (progress_stage \<times> progress_status) list
    \<Rightarrow> trace_outcome \<Rightarrow> 's world \<Rightarrow> bool" where
  "acq_post save todo log r v \<longleftrightarrow> (\<exists>fin. main_log v = log @ stage_ends fin \<and> acq_result save todo fin r v)"

lemma wp_acq_emit [wp_simps]:
  "wp (acq_emit L E req st stage status started err) Q w =
     Q () (w\<lparr>w_tick := Suc (w_tick w),
       w_events := w_events w @ [acq_event L req st stage status started err (env_time E (w_tick w))]\<rparr>)"
  by (simp add: acq_emit_def wp_simps)

lemma log_of_simps [simp]:
  "log_of [] = []" "log_of (evs @ evs') = log_of evs @ log_of evs'"
  "log_of (acq_event L req st stage status started err t # evs) = (stage, status) # log_of evs"
  by (simp_all add: log_of_def acq_event_def)

lemma wp_steps_only: "steps_only m \<Longrightarrow> (\<And>a v. main_log v = main_log w \<Longrightarrow> Q a v) \<Longrightarrow> wp m Q w"
  by (auto simp: steps_only_def wp_def split: prod.splits dest: spec [of _ w])

lemma wp_isContextDone:
  "wp (isContextDone E err) Q w =
     Q (env_ctx E (w_tick w) \<noteq> None \<or> (case err of None \<Rightarrow> False | Some e \<Rightarrow> err_is e ECanceled \<or> err_is e EDeadline))
       (w\<lparr>w_tick := Suc (w_tick w)\<rparr>)"
  by (simp add: isContextDone_def wp_simps)


text \<open>The tracer made of the operations of a sink.\<close>

definition sink_tracer where
  "sink_tracer start complete fail cancel =
     \<lparr>tc_start = start, tc_complete = complete, tc_fail = fail, tc_cancel = cancel\<rparr>"

lemma sink_tracer_simps [simp]:
  "tc_start (sink_tracer a b c d) = a" "tc_complete (sink_tracer a b c d) = b"
  "tc_fail (sink_tracer a b c d) = c" "tc_cancel (sink_tracer a b c d) = d"
  by (simp_all add: sink_tracer_def)

lemma tr_built [simp]:
  "tr_status (buildTrace L req status t) = status" "tr_error (buildTrace L req status t) = wq_error req"
  by (simp_all add: buildTrace_def Let_def)

definition terminated :: "'s trace_saver \<Rightarrow> string \<Rightarrow> trace_outcome \<Rightarrow> 's world \<Rightarrow> bool" where
  "terminated save code r v \<longleftrightarrow>
     (case r of (Some tr, Some e) \<Rightarrow> stopped_trace code e tr \<and> saved_last save tr v
      | (Some tr, None) \<Rightarrow> False | (None, e) \<Rightarrow> e \<noteq> None)"

lemma terminated_result:
  assumes "terminated save (stage_code s) r v" and "e \<in> {Failed, Canceled}"
  shows "acq_result save (s # todo) [(s, e)] r v"
proof -
  have "ends_early (s # todo) [(s, e)]" using assms(2) by (auto simp: ends_early_def intro!: exI [of _ "[]"])
  with assms(1) show ?thesis by (auto simp: terminated_def acq_result_def split: option.splits prod.splits)
qed

text \<open>What \<open>terminate\<close> returns for the result of the terminal write.\<close>

definition terminal_result :: "gerr \<Rightarrow> trace_outcome \<Rightarrow> trace_outcome" where
  "terminal_result stageErr w =
     (case w of
        (_, Some traceErr) \<Rightarrow>
          (None, Some (acq_wrap CodeTraceWriteFailed ''write terminal trace'' (EJoin [stageErr, traceErr])))
      | (None, None) \<Rightarrow> (None, Some (acq_wrap CodeTraceWriteFailed ''write terminal trace'' stageErr))
      | (Some tr, None) \<Rightarrow> (Some tr, Some stageErr))"

lemma terminated_by_write:
  assumes w: "writes_trace L save q status r w v"
    and q: "wq_error q = Some (acq_recordError code message (Some err))"
    and status: "status = status_canceled \<or> status = status_failed \<and> \<not> err_is err ECanceled \<and> \<not> err_is err EDeadline"
  shows "main_log v = main_log w \<and> terminated save code (terminal_result (acq_wrap code message err) r) v"
proof -
  obtain tr0 e where r: "r = (tr0, e)" by fastforce
  have log: "main_log v = main_log w" using w by (simp add: writes_trace_def)
  show ?thesis
  proof (cases tr0)
    case None
    then obtain e' where "e = Some e'" using w r by (auto simp: writes_trace_def)
    with None r log show ?thesis by (simp add: terminal_result_def terminated_def)
  next
    case (Some tr)
    obtain t where e: "e = None" and tr: "tr = buildTrace L q status t" and sv: "saved_last save tr v"
      using w by (auto simp: writes_trace_def saved_last_def r Some)
    have "stopped_trace code (acq_wrap code message err) tr"
      unfolding stopped_trace_def tr tr_built using q status by blast
    with r Some e sv log show ?thesis by (simp add: terminal_result_def terminated_def)
  qed
qed

lemma acq_terminate_eq:
  "acq_terminate E T req st code message err = do {
     canceled \<leftarrow> isContextDone E (Some err);
     written \<leftarrow> (if canceled
        then tc_cancel T (without_cancel E) (Some (as_traceRequest st req (Some (acq_recordError code message (Some err)))))
        else tc_fail T (without_cancel E) (Some (as_traceRequest st req (Some (acq_recordError code message (Some err))))));
     ret (terminal_result (acq_wrap code message err) written)}"
  by (simp add: acq_terminate_def terminal_result_def Let_def)

context trace_sink
begin

lemma wp_terminate:
  "wp (acq_terminate E (sink_tracer start complete fail cancel) req st code message err)
     (\<lambda>r v. main_log v = main_log w \<and> terminated save code r v) w"
  unfolding acq_terminate_eq wp_bind wp_isContextDone sink_tracer_simps option.case
  apply (rule wp_mono [OF terminal_law])
  apply (simp only: wp_return)
  apply (drule terminated_by_write [where code = code and message = message and err = err])
    apply (simp add: as_traceRequest_def)
   apply simp
  apply simp
  done

lemma wp_abort:
  assumes "main_log w = log @ [(s, Started)]" and "e \<in> {Failed, Canceled}" and "code = stage_code s"
  shows "wp (acq_abort L E (sink_tracer start complete fail cancel) req st s e t code message err)
    (acq_post save (s # todo) log) w"
  unfolding acq_abort_def
  apply (simp add: wp_simps)
  apply (rule wp_mono [OF wp_terminate])
  using assms terminated_result [of save s _ _ e todo]
  by (auto simp: acq_post_def stage_ends_def intro!: exI [of _ "[(s, e)]"])

lemma post_step:
  assumes "acq_post save todo (log @ [(s, Started), (s, Succeeded)]) r v"
  shows "acq_post save (s # todo) log r v"
proof -
  obtain fin where fin: "main_log v = (log @ [(s, Started), (s, Succeeded)]) @ stage_ends fin" "acq_result save todo fin r v"
    using assms by (auto simp: acq_post_def)
  have well: "ends_well (s # todo) ((s, Succeeded) # fin)" if "ends_well todo fin" using that by (simp add: ends_well_def)
  have pre: "\<exists>m. ends_well (take m (s # todo)) ((s, Succeeded) # fin)" if "ends_well (take n todo) fin" for n
    using that by (intro exI [of _ "Suc n"]) (simp add: ends_well_def)
  have early: "ends_early (s # todo) ((s, Succeeded) # fin) \<and> fin \<noteq> []" if "ends_early todo fin"
  proof -
    from that obtain as u bs e where "todo = as @ u # bs" "fin = map (\<lambda>s. (s, Succeeded)) as @ [(u, e)]" "e \<in> {Failed, Canceled}"
      by (auto simp: ends_early_def)
    then show ?thesis unfolding ends_early_def by (intro conjI exI [of _ "s # as"] exI [of _ u] exI [of _ bs] exI [of _ e]) auto
  qed
  have "acq_result save (s # todo) ((s, Succeeded) # fin) r v"
    using fin(2) well pre early by (auto simp: acq_result_def split: option.splits prod.splits)
  moreover have "main_log v = log @ stage_ends ((s, Succeeded) # fin)" using fin(1) by (simp add: stage_ends_def)
  ultimately show ?thesis unfolding acq_post_def by blast
qed

lemma wp_stage:
  assumes op: "steps_only op" and code: "code = stage_code s"
    and rest: "\<And>st1 (v :: 's world). wp (k st1) (acq_post save todo (main_log v)) v"
  shows "wp (acq_stage L E (sink_tracer start complete fail cancel) req st s code message required op keep k)
    (acq_post save (s # todo) (main_log w)) w"
proof -
  have ok: "wp (k st1) (acq_post save (s # todo) (main_log w)) v"
    if "main_log v = main_log w @ [(s, Started), (s, Succeeded)]" for st1 v
    by (rule wp_mono [OF rest]) (use that in \<open>auto intro: post_step\<close>)
  show ?thesis
    unfolding acq_stage_def
    apply (simp add: wp_simps)
    apply (rule wp_steps_only [OF op])
    subgoal for r v
      apply (cases "fst r"; cases "snd r"; cases r)
         apply (auto simp: Let_def acq_progressStatus_def wp_simps wp_isContextDone code intro!: wp_abort ok)
      done
    done
qed

lemma wp_complete:
  "wp (acq_complete E (sink_tracer start complete fail cancel) req st) (acq_post save [] (main_log w)) w"
  unfolding acq_complete_def sink_tracer_simps wp_bind
  apply (rule wp_mono [OF complete_law])
  subgoal for r v
    apply (simp add: wp_return acq_post_def)
    apply (rule exI [of _ "[]"])
    apply (cases "fst r"; cases "snd r"; cases r)
       apply (auto simp: writes_trace_def acq_result_def ends_well_def stage_ends_def saved_last_def as_traceRequest_def)
    done
  done

end

text \<open>The components emit no stage events of their own.\<close>

definition steps_only_parts :: "env \<Rightarrow> 's acq_runner \<Rightarrow> bool" where
  "steps_only_parts E A \<longleftrightarrow>
     (\<forall>i. steps_only (the (ar_loader A) E i)) \<and> (\<forall>p. steps_only (the (ar_observer A) E p)) \<and>
     (\<forall>q. steps_only (the (ar_proposer A) E q)) \<and> (\<forall>q. steps_only (the (ar_prober A) E q)) \<and>
     (\<forall>q. steps_only (the (ar_promoter A) E q))"

context trace_sink
begin

lemma wp_flow:
  assumes "steps_only_parts E A"
  shows "wp (acq_observe L E A (sink_tracer start complete fail cancel) req st)
    (acq_post save [StageObserve, StageProposal, StageProbe, StagePromote] (main_log w)) w"
proof -
  have promote: "wp (acq_promote L E A (sink_tracer start complete fail cancel) req st)
      (acq_post save [StagePromote] (main_log w)) w" for st w
    unfolding acq_promote_def
    by (rule wp_stage) (use assms in \<open>auto simp: steps_only_parts_def intro: wp_complete\<close>)
  have probe: "wp (acq_probe L E A (sink_tracer start complete fail cancel) req st)
      (acq_post save [StageProbe, StagePromote] (main_log w)) w" for st w
    unfolding acq_probe_def
    by (rule wp_stage) (use assms in \<open>auto simp: steps_only_parts_def intro: promote\<close>)
  have propose: "wp (acq_propose L E A (sink_tracer start complete fail cancel) req st)
      (acq_post save [StageProposal, StageProbe, StagePromote] (main_log w)) w" for st w
    unfolding acq_propose_def
    by (rule wp_stage) (use assms in \<open>auto simp: steps_only_parts_def intro: probe\<close>)
  show ?thesis
    unfolding acq_observe_def
    by (rule wp_stage) (use assms in \<open>auto simp: steps_only_parts_def intro: propose\<close>)
qed

lemma wp_catalog:
  assumes "steps_only_parts E A"
  shows "wp (acq_catalog L E A (sink_tracer start complete fail cancel) req st)
    (acq_post save (tl acq_stages) (main_log w)) w"
proof -
  let ?rest = "[StageObserve, StageProposal, StageProbe, StagePromote]"
  have go: "wp (acq_observe L E A (sink_tracer start complete fail cancel) req st1)
      (acq_post save (StageCatalog # ?rest) (main_log w)) v"
    if "main_log v = main_log w @ [(StageCatalog, Started), (StageCatalog, Succeeded)]" for st1 v
    by (rule wp_mono [OF wp_flow [OF assms]]) (use that in \<open>auto intro: post_step\<close>)
  show ?thesis
    unfolding acq_catalog_def acq_stages_def list.sel
    apply (simp add: wp_simps split: option.split)
    apply (intro conjI allI impI)
     apply (rule wp_any)
     apply (auto simp: Let_def wp_simps intro!: wp_abort go split: sum.split)
    done
qed

lemma wp_entry:
  assumes "steps_only_parts E A"
  shows "wp (acq_entry L E A (sink_tracer start complete fail cancel) req)
    (acq_post save acq_stages (main_log w)) w"
proof -
  have early: "acq_post save acq_stages (main_log w) (None, Some e) v"
    if "main_log v = main_log w @ [(StageEntry, Started), (StageEntry, x)]" "x \<in> {Failed, Canceled}" for e x v
    using that unfolding acq_post_def acq_result_def ends_early_def acq_stages_def
    by (intro exI [of _ "[(StageEntry, x)]"]) (auto simp: stage_ends_def intro!: exI [of _ "[]"])
  have begun: "acq_post save acq_stages (main_log w) (None, Some e) v"
    if "main_log v = main_log w @ [(StageEntry, Started), (StageEntry, Succeeded)]" for e v
    using that unfolding acq_post_def acq_result_def ends_well_def acq_stages_def
    by (intro exI [of _ "[(StageEntry, Succeeded)]"]) (auto simp: stage_ends_def intro!: exI [of _ "Suc 0"])
  have go: "wp (acq_catalog L E A (sink_tracer start complete fail cancel) req st1)
      (acq_post save acq_stages (main_log w)) v"
    if "main_log v = main_log w @ [(StageEntry, Started), (StageEntry, Succeeded)]" for st1 v
    by (rule wp_mono [OF wp_catalog [OF assms]]) (use that in \<open>auto simp: acq_stages_def intro: post_step\<close>)
  have start: "wp (start E (Some q)) (\<lambda>r v. wp (case r of
          (_, Some e) \<Rightarrow> ret (None, Some (acq_wrap CodeTraceWriteFailed ''start trace'' e))
        | (None, None) \<Rightarrow> ret (None, Some (acq_error CodeTraceWriteFailed ''start trace result is required''))
        | (Some tr, None) \<Rightarrow> acq_catalog L E A (sink_tracer start complete fail cancel) req (f tr))
        (acq_post save acq_stages (main_log w)) v) u"
    if "main_log u = main_log w @ [(StageEntry, Started), (StageEntry, Succeeded)]" for q f u
    apply (rule wp_mono [OF start_law])
    subgoal for r v
      using that
      by (cases "fst r"; cases "snd r"; cases r) (auto simp: writes_trace_def wp_return intro!: begun go)
    done
  show ?thesis
    unfolding acq_entry_def Let_def
    apply (simp add: wp_simps)
    apply (rule wp_steps_only)
     apply (use assms in \<open>simp add: steps_only_parts_def\<close>)
    subgoal for r v
      apply (cases "fst r"; cases "snd r"; cases r)
         apply (auto simp: acq_progressStatus_def wp_simps wp_isContextDone intro!: early start)
      done
    done
qed

end


section \<open>The runner with the trace writer\<close>

definition writer_tracer :: "golib \<Rightarrow> 's trace_saver \<Rightarrow> 's tracer" where
  "writer_tracer L save = sink_tracer (tracelog_Start L (Some (Some save))) (tracelog_Complete L (Some (Some save)))
     (tracelog_Fail L (Some (Some save))) (tracelog_Cancel L (Some (Some save)))"

lemma acq_Run_post:
  assumes "acq_validate (Some A) (Some req) = None" and "ar_tracer A = Some (writer_tracer L save)"
    and "steps_only_parts E A"
  shows "wp (acq_Run L E (Some A) (Some req)) (acq_post save acq_stages (main_log w)) w"
  using assms(1,2) writer.wp_entry [OF assms(3)] by (simp add: acq_Run_def writer_tracer_def)


text \<open>
  C35. On the program's own store, a trace that an acquisition returns, with or without an error, is
  stored and valid: its id reads as the JSON round trip of the returned trace, whose status is
  completed, failed or canceled and never running.
\<close>

theorem acquisition_persisted:
  assumes "acq_validate (Some A) (Some req) = None" and "ar_tracer A = Some (writer_tracer L (SaveTrace L C S))"
    and "steps_only_parts E A" and "run_state (acq_Run L E (Some A) (Some req)) w = ((Some tr, err), v)"
    and "record_id (tr_id tr)"
  shows "trace_view C S (w_ext v) (tr_id tr) = reread C tr \<and> ValidateTrace L tr = None \<and>
    tr_status tr \<in> {status_completed, status_failed, status_canceled} \<and> (tr_status tr = status_completed) = (err = None)"
proof -
  obtain fin where res: "acq_result (SaveTrace L C S) acq_stages fin (Some tr, err) v"
    using wp_run [OF acq_Run_post [OF assms(1-3)] assms(4)] by (auto simp: acq_post_def)
  then obtain s0 where save: "run_state (SaveTrace L C S (Some tr)) s0 = (None, w_ext v)"
    and st: "tr_status tr \<in> {status_completed, status_failed, status_canceled} \<and> (tr_status tr = status_completed) = (err = None)"
    by (auto simp: acq_result_def saved_last_def stopped_trace_def split: option.splits)
  from wp_run [OF traces.save_law [OF assms(5)] save] st show ?thesis by auto
qed

section \<open>Examples\<close>

text \<open>A memory of saved traces, and a promotion that is recorded in it too.\<close>

definition memo_save :: "trace list trace_saver" where
  "memo_save tr = State (\<lambda>l. (None, l @ (case tr of None \<Rightarrow> [] | Some t \<Rightarrow> [t])))"

definition demo_promotion_record :: promotion where
  "demo_promotion_record = \<lparr>pm_candidate_index = 0, pm_capability_id = ''a.b'', pm_binding_id = ''b'',
     pm_provider_id = ''p'', pm_capability_action = ''created'', pm_binding_action = ''created'', pm_created_at = []\<rparr>"

definition demo_acq :: "'s trace_saver \<Rightarrow> 's acq_runner" where
  "demo_acq save = \<lparr>ar_loader = Some (\<lambda>E i. ret (Some \<lparr>pv_id = i, pv_name = i, pv_kind = ''cli'', pv_path = i, pv_version = []\<rparr>, None)),
     ar_catalog = Some (ret (Inr [])), ar_observer = Some (\<lambda>E p. ret (Some [], None)),
     ar_proposer = Some (\<lambda>E q. ret (Some \<lparr>pr_candidates = [], pr_plans = [], pr_diagnostics = None\<rparr>, None)),
     ar_prober = Some (\<lambda>E q. ret (Some [], None)),
     ar_promoter = Some (\<lambda>E q. ret (Some [demo_promotion_record], None)),
     ar_tracer = Some (writer_tracer plain_lib save)\<rparr>"

definition demo_acq_request :: acq_request where
  "demo_acq_request = \<lparr>aq_provider_id = ''p'', aq_hint = ''h'', aq_trace_id = ''t1'', aq_work_root = ''/w''\<rparr>"

definition memo_world :: "trace list world" where
  "memo_world = \<lparr>w_tick = 0, w_events = [], w_ext = []\<rparr>"

text \<open>The context is canceled from a given tick on.\<close>

definition canceled_from :: "nat \<Rightarrow> env" where
  "canceled_from k = \<lparr>env_time = (\<lambda>_. 0), env_ctx = (\<lambda>n. if k \<le> n then Some ECanceled else None)\<rparr>"

definition acq_summary :: "nat \<Rightarrow> (string option \<times> bool) \<times> (string \<times> nat) list \<times> nat" where
  "acq_summary k = (case run_state (acq_Run plain_lib (canceled_from k) (Some (demo_acq memo_save)) (Some demo_acq_request)) memo_world of
     ((tr, err), v) \<Rightarrow> ((map_option tr_status tr, err = None),
       map (\<lambda>t. (tr_status t, length (tr_promotions t))) (w_ext v), length (w_events v)))"

lemma demo_acq_valid: "acq_validate (Some (demo_acq save)) (Some demo_acq_request) = None"
proof -
  have "\<not> blank ''p''" "\<not> blank ''/w''" by code_simp+
  then show ?thesis by (simp add: acq_validate_def demo_acq_def demo_acq_request_def Let_def)
qed

lemma demo_trims: "\<not> blank ''t1''" "trim_space ''t1'' = ''t1''" "trim_space ''p'' = ''p''" "trim_space ''/w'' = ''/w''"
  by code_simp+

lemmas acq_eval = acq_Run_def acq_entry_def acq_catalog_def acq_observe_def acq_propose_def acq_probe_def acq_promote_def
  acq_stage_def acq_complete_def acq_emit_def acq_abort_def acq_terminate_def isContextDone_def acq_progressStatus_def
  writer_tracer_def tracelog_Start_def tracelog_Complete_def tracelog_Fail_def tracelog_Cancel_def
  tracelog_write_def tracelog_validate_def buildTrace_def as_traceRequest_def without_cancel_def acq_state0_def Let_def

lemmas acq_demo = demo_acq_def demo_acq_request_def memo_world_def memo_save_def canceled_from_def demo_trims

lemma acq_uncanceled: "acq_summary 100 = ((Some status_completed, True), [(status_running, 0), (status_completed, 1)], 12)"
  using demo_acq_valid [of memo_save] unfolding acq_summary_def
  by (simp add: acq_eval acq_demo run_eval cong: bind_weak_cong)

lemma acq_canceled_late: "acq_summary 23 = ((None, False), [(status_running, 0)], 12)"
  using demo_acq_valid [of memo_save] unfolding acq_summary_def
  by (simp add: acq_eval acq_demo run_eval cong: bind_weak_cong)

lemma acq_canceled_early:
  "acq_summary 8 = ((Some status_canceled, False), [(status_running, 0), (status_canceled, 0)], 4)"
  using demo_acq_valid [of memo_save] unfolding acq_summary_def
  by (simp add: acq_eval acq_demo run_eval cong: bind_weak_cong)

text \<open>
  A context that is canceled after the last stage ended well and before the completed trace is
  written leaves the stored trace running for ever: all twelve stage events are there, the promotion
  is made, but \<open>Run\<close> returns no trace, and the only trace saved is the one of the start. Without
  the cancellation the completed trace is saved, and a cancellation during the catalog stage writes a
  canceled one.
\<close>

theorem canceled_before_complete:
  "acq_summary 100 = ((Some status_completed, True), [(status_running, 0), (status_completed, 1)], 12) \<and>
   acq_summary 23 = ((None, False), [(status_running, 0)], 12) \<and>
   acq_summary 8 = ((Some status_canceled, False), [(status_running, 0), (status_canceled, 0)], 4)"
  using acq_uncanceled acq_canceled_late acq_canceled_early by simp

lemma steps_only_ret: "steps_only (ret a)"
  by (simp add: steps_only_def run_ret)

lemma demo_acq_steps: "steps_only_parts E (demo_acq save)"
  by (simp add: steps_only_parts_def demo_acq_def steps_only_ret)

lemma demo_acq_tracer: "ar_tracer (demo_acq save) = Some (writer_tracer plain_lib save)"
  by (simp add: demo_acq_def)



text \<open>The same run on the files of the store: the traces it saves, and what is stored at the end.\<close>

definition demo_started :: trace where
  "demo_started = \<lparr>tr_id = ''t1'', tr_started_at = rfc3339 plain_lib 0, tr_ended_at = [], tr_status = status_running,
     tr_hint = ''h'', tr_provider_ids = [''p''], tr_observations = [], tr_proposal = None, tr_candidates = [],
     tr_probes = [], tr_promotions = [], tr_error = None\<rparr>"

definition demo_stopped :: trace where
  "demo_stopped = demo_started\<lparr>tr_ended_at := rfc3339 plain_lib 0, tr_status := status_canceled,
     tr_error := Some (acq_recordError CodeCatalogLoadFailed ''load capability catalog'' (Some ECanceled))\<rparr>"

lemma acq_demo_stopped:
  assumes "run_state (save (Some demo_started)) s0 = (None, s1)" and "run_state (save (Some demo_stopped)) s1 = (None, s2)"
  shows "\<exists>e v. run_state (acq_Run plain_lib (canceled_from 8) (Some (demo_acq save)) (Some demo_acq_request))
    \<lparr>w_tick = 0, w_events = [], w_ext = s0\<rparr> = ((Some demo_stopped, Some e), v) \<and> w_ext v = s2"
proof -
  have "trim_space (rfc3339 plain_lib 0) = rfc3339 plain_lib 0" "\<not> blank (rfc3339 plain_lib 0)" by code_simp+
  then show ?thesis
    using assms demo_acq_valid [of save]
    by (simp add: acq_eval demo_acq_def demo_acq_request_def canceled_from_def demo_trims demo_started_def demo_stopped_def
        as_providerIDs_def run_eval cong: bind_weak_cong)
qed

definition demo_trace_codec :: "trace codec" where
  "demo_trace_codec = \<lparr>to_json = (\<lambda>t. Inr (tr_status t)), of_json = (\<lambda>s. Inl ''not read'')\<rparr>"

abbreviation save_trace_file :: "fsys trace_saver" where
  "save_trace_file \<equiv> SaveTrace plain_lib demo_trace_codec demo_store"

definition traces_fs :: fsys where
  "traces_fs = snd (run_state (save_trace_file (Some demo_started)) empty_fs)"

lemma demo_trace_saves:
  "fst (run_state (save_trace_file (Some demo_started)) empty_fs) = None"
  "fst (run_state (save_trace_file (Some demo_stopped)) traces_fs) = None"
  by code_simp+

theorem acquisition_persisted_witness:
  "ValidateTrace plain_lib demo_stopped = None \<and>
   (\<exists>s2. trace_view demo_trace_codec demo_store s2 ''t1'' = reread demo_trace_codec demo_stopped)"
proof -
  obtain s2 where s2: "run_state (save_trace_file (Some demo_stopped)) traces_fs = (None, s2)"
    using demo_trace_saves(2) by (metis prod.collapse)
  have s1: "run_state (save_trace_file (Some demo_started)) empty_fs = (None, traces_fs)"
    using demo_trace_saves(1) unfolding traces_fs_def by (metis prod.collapse)
  from acq_demo_stopped [OF s1 s2] obtain e v where run: "run_state (acq_Run plain_lib (canceled_from 8)
      (Some (demo_acq save_trace_file)) (Some demo_acq_request)) \<lparr>w_tick = 0, w_events = [], w_ext = empty_fs\<rparr>
    = ((Some demo_stopped, Some e), v)" by blast
  have id: "tr_id demo_stopped = ''t1''" by (simp add: demo_stopped_def demo_started_def)
  have "record_id ''t1''" by (simp add: record_id_def demo_trims)
  from acquisition_persisted [OF demo_acq_valid demo_acq_tracer demo_acq_steps run] this id
  show ?thesis by auto
qed

end
