(* ===== verification/Cal_Policy.thy ===== *)
theory Cal_Policy
  imports Cal_Text
begin

text \<open>
  \<^verbatim>\<open>internal/proposal/policy\<close>: the vocabulary a proposal may use, its default and its validation.
\<close>

record surface_policy =
  sp_allowed_kinds :: "string list"
  sp_skip_names :: "string list"
  sp_skip_patterns :: "string list"

record capability_policy =
  cy_subjects :: "string list"
  cy_operations :: "string list"

record policy =
  py_surface :: surface_policy
  py_capability :: capability_policy

definition policy_Default :: policy where
  "policy_Default = \<lparr>
     py_surface = \<lparr>sp_allowed_kinds = [''command'', ''subcommand'', ''mode'', ''option''],
       sp_skip_names = [''help'', ''version'', ''usage''], sp_skip_patterns = []\<rparr>,
     py_capability = \<lparr>
       cy_subjects = [''file'', ''directory'', ''path'', ''text'', ''bytes'', ''json'', ''xml'', ''csv'', ''yaml'',
         ''document'', ''pdf'', ''image'', ''audio'', ''video'', ''archive'', ''package'',
         ''source'', ''repository'', ''database'', ''table'', ''http'', ''url'', ''network'',
         ''process'', ''system'', ''environment'', ''key'', ''certificate'', ''container'', ''project''],
       cy_operations = [''read'', ''write'', ''copy'', ''move'', ''remove'', ''list'', ''find'', ''inspect'',
         ''identify'', ''count'', ''search'', ''filter'', ''query'', ''extract'', ''transform'',
         ''convert'', ''render'', ''encode'', ''decode'', ''compress'', ''decompress'',
         ''create'', ''checksum'', ''sign'', ''verify'', ''encrypt'', ''decrypt'', ''download'',
         ''upload'', ''request'', ''sync'', ''install'', ''update'', ''build'', ''test'',
         ''run'', ''format'', ''validate'', ''sort'', ''deduplicate'', ''compare'']\<rparr>\<rparr>"

definition NormalizeToken :: "golib \<Rightarrow> string \<Rightarrow> string" where
  "NormalizeToken L value = to_lower L (trim_space value)"

definition validSurfaceKind :: "string \<Rightarrow> bool" where
  "validSurfaceKind kind = (kind \<in> {''command'', ''subcommand'', ''mode'', ''option''})"

text \<open>The regular expression \<^verbatim>\<open>^[a-z][a-z0-9]*$\<close>, as the scanner it denotes.\<close>

definition capability_term :: "string \<Rightarrow> bool" where
  "capability_term s =
     (case s of [] \<Rightarrow> False
      | c # cs \<Rightarrow> byte_in 97 122 c \<and> list_all (\<lambda>d. byte_in 97 122 d \<or> byte_in 48 57 d) cs)"

text \<open>
  The shape of the two loops over vocabulary: a token is normalized, then it must be acceptable,
  then it must not have been seen.
\<close>

fun token_loop :: "golib \<Rightarrow> (string \<Rightarrow> bool) \<Rightarrow> (string \<Rightarrow> gerr) \<Rightarrow> (string \<Rightarrow> gerr) \<Rightarrow> string list \<Rightarrow> string list
    \<Rightarrow> gerr option" where
  "token_loop L ok bad dup seen [] = None"
| "token_loop L ok bad dup seen (x # xs) =
     (let t = NormalizeToken L x in
      if \<not> ok t then Some (bad t)
      else if t \<in> set seen then Some (dup t)
      else token_loop L ok bad dup (t # seen) xs)"

definition validateCapabilityTerms :: "golib \<Rightarrow> string \<Rightarrow> string list \<Rightarrow> gerr option" where
  "validateCapabilityTerms L name terms =
     token_loop L capability_term
       (\<lambda>t. EText (''invalid proposal capability '' @ name @ '' '' @ quote L t))
       (\<lambda>t. EText (''duplicate proposal capability '' @ name @ '' '' @ quote L t)) [] terms"

definition policy_ValidateCapability :: "golib \<Rightarrow> capability_policy \<Rightarrow> gerr option" where
  "policy_ValidateCapability L p =
     (if cy_subjects p = [] then Some (EText ''proposal capability preferred_subjects is required'')
      else if cy_operations p = [] then Some (EText ''proposal capability preferred_operations is required'')
      else (case validateCapabilityTerms L ''subject'' (cy_subjects p) of
              Some e \<Rightarrow> Some e
            | None \<Rightarrow> validateCapabilityTerms L ''operation'' (cy_operations p)))"

definition skip_pattern_err :: "golib \<Rightarrow> string \<Rightarrow> gerr option" where
  "skip_pattern_err L p0 =
     (let p = trim_space p0 in
      if p = [] then None
      else (case re_compile L p of
              None \<Rightarrow> None
            | Some e \<Rightarrow> Some (EWrap (''invalid proposal surface skip pattern '' @ quote L p @ '': '') e [])))"

definition ValidateSurface :: "golib \<Rightarrow> surface_policy \<Rightarrow> gerr option" where
  "ValidateSurface L p =
     (if sp_allowed_kinds p = [] then Some (EText ''proposal surface allowed_kinds is required'')
      else (case token_loop L validSurfaceKind
               (\<lambda>t. EText (''unsupported proposal surface kind '' @ quote L t))
               (\<lambda>t. EText (''duplicate proposal surface kind '' @ quote L t)) [] (sp_allowed_kinds p) of
              Some e \<Rightarrow> Some e
            | None \<Rightarrow> first_err (skip_pattern_err L) (sp_skip_patterns p)))"

definition policy_Validate :: "golib \<Rightarrow> policy \<Rightarrow> gerr option" where
  "policy_Validate L p =
     (case ValidateSurface L (py_surface p) of
        Some e \<Rightarrow> Some e
      | None \<Rightarrow> policy_ValidateCapability L (py_capability p))"

section \<open>What validation accepts\<close>

definition tokens_ok :: "golib \<Rightarrow> (string \<Rightarrow> bool) \<Rightarrow> string list \<Rightarrow> bool" where
  "tokens_ok L ok xs \<longleftrightarrow> distinct (map (NormalizeToken L) xs) \<and> list_all (\<lambda>x. ok (NormalizeToken L x)) xs"

definition pattern_ok :: "golib \<Rightarrow> string \<Rightarrow> bool" where
  "pattern_ok L p \<longleftrightarrow> trim_space p = [] \<or> re_compile L (trim_space p) = None"

definition surface_policy_ok :: "golib \<Rightarrow> surface_policy \<Rightarrow> bool" where
  "surface_policy_ok L p \<longleftrightarrow>
     sp_allowed_kinds p \<noteq> [] \<and> tokens_ok L validSurfaceKind (sp_allowed_kinds p) \<and>
     list_all (pattern_ok L) (sp_skip_patterns p)"

definition capability_policy_ok :: "golib \<Rightarrow> capability_policy \<Rightarrow> bool" where
  "capability_policy_ok L p \<longleftrightarrow>
     cy_subjects p \<noteq> [] \<and> cy_operations p \<noteq> [] \<and>
     tokens_ok L capability_term (cy_subjects p) \<and> tokens_ok L capability_term (cy_operations p)"

lemma token_loop_None:
  "token_loop L ok bad dup seen xs = None \<longleftrightarrow>
     tokens_ok L ok xs \<and> list_all (\<lambda>x. NormalizeToken L x \<notin> set seen) xs"
proof (induction xs arbitrary: seen)
  case (Cons x xs)
  show ?case
    by (simp add: Cons.IH tokens_ok_def Let_def list_all_iff image_iff) (metis (no_types, lifting))
qed (simp add: tokens_ok_def)

lemma skip_pattern_err_None: "skip_pattern_err L p = None \<longleftrightarrow> pattern_ok L p"
  by (auto simp: skip_pattern_err_def pattern_ok_def Let_def split: option.splits)

lemma ValidateSurface_None [valid_simps]: "ValidateSurface L p = None \<longleftrightarrow> surface_policy_ok L p"
  by (auto simp: ValidateSurface_def surface_policy_ok_def token_loop_None skip_pattern_err_None list_all_iff
      or_else_None)

lemma policy_ValidateCapability_None [valid_simps]:
  "policy_ValidateCapability L p = None \<longleftrightarrow> capability_policy_ok L p"
  by (auto simp: policy_ValidateCapability_def capability_policy_ok_def validateCapabilityTerms_def token_loop_None
      list_all_iff or_else_None)

lemma policy_Validate_None [valid_simps]:
  "policy_Validate L p = None \<longleftrightarrow> surface_policy_ok L (py_surface p) \<and> capability_policy_ok L (py_capability p)"
  by (simp add: policy_Validate_def valid_simps or_else_None)

text \<open>What an accepted kind is: one of the four.\<close>

lemma accepted_kinds:
  "surface_policy_ok L p \<Longrightarrow> k \<in> set (map (NormalizeToken L) (sp_allowed_kinds p)) \<Longrightarrow>
     k \<in> {''command'', ''subcommand'', ''mode'', ''option''}"
  by (auto simp: surface_policy_ok_def tokens_ok_def list_all_iff validSurfaceKind_def)

section \<open>The default\<close>

definition lower_word :: "string \<Rightarrow> bool" where
  "lower_word s = list_all (byte_in 97 122) s"

lemma NormalizeToken_word: "lower_word s \<Longrightarrow> NormalizeToken L s = s"
proof -
  assume w: "lower_word s"
  then have "list_all (byte_in 33 126) s" by (auto simp: lower_word_def list_all_iff byte_in_def)
  then have "trim_space s = s" by (rule trim_space_visible)
  moreover have "is_ascii s" using w by (auto simp: lower_word_def is_ascii_def list_all_iff byte_in_def)
  moreover have "map lower_char s = s"
    using w by (intro map_idI) (auto simp: lower_word_def list_all_iff byte_in_def lower_char_def)
  ultimately show ?thesis by (simp add: NormalizeToken_def to_lower_def)
qed

lemma tokens_ok_words:
  assumes "list_all lower_word xs" and "distinct xs" and "list_all ok xs"
  shows "tokens_ok L ok xs"
proof -
  have "map (NormalizeToken L) xs = xs"
    using assms(1) by (intro map_idI) (auto simp: list_all_iff NormalizeToken_word)
  with assms(2,3) show ?thesis
    by (simp add: tokens_ok_def list_all_iff) (metis assms(1) list_all_iff NormalizeToken_word)
qed

lemma default_vocabulary:
  "list_all (\<lambda>xs. list_all lower_word xs \<and> distinct xs)
     [sp_allowed_kinds (py_surface policy_Default), cy_subjects (py_capability policy_Default),
      cy_operations (py_capability policy_Default)]"
  "list_all validSurfaceKind (sp_allowed_kinds (py_surface policy_Default))"
  "list_all capability_term (cy_subjects (py_capability policy_Default))"
  "list_all capability_term (cy_operations (py_capability policy_Default))"
  by code_simp+

lemma default_policy_ok: "surface_policy_ok L (py_surface policy_Default)"
  "capability_policy_ok L (py_capability policy_Default)"
proof -
  have k: "list_all lower_word (sp_allowed_kinds (py_surface policy_Default))"
    "distinct (sp_allowed_kinds (py_surface policy_Default))"
    "list_all lower_word (cy_subjects (py_capability policy_Default))"
    "distinct (cy_subjects (py_capability policy_Default))"
    "list_all lower_word (cy_operations (py_capability policy_Default))"
    "distinct (cy_operations (py_capability policy_Default))"
    using default_vocabulary(1) by simp_all
  have "sp_skip_patterns (py_surface policy_Default) = []" "sp_allowed_kinds (py_surface policy_Default) \<noteq> []"
    "cy_subjects (py_capability policy_Default) \<noteq> []" "cy_operations (py_capability policy_Default) \<noteq> []"
    by (simp_all add: policy_Default_def)
  then show "surface_policy_ok L (py_surface policy_Default)" "capability_policy_ok L (py_capability policy_Default)"
    by (simp_all add: surface_policy_ok_def capability_policy_ok_def tokens_ok_words k default_vocabulary(2-4))
qed

text \<open>
  A policy is accepted exactly when it names at least one surface kind, subject and operation,
  every normalized kind is one of the four and every normalized term a lower-case word, none twice,
  and every skip pattern that is not blank compiles; the default policy is accepted.
\<close>

theorem policy_accepted:
  "(policy_Validate L p = None \<longleftrightarrow> surface_policy_ok L (py_surface p) \<and> capability_policy_ok L (py_capability p)) \<and>
   policy_Validate L policy_Default = None"
  by (simp add: valid_simps default_policy_ok)

end
