(* ===== verification/Cal_Stage.thy ===== *)
theory Cal_Stage
  imports Cal_World Cal_Plans
begin

text \<open>
  What the four stages of a proposal (\<^verbatim>\<open>internal/proposal/surface\<close>, \<^verbatim>\<open>capability\<close>, \<^verbatim>\<open>binding\<close>,
  \<^verbatim>\<open>evidence\<close>) share: the client of a language model, the diagnostics of a stage and of an attempt,
  which the packages declare in identical copies, the loop that decides item by item and the call of
  a stage. The prompt a request is rendered to is part of the client: a client answers a request.
\<close>

abbreviation "stage_surface \<equiv> ''surface''"
abbreviation "stage_capability \<equiv> ''capability''"
abbreviation "stage_binding \<equiv> ''binding''"
abbreviation "stage_evidence \<equiv> ''evidence''"
abbreviation "decision_keep \<equiv> ''keep''"
abbreviation "decision_defer \<equiv> ''defer''"
abbreviation "decision_skip \<equiv> ''skip''"
abbreviation "attempt_succeeded \<equiv> ''succeeded''"
abbreviation "attempt_failed \<equiv> ''failed''"

record llm_usage =
  us_prompt :: int
  us_completion :: int
  us_total :: int

record llm_response =
  ls_text :: string
  ls_model :: string
  ls_usage :: llm_usage

record ('s, 'q) llm_client =
  lc_model :: string
  lc_complete :: "env \<Rightarrow> 'q \<Rightarrow> ('s, llm_response outcome) state"

section \<open>Stage diagnostics\<close>

definition zero_stage :: proposal_stage where
  "zero_stage = \<lparr>ps_name = [], ps_items = [], ps_summary = [], ps_duration_ms = 0\<rparr>"

definition newStage :: "string \<Rightarrow> nat \<Rightarrow> proposal_stage" where
  "newStage name raw = \<lparr>ps_name = name, ps_items = [], ps_summary = [(''raw'', raw)], ps_duration_ms = 0\<rparr>"

definition summaryKey :: "string \<Rightarrow> string" where
  "summaryKey decision =
     (if decision = decision_keep then ''keep'' else if decision = decision_defer then ''defer'' else ''skip'')"

definition summary_of :: "proposal_stage \<Rightarrow> string \<Rightarrow> nat" where
  "summary_of st k = (case map_of (ps_summary st) k of None \<Rightarrow> 0 | Some n \<Rightarrow> n)"

definition summary_set :: "string \<Rightarrow> nat \<Rightarrow> proposal_stage \<Rightarrow> proposal_stage" where
  "summary_set k n st = st\<lparr>ps_summary := put k n (ps_summary st)\<rparr>"

text \<open>\<^verbatim>\<open>stage.Summary[key]++\<close>, and the end of a loop body: the item is appended and counted.\<close>

definition summary_inc :: "string \<Rightarrow> proposal_stage \<Rightarrow> proposal_stage" where
  "summary_inc k st = summary_set k (Suc (summary_of st k)) st"

definition record_item :: "proposal_item \<Rightarrow> proposal_stage \<Rightarrow> proposal_stage" where
  "record_item item st =
     summary_inc (summaryKey (pi_decision item)) (st\<lparr>ps_items := ps_items st @ [item]\<rparr>)"

text \<open>
  The loop of the stages: an item is decided in the state \<open>'s\<close> of the loop and recorded. The
  decision may also count something in the summary.
\<close>

fun stage_loop ::
    "(nat \<Rightarrow> 's \<Rightarrow> 'a \<Rightarrow> proposal_item \<times> string option \<times> 's) \<Rightarrow> nat \<Rightarrow> 's \<Rightarrow> proposal_stage \<Rightarrow> 'a list
      \<Rightarrow> 's \<times> proposal_stage" where
  "stage_loop f i s st [] = (s, st)"
| "stage_loop f i s st (x # xs) =
     (case f i s x of (item, extra, s') \<Rightarrow>
        stage_loop f (Suc i) s'
          (record_item item (case extra of None \<Rightarrow> st | Some k \<Rightarrow> summary_inc k st)) xs)"

subsection \<open>The counts add up\<close>

definition decided :: "string \<Rightarrow> proposal_stage \<Rightarrow> nat" where
  "decided key st = length (filter (\<lambda>i. summaryKey (pi_decision i) = key) (ps_items st))"

definition counts_ok :: "proposal_stage \<Rightarrow> bool" where
  "counts_ok st \<longleftrightarrow>
     summary_of st ''keep'' = decided ''keep'' st \<and> summary_of st ''defer'' = decided ''defer'' st \<and>
     summary_of st ''skip'' = decided ''skip'' st"

definition stage_adds_up :: "nat \<Rightarrow> proposal_stage \<Rightarrow> bool" where
  "stage_adds_up raw st \<longleftrightarrow>
     summary_of st ''raw'' = raw \<and> length (ps_items st) = raw \<and>
     summary_of st ''keep'' + summary_of st ''defer'' + summary_of st ''skip'' = raw \<and> counts_ok st"

lemma summary_of_set [simp]:
  "summary_of (summary_set k n st) k' = (if k' = k then n else summary_of st k')"
  by (simp add: summary_of_def summary_set_def)

lemma summary_set_items [simp]: "ps_items (summary_set k n st) = ps_items st"
  "ps_name (summary_set k n st) = ps_name st"
  by (simp_all add: summary_set_def)

lemma summary_inc_of [simp]:
  "summary_of (summary_inc k st) k' = (if k' = k then Suc (summary_of st k) else summary_of st k')"
  "ps_items (summary_inc k st) = ps_items st" "ps_name (summary_inc k st) = ps_name st"
  by (simp_all add: summary_inc_def)

lemma summary_of_items [simp]: "summary_of (st\<lparr>ps_items := xs\<rparr>) k = summary_of st k"
  by (simp add: summary_of_def)

lemma record_item_simps [simp]:
  "ps_items (record_item item st) = ps_items st @ [item]" "ps_name (record_item item st) = ps_name st"
  "summary_of (record_item item st) k =
     (if k = summaryKey (pi_decision item) then Suc (summary_of st k) else summary_of st k)"
  by (simp_all add: record_item_def)

lemma summaryKey_cases: "summaryKey d = ''keep'' \<or> summaryKey d = ''defer'' \<or> summaryKey d = ''skip''"
  by (simp add: summaryKey_def)

lemma decided_record [simp]:
  "decided k (record_item item st) = decided k st + (if summaryKey (pi_decision item) = k then 1 else 0)"
  by (simp add: decided_def)

lemma decided_cong [simp]: "decided k (summary_inc j st) = decided k st" "decided k (summary_set j n st) = decided k st"
  by (simp_all add: decided_def)

lemma decided_total: "decided ''keep'' st + decided ''defer'' st + decided ''skip'' st = length (ps_items st)"
proof -
  have "length (filter (\<lambda>i. summaryKey (pi_decision i) = ''keep'') xs) +
      length (filter (\<lambda>i. summaryKey (pi_decision i) = ''defer'') xs) +
      length (filter (\<lambda>i. summaryKey (pi_decision i) = ''skip'') xs) = length xs" for xs
    by (induction xs) (auto simp: summaryKey_def)
  then show ?thesis by (simp add: decided_def)
qed

text \<open>A counter beside the three decisions and the raw count.\<close>

definition side_counter :: "string \<Rightarrow> bool" where
  "side_counter k \<longleftrightarrow> k \<notin> {''raw'', ''keep'', ''defer'', ''skip''}"

lemma counts_ok_item: "counts_ok st \<Longrightarrow> counts_ok (record_item item st)"
  using summaryKey_cases [of "pi_decision item"] by (elim disjE) (simp_all add: counts_ok_def)

lemma counts_ok_inc: "counts_ok st \<Longrightarrow> side_counter k \<Longrightarrow> counts_ok (summary_inc k st)"
  by (auto simp: counts_ok_def side_counter_def simp del: summary_inc_of(1))
    (simp_all add: summary_inc_def)

lemma counts_ok_record:
  assumes "counts_ok st" and "\<forall>k. extra = Some k \<longrightarrow> side_counter k"
  shows "counts_ok (record_item item (case extra of None \<Rightarrow> st | Some k \<Rightarrow> summary_inc k st))"
  using assms by (cases extra) (simp_all add: counts_ok_item counts_ok_inc)

text \<open>
  The rule for the loops: \<open>P\<close> is the invariant of the loop state and of the stage, after the
  items \<open>done\<close>.
\<close>

lemma stage_loop_rule:
  assumes step: "\<And>d i s st x item extra s'. P d s st \<Longrightarrow> x \<in> set xs \<Longrightarrow> f i s x = (item, extra, s') \<Longrightarrow>
      P (d @ [x]) s' (record_item item (case extra of None \<Rightarrow> st | Some k \<Rightarrow> summary_inc k st))"
    and init: "P d s st" and run: "stage_loop f i s st xs = (t, stt)"
  shows "P (d @ xs) t stt"
  using step init run
proof (induction f i s st xs arbitrary: d rule: stage_loop.induct)
  case (2 f i s st x xs)
  obtain item extra s' where fx: "f i s x = (item, extra, s')" by (cases "f i s x") auto
  have "P (d @ [x]) s' (record_item item (case extra of None \<Rightarrow> st | Some k \<Rightarrow> summary_inc k st))"
    using 2(2) [OF 2(3) _ fx] by simp
  from 2(1) [OF fx [symmetric] refl _ this] 2(2,4) fx show ?case by simp
qed simp

lemma stage_loop_counts:
  fixes xs :: "'a list"
  assumes "stage_loop f 0 s (newStage name (length xs)) xs = (t, st)"
    and "\<And>i s x item extra s'. f i s x = (item, extra, s') \<Longrightarrow> \<forall>k. extra = Some k \<longrightarrow> side_counter k"
  shows "stage_adds_up (length xs) st \<and> ps_name st = name"
proof -
  have "counts_ok st \<and> length (ps_items st) = length ([] @ xs) \<and> summary_of st ''raw'' = length xs \<and> ps_name st = name"
  proof (rule stage_loop_rule [where P = "\<lambda>d s st. counts_ok st \<and> length (ps_items st) = length d \<and>
        summary_of st ''raw'' = length xs \<and> ps_name st = name", OF _ _ assms(1)])
    fix d :: "'a list" and i s st x item extra s'
    assume P: "counts_ok st \<and> length (ps_items st) = length d \<and> summary_of st ''raw'' = length xs \<and> ps_name st = name"
      and f: "f i s x = (item, extra, s')"
    have e: "\<forall>k. extra = Some k \<longrightarrow> side_counter k" using assms(2) [OF f] .
    have raw: "summaryKey (pi_decision item) \<noteq> ''raw''" by (simp add: summaryKey_def)
    show "counts_ok (record_item item (case extra of None \<Rightarrow> st | Some k \<Rightarrow> summary_inc k st)) \<and>
        length (ps_items (record_item item (case extra of None \<Rightarrow> st | Some k \<Rightarrow> summary_inc k st))) = length (d @ [x]) \<and>
        summary_of (record_item item (case extra of None \<Rightarrow> st | Some k \<Rightarrow> summary_inc k st)) ''raw'' = length xs \<and>
        ps_name (record_item item (case extra of None \<Rightarrow> st | Some k \<Rightarrow> summary_inc k st)) = name"
      using P e raw counts_ok_record [of st extra item] by (cases extra) (auto simp: side_counter_def)
  qed (auto simp: newStage_def counts_ok_def summary_of_def decided_def)
  with decided_total [of st] show ?thesis by (simp add: stage_adds_up_def counts_ok_def)
qed

text \<open>A limit that is not positive is no limit.\<close>

definition max_ok :: "int \<Rightarrow> nat \<Rightarrow> bool" where
  "max_ok m n \<longleftrightarrow> (0 < m \<longrightarrow> int n \<le> m)"

definition selection_counted :: "nat \<Rightarrow> nat \<Rightarrow> proposal_stage \<Rightarrow> bool" where
  "selection_counted raw n st \<longleftrightarrow> stage_adds_up raw st \<and> summary_of st ''selected'' = n"

lemma selection_counted_set:
  "stage_adds_up raw st \<Longrightarrow> selection_counted raw n (summary_set ''selected'' n st)"
  by (simp add: selection_counted_def stage_adds_up_def counts_ok_def)

section \<open>Attempts\<close>

definition stage_newAttempt :: "string \<Rightarrow> int \<Rightarrow> string \<Rightarrow> gerr option \<Rightarrow> int \<Rightarrow> proposal_attempt" where
  "stage_newAttempt stage started raw err t =
     \<lparr>pa_stage = stage, pa_capability_id = [], pa_candidate_index = None,
      pa_status = (if err = None then attempt_succeeded else attempt_failed), pa_duration_ms = millis (t - started),
      pa_prompt_tokens = 0, pa_completion_tokens = 0, pa_total_tokens = 0,
      pa_error = (case err of None \<Rightarrow> None | Some e \<Rightarrow> Some \<lparr>re_code = ''proposal_stage_failed'', re_message = err_text e\<rparr>),
      pa_raw_response = raw\<rparr>"

definition zero_attempt :: proposal_attempt where
  "zero_attempt = \<lparr>pa_stage = [], pa_capability_id = [], pa_candidate_index = None, pa_status = [], pa_duration_ms = 0,
     pa_prompt_tokens = 0, pa_completion_tokens = 0, pa_total_tokens = 0, pa_error = None, pa_raw_response = []\<rparr>"

definition applyUsage :: "llm_usage \<Rightarrow> proposal_attempt \<Rightarrow> proposal_attempt" where
  "applyUsage u a = a\<lparr>pa_prompt_tokens := us_prompt u, pa_completion_tokens := us_completion u,
     pa_total_tokens := us_total u\<rparr>"

section \<open>One call of a stage\<close>

record 'x stage_result =
  sr_value :: 'x
  sr_stage :: proposal_stage
  sr_attempt :: proposal_attempt

text \<open>
  \<open>zero\<close> is the value of a result whose field is not set; \<open>attempt started raw err t\<close> makes the
  attempt and reads the clock at \<open>t\<close>; \<open>parse\<close> is the local part of the stage.
\<close>

definition stage_run ::
    "'x \<Rightarrow> (int \<Rightarrow> string \<Rightarrow> gerr option \<Rightarrow> int \<Rightarrow> proposal_attempt) \<Rightarrow> (string \<Rightarrow> 'x \<times> proposal_stage \<times> gerr option)
      \<Rightarrow> string \<Rightarrow> ('s, 'q) llm_client option option \<Rightarrow> env \<Rightarrow> 'q \<Rightarrow> ('s world, 'x stage_result outcome) state" where
  "stage_run zero attempt parse missing R E req =
     (case R of
        None \<Rightarrow> ret (None, Some (EText missing))
      | Some None \<Rightarrow> ret (None, Some (EText missing))
      | Some (Some C) \<Rightarrow> do {
          started \<leftarrow> now E;
          answer \<leftarrow> call (lc_complete C E req);
          (let (response, err) = answer;
               raw = (case response of None \<Rightarrow> [] | Some r \<Rightarrow> ls_text r);
               usage = (case response of None \<Rightarrow> \<lparr>us_prompt = 0, us_completion = 0, us_total = 0\<rparr> | Some r \<Rightarrow> ls_usage r)
           in do {
             t1 \<leftarrow> now E;
             (case err of
                Some e \<Rightarrow> ret (Some \<lparr>sr_value = zero, sr_stage = zero_stage,
                  sr_attempt = applyUsage usage (attempt started raw (Some e) t1)\<rparr>, Some e)
              | None \<Rightarrow>
                  (case parse raw of (x, stage, perr) \<Rightarrow> do {
                     t2 \<leftarrow> now E;
                     ret (case perr of
                       Some e \<Rightarrow> (Some \<lparr>sr_value = zero, sr_stage = stage,
                         sr_attempt = applyUsage usage (attempt started raw (Some e) t2)\<rparr>, Some e)
                     | None \<Rightarrow> (Some \<lparr>sr_value = x, sr_stage = stage,
                         sr_attempt = applyUsage usage (attempt started raw None t2)\<rparr>, None))}))})})"

text \<open>\<^verbatim>\<open>Model()\<close> of a stage runner.\<close>

definition stage_Model :: "('s, 'q) llm_client option option \<Rightarrow> string" where
  "stage_Model R = (case R of Some (Some C) \<Rightarrow> lc_model C | _ \<Rightarrow> [])"

text \<open>
  What a stage promises its caller: a result without an error has a value the parser accepted, and
  there is no result without a value beside no error; no event is emitted.
\<close>

definition stage_answer :: "('x \<Rightarrow> bool) \<Rightarrow> 'x stage_result outcome \<Rightarrow> 's world \<Rightarrow> 's world \<Rightarrow> bool" where
  "stage_answer ok r w v \<longleftrightarrow> w_events v = w_events w \<and>
     (case r of (Some x, None) \<Rightarrow> ok (sr_value x) | (None, None) \<Rightarrow> False | (_, Some e) \<Rightarrow> True)"

lemma stage_run_answer:
  assumes "\<And>raw x stage. parse raw = (x, stage, None) \<Longrightarrow> ok x"
  shows "wp (stage_run zero attempt parse missing R E req) (\<lambda>r v. stage_answer ok r w v) w"
proof (cases R)
  case (Some C0)
  show ?thesis
  proof (cases C0)
    case (Some C)
    show ?thesis
      unfolding stage_run_def \<open>R = Some C0\<close> Some option.case Let_def
      apply (simp add: wp_simps)
      apply (rule wp_any)
      apply (auto simp: wp_simps stage_answer_def assms split: option.split prod.split)
      done
  qed (simp add: stage_run_def \<open>R = Some C0\<close> wp_return stage_answer_def)
qed (simp add: stage_run_def wp_return stage_answer_def)

end
