(* ===== verification/Cal_Surface.thy ===== *)
theory Cal_Surface
  imports Cal_Policy Cal_Stage
begin

text \<open>
  \<^verbatim>\<open>internal/proposal/surface\<close>: the first stage of a proposal. The model's answer is decoded (the
  decoder is an argument) and its items are filtered by the policy.
\<close>

record surface_item =
  si_id :: string
  si_kind :: string
  si_name :: string
  si_description :: string
  si_usage :: string
  si_evidence_source :: string
  si_decision :: string
  si_reason :: string
  si_metadata :: ginputs

record surface_request =
  sq_provider :: "provider option"
  sq_observations :: "observation list"
  sq_policy :: surface_policy
  sq_max_items :: int
  sq_hint :: string

definition surface_normalizeItem :: "golib \<Rightarrow> surface_item \<Rightarrow> surface_item" where
  "surface_normalizeItem L item =
     (let kind = NormalizeToken L (si_kind item); decision = to_lower L (trim_space (si_decision item)) in
      item\<lparr>si_id := trim_space (si_id item), si_kind := (if kind = [] then ''command'' else kind),
        si_name := trim_space (si_name item), si_description := trim_space (si_description item),
        si_usage := trim_space (si_usage item), si_evidence_source := trim_space (si_evidence_source item),
        si_reason := trim_space (si_reason item),
        si_decision := (if decision \<in> {decision_keep, decision_defer, decision_skip} then decision else decision_keep)\<rparr>)"

fun compilePatterns :: "golib \<Rightarrow> string list \<Rightarrow> string list res" where
  "compilePatterns L [] = Inr []"
| "compilePatterns L (v # vs) =
     (let p = trim_space v in
      if p = [] then compilePatterns L vs
      else (case re_compile L p of
              Some e \<Rightarrow> Inl (EWrap (''invalid proposal surface skip pattern '' @ quote L p @ '': '') e [])
            | None \<Rightarrow> (case compilePatterns L vs of Inl e \<Rightarrow> Inl e | Inr ps \<Rightarrow> Inr (p # ps))))"

definition matchesAny :: "golib \<Rightarrow> string list \<Rightarrow> string \<Rightarrow> bool" where
  "matchesAny L patterns value = list_ex (\<lambda>p. re_match L p value) patterns"

definition surface_traceItem :: "surface_item \<Rightarrow> proposal_item" where
  "surface_traceItem item = \<lparr>pi_id = si_id item, pi_kind = si_kind item, pi_name = si_name item,
     pi_decision = si_decision item, pi_reason = si_reason item\<rparr>"

definition surface_key :: "golib \<Rightarrow> surface_item \<Rightarrow> string" where
  "surface_key L item = si_kind item @ [CHR 0x00] @ to_lower L (si_name item)"

text \<open>The body of the loop: what is decided about a normalized item, given what is selected and seen.\<close>

definition surface_decide ::
    "golib \<Rightarrow> string list \<Rightarrow> string list \<Rightarrow> string list \<Rightarrow> int \<Rightarrow> nat \<Rightarrow> string list \<Rightarrow> surface_item \<Rightarrow> string" where
  "surface_decide L kinds skips patterns max_items selected seen item =
     (if si_id item = [] \<or> si_name item = [] then decision_skip
      else if si_decision item \<noteq> decision_keep then si_decision item
      else if si_kind item \<notin> set kinds \<or> to_lower L (si_name item) \<in> set skips
              \<or> matchesAny L patterns (si_name item) \<or> surface_key L item \<in> set seen then decision_skip
      else if 0 < max_items \<and> max_items \<le> int selected then decision_defer
      else decision_keep)"

definition surface_step ::
    "golib \<Rightarrow> string list \<Rightarrow> string list \<Rightarrow> string list \<Rightarrow> int \<Rightarrow> nat \<Rightarrow> surface_item list \<times> string list \<Rightarrow> surface_item
      \<Rightarrow> proposal_item \<times> string option \<times> surface_item list \<times> string list" where
  "surface_step L kinds skips patterns max_items i s x =
     (let (selected, seen) = s; item0 = surface_normalizeItem L x;
          d = surface_decide L kinds skips patterns max_items (length selected) seen item0;
          item = item0\<lparr>si_decision := d\<rparr>
      in (surface_traceItem item, None,
          if d = decision_keep then (selected @ [item], surface_key L item # seen) else s))"

definition skip_names :: "golib \<Rightarrow> string list \<Rightarrow> string list" where
  "skip_names L names = filter (\<lambda>n. n \<noteq> []) (map (\<lambda>n. to_lower L (trim_space n)) names)"

definition surface_normalize ::
    "golib \<Rightarrow> surface_item list \<Rightarrow> surface_request option \<Rightarrow> surface_item list \<times> proposal_stage \<times> gerr option" where
  "surface_normalize L input req0 =
     (let req = (case req0 of Some r \<Rightarrow> r | None \<Rightarrow> \<lparr>sq_provider = None, sq_observations = [],
             sq_policy = py_surface policy_Default, sq_max_items = 0, sq_hint = []\<rparr>);
          p = sq_policy req
      in case ValidateSurface L p of
           Some e \<Rightarrow> ([], zero_stage, Some e)
         | None \<Rightarrow>
             (case compilePatterns L (sp_skip_patterns p) of
                Inl e \<Rightarrow> ([], zero_stage, Some e)
              | Inr patterns \<Rightarrow>
                  (case stage_loop (surface_step L (map (NormalizeToken L) (sp_allowed_kinds p))
                          (skip_names L (sp_skip_names p)) patterns (sq_max_items req))
                        0 ([], []) (newStage stage_surface (length input)) input of
                     ((selected, seen), stage) \<Rightarrow>
                       (selected, summary_set ''selected'' (length selected) stage, None))))"

definition surface_Parse ::
    "golib \<Rightarrow> (string \<Rightarrow> surface_item list res) \<Rightarrow> surface_request option \<Rightarrow> string
      \<Rightarrow> surface_item list \<times> proposal_stage \<times> gerr option" where
  "surface_Parse L decode req raw =
     (case decode raw of
        Inl e \<Rightarrow> ([], zero_stage, Some (EWrap ''decode surface stage: '' e []))
      | Inr out \<Rightarrow>
          (case surface_normalize L out req of
             (_, stage, Some e) \<Rightarrow> ([], stage, Some e)
           | (items, stage, None) \<Rightarrow>
               if items = [] then ([], stage, Some (EText ''surface stage returned no kept surface items''))
               else (items, stage, None)))"

definition surface_Run ::
    "golib \<Rightarrow> (string \<Rightarrow> surface_item list res) \<Rightarrow> ('s, surface_request) llm_client option option \<Rightarrow> env
      \<Rightarrow> surface_request \<Rightarrow> ('s world, surface_item list stage_result outcome) state" where
  "surface_Run L decode R E req =
     stage_run [] (stage_newAttempt stage_surface) (surface_Parse L decode (Some req))
       ''surface llm client is required'' R E req"

section \<open>What is selected\<close>

definition surface_wanted :: "golib \<Rightarrow> surface_policy \<Rightarrow> surface_item \<Rightarrow> bool" where
  "surface_wanted L p item \<longleftrightarrow>
     si_id item \<noteq> [] \<and> si_name item \<noteq> [] \<and> si_decision item = decision_keep \<and>
     si_kind item \<in> NormalizeToken L ` set (sp_allowed_kinds p) \<and>
     to_lower L (si_name item) \<notin> set (skip_names L (sp_skip_names p)) \<and>
     (\<forall>q\<in>set (sp_skip_patterns p). trim_space q \<noteq> [] \<longrightarrow> \<not> re_match L (trim_space q) (si_name item))"

text \<open>
  Wanted items of distinct kind and name, in the order of the answer, no more than allowed; a wanted
  item that is not selected has the kind and name of a selected one or came when the limit was reached.
\<close>

definition surface_selected :: "golib \<Rightarrow> surface_policy \<Rightarrow> int \<Rightarrow> surface_item list \<Rightarrow> surface_item list \<Rightarrow> bool" where
  "surface_selected L p m input selected \<longleftrightarrow>
     list_all (surface_wanted L p) selected \<and> distinct (map (surface_key L) selected) \<and>
     subseq selected (map (surface_normalizeItem L) input) \<and> max_ok m (length selected) \<and>
     (\<forall>x\<in>set input. surface_wanted L p (surface_normalizeItem L x) \<longrightarrow>
        surface_key L (surface_normalizeItem L x) \<in> surface_key L ` set selected \<or> (0 < m \<and> m \<le> int (length selected)))"

lemma compilePatterns_Inr:
  "compilePatterns L vs = Inr ps \<Longrightarrow> set ps = {trim_space v |v. v \<in> set vs \<and> trim_space v \<noteq> []}"
  by (induction vs arbitrary: ps) (auto simp: Let_def split: if_splits option.splits sum.splits)

lemma compilePatterns_ok: "list_all (pattern_ok L) vs \<Longrightarrow> \<exists>ps. compilePatterns L vs = Inr ps"
  by (induction vs) (auto simp: Let_def pattern_ok_def)

lemma surface_keep_iff:
  assumes "set patterns = {trim_space v |v. v \<in> set (sp_skip_patterns p) \<and> trim_space v \<noteq> []}"
  shows "surface_decide L (map (NormalizeToken L) (sp_allowed_kinds p)) (skip_names L (sp_skip_names p)) patterns m n seen item
           = decision_keep \<longleftrightarrow>
         surface_wanted L p item \<and> surface_key L item \<notin> set seen \<and> \<not> (0 < m \<and> m \<le> int n)"
proof -
  have "matchesAny L patterns v \<longleftrightarrow>
      (\<exists>q\<in>set (sp_skip_patterns p). trim_space q \<noteq> [] \<and> re_match L (trim_space q) v)" for v
    using assms by (auto simp: matchesAny_def list_ex_iff)
  then show ?thesis by (auto simp: surface_decide_def surface_wanted_def)
qed

lemma surface_wanted_keep: "surface_wanted L p item \<Longrightarrow> item\<lparr>si_decision := decision_keep\<rparr> = item"
  by (simp add: surface_wanted_def)

lemma surface_key_decision [simp]: "surface_key L (item\<lparr>si_decision := d\<rparr>) = surface_key L item"
  by (simp add: surface_key_def)

definition surface_inv ::
    "golib \<Rightarrow> surface_policy \<Rightarrow> int \<Rightarrow> surface_item list \<Rightarrow> surface_item list \<times> string list \<Rightarrow> proposal_stage \<Rightarrow> bool" where
  "surface_inv L p m d s st \<longleftrightarrow>
     surface_selected L p m d (fst s) \<and> set (snd s) = surface_key L ` set (fst s) \<and>
     decided ''keep'' st = length (fst s)"

lemma subseq_snoc: "subseq xs ys \<Longrightarrow> subseq xs (ys @ [y])"
  using list_emb_append_mono [of "(=)" xs ys "[]" "[y]"] by simp

lemma surface_selected_mono:
  assumes "surface_selected L p m d selected"
    and "surface_wanted L p (surface_normalizeItem L x) \<longrightarrow>
      surface_key L (surface_normalizeItem L x) \<in> surface_key L ` set selected \<or> (0 < m \<and> m \<le> int (length selected))"
  shows "surface_selected L p m (d @ [x]) selected"
  using assms by (auto simp: surface_selected_def subseq_snoc)

lemma surface_selected_snoc:
  assumes "surface_selected L p m d selected" and "surface_wanted L p item" and "item = surface_normalizeItem L x"
    and "surface_key L item \<notin> surface_key L ` set selected" and "\<not> (0 < m \<and> m \<le> int (length selected))"
  shows "surface_selected L p m (d @ [x]) (selected @ [item])"
proof -
  have "subseq (selected @ [item]) (map (surface_normalizeItem L) d @ [item])"
    using assms(1) by (simp add: surface_selected_def)
  with assms show ?thesis by (auto simp: surface_selected_def max_ok_def)
qed

lemma surface_step_inv:
  assumes inv: "surface_inv L p m d s st"
    and pat: "set patterns = {trim_space v |v. v \<in> set (sp_skip_patterns p) \<and> trim_space v \<noteq> []}"
    and step: "surface_step L (map (NormalizeToken L) (sp_allowed_kinds p)) (skip_names L (sp_skip_names p)) patterns m i s x
      = (item, extra, s')"
  shows "surface_inv L p m (d @ [x]) s' (record_item item (case extra of None \<Rightarrow> st | Some k \<Rightarrow> summary_inc k st))"
proof -
  obtain selected seen where s: "s = (selected, seen)" by (cases s)
  let ?x = "surface_normalizeItem L x"
  let ?d = "surface_decide L (map (NormalizeToken L) (sp_allowed_kinds p)) (skip_names L (sp_skip_names p)) patterns m
    (length selected) seen ?x"
  have sel: "surface_selected L p m d selected" "set seen = surface_key L ` set selected" "decided ''keep'' st = length selected"
    using inv s by (auto simp: surface_inv_def)
  note keep = surface_keep_iff [OF pat, of L m "length selected" seen ?x]
  show ?thesis
  proof (cases "?d = decision_keep")
    case True
    with keep have w: "surface_wanted L p ?x" "surface_key L ?x \<notin> surface_key L ` set selected"
      "\<not> (0 < m \<and> m \<le> int (length selected))" using sel(2) by auto
    have "surface_selected L p m (d @ [x]) (selected @ [?x])"
      by (rule surface_selected_snoc [OF sel(1) w(1) refl w(2,3)])
    then show ?thesis
      using step True s sel w(1)
      by (auto simp: surface_inv_def surface_step_def Let_def surface_wanted_keep surface_traceItem_def summaryKey_def)
  next
    case False
    with keep have "surface_wanted L p ?x \<longrightarrow>
        surface_key L ?x \<in> surface_key L ` set selected \<or> (0 < m \<and> m \<le> int (length selected))" using sel(2) by auto
    from surface_selected_mono [OF sel(1) this] False show ?thesis
      using step s sel
      by (auto simp: surface_inv_def surface_step_def Let_def surface_traceItem_def summaryKey_def)
  qed
qed

text \<open>
  The surface stage succeeds on every answer when the policy is accepted. What it selects are
  wanted items (an id and a name, an allowed kind, no skipped name or pattern), no two of the same
  kind and name, in the order of the answer and within \<open>MaxItems\<close>, and it leaves no wanted item out
  except for a duplicate or at the limit. In its diagnostics every item of the answer is counted once
  as kept, deferred or skipped, and exactly the kept ones are selected.
\<close>

theorem surface_selection:
  assumes "surface_policy_ok L (sq_policy req)"
  shows "\<exists>selected st. surface_normalize L input (Some req) = (selected, st, None) \<and>
    surface_selected L (sq_policy req) (sq_max_items req) input selected \<and>
    selection_counted (length input) (length selected) st \<and> summary_of st ''keep'' = length selected"
proof -
  let ?p = "sq_policy req" and ?m = "sq_max_items req"
  have "list_all (pattern_ok L) (sp_skip_patterns ?p)" using assms by (simp add: surface_policy_ok_def)
  then obtain ps where ps: "compilePatterns L (sp_skip_patterns ?p) = Inr ps" using compilePatterns_ok by blast
  note pat = compilePatterns_Inr [OF ps]
  let ?f = "surface_step L (map (NormalizeToken L) (sp_allowed_kinds ?p)) (skip_names L (sp_skip_names ?p)) ps ?m"
  obtain selected seen st where run:
    "stage_loop ?f 0 ([], []) (newStage stage_surface (length input)) input = ((selected, seen), st)"
    by (metis prod.exhaust)
  have "surface_inv L ?p ?m ([] @ input) (selected, seen) st"
  proof (rule stage_loop_rule [where P = "surface_inv L ?p ?m", OF _ _ run])
    show "surface_inv L ?p ?m [] ([], []) (newStage stage_surface (length input))"
      by (simp add: surface_inv_def surface_selected_def decided_def newStage_def max_ok_def)
  qed (rule surface_step_inv [OF _ pat])
  moreover have "stage_adds_up (length input) st \<and> ps_name st = stage_surface"
    by (rule stage_loop_counts [OF run]) (auto simp: surface_step_def Let_def split: prod.splits if_splits)
  moreover have "ValidateSurface L ?p = None" using assms by (simp add: valid_simps)
  then have "surface_normalize L input (Some req) = (selected, summary_set ''selected'' (length selected) st, None)"
    by (simp add: surface_normalize_def Let_def ps run)
  ultimately show ?thesis
    by (simp add: surface_inv_def selection_counted_set stage_adds_up_def counts_ok_def)
qed

definition sample_surface :: "string \<Rightarrow> string \<Rightarrow> surface_item" where
  "sample_surface i n = \<lparr>si_id = i, si_kind = ''Command'', si_name = n, si_description = [], si_usage = [],
     si_evidence_source = [], si_decision = [], si_reason = [], si_metadata = []\<rparr>"

definition sample_surface_request :: surface_request where
  "sample_surface_request = \<lparr>sq_provider = None, sq_observations = [], sq_policy = py_surface policy_Default,
     sq_max_items = 1, sq_hint = []\<rparr>"

theorem surface_selection_witness:
  "\<exists>st. surface_normalize plain_lib [sample_surface ''s1'' ''Help'', sample_surface ''s2'' '' convert '', sample_surface ''s3'' ''sort'']
     (Some sample_surface_request) =
     ([\<lparr>si_id = ''s2'', si_kind = ''command'', si_name = ''convert'', si_description = [], si_usage = [],
        si_evidence_source = [], si_decision = decision_keep, si_reason = [], si_metadata = []\<rparr>], st, None) \<and>
   selection_counted 3 1 st"
proof -
  let ?in = "[sample_surface ''s1'' ''Help'', sample_surface ''s2'' '' convert '', sample_surface ''s3'' ''sort'']"
  have "surface_policy_ok plain_lib (sq_policy sample_surface_request)"
    by (simp add: sample_surface_request_def default_policy_ok)
  from surface_selection [OF this, of ?in] obtain sel st where
    "surface_normalize plain_lib ?in (Some sample_surface_request) = (sel, st, None)"
    "selection_counted (length ?in) (length sel) st" by blast
  moreover have "fst (surface_normalize plain_lib ?in (Some sample_surface_request)) =
     [\<lparr>si_id = ''s2'', si_kind = ''command'', si_name = ''convert'', si_description = [], si_usage = [],
        si_evidence_source = [], si_decision = decision_keep, si_reason = [], si_metadata = []\<rparr>]"
    by code_simp
  ultimately show ?thesis by (auto simp: numeral_3_eq_3)
qed

lemma surface_Run_answer:
  "wp (surface_Run L decode R E req) (\<lambda>r v. stage_answer (\<lambda>items. items \<noteq> []) r w v) w"
  unfolding surface_Run_def
  by (rule stage_run_answer) (auto simp: surface_Parse_def split: sum.splits prod.splits option.splits if_splits)

end
