(* ===== verification/Cal_Capability.thy ===== *)
theory Cal_Capability
  imports Cal_Policy Cal_Stage
begin

text \<open>
  \<^verbatim>\<open>internal/proposal/capability\<close>: the second stage of a proposal plans capabilities over the
  surfaces; plans for one capability are merged.
\<close>

record capability_surface =
  cu_id :: string
  cu_kind :: string
  cu_name :: string
  cu_description :: string

record capability_plan =
  cn_capability_id :: string
  cn_description :: string
  cn_sources :: "string list"
  cn_confidence :: string

record capability_request =
  cq_provider :: "provider option"
  cq_surfaces :: "capability_surface list"
  cq_catalog :: "capability list"
  cq_policy :: capability_policy
  cq_hint :: string
  cq_max_plans :: int

fun normalize_strings_loop :: "string list \<Rightarrow> string list \<Rightarrow> string list" where
  "normalize_strings_loop seen [] = []"
| "normalize_strings_loop seen (v # vs) =
     (let t = trim_space v in
      if t = [] then normalize_strings_loop seen vs
      else if t \<in> set seen then normalize_strings_loop seen vs
      else t # normalize_strings_loop (t # seen) vs)"

definition normalizeStrings :: "string list \<Rightarrow> string list" where
  "normalizeStrings values = normalize_strings_loop [] values"

definition mergeStrings :: "string list \<Rightarrow> string list \<Rightarrow> string list" where
  "mergeStrings left right = normalizeStrings (left @ right)"

definition normalizePlan :: "golib \<Rightarrow> capability_plan \<Rightarrow> capability_plan" where
  "normalizePlan L p = p\<lparr>cn_capability_id := to_lower L (trim_space (cn_capability_id p)),
     cn_description := trim_space (cn_description p), cn_confidence := to_lower L (trim_space (cn_confidence p)),
     cn_sources := normalizeStrings (cn_sources p)\<rparr>"

definition surfaceIDSet :: "capability_surface list \<Rightarrow> string list" where
  "surfaceIDSet items = filter (\<lambda>i. i \<noteq> []) (map cu_id items)"

definition existingCapabilityIDs :: "capability list \<Rightarrow> string list" where
  "existingCapabilityIDs catalog = filter (\<lambda>i. i \<noteq> []) (map cp_id catalog)"

definition validSources :: "string list \<Rightarrow> string list \<Rightarrow> bool" where
  "validSources ids available = (ids \<noteq> [] \<and> list_all (\<lambda>i. i \<in> set available) ids)"

definition capability_traceItem :: "nat \<Rightarrow> capability_plan \<Rightarrow> proposal_item" where
  "capability_traceItem index p =
     \<lparr>pi_id = (if cn_capability_id p = [] then ''c'' @ itoa (int index + 1) else cn_capability_id p),
      pi_kind = ''capability'', pi_name = cn_capability_id p, pi_decision = [], pi_reason = []\<rparr>"

text \<open>The loop keeps the plans selected so far and the position of each capability among them.\<close>

definition capability_step ::
    "golib \<Rightarrow> string list \<Rightarrow> string list \<Rightarrow> int \<Rightarrow> nat \<Rightarrow> capability_plan list \<times> (string, nat) gomap \<Rightarrow> capability_plan
      \<Rightarrow> proposal_item \<times> string option \<times> capability_plan list \<times> (string, nat) gomap" where
  "capability_step L surfaceIDs existingIDs max_plans index s x =
     (let (selected, byID) = s; p = normalizePlan L x; trace = capability_traceItem index p; cid = cn_capability_id p in
      if cid = [] \<or> \<not> ValidCapabilityID cid then (trace\<lparr>pi_decision := decision_skip\<rparr>, None, s)
      else if \<not> validSources (cn_sources p) surfaceIDs then (trace\<lparr>pi_decision := decision_skip\<rparr>, None, s)
      else (case map_of byID cid of
              Some j \<Rightarrow> (trace\<lparr>pi_decision := decision_keep\<rparr>, None,
                selected[j := (selected ! j)\<lparr>cn_sources := mergeStrings (cn_sources (selected ! j)) (cn_sources p)\<rparr>], byID)
            | None \<Rightarrow>
                if 0 < max_plans \<and> max_plans \<le> int (length selected) then (trace\<lparr>pi_decision := decision_defer\<rparr>, None, s)
                else (trace\<lparr>pi_decision := decision_keep\<rparr>,
                  Some (if cid \<in> set existingIDs then ''reused'' else ''created''),
                  selected @ [p], put cid (length selected) byID)))"

definition capability_normalize ::
    "golib \<Rightarrow> capability_plan list \<Rightarrow> capability_request option \<Rightarrow> capability_plan list \<times> proposal_stage" where
  "capability_normalize L input req0 =
     (let req = (case req0 of Some r \<Rightarrow> r | None \<Rightarrow> \<lparr>cq_provider = None, cq_surfaces = [], cq_catalog = [],
             cq_policy = py_capability policy_Default, cq_hint = [], cq_max_plans = 0\<rparr>)
      in case stage_loop (capability_step L (surfaceIDSet (cq_surfaces req)) (existingCapabilityIDs (cq_catalog req))
                (cq_max_plans req)) 0 ([], []) (newStage stage_capability (length input)) input of
           ((selected, byID), stage) \<Rightarrow> (selected, summary_set ''selected'' (length selected) stage))"

definition capability_Parse ::
    "golib \<Rightarrow> (string \<Rightarrow> capability_plan list res) \<Rightarrow> capability_request option \<Rightarrow> string
      \<Rightarrow> capability_plan list \<times> proposal_stage \<times> gerr option" where
  "capability_Parse L decode req raw =
     (case decode raw of
        Inl e \<Rightarrow> ([], zero_stage, Some (EWrap ''decode capability stage: '' e []))
      | Inr out \<Rightarrow>
          (case capability_normalize L out req of
             (plans, stage) \<Rightarrow>
               if plans = [] then ([], stage, Some (EText ''capability stage returned no capabilities''))
               else (plans, stage, None)))"

definition capability_Run ::
    "golib \<Rightarrow> (string \<Rightarrow> capability_plan list res) \<Rightarrow> ('s, capability_request) llm_client option option \<Rightarrow> env
      \<Rightarrow> capability_request \<Rightarrow> ('s world, capability_plan list stage_result outcome) state" where
  "capability_Run L decode R E req =
     stage_run [] (stage_newAttempt stage_capability) (capability_Parse L decode (Some req))
       ''capability llm client is required'' R E req"

section \<open>Lists of names\<close>

definition names_ok :: "string list \<Rightarrow> bool" where
  "names_ok xs \<longleftrightarrow> distinct xs \<and> list_all (\<lambda>x. x \<noteq> [] \<and> trim_space x = x) xs"

lemma normalize_strings_loop:
  "names_ok (normalize_strings_loop seen vs) \<and>
   set (normalize_strings_loop seen vs) = {trim_space v |v. v \<in> set vs \<and> trim_space v \<noteq> []} - set seen"
proof (induction seen vs rule: normalize_strings_loop.induct)
  case (2 seen v vs)
  show ?case
  proof (cases "trim_space v = [] \<or> trim_space v \<in> set seen")
    case True
    with 2 show ?thesis by (auto simp: Let_def)
  next
    case False
    with 2(3) [OF refl] have "names_ok (normalize_strings_loop (trim_space v # seen) vs)"
      "set (normalize_strings_loop (trim_space v # seen) vs)
        = {trim_space u |u. u \<in> set vs \<and> trim_space u \<noteq> []} - set (trim_space v # seen)" by auto
    with False show ?thesis by (auto simp: Let_def names_ok_def)
  qed
qed (simp add: names_ok_def)

lemma normalizeStrings_ok: "names_ok (normalizeStrings vs)"
  "set (normalizeStrings vs) = {trim_space v |v. v \<in> set vs \<and> trim_space v \<noteq> []}"
  using normalize_strings_loop [of "[]" vs] by (simp_all add: normalizeStrings_def)

lemma mergeStrings_ok:
  assumes "names_ok xs" and "names_ok ys"
  shows "names_ok (mergeStrings xs ys)" "set (mergeStrings xs ys) = set xs \<union> set ys"
proof -
  have "trim_space v = v \<and> v \<noteq> []" if "v \<in> set (xs @ ys)" for v
    using assms that by (auto simp: names_ok_def list_all_iff)
  then have "{trim_space v |v. v \<in> set (xs @ ys) \<and> trim_space v \<noteq> []} = set (xs @ ys)" by force
  then show "set (mergeStrings xs ys) = set xs \<union> set ys" by (simp add: mergeStrings_def normalizeStrings_ok)
qed (simp add: mergeStrings_def normalizeStrings_ok)

section \<open>What is planned\<close>

definition plan_ok :: "capability_surface list \<Rightarrow> capability_plan \<Rightarrow> bool" where
  "plan_ok surfaces p \<longleftrightarrow>
     ValidCapabilityID (cn_capability_id p) \<and> cn_sources p \<noteq> [] \<and> names_ok (cn_sources p) \<and>
     set (cn_sources p) \<subseteq> cu_id ` set surfaces"

definition plan_from :: "golib \<Rightarrow> capability_surface list \<Rightarrow> capability_plan list \<Rightarrow> capability_plan \<Rightarrow> bool" where
  "plan_from L surfaces input p \<longleftrightarrow>
     set (cn_sources p) = (\<Union>x\<in>{x \<in> set input. plan_ok surfaces (normalizePlan L x) \<and>
        cn_capability_id (normalizePlan L x) = cn_capability_id p}. set (cn_sources (normalizePlan L x)))"

definition plans_selected ::
    "golib \<Rightarrow> capability_surface list \<Rightarrow> int \<Rightarrow> capability_plan list \<Rightarrow> capability_plan list \<Rightarrow> bool" where
  "plans_selected L surfaces m input selected \<longleftrightarrow>
     list_all (plan_ok surfaces) selected \<and> list_all (plan_from L surfaces input) selected \<and>
     distinct (map cn_capability_id selected) \<and> max_ok m (length selected) \<and>
     (\<forall>x\<in>set input. plan_ok surfaces (normalizePlan L x) \<longrightarrow>
        cn_capability_id (normalizePlan L x) \<in> cn_capability_id ` set selected \<or> (0 < m \<and> m \<le> int (length selected)))"

definition positions_ok :: "(string, nat) gomap \<Rightarrow> capability_plan list \<Rightarrow> bool" where
  "positions_ok m xs \<longleftrightarrow>
     (\<forall>c j. map_of m c = Some j \<longleftrightarrow> j < length xs \<and> cn_capability_id (xs ! j) = c)"

definition capability_inv ::
    "golib \<Rightarrow> capability_surface list \<Rightarrow> int \<Rightarrow> capability_plan list \<Rightarrow> capability_plan list \<times> (string, nat) gomap
      \<Rightarrow> proposal_stage \<Rightarrow> bool" where
  "capability_inv L surfaces m d s st \<longleftrightarrow>
     plans_selected L surfaces m d (fst s) \<and> positions_ok (snd s) (fst s) \<and>
     summary_of st ''reused'' + summary_of st ''created'' = length (fst s)"

lemma surfaceIDSet_set: "set (surfaceIDSet surfaces) = cu_id ` set surfaces - {[]}"
  by (auto simp: surfaceIDSet_def)

lemma plan_ok_normalizePlan:
  "plan_ok surfaces (normalizePlan L x) \<longleftrightarrow>
     ValidCapabilityID (cn_capability_id (normalizePlan L x)) \<and>
     validSources (cn_sources (normalizePlan L x)) (surfaceIDSet surfaces)"
proof -
  have "names_ok (cn_sources (normalizePlan L x))" by (simp add: normalizePlan_def normalizeStrings_ok)
  then show ?thesis
    by (auto simp: plan_ok_def validSources_def surfaceIDSet_set list_all_iff names_ok_def)
qed

lemma positions_None: "positions_ok m xs \<Longrightarrow> map_of m c = None \<longleftrightarrow> c \<notin> cn_capability_id ` set xs"
proof -
  assume pos: "positions_ok m xs"
  have "map_of m c \<noteq> None \<longleftrightarrow> (\<exists>j<length xs. cn_capability_id (xs ! j) = c)"
    using pos unfolding positions_ok_def by blast
  also have "\<dots> \<longleftrightarrow> c \<in> cn_capability_id ` set xs" by (force simp: in_set_conv_nth)
  finally show ?thesis by blast
qed

lemma plan_from_other:
  assumes "plan_from L surfaces d p"
    and "\<not> (plan_ok surfaces (normalizePlan L x) \<and> cn_capability_id (normalizePlan L x) = cn_capability_id p)"
  shows "plan_from L surfaces (d @ [x]) p"
proof -
  have "{y \<in> set (d @ [x]). plan_ok surfaces (normalizePlan L y) \<and> cn_capability_id (normalizePlan L y) = cn_capability_id p}
     = {y \<in> set d. plan_ok surfaces (normalizePlan L y) \<and> cn_capability_id (normalizePlan L y) = cn_capability_id p}"
    using assms(2) by auto
  with assms(1) show ?thesis by (simp only: plan_from_def)
qed

lemma plan_from_add:
  assumes "plan_ok surfaces (normalizePlan L x)" and "cn_capability_id (normalizePlan L x) = cn_capability_id p"
    and "set (cn_sources q) = A \<union> set (cn_sources (normalizePlan L x))" and "cn_capability_id q = cn_capability_id p"
    and "A = (\<Union>y\<in>{y \<in> set d. plan_ok surfaces (normalizePlan L y) \<and>
        cn_capability_id (normalizePlan L y) = cn_capability_id p}. set (cn_sources (normalizePlan L y)))"
  shows "plan_from L surfaces (d @ [x]) q"
proof -
  have "{y \<in> set (d @ [x]). plan_ok surfaces (normalizePlan L y) \<and> cn_capability_id (normalizePlan L y) = cn_capability_id q}
     = insert x {y \<in> set d. plan_ok surfaces (normalizePlan L y) \<and> cn_capability_id (normalizePlan L y) = cn_capability_id p}"
    using assms(1,2,4) by auto
  with assms(3,5) show ?thesis by (simp only: plan_from_def) blast
qed

text \<open>The three ways a step changes the plans: not at all, a merge, a new plan.\<close>

lemma plans_selected_same:
  assumes "plans_selected L surfaces m d selected"
    and "plan_ok surfaces (normalizePlan L x) \<longrightarrow>
      cn_capability_id (normalizePlan L x) \<notin> cn_capability_id ` set selected \<and> 0 < m \<and> m \<le> int (length selected)"
  shows "plans_selected L surfaces m (d @ [x]) selected"
  using assms by (auto simp: plans_selected_def list_all_iff intro!: plan_from_other)

lemma plans_selected_new:
  assumes sel: "plans_selected L surfaces m d selected" and ok: "plan_ok surfaces (normalizePlan L x)"
    and new: "cn_capability_id (normalizePlan L x) \<notin> cn_capability_id ` set selected"
    and room: "\<not> (0 < m \<and> m \<le> int (length selected))"
  shows "plans_selected L surfaces m (d @ [x]) (selected @ [normalizePlan L x])"
proof -
  have none: "{y \<in> set d. plan_ok surfaces (normalizePlan L y) \<and>
      cn_capability_id (normalizePlan L y) = cn_capability_id (normalizePlan L x)} = {}"
    using sel new room by (simp add: plans_selected_def) metis
  have "plan_from L surfaces (d @ [x]) (normalizePlan L x)"
    by (rule plan_from_add [OF ok refl _ refl refl]) (simp only: none, simp)
  moreover have "plan_from L surfaces (d @ [x]) p" if "p \<in> set selected" for p
    using that sel new by (intro plan_from_other) (auto simp: plans_selected_def list_all_iff)
  ultimately show ?thesis
    using sel ok new room by (auto simp: plans_selected_def list_all_iff max_ok_def)
qed

lemma plans_selected_merge:
  assumes sel: "plans_selected L surfaces m d selected" and ok: "plan_ok surfaces (normalizePlan L x)"
    and j: "j < length selected" "cn_capability_id (selected ! j) = cn_capability_id (normalizePlan L x)"
  defines "q \<equiv> (selected ! j)\<lparr>cn_sources := mergeStrings (cn_sources (selected ! j)) (cn_sources (normalizePlan L x))\<rparr>"
  shows "plans_selected L surfaces m (d @ [x]) (selected[j := q])"
    and "map cn_capability_id (selected[j := q]) = map cn_capability_id selected"
proof -
  have pj: "plan_ok surfaces (selected ! j)" "plan_from L surfaces d (selected ! j)"
    using sel j(1) by (auto simp: plans_selected_def list_all_length)
  have src: "set (cn_sources q) = set (cn_sources (selected ! j)) \<union> set (cn_sources (normalizePlan L x))"
    "names_ok (cn_sources q)"
    using mergeStrings_ok [of "cn_sources (selected ! j)" "cn_sources (normalizePlan L x)"] pj(1) ok
    by (auto simp: q_def plan_ok_def)
  have qid: "cn_capability_id q = cn_capability_id (selected ! j)" by (simp add: q_def)
  show ids: "map cn_capability_id (selected[j := q]) = map cn_capability_id selected"
    by (simp add: map_update qid list_update_same_conv j(1))
  have okq: "plan_ok surfaces q" using src pj(1) ok qid by (auto simp: plan_ok_def)
  have fromq: "plan_from L surfaces (d @ [x]) q"
    by (rule plan_from_add [OF ok j(2) [symmetric] src(1) qid]) (use pj(2) in \<open>simp add: plan_from_def\<close>)
  have other: "plan_from L surfaces (d @ [x]) (selected ! k)" if k: "k < length selected" "k \<noteq> j" for k
  proof (rule plan_from_other)
    show "plan_from L surfaces d (selected ! k)" using sel k by (auto simp: plans_selected_def list_all_length)
    have "cn_capability_id (selected ! k) \<noteq> cn_capability_id (selected ! j)"
      using sel k j(1) nth_eq_iff_index_eq [of "map cn_capability_id selected" k j] by (auto simp: plans_selected_def)
    with j(2) show "\<not> (plan_ok surfaces (normalizePlan L x) \<and> cn_capability_id (normalizePlan L x) = cn_capability_id (selected ! k))"
      by simp
  qed
  have "list_all (plan_ok surfaces) selected" using sel by (simp add: plans_selected_def)
  then have "list_all (plan_ok surfaces) (selected[j := q])" "list_all (plan_from L surfaces (d @ [x])) (selected[j := q])"
    using okq fromq other j(1) by (auto simp: list_all_length nth_list_update)
  moreover have img: "cn_capability_id ` set (selected[j := q]) = cn_capability_id ` set selected"
    using ids by (metis set_map)
  moreover have "cn_capability_id (normalizePlan L x) \<in> cn_capability_id ` set selected"
    using imageI [OF nth_mem [OF j(1)], of cn_capability_id] j(2) by simp
  ultimately show "plans_selected L surfaces m (d @ [x]) (selected[j := q])"
    using sel unfolding plans_selected_def ids img by simp
qed

lemma positions_new:
  assumes "positions_ok m xs" and "cn_capability_id p \<notin> cn_capability_id ` set xs"
  shows "positions_ok (put (cn_capability_id p) (length xs) m) (xs @ [p])"
proof -
  have "cn_capability_id (xs ! j) \<noteq> cn_capability_id p" if "j < length xs" for j
    using assms(2) nth_mem [OF that] by (metis imageI)
  with assms(1) show ?thesis unfolding positions_ok_def by (auto simp: nth_append less_Suc_eq)
qed

lemma positions_ids:
  assumes "positions_ok m xs" and "map cn_capability_id ys = map cn_capability_id xs"
  shows "positions_ok m ys"
proof -
  have "length ys = length xs" by (rule map_eq_imp_length_eq [OF assms(2)])
  moreover have "cn_capability_id (ys ! j) = cn_capability_id (xs ! j)" if "j < length xs" for j
    using that calculation assms(2) by (metis nth_map)
  ultimately show ?thesis using assms(1) unfolding positions_ok_def by auto
qed

lemma capability_step_inv:
  assumes inv: "capability_inv L surfaces m d s st"
    and step: "capability_step L (surfaceIDSet surfaces) existing m i s x = (item, extra, s')"
  shows "capability_inv L surfaces m (d @ [x]) s' (record_item item (case extra of None \<Rightarrow> st | Some k \<Rightarrow> summary_inc k st))"
proof -
  obtain selected byID where s: "s = (selected, byID)" by (cases s)
  let ?p = "normalizePlan L x"
  have sel: "plans_selected L surfaces m d selected" "positions_ok byID selected"
    "summary_of st ''reused'' + summary_of st ''created'' = length selected"
    using inv s by (auto simp: capability_inv_def)
  have keys: "summaryKey e \<noteq> ''reused''" "summaryKey e \<noteq> ''created''" for e by (simp_all add: summaryKey_def)
  show ?thesis
  proof (cases "plan_ok surfaces ?p")
    case False
    then have "\<not> (ValidCapabilityID (cn_capability_id ?p) \<and> validSources (cn_sources ?p) (surfaceIDSet surfaces))"
      by (simp add: plan_ok_normalizePlan)
    then have "extra = None" "s' = s" using step s by (auto simp: capability_step_def Let_def split: if_splits)
    with False sel s keys show ?thesis by (simp add: capability_inv_def plans_selected_same keys [symmetric])
  next
    case True
    then have v: "ValidCapabilityID (cn_capability_id ?p)" "validSources (cn_sources ?p) (surfaceIDSet surfaces)"
      "cn_capability_id ?p \<noteq> []"
      by (auto simp: plan_ok_normalizePlan)
    show ?thesis
    proof (cases "map_of byID (cn_capability_id ?p)")
      case (Some j)
      then have j: "j < length selected" "cn_capability_id (selected ! j) = cn_capability_id ?p"
        using sel(2) by (auto simp: positions_ok_def)
      let ?q = "(selected ! j)\<lparr>cn_sources := mergeStrings (cn_sources (selected ! j)) (cn_sources ?p)\<rparr>"
      have "extra = None" "s' = (selected[j := ?q], byID)"
        using step s v Some by (auto simp: capability_step_def Let_def)
      with sel plans_selected_merge [OF sel(1) True j] positions_ids [OF sel(2)] keys show ?thesis
        by (simp add: capability_inv_def keys [symmetric])
    next
      case None
      then have new: "cn_capability_id ?p \<notin> cn_capability_id ` set selected" using positions_None [OF sel(2)] by blast
      show ?thesis
      proof (cases "0 < m \<and> m \<le> int (length selected)")
        case True
        then have "extra = None" "s' = s" using step s v None by (auto simp: capability_step_def Let_def)
        with True new sel s keys show ?thesis by (simp add: capability_inv_def plans_selected_same keys [symmetric])
      next
        case False
        have pair: "extra = Some (if cn_capability_id ?p \<in> set existing then ''reused'' else ''created'') \<and>
          s' = (selected @ [?p], put (cn_capability_id ?p) (length selected) byID)"
          using False step s v None by (auto simp: capability_step_def Let_def)
        then have "extra \<in> {Some ''reused'', Some ''created''}"
          "s' = (selected @ [?p], put (cn_capability_id ?p) (length selected) byID)"
          by (cases "cn_capability_id ?p \<in> set existing"; simp)+
        with plans_selected_new [OF sel(1) True new False] positions_new [OF sel(2) new] sel(3) keys show ?thesis
          by (auto simp: capability_inv_def keys [symmetric])
      qed
    qed
  qed
qed

text \<open>
  The capability stage selects plans with a valid capability id, one per capability and within
  \<open>MaxPlans\<close>, whose sources are surfaces of the request, at least one, none twice; the sources of a
  plan are exactly the sources of the valid plans of the answer for that capability, merged; a valid
  plan is left out only at the limit. Its diagnostics count every plan of the answer once and every
  selected plan as reused or created.
\<close>

theorem capability_plans:
  "\<exists>selected st. capability_normalize L input (Some req) = (selected, st) \<and>
     plans_selected L (cq_surfaces req) (cq_max_plans req) input selected \<and>
     selection_counted (length input) (length selected) st \<and>
     summary_of st ''reused'' + summary_of st ''created'' = length selected"
proof -
  let ?f = "capability_step L (surfaceIDSet (cq_surfaces req)) (existingCapabilityIDs (cq_catalog req)) (cq_max_plans req)"
  obtain selected byID st where run:
    "stage_loop ?f 0 ([], []) (newStage stage_capability (length input)) input = ((selected, byID), st)"
    by (metis prod.exhaust)
  have "capability_inv L (cq_surfaces req) (cq_max_plans req) ([] @ input) (selected, byID) st"
  proof (rule stage_loop_rule [where P = "capability_inv L (cq_surfaces req) (cq_max_plans req)", OF _ _ run])
    show "capability_inv L (cq_surfaces req) (cq_max_plans req) [] ([], []) (newStage stage_capability (length input))"
      by (simp add: capability_inv_def plans_selected_def newStage_def max_ok_def positions_ok_def summary_of_def)
  qed (rule capability_step_inv)
  moreover have "stage_adds_up (length input) st \<and> ps_name st = stage_capability"
    by (rule stage_loop_counts [OF run])
      (auto simp: capability_step_def Let_def side_counter_def split: prod.splits if_splits option.splits)
  moreover have "capability_normalize L input (Some req) = (selected, summary_set ''selected'' (length selected) st)"
    by (simp add: capability_normalize_def Let_def run)
  ultimately show ?thesis by (simp add: capability_inv_def selection_counted_set)
qed

lemma capability_Run_answer:
  "wp (capability_Run L decode R E req) (\<lambda>r v. stage_answer (\<lambda>plans. plans \<noteq> []) r w v) w"
  unfolding capability_Run_def
  by (rule stage_run_answer) (auto simp: capability_Parse_def split: sum.splits prod.splits if_splits)

end
