(* ===== verification/Cal_Binding.thy ===== *)
theory Cal_Binding
  imports Cal_Stage
begin

text \<open>
  \<^verbatim>\<open>internal/proposal/binding\<close>: the third stage of a proposal turns one planned capability into
  candidates, each with the material to probe it with.
\<close>

record binding_surface =
  bu_id :: string
  bu_kind :: string
  bu_name :: string
  bu_description :: string
  bu_usage :: string

record binding_plan =
  gp_capability_id :: string
  gp_description :: string
  gp_sources :: "string list"
  gp_confidence :: string

record material_fixture =
  mf_input :: string
  mf_filename :: string
  mf_content :: string

record probe_material =
  ml_index :: int
  ml_inputs :: ginputs
  ml_fixtures :: "material_fixture list"

record binding_request =
  gq_provider :: "provider option"
  gq_observations :: "observation list"
  gq_surfaces :: "binding_surface list"
  gq_capability :: binding_plan
  gq_hint :: string
  gq_max_candidates :: int

abbreviation "skip_missing_material \<equiv> ''missing probe material''"
abbreviation "skip_missing_stdout \<equiv> ''missing stdout path input''"
abbreviation "skip_invalid_stdout \<equiv> ''invalid stdout path input''"

definition normalizeExecutionSpec :: "ginputs \<Rightarrow> ginputs" where
  "normalizeExecutionSpec spec =
     (case map_of spec spec_stdout_path_input of
        None \<Rightarrow> spec
      | Some v \<Rightarrow>
          if v = GNil then AList.delete spec_stdout_path_input spec
          else (case is_str v of
                  Some s \<Rightarrow> if blank s then AList.delete spec_stdout_path_input spec else spec
                | None \<Rightarrow> spec))"

definition normalizeProviderID :: "golib \<Rightarrow> string \<Rightarrow> string" where
  "normalizeProviderID L providerID =
     (let p = trim_space providerID in
      if to_lower L p = ''optional'' \<or> to_lower L p = ''same as request provider'' then [] else p)"

definition binding_normalizeCandidate :: "golib \<Rightarrow> binding_request \<Rightarrow> candidate \<Rightarrow> candidate" where
  "binding_normalizeCandidate L req c =
     (let p = normalizeProviderID L (cd_provider_id c); cid = trim_space (cd_capability_id c);
          d = trim_space (cd_description c) in
      c\<lparr>cd_provider_id := (if p = [] then (case gq_provider req of None \<Rightarrow> [] | Some q \<Rightarrow> pv_id q) else p),
        cd_capability_id := (if cid = [] then gp_capability_id (gq_capability req) else cid),
        cd_description := (if d = [] then gp_description (gq_capability req) else d),
        cd_source := trim_space (cd_source c),
        cd_execution := \<lparr>ex_kind = trim_space (ex_kind (cd_execution c)),
          ex_spec = normalizeExecutionSpec (ex_spec (cd_execution c))\<rparr>\<rparr>)"

fun materialIndex :: "(int, probe_material) gomap \<Rightarrow> probe_material list \<Rightarrow> (int, probe_material) gomap" where
  "materialIndex m [] = m"
| "materialIndex m (x # xs) =
     (if ml_index x < 0 then materialIndex m xs
      else if map_of m (ml_index x) \<noteq> None then materialIndex m xs
      else materialIndex (put (ml_index x) x m) xs)"

definition normalizeMaterial :: "probe_material \<Rightarrow> probe_material" where
  "normalizeMaterial x = x\<lparr>ml_fixtures := map (\<lambda>f. f\<lparr>mf_input := trim_space (mf_input f),
     mf_filename := trim_space (mf_filename f)\<rparr>) (ml_fixtures x)\<rparr>"

definition stdoutPathInput :: "candidate \<Rightarrow> string option" where
  "stdoutPathInput c =
     (case str_at (ex_spec (cd_execution c)) spec_stdout_path_input of
        None \<Rightarrow> None
      | Some s \<Rightarrow> if blank s then None else Some (trim_space s))"

definition missingStdoutPathInput :: "candidate \<Rightarrow> probe_material \<Rightarrow> bool" where
  "missingStdoutPathInput c x =
     (case stdoutPathInput c of None \<Rightarrow> False | Some n \<Rightarrow> map_of (ml_inputs x) n = None)"

definition invalidStdoutPathInput :: "golib \<Rightarrow> candidate \<Rightarrow> bool" where
  "invalidStdoutPathInput L c =
     (case stdoutPathInput c of None \<Rightarrow> False
      | Some n \<Rightarrow> to_lower L n \<in> {''source'', ''input'', ''stdin''})"

definition stageHasSkipReason :: "proposal_stage \<Rightarrow> string \<Rightarrow> bool" where
  "stageHasSkipReason st reason =
     list_ex (\<lambda>i. pi_decision i = decision_skip \<and> pi_reason i = reason) (ps_items st)"

definition binding_traceItem :: "nat \<Rightarrow> candidate \<Rightarrow> proposal_item" where
  "binding_traceItem index c =
     \<lparr>pi_id = (if cd_capability_id c = [] then ''b'' @ itoa (int index + 1) else cd_capability_id c),
      pi_kind = ex_kind (cd_execution c), pi_name = cd_description c, pi_decision = [], pi_reason = []\<rparr>"

definition binding_identity :: "candidate \<Rightarrow> string \<Rightarrow> string" where
  "binding_identity c key = cd_provider_id c @ ''|'' @ cd_capability_id c @ ''|'' @ key"

text \<open>The reason the loop body skips a candidate for, if any; duplicates and the limit come after.\<close>

definition binding_skip_reason ::
    "golib \<Rightarrow> (int, probe_material) gomap \<Rightarrow> nat \<Rightarrow> candidate \<Rightarrow> string option" where
  "binding_skip_reason L byIndex index c =
     (if cd_provider_id c = [] then Some ''missing provider id''
      else if cd_capability_id c = [] then Some ''missing capability id''
      else if ex_kind (cd_execution c) = [] then Some ''missing execution kind''
      else (case CanonicalExecution L (cd_execution c) of
              Inl e \<Rightarrow> Some (err_text e)
            | Inr key \<Rightarrow>
                (case map_of byIndex (int index) of
                   None \<Rightarrow> Some skip_missing_material
                 | Some x \<Rightarrow>
                     if missingStdoutPathInput c x then Some skip_missing_stdout
                     else if invalidStdoutPathInput L c then Some skip_invalid_stdout
                     else None)))"

text \<open>The loop keeps the candidates, the materials beside them and the identities seen.\<close>

type_synonym binding_state = "(candidate list \<times> probe_material list) \<times> string list"

definition binding_step ::
    "golib \<Rightarrow> binding_request \<Rightarrow> (int, probe_material) gomap \<Rightarrow> nat \<Rightarrow> binding_state \<Rightarrow> candidate
      \<Rightarrow> proposal_item \<times> string option \<times> binding_state" where
  "binding_step L req byIndex index s x =
     (let ((candidates, materials), seen) = s; c = binding_normalizeCandidate L req x; trace = binding_traceItem index c in
      case binding_skip_reason L byIndex index c of
        Some reason \<Rightarrow> (trace\<lparr>pi_decision := decision_skip, pi_reason := reason\<rparr>, None, s)
      | None \<Rightarrow>
          (let identity = binding_identity c (projr (CanonicalExecution L (cd_execution c)));
               material = the (map_of byIndex (int index)) in
           if identity \<in> set seen
           then (trace\<lparr>pi_decision := decision_skip, pi_reason := ''duplicate candidate''\<rparr>, None, s)
           else if 0 < gq_max_candidates req \<and> gq_max_candidates req \<le> int (length candidates)
           then (trace\<lparr>pi_decision := decision_defer\<rparr>, None, s)
           else (trace\<lparr>pi_decision := decision_keep\<rparr>, None,
             ((candidates @ [c], materials @ [normalizeMaterial (material\<lparr>ml_index := int (length candidates)\<rparr>)]),
              identity # seen))))"

definition binding_normalize ::
    "golib \<Rightarrow> candidate list \<Rightarrow> probe_material list \<Rightarrow> binding_request option
      \<Rightarrow> (candidate list \<times> probe_material list) \<times> proposal_stage" where
  "binding_normalize L input materialInput req0 =
     (let req = (case req0 of Some r \<Rightarrow> r | None \<Rightarrow> \<lparr>gq_provider = None, gq_observations = [], gq_surfaces = [],
             gq_capability = \<lparr>gp_capability_id = [], gp_description = [], gp_sources = [], gp_confidence = []\<rparr>,
             gq_hint = [], gq_max_candidates = 0\<rparr>)
      in case stage_loop (binding_step L req (materialIndex [] materialInput)) 0 (([], []), [])
                (newStage stage_binding (length input)) input of
           ((found, seen), stage) \<Rightarrow> (found, summary_set ''selected'' (length (fst found)) stage))"

text \<open>\<^verbatim>\<open>Parse\<close>; the decoder returns the two lists of the answer.\<close>

definition binding_Parse ::
    "golib \<Rightarrow> (string \<Rightarrow> (candidate list \<times> probe_material list) res) \<Rightarrow> binding_request option \<Rightarrow> string
      \<Rightarrow> (candidate list \<times> probe_material list) \<times> proposal_stage \<times> gerr option" where
  "binding_Parse L decode req raw =
     (case decode raw of
        Inl e \<Rightarrow> (([], []), zero_stage, Some (EWrap ''decode binding stage: '' e []))
      | Inr (cs, xs) \<Rightarrow>
          (case binding_normalize L cs xs req of
             ((candidates, materials), stage) \<Rightarrow>
               let fail = (\<lambda>m. (([], []), stage, Some (EText m))) in
               if candidates = []
               then (if cs \<noteq> [] \<and> stageHasSkipReason stage skip_missing_material
                     then fail ''binding stage returned candidates without matching probe material''
                     else if cs \<noteq> [] \<and> stageHasSkipReason stage skip_missing_stdout
                     then fail ''binding stage returned candidates with stdout_path_input missing probe input''
                     else if cs \<noteq> [] \<and> stageHasSkipReason stage skip_invalid_stdout
                     then fail ''binding stage returned candidates with stdout_path_input pointing to an input source''
                     else fail ''binding stage returned no candidates'')
               else if length materials \<noteq> length candidates
               then fail (''binding stage returned '' @ itoa (int (length candidates)) @ '' candidates and '' @
                      itoa (int (length materials)) @ '' probe material records'')
               else ((candidates, materials), stage, None)))"

definition binding_newAttempt :: "binding_request \<Rightarrow> int \<Rightarrow> string \<Rightarrow> gerr option \<Rightarrow> int \<Rightarrow> proposal_attempt" where
  "binding_newAttempt req started raw err t =
     (stage_newAttempt stage_binding started raw err t)\<lparr>pa_capability_id := gp_capability_id (gq_capability req)\<rparr>"

definition binding_Run ::
    "golib \<Rightarrow> (string \<Rightarrow> (candidate list \<times> probe_material list) res) \<Rightarrow> ('s, binding_request) llm_client option option
      \<Rightarrow> env \<Rightarrow> binding_request \<Rightarrow> ('s world, (candidate list \<times> probe_material list) stage_result outcome) state" where
  "binding_Run L decode R E req =
     stage_run ([], []) (binding_newAttempt req) (binding_Parse L decode (Some req))
       ''binding llm client is required'' R E req"

section \<open>What is kept\<close>

definition probeable :: "golib \<Rightarrow> candidate \<times> probe_material \<Rightarrow> bool" where
  "probeable L cx \<longleftrightarrow>
     (let (c, x) = cx in
      cd_provider_id c \<noteq> [] \<and> cd_capability_id c \<noteq> [] \<and> ex_kind (cd_execution c) \<noteq> [] \<and>
      (\<exists>key. CanonicalExecution L (cd_execution c) = Inr key) \<and>
      (case stdoutPathInput c of None \<Rightarrow> True
       | Some n \<Rightarrow> map_of (ml_inputs x) n \<noteq> None \<and> to_lower L n \<notin> {''source'', ''input'', ''stdin''}))"

definition identity_of :: "golib \<Rightarrow> candidate \<Rightarrow> string" where
  "identity_of L c = binding_identity c (projr (CanonicalExecution L (cd_execution c)))"

text \<open>
  Every candidate has the material at its position, which carries that position as its index and
  the inputs of the material the answer gave for it.
\<close>

definition bindings_kept ::
    "golib \<Rightarrow> binding_request \<Rightarrow> candidate list \<Rightarrow> probe_material list \<Rightarrow> candidate list \<times> probe_material list \<Rightarrow> bool" where
  "bindings_kept L req input materialInput found \<longleftrightarrow>
     (let (cs, xs) = found in
      length xs = length cs \<and> map ml_index xs = map int [0..<length cs] \<and> list_all (probeable L) (zip cs xs) \<and>
      distinct (map (identity_of L) cs) \<and> max_ok (gq_max_candidates req) (length cs) \<and>
      subseq cs (map (binding_normalizeCandidate L req) input) \<and>
      (\<forall>x\<in>set xs. \<exists>y\<in>set materialInput. ml_inputs x = ml_inputs y))"

lemma materialIndex_from:
  "map_of (materialIndex m xs) i = Some x \<Longrightarrow> map_of m i = Some x \<or> x \<in> set xs \<and> ml_index x = i"
  by (induction m xs rule: materialIndex.induct) (fastforce split: if_splits)+

lemma skip_reason_None:
  "binding_skip_reason L byIndex index c = None \<longleftrightarrow>
     (\<exists>x. map_of byIndex (int index) = Some x \<and> probeable L (c, x))"
  by (auto simp: binding_skip_reason_def probeable_def missingStdoutPathInput_def invalidStdoutPathInput_def
      split: sum.split option.splits)

lemma normalizeMaterial_simps [simp]: "ml_inputs (normalizeMaterial x) = ml_inputs x" "ml_index (normalizeMaterial x) = ml_index x"
  by (simp_all add: normalizeMaterial_def)

definition binding_inv ::
    "golib \<Rightarrow> binding_request \<Rightarrow> probe_material list \<Rightarrow> candidate list \<Rightarrow> binding_state \<Rightarrow> proposal_stage \<Rightarrow> bool" where
  "binding_inv L req materialInput d s st \<longleftrightarrow>
     bindings_kept L req d materialInput (fst s) \<and> set (snd s) = identity_of L ` set (fst (fst s))"

lemma binding_step_inv:
  assumes inv: "binding_inv L req materialInput d s st"
    and step: "binding_step L req (materialIndex [] materialInput) i s x = (item, extra, s')"
  shows "binding_inv L req materialInput (d @ [x]) s' st'"
proof -
  obtain cs xs seen where s: "s = ((cs, xs), seen)" by (cases s) auto
  let ?c = "binding_normalizeCandidate L req x"
  have kept: "length xs = length cs" "map ml_index xs = map int [0..<length cs]" "list_all (probeable L) (zip cs xs)"
      "distinct (map (identity_of L) cs)" "max_ok (gq_max_candidates req) (length cs)"
      "subseq cs (map (binding_normalizeCandidate L req) d)"
      "\<forall>x\<in>set xs. \<exists>y\<in>set materialInput. ml_inputs x = ml_inputs y"
      "set seen = identity_of L ` set cs"
    using inv s by (auto simp: binding_inv_def bindings_kept_def)
  have same: ?thesis if "s' = s"
    using that s kept list_emb_append_mono [OF kept(6), of "[]" "[?c]"] by (simp add: binding_inv_def bindings_kept_def)
  show ?thesis
  proof (cases "binding_skip_reason L (materialIndex [] materialInput) i ?c")
    case (Some r)
    with step s have "s' = s" by (auto simp: binding_step_def Let_def)
    then show ?thesis by (rule same)
  next
    case None
    then obtain y where y: "map_of (materialIndex [] materialInput) (int i) = Some y" "probeable L (?c, y)"
      by (auto simp: skip_reason_None)
    then have mem: "y \<in> set materialInput" using materialIndex_from [OF y(1)] by simp
    let ?y = "normalizeMaterial (y\<lparr>ml_index := int (length cs)\<rparr>)"
    show ?thesis
    proof (cases "identity_of L ?c \<in> set seen \<or> 0 < gq_max_candidates req \<and> gq_max_candidates req \<le> int (length cs)")
      case True
      with step s None have "s' = s" by (auto simp: binding_step_def Let_def identity_of_def split: if_splits)
      then show ?thesis by (rule same)
    next
      case False
      with step s None y(1) have s': "s' = ((cs @ [?c], xs @ [?y]), identity_of L ?c # seen)"
        by (auto simp: binding_step_def Let_def identity_of_def split: if_splits)
      have "probeable L (?c, ?y)" using y(2) by (auto simp: probeable_def split: option.splits)
      moreover have "subseq (cs @ [?c]) (map (binding_normalizeCandidate L req) d @ [?c])" using kept(6) by simp
      ultimately show ?thesis
        using kept False s' mem by (auto simp: binding_inv_def bindings_kept_def max_ok_def)
    qed
  qed
qed

lemma binding_normalize_kept:
  "\<exists>found st. binding_normalize L input materialInput (Some req) = (found, st) \<and>
     bindings_kept L req input materialInput found \<and> selection_counted (length input) (length (fst found)) st"
proof -
  let ?f = "binding_step L req (materialIndex [] materialInput)"
  obtain found seen st where run:
    "stage_loop ?f 0 (([], []), []) (newStage stage_binding (length input)) input = ((found, seen), st)"
    by (metis prod.exhaust)
  have "binding_inv L req materialInput ([] @ input) (found, seen) st"
  proof (rule stage_loop_rule [where P = "binding_inv L req materialInput", OF _ _ run])
    show "binding_inv L req materialInput [] (([], []), []) (newStage stage_binding (length input))"
      by (simp add: binding_inv_def bindings_kept_def max_ok_def)
  qed (rule binding_step_inv)
  moreover have "stage_adds_up (length input) st \<and> ps_name st = stage_binding"
    by (rule stage_loop_counts [OF run])
      (auto simp: binding_step_def Let_def split: prod.splits if_splits option.splits)
  moreover have "binding_normalize L input materialInput (Some req) = (found, summary_set ''selected'' (length (fst found)) st)"
    by (simp add: binding_normalize_def Let_def run)
  ultimately show ?thesis by (simp add: binding_inv_def selection_counted_set)
qed

text \<open>
  Whatever the answer of the model is, the binding stage keeps candidates with a provider, a
  capability and an execution that can be printed canonically, no two of the same identity, within
  the limit, in the order of the answer; beside each is its own probe material, numbered by its
  position, whose inputs provide the input that receives standard output, and that input is not an
  input source. Its diagnostics count every candidate of the answer once.
\<close>

theorem bindings_probeable:
  "\<exists>found st. binding_normalize L input materialInput (Some req) = (found, st) \<and>
     bindings_kept L req input materialInput found \<and> selection_counted (length input) (length (fst found)) st"
  by (rule binding_normalize_kept)

text \<open>
  What a result without an error gives the proposal: as many materials as candidates, and executions
  that can be printed canonically.
\<close>

definition binding_answer_ok :: "golib \<Rightarrow> candidate list \<times> probe_material list \<Rightarrow> bool" where
  "binding_answer_ok L found \<longleftrightarrow> fst found \<noteq> [] \<and> length (snd found) = length (fst found) \<and>
     list_all (\<lambda>c. \<not> isl (CanonicalExecution L (cd_execution c))) (fst found)"

lemma bindings_kept_answer:
  assumes "bindings_kept L req input materialInput found" and "fst found \<noteq> []"
  shows "binding_answer_ok L found"
proof -
  obtain cs xs where f: "found = (cs, xs)" by (cases found)
  with assms(1) have len: "length xs = length cs" and ok: "list_all (probeable L) (zip cs xs)"
    by (auto simp: bindings_kept_def)
  have "\<not> isl (CanonicalExecution L (cd_execution (cs ! i)))" if "i < length cs" for i
  proof -
    have "probeable L (cs ! i, xs ! i)" using ok that len by (auto simp: list_all_length)
    then show ?thesis by (auto simp: probeable_def)
  qed
  with assms(2) f len show ?thesis by (auto simp: binding_answer_ok_def list_all_length)
qed

lemma binding_Parse_answer:
  assumes "binding_Parse L decode (Some req) raw = (found, stage, None)"
  shows "binding_answer_ok L found"
proof -
  obtain cs xs where out: "decode raw = Inr (cs, xs)"
    using assms by (auto simp: binding_Parse_def split: sum.splits)
  obtain found' st where n: "binding_normalize L cs xs (Some req) = (found', st)" "bindings_kept L req cs xs found'"
    using binding_normalize_kept [of L cs xs req] by blast
  with out assms have "found' = found" "fst found \<noteq> []"
    by (auto simp: binding_Parse_def Let_def split: prod.splits if_splits)
  with n(2) show ?thesis by (auto intro: bindings_kept_answer)
qed

lemma binding_Run_answer:
  "wp (binding_Run L decode R E req) (\<lambda>r v. stage_answer (binding_answer_ok L) r w v) w"
  unfolding binding_Run_def by (rule stage_run_answer) (rule binding_Parse_answer)

end
