(* ===== verification/Cal_Evidence.thy ===== *)
theory Cal_Evidence
  imports Cal_Stage Cal_Check
begin

text \<open>
  \<^verbatim>\<open>internal/proposal/evidence\<close>: the last stage of a proposal plans the verification of a candidate.
  It filters the checks of the model's answer by its own table of predicate rules and derives the
  verification level. The section on the two tables relates that table to the checker's.
\<close>

record evidence_material =
  em_inputs :: ginputs
  em_fixtures :: "fixture list"

record evidence_request =
  eq_provider :: "provider option"
  eq_observations :: "observation list"
  eq_candidate :: "candidate option"
  eq_candidate_index :: int
  eq_material :: evidence_material

record predicate_rule =
  rl_predicate :: string
  rl_required :: "string list"
  rl_allowed :: "string list"
  rl_values :: "(string, string list) gomap"

section \<open>Levels\<close>

definition checkStrength :: "verify_check \<Rightarrow> nat" where
  "checkStrength chk =
     (let p = vc_predicate chk in
      if p \<in> {''contains'', ''contains_any'', ''bytes_equal_transform'', ''hash_line_matches'', ''archive_contains_input'',
           ''json_query_matches'', ''json_equivalent'', ''json_field_equals'', ''json_field_matches_source'',
           ''text_transform_matches'', ''line_count_matches'', ''text_filter_matches'', ''delimited_column_matches''} then 3
      else if p \<in> {''non_empty'', ''format'', ''regex''} then 2
      else if p \<in> {''exists'', ''equals'', ''not_equals''} then 1
      else 0)"

definition strength_level :: "nat \<Rightarrow> string" where
  "strength_level s = (if s = 3 then L3 else if s = 2 then L2 else if s = 1 then L1 else L0)"

definition deriveLevel :: "verify_spec \<Rightarrow> string" where
  "deriveLevel v =
     (if vf_method v = method_contract then L1
      else if vf_method v \<noteq> method_execute then vf_level v
      else if vf_checks v = [] then L0
      else strength_level (foldl (\<lambda>s chk. if s < checkStrength chk then checkStrength chk else s) 1 (vf_checks v)))"

section \<open>Predicate rules\<close>

abbreviation rule_of :: "string \<Rightarrow> string list \<Rightarrow> (string, string list) gomap \<Rightarrow> predicate_rule" where
  "rule_of p params vals \<equiv> \<lparr>rl_predicate = p, rl_required = params, rl_allowed = params, rl_values = vals\<rparr>"

definition verifyPredicateRules :: "predicate_rule list" where
  "verifyPredicateRules =
     [rule_of ''equals'' [''value''] [], rule_of ''not_equals'' [''value''] [], rule_of ''exists'' [] [],
      rule_of ''non_empty'' [] [],
      rule_of ''format'' [''format''] [(''format'', [''pdf'', ''png'', ''json'', ''text''])],
      rule_of ''contains'' [''value''] [], rule_of ''contains_any'' [''values''] [], rule_of ''regex'' [''pattern''] [],
      rule_of ''bytes_equal_transform'' [''source'', ''transform''] [(''transform'', [''base64_encode'', ''base64_decode''])],
      rule_of ''hash_line_matches'' [''source'', ''algorithm'']
        [(''algorithm'', [''sha1'', ''sha256'', ''sha-1'', ''sha-256'', ''sha_1'', ''sha_256'', ''sha 1'', ''sha 256''])],
      rule_of ''archive_contains_input'' [''source'', ''format''] [(''format'', [''zip'', ''tar''])],
      rule_of ''json_query_matches'' [''source'', ''query''] [], rule_of ''json_equivalent'' [''source''] [],
      rule_of ''json_field_equals'' [''query'', ''value''] [],
      rule_of ''json_field_matches_source'' [''query'', ''source'', ''property'']
        [(''property'', [''basename'', ''bytes'', ''sha256''])],
      rule_of ''text_transform_matches'' [''source'', ''transform''] [(''transform'', [''uppercase'', ''lowercase''])],
      rule_of ''line_count_matches'' [''source''] [], rule_of ''text_filter_matches'' [''source'', ''pattern''] [],
      rule_of ''delimited_column_matches'' [''source'', ''delimiter'', ''column''] []]"

definition predicateRuleMap :: "predicate_rule list \<Rightarrow> (string, predicate_rule) gomap" where
  "predicateRuleMap rules = fold (\<lambda>r m. if rl_predicate r = [] then m else put (rl_predicate r) r m) rules []"

definition valueAllowed :: "golib \<Rightarrow> gval \<Rightarrow> string list \<Rightarrow> bool" where
  "valueAllowed L value allowed =
     (let text = to_lower L (trim_space (sprint value)) in list_ex (\<lambda>i. text = to_lower L (trim_space i)) allowed)"

definition required_present :: "ginputs \<Rightarrow> string \<Rightarrow> bool" where
  "required_present params name =
     (case map_of params name of None \<Rightarrow> False | Some v \<Rightarrow> v \<noteq> GNil \<and> sprint v \<noteq> [])"

text \<open>The loop over the parameters, in the order the map is ranged over.\<close>

fun params_loop :: "golib \<Rightarrow> predicate_rule \<Rightarrow> ginputs \<Rightarrow> string" where
  "params_loop L rule [] = []"
| "params_loop L rule ((name, value) # rest) =
     (if name = [] \<or> name \<notin> set (rl_allowed rule) then ''unknown predicate param''
      else if lookup_or (rl_values rule) name [] \<noteq> [] \<and> \<not> valueAllowed L value (lookup_or (rl_values rule) name [])
      then ''invalid predicate param''
      else params_loop L rule rest)"

definition validatePredicateParams :: "golib \<Rightarrow> verify_check \<Rightarrow> (string, predicate_rule) gomap \<Rightarrow> string" where
  "validatePredicateParams L chk rules =
     (case map_of rules (vc_predicate chk) of
        None \<Rightarrow> ''unknown predicate''
      | Some rule \<Rightarrow>
          if \<not> list_all (required_present (vc_params chk)) (rl_required rule) then ''missing predicate param''
          else params_loop L rule (vc_params chk))"

section \<open>The stage\<close>

definition inputSet :: "evidence_material \<Rightarrow> string list" where
  "inputSet m = keys (em_inputs m) @ filter (\<lambda>i. i \<noteq> []) (map fx_input (em_fixtures m))"

definition evidence_traceItem :: "nat \<Rightarrow> verify_check \<Rightarrow> proposal_item" where
  "evidence_traceItem index chk = \<lparr>pi_id = ''e'' @ itoa (int index + 1), pi_kind = vs_type (vc_subject chk),
     pi_name = vc_predicate chk, pi_decision = [], pi_reason = []\<rparr>"

definition evidence_skip_reason ::
    "golib \<Rightarrow> string list \<Rightarrow> (string, predicate_rule) gomap \<Rightarrow> verify_check \<Rightarrow> string option" where
  "evidence_skip_reason L inputs rules chk =
     (let paramReason = validatePredicateParams L chk rules in
      if vs_type (vc_subject chk) = [] then Some ''missing subject type''
      else if vc_predicate chk = [] then Some ''missing predicate''
      else if vs_type (vc_subject chk) = ''file'' \<and> vs_input (vc_subject chk) \<notin> set inputs then Some ''unknown file input''
      else if paramReason \<noteq> [] then Some paramReason
      else None)"

definition evidence_step ::
    "golib \<Rightarrow> string list \<Rightarrow> (string, predicate_rule) gomap \<Rightarrow> nat \<Rightarrow> verify_check list \<Rightarrow> verify_check
      \<Rightarrow> proposal_item \<times> string option \<times> verify_check list" where
  "evidence_step L inputs rules index selected chk =
     (let trace = evidence_traceItem index chk in
      case evidence_skip_reason L inputs rules chk of
        Some reason \<Rightarrow> (trace\<lparr>pi_decision := decision_skip, pi_reason := reason\<rparr>, None, selected)
      | None \<Rightarrow> (trace\<lparr>pi_decision := decision_keep\<rparr>, None, selected @ [chk]))"

definition evidence_normalize :: "golib \<Rightarrow> verify_spec \<Rightarrow> evidence_request option \<Rightarrow> verify_spec \<times> proposal_stage" where
  "evidence_normalize L v0 req0 =
     (let material = (case req0 of Some r \<Rightarrow> eq_material r | None \<Rightarrow> \<lparr>em_inputs = [], em_fixtures = []\<rparr>);
          v = (if vf_method v0 = [] then v0\<lparr>vf_method := method_execute\<rparr> else v0)
      in case stage_loop (evidence_step L (inputSet material) (predicateRuleMap verifyPredicateRules)) 0 []
                (newStage stage_evidence (length (vf_checks v))) (vf_checks v) of
           (selected, stage) \<Rightarrow>
             (let v1 = v\<lparr>vf_checks := selected\<rparr> in
              (v1\<lparr>vf_level := deriveLevel v1\<rparr>, summary_set ''selected'' (length selected) stage)))"

definition evidence_Parse ::
    "golib \<Rightarrow> (string \<Rightarrow> verify_spec res) \<Rightarrow> evidence_request option \<Rightarrow> string
      \<Rightarrow> verify_spec \<times> proposal_stage \<times> gerr option" where
  "evidence_Parse L decode req raw =
     (case decode raw of
        Inl e \<Rightarrow> (\<lparr>vf_level = [], vf_method = [], vf_checks = []\<rparr>, zero_stage, Some (EWrap ''decode evidence stage: '' e []))
      | Inr out \<Rightarrow>
          (case evidence_normalize L out req of
             (v, stage) \<Rightarrow>
               if vf_method v = method_execute \<and> vf_checks v = []
               then (v, stage, Some (EText ''evidence stage returned no checks''))
               else (v, stage, None)))"

definition evidence_newAttempt :: "evidence_request \<Rightarrow> int \<Rightarrow> string \<Rightarrow> gerr option \<Rightarrow> int \<Rightarrow> proposal_attempt" where
  "evidence_newAttempt req started raw err t =
     (stage_newAttempt stage_evidence started raw err t)\<lparr>pa_candidate_index := Some (eq_candidate_index req),
       pa_capability_id := (case eq_candidate req of None \<Rightarrow> [] | Some c \<Rightarrow> cd_capability_id c)\<rparr>"

definition evidence_Run ::
    "golib \<Rightarrow> (string \<Rightarrow> verify_spec res) \<Rightarrow> ('s, evidence_request) llm_client option option \<Rightarrow> env
      \<Rightarrow> evidence_request \<Rightarrow> ('s world, verify_spec stage_result outcome) state" where
  "evidence_Run L decode R E req =
     stage_run \<lparr>vf_level = [], vf_method = [], vf_checks = []\<rparr> (evidence_newAttempt req)
       (evidence_Parse L decode (Some req)) ''evidence llm client is required'' R E req"

section \<open>What is kept, and the level\<close>

abbreviation evidence_rules :: "(string, predicate_rule) gomap" where
  "evidence_rules \<equiv> predicateRuleMap verifyPredicateRules"

definition kept_checks :: "golib \<Rightarrow> evidence_request \<Rightarrow> verify_check list \<Rightarrow> verify_check list" where
  "kept_checks L req checks =
     filter (\<lambda>c. evidence_skip_reason L (inputSet (eq_material req)) evidence_rules c = None) checks"

lemma evidence_loop:
  assumes "stage_loop (evidence_step L inputs rules) i s st xs = (t, stt)"
  shows "t = s @ filter (\<lambda>c. evidence_skip_reason L inputs rules c = None) xs"
  using assms
proof (induction xs arbitrary: i s st)
  case (Cons x xs)
  show ?case
  proof (cases "evidence_skip_reason L inputs rules x")
    case None
    with Cons.prems have "t = (s @ [x]) @ filter (\<lambda>c. evidence_skip_reason L inputs rules c = None) xs"
      by (intro Cons.IH) (simp add: evidence_step_def Let_def)
    with None show ?thesis by simp
  next
    case (Some r)
    with Cons.prems have "t = s @ filter (\<lambda>c. evidence_skip_reason L inputs rules c = None) xs"
      by (intro Cons.IH) (simp add: evidence_step_def Let_def)
    with Some show ?thesis by simp
  qed
qed simp

lemma evidence_normalize_eq:
  "\<exists>st. evidence_normalize L v (Some req) =
     (let m = (if vf_method v = [] then method_execute else vf_method v);
          v1 = v\<lparr>vf_method := m, vf_checks := kept_checks L req (vf_checks v)\<rparr>
      in (v1\<lparr>vf_level := deriveLevel v1\<rparr>, st)) \<and>
     selection_counted (length (vf_checks v)) (length (kept_checks L req (vf_checks v))) st"
proof -
  let ?f = "evidence_step L (inputSet (eq_material req)) evidence_rules"
  obtain sel st where run:
    "stage_loop ?f 0 [] (newStage stage_evidence (length (vf_checks v))) (vf_checks v) = (sel, st)"
    by (metis prod.exhaust)
  have "sel = kept_checks L req (vf_checks v)" using evidence_loop [OF run] by (simp add: kept_checks_def)
  moreover have "stage_adds_up (length (vf_checks v)) st \<and> ps_name st = stage_evidence"
    by (rule stage_loop_counts [OF run]) (auto simp: evidence_step_def Let_def split: option.splits)
  ultimately show ?thesis
    using run by (auto simp: evidence_normalize_def Let_def selection_counted_set)
qed

lemma foldl_max:
  "foldl (\<lambda>s chk. if s < f chk then f chk else s) (n::nat) xs = (if xs = [] then n else max n (Max (f ` set xs)))"
proof (induction xs arbitrary: n)
  case (Cons x xs)
  show ?case
    by (cases "xs = []") (auto simp: Cons.IH max_def)
qed simp

lemma strength_le: "checkStrength chk \<le> 3"
  by (simp add: checkStrength_def Let_def)

lemma strength_rank: "1 \<le> s \<Longrightarrow> s \<le> 3 \<Longrightarrow> VerifyLevelRank (strength_level s) = s"
  by (auto simp: strength_level_def VerifyLevelRank_def)

definition level_rank :: "verify_check list \<Rightarrow> nat" where
  "level_rank checks = (if checks = [] then 0 else max 1 (Max (checkStrength ` set checks)))"

lemma deriveLevel_rank:
  assumes "vf_method v = method_execute"
  shows "VerifyLevelRank (deriveLevel v) = level_rank (vf_checks v)"
proof (cases "vf_checks v = []")
  case False
  have "Max (checkStrength ` set (vf_checks v)) \<le> 3" using False strength_le by simp
  then have "max 1 (Max (checkStrength ` set (vf_checks v))) \<le> 3" by simp
  with assms False show ?thesis
    by (simp add: deriveLevel_def foldl_max level_rank_def strength_rank)
qed (use assms in \<open>simp add: deriveLevel_def level_rank_def VerifyLevelRank_def\<close>)

text \<open>
  The level of a planned verification is derived, never claimed: whatever level the model's
  answer names, the spec of an execute verification keeps exactly the checks that pass the local
  rules, in order, and its level has the rank of the strongest of them, at least 1 when there is a
  check and 0 when there is none, so that adding a check never lowers it; a contract has level L1.
\<close>

theorem evidence_level:
  "(vf_method v \<in> {[], method_execute} \<longrightarrow>
      (let out = fst (evidence_normalize L v (Some req)) in
       vf_method out = method_execute \<and> vf_checks out = kept_checks L req (vf_checks v) \<and>
       VerifyLevelRank (vf_level out) = level_rank (vf_checks out) \<and>
       fst (evidence_normalize L (v\<lparr>vf_level := claimed\<rparr>) (Some req)) = out)) \<and>
   (vf_method v = method_contract \<longrightarrow> vf_level (fst (evidence_normalize L v (Some req))) = L1) \<and>
   (set checks \<subseteq> set more_checks \<longrightarrow> level_rank checks \<le> level_rank more_checks)"
proof -
  have level: "vf_level (fst (evidence_normalize L v (Some req))) = L1" if "vf_method v = method_contract"
    using that evidence_normalize_eq [of L v req] by (auto simp: Let_def deriveLevel_def)
  have mono: "level_rank checks \<le> level_rank more_checks" if "set checks \<subseteq> set more_checks"
  proof (cases "checks = []")
    case False
    with that have "Max (checkStrength ` set checks) \<le> Max (checkStrength ` set more_checks)" "more_checks \<noteq> []"
      by (auto intro!: Max_mono image_mono)
    with False show ?thesis by (auto simp: level_rank_def le_max_iff_disj)
  qed (simp add: level_rank_def)
  have exec: "let out = fst (evidence_normalize L v (Some req)) in
       vf_method out = method_execute \<and> vf_checks out = kept_checks L req (vf_checks v) \<and>
       VerifyLevelRank (vf_level out) = level_rank (vf_checks out) \<and>
       fst (evidence_normalize L (v\<lparr>vf_level := claimed\<rparr>) (Some req)) = out"
    if m: "vf_method v \<in> {[], method_execute}"
  proof -
    let ?v1 = "v\<lparr>vf_method := method_execute, vf_checks := kept_checks L req (vf_checks v)\<rparr>"
    have out: "fst (evidence_normalize L v (Some req)) = ?v1\<lparr>vf_level := deriveLevel ?v1\<rparr>"
      using m evidence_normalize_eq [of L v req] by (auto simp: Let_def)
    have "fst (evidence_normalize L (v\<lparr>vf_level := claimed\<rparr>) (Some req)) = ?v1\<lparr>vf_level := deriveLevel ?v1\<rparr>"
      using m evidence_normalize_eq [of L "v\<lparr>vf_level := claimed\<rparr>" req] by (auto simp: Let_def deriveLevel_def)
    with out show ?thesis by (simp add: Let_def deriveLevel_rank)
  qed
  from level mono exec show ?thesis by blast
qed

definition sample_check :: "string \<Rightarrow> string \<Rightarrow> ginputs \<Rightarrow> verify_check" where
  "sample_check input p params = \<lparr>vc_subject = \<lparr>vs_type = ''file'', vs_input = input\<rparr>, vc_predicate = p, vc_params = params\<rparr>"

definition sample_verify :: verify_spec where
  "sample_verify = \<lparr>vf_level = L3, vf_method = [], vf_checks = [sample_check ''target'' ''exists'' [],
     sample_check ''target'' ''contains'' [], sample_check ''other'' ''non_empty'' []]\<rparr>"

definition sample_evidence_request :: evidence_request where
  "sample_evidence_request = \<lparr>eq_provider = None, eq_observations = [], eq_candidate = None, eq_candidate_index = 0,
     eq_material = \<lparr>em_inputs = [(''target'', GStr ''/w/out'')], em_fixtures = []\<rparr>\<rparr>"

theorem evidence_level_witness:
  "vf_checks (fst (evidence_normalize plain_lib sample_verify (Some sample_evidence_request))) = [sample_check ''target'' ''exists'' []] \<and>
   VerifyLevelRank (vf_level (fst (evidence_normalize plain_lib sample_verify (Some sample_evidence_request)))) = 1"
proof -
  have "vf_method sample_verify \<in> {[], method_execute}" by (simp add: sample_verify_def)
  then have "vf_checks (fst (evidence_normalize plain_lib sample_verify (Some sample_evidence_request)))
        = kept_checks plain_lib sample_evidence_request (vf_checks sample_verify) \<and>
      VerifyLevelRank (vf_level (fst (evidence_normalize plain_lib sample_verify (Some sample_evidence_request))))
        = level_rank (vf_checks (fst (evidence_normalize plain_lib sample_verify (Some sample_evidence_request))))"
    using evidence_level [of sample_verify plain_lib sample_evidence_request L0 "[]" "[]"] by (simp add: Let_def)
  moreover have "kept_checks plain_lib sample_evidence_request (vf_checks sample_verify) = [sample_check ''target'' ''exists'' []]"
    "level_rank [sample_check ''target'' ''exists'' []] = 1" by code_simp+
  ultimately show ?thesis by simp
qed

section \<open>The two tables of predicates\<close>

text \<open>The parameter rules of the checker, by predicate.\<close>

definition checker_table :: "(string, param_rule list) gomap" where
  "checker_table =
     [(''equals'', [needs ''value'']), (''not_equals'', [needs ''value'']), (''contains'', [needs ''value'']),
      (''contains_any'', [needs ''values'']), (''regex'', [needs ''pattern'']),
      (''text_transform_matches'', [needs ''source'', needs_one_of ''transform'' [''uppercase'', ''lowercase'']]),
      (''line_count_matches'', [needs ''source'']), (''text_filter_matches'', [needs ''source'', needs ''pattern'']),
      (''delimited_column_matches'', [needs ''source'', needs ''delimiter'', needs ''column'']),
      (''exists'', []), (''non_empty'', []), (''format'', [needs_one_of ''format'' [''pdf'', ''png'', ''json'', ''text'']]),
      (''bytes_equal_transform'', [needs ''source'', needs_one_of ''transform'' [''base64_encode'', ''base64_decode'']]),
      (''hash_line_matches'', [needs ''source'', needs_one_of ''algorithm'' hashNames]),
      (''archive_contains_input'', [needs ''source'', needs_one_of ''format'' [''zip'', ''tar'']]),
      (''json_query_matches'', [needs ''source'', needs ''query'']), (''json_equivalent'', [needs ''source'']),
      (''json_field_equals'', [needs ''query'', needs ''value'']),
      (''json_field_matches_source'',
         [needs ''query'', needs ''source'', needs_one_of ''property'' [''basename'', ''bytes'', ''sha256'']])]"

lemma checker_table_eq: "map (\<lambda>(n, p). (n, pr_params p)) NewChecker = checker_table"
  by (simp add: checker_table_def NewChecker_def registerTextPredicates_def registerFilePredicates_def
      registerBytesPredicates_def registerHashPredicates_def registerArchivePredicates_def registerJSONPredicates_def
      register_def)

lemma checker_params_of: "map_of NewChecker n = Some p \<Longrightarrow> map_of checker_table n = Some (pr_params p)"
  unfolding checker_table_eq [symmetric] by (simp add: map_of_map)

definition table_agrees :: "predicate_rule \<Rightarrow> bool" where
  "table_agrees r \<longleftrightarrow>
     (case map_of checker_table (rl_predicate r) of
        None \<Rightarrow> False
      | Some ps \<Rightarrow> map pl_name ps = rl_required r \<and> rl_allowed r = rl_required r \<and>
          list_all (\<lambda>q. pl_required q \<and> pl_allowed q = lookup_or (rl_values r) (pl_name q) []) ps)"

lemma tables_agree: "list_all table_agrees verifyPredicateRules"
  by code_simp

lemma rules_named: "map rl_predicate verifyPredicateRules = predicateOrder"
  by (simp add: verifyPredicateRules_def predicateOrder_def)

lemma table_facts:
  "list_all (\<lambda>(n, ps). (''values'' \<in> set (map pl_name ps)) = (n = ''contains_any'') \<and>
     list_all (\<lambda>q. list_all (\<lambda>a. is_ascii a \<and> trim_space a \<noteq> []) (pl_allowed q)) ps) checker_table"
  by code_simp

lemma predicateRuleMap_from:
  "map_of (fold (\<lambda>r m. if rl_predicate r = [] then m else put (rl_predicate r) r m) rules m) n = Some r \<Longrightarrow>
     map_of m n = Some r \<or> r \<in> set rules \<and> rl_predicate r = n"
  by (induction rules arbitrary: m) (fastforce split: if_splits)+

lemma params_loop_ok:
  "params_loop L rule params = [] \<Longrightarrow> (name, v) \<in> set params \<Longrightarrow>
     lookup_or (rl_values rule) name [] = [] \<or> valueAllowed L v (lookup_or (rl_values rule) name [])"
  by (induction L rule params rule: params_loop.induct) (auto split: if_splits)

lemma value_allowed_checker:
  assumes "valueAllowed L v vals" and "is_ascii (sprint v)" and "list_all (\<lambda>a. is_ascii a \<and> trim_space a \<noteq> []) vals"
    and "map_of params n = Some v" and "v \<noteq> GNil"
  shows "stringParam params n \<noteq> [] \<and> paramValueAllowed L (stringParam params n) vals"
proof -
  have sp: "stringParam params n = trim_space (sprint v)" using assms(4,5) by (simp add: stringParam_def)
  have asc: "is_ascii (trim_space (sprint v))" using assms(2) is_ascii_trim by blast
  obtain a where a: "a \<in> set vals" "to_lower L (trim_space (sprint v)) = to_lower L (trim_space a)"
    using assms(1) by (auto simp: valueAllowed_def Let_def list_ex_iff)
  with assms(3) have aa: "is_ascii (trim_space a)" "trim_space a \<noteq> []" by (auto simp: list_all_iff is_ascii_trim)
  with a(2) asc have eq: "map lower_char (trim_space (sprint v)) = map lower_char (trim_space a)"
    by (simp add: to_lower_def)
  have "paramValueAllowed L (trim_space (sprint v)) xs" if "a \<in> set xs" for xs
    using that eq asc aa(1) by (induction xs) (auto simp: equal_fold_def)
  moreover have "trim_space (sprint v) \<noteq> []" using eq aa(2) by auto
  ultimately show ?thesis using a(1) sp by simp
qed

text \<open>What is left for the checker to reject in a check the stage kept.\<close>

definition check_fits :: "golib \<Rightarrow> verify_check \<Rightarrow> bool" where
  "check_fits L chk \<longleftrightarrow>
     (case map_of NewChecker (vc_predicate chk) of
        None \<Rightarrow> False
      | Some p \<Rightarrow> allowsSubject p (vs_type (vc_subject chk))) \<and>
     subjectRequiresInput (vs_type (vc_subject chk)) = Some (\<not> blank (vs_input (vc_subject chk))) \<and>
     (vc_predicate chk = ''contains_any'' \<longrightarrow> stringListParam (vc_params chk) ''values'' \<noteq> []) \<and>
     (vc_predicate chk = ''regex'' \<longrightarrow> re_compile L (stringParam (vc_params chk) ''pattern'') = None)"

lemma kept_params:
  assumes kept: "validatePredicateParams L chk evidence_rules = []"
    and ascii: "\<forall>(k, v)\<in>set (vc_params chk). is_ascii (sprint v)"
  shows "\<exists>p. map_of NewChecker (vc_predicate chk) = Some p \<and>
    (validateParams L chk (pr_params p) = None \<longleftrightarrow>
      (vc_predicate chk = ''contains_any'' \<longrightarrow> stringListParam (vc_params chk) ''values'' \<noteq> []))"
proof -
  let ?n = "vc_predicate chk"
  obtain r where r: "map_of evidence_rules ?n = Some r"
    and req: "list_all (required_present (vc_params chk)) (rl_required r)" and loop: "params_loop L r (vc_params chk) = []"
    using kept by (auto simp: validatePredicateParams_def split: option.splits if_splits)
  have rr: "r \<in> set verifyPredicateRules" "rl_predicate r = ?n"
    using predicateRuleMap_from [OF r [unfolded predicateRuleMap_def]] by auto
  then obtain ps where ps: "map_of checker_table ?n = Some ps" "map pl_name ps = rl_required r"
    "list_all (\<lambda>q. pl_required q \<and> pl_allowed q = lookup_or (rl_values r) (pl_name q) []) ps"
    using tables_agree by (auto simp: list_all_iff table_agrees_def split: option.splits)
  have "?n \<in> set (map rl_predicate verifyPredicateRules)" using rr by (metis imageI set_map)
  then have "?n \<in> set (keys NewChecker)" by (simp only: rules_named checker_keys)
  then obtain p where p: "map_of NewChecker ?n = Some p" by (metis map_of_None_keys option.exhaust)
  then have pp: "pr_params p = ps" using checker_params_of [OF p] ps(1) by simp
  have facts: "(''values'' \<in> set (map pl_name ps)) = (?n = ''contains_any'')"
    "\<forall>q\<in>set ps. list_all (\<lambda>a. is_ascii a \<and> trim_space a \<noteq> []) (pl_allowed q)"
    using table_facts map_of_SomeD [OF ps(1)] by (auto simp: list_all_iff)
  have one: "validateParam L chk q = None \<longleftrightarrow> (pl_name q = ''values'' \<longrightarrow> stringListParam (vc_params chk) ''values'' \<noteq> [])"
    if q: "q \<in> set ps" for q
  proof -
    have "pl_name q \<in> set (rl_required r)" using q ps(2) by (metis imageI set_map)
    then obtain v where v: "map_of (vc_params chk) (pl_name q) = Some v" "v \<noteq> GNil"
      using req by (auto simp: list_all_iff required_present_def split: option.splits)
    then have "(pl_name q, v) \<in> set (vc_params chk)" by (simp add: map_of_SomeD)
    with loop ascii have "lookup_or (rl_values r) (pl_name q) [] = [] \<or> valueAllowed L v (lookup_or (rl_values r) (pl_name q) [])"
      "is_ascii (sprint v)" using params_loop_ok by auto
    moreover have "pl_required q" "pl_allowed q = lookup_or (rl_values r) (pl_name q) []" using q ps(3) by (auto simp: list_all_iff)
    ultimately show ?thesis
      using value_allowed_checker [of L v "pl_allowed q" "vc_params chk" "pl_name q"] v q facts(2)
      by (auto simp: validateParam_None param_ok_def prompt_rule_def)
  qed
  have "validateParams L chk (pr_params p) = None \<longleftrightarrow> (\<forall>q\<in>set ps. validateParam L chk q = None)"
    by (simp add: validateParams_def pp)
  also have "\<dots> \<longleftrightarrow> (''values'' \<in> set (map pl_name ps) \<longrightarrow> stringListParam (vc_params chk) ''values'' \<noteq> [])"
    using one by force
  finally have e: "validateParams L chk (pr_params p) = None \<longleftrightarrow>
      (''values'' \<in> set (map pl_name ps) \<longrightarrow> stringListParam (vc_params chk) ''values'' \<noteq> [])" .
  show ?thesis by (rule exI [of _ p], rule conjI [OF p], rule e [unfolded facts(1)])
qed

text \<open>
  The rule tables of the evidence stage and of the checker agree: a check with ASCII parameters
  that the stage keeps is valid for the checker exactly when its predicate applies to its subject
  type, a file subject names an input and no other subject does, the values of
  \<^verbatim>\<open>contains_any\<close> are a list that is not empty, and a regular expression compiles. Those four
  are not tested by the stage, so a plan it accepts can still be rejected as a whole before it runs.
\<close>

theorem kept_check_valid:
  assumes "chk \<in> set (kept_checks L req checks)" and "\<forall>(k, v)\<in>set (vc_params chk). is_ascii (sprint v)"
  shows "validateCheck L NewChecker chk = None \<longleftrightarrow> check_fits L chk"
proof -
  have "validatePredicateParams L chk evidence_rules = []"
    using assms(1) by (auto simp: kept_checks_def evidence_skip_reason_def Let_def split: if_splits)
  from kept_params [OF this assms(2)] obtain p where
    p: "map_of NewChecker (vc_predicate chk) = Some p" and v: "validateParams L chk (pr_params p) = None \<longleftrightarrow>
      (vc_predicate chk = ''contains_any'' \<longrightarrow> stringListParam (vc_params chk) ''values'' \<noteq> [])"
    by (elim exE conjE) (rule that)
  show ?thesis
  proof (cases "subjectRequiresInput (vs_type (vc_subject chk)) = Some (\<not> blank (vs_input (vc_subject chk))) \<and>
      allowsSubject p (vs_type (vc_subject chk))")
    case True
    then show ?thesis
      by (simp add: validateCheck_def check_fits_def Let_def p or_else_None v split: option.split)
  next
    case False
    then show ?thesis
      by (cases "subjectRequiresInput (vs_type (vc_subject chk))") (auto simp: validateCheck_def check_fits_def Let_def p)
  qed
qed

definition sample_words :: verify_check where
  "sample_words = sample_check ''target'' ''contains_any'' [(''values'', GStr ''ok'')]"

theorem kept_check_valid_witness:
  "sample_words \<in> set (kept_checks plain_lib sample_evidence_request [sample_words]) \<and>
   validateCheck plain_lib NewChecker sample_words \<noteq> None"
proof -
  have kept: "sample_words \<in> set (kept_checks plain_lib sample_evidence_request [sample_words])"
    by code_simp
  moreover have "\<not> check_fits plain_lib sample_words"
    by (simp add: check_fits_def sample_words_def sample_check_def stringListParam_def)
  moreover have "\<forall>(k, v)\<in>set (vc_params sample_words). is_ascii (sprint v)"
    by (simp add: sample_words_def sample_check_def is_ascii_def byte_in_def)
  ultimately show ?thesis using kept_check_valid by blast
qed

lemma evidence_Run_answer:
  "wp (evidence_Run L decode R E req) (\<lambda>r v. stage_answer (\<lambda>v. vf_method v = method_execute \<longrightarrow> vf_checks v \<noteq> []) r w v) w"
  unfolding evidence_Run_def
  by (rule stage_run_answer) (auto simp: evidence_Parse_def split: sum.splits prod.splits if_splits)

end
