(* ===== verification/Cal_Proposal.thy ===== *)
theory Cal_Proposal
  imports Cal_Surface Cal_Capability Cal_Binding Cal_Evidence
begin

text \<open>
  \<^verbatim>\<open>internal/proposal\<close>: the runner that composes the four stages. What it relies on of its stages is
  the locale \<open>proposal_stages\<close>, interpreted on the stages of the repository. The pipelines of the
  capabilities run concurrently in the source: here in one order of completion, the worker pool
  itself is the step relation of the theory \<open>Cal_Pool\<close>.
\<close>

definition proposal_error :: "string \<Rightarrow> string \<Rightarrow> gerr" where
  "proposal_error code message = ECoded ''proposal'' code message None"

definition proposal_wrap :: "string \<Rightarrow> string \<Rightarrow> gerr \<Rightarrow> gerr" where
  "proposal_wrap code message err = ECoded ''proposal'' code message (Some err)"

text \<open>A panic that would end the process, as an error value of its own.\<close>

definition go_panic :: "string \<Rightarrow> gerr" where
  "go_panic msg = EVar ''panic'' msg"

section \<open>Options\<close>

record proposal_options =
  op_timeout :: int
  op_per_capability :: int
  op_surface_limit :: int
  op_concurrency :: int
  op_candidate_limit :: int

definition proposal_normalizeOptions :: "proposal_options \<Rightarrow> proposal_options" where
  "proposal_normalizeOptions o1 =
     (let o2 = (if op_timeout o1 \<le> 0 then o1\<lparr>op_timeout := 600000000000\<rparr> else o1);
          o3 = (if op_per_capability o2 \<le> 0 then o2\<lparr>op_per_capability := 300000000000\<rparr> else o2);
          o4 = (if op_surface_limit o3 \<le> 0 then o3\<lparr>op_surface_limit := 40\<rparr> else o3);
          o5 = (if op_concurrency o4 \<le> 0 then o4\<lparr>op_concurrency := 20\<rparr> else o4);
          o6 = (if 50 < op_concurrency o5 then o5\<lparr>op_concurrency := 50\<rparr> else o5)
      in if op_candidate_limit o6 < 0 then o6\<lparr>op_candidate_limit := 0\<rparr> else o6)"

definition options_in_range :: "proposal_options \<Rightarrow> bool" where
  "options_in_range o1 \<longleftrightarrow> 0 < op_timeout o1 \<and> 0 < op_per_capability o1 \<and> 0 < op_surface_limit o1 \<and>
     1 \<le> op_concurrency o1 \<and> op_concurrency o1 \<le> 50 \<and> 0 \<le> op_candidate_limit o1"

text \<open>
  Normalized options are in range, whatever was configured: positive timeouts and a positive
  surface limit, between 1 and 50 pipelines at a time, a candidate limit that is not negative;
  options in range are left alone, so normalizing twice is normalizing once.
\<close>

theorem options_bounds:
  "options_in_range (proposal_normalizeOptions o1) \<and>
   proposal_normalizeOptions (proposal_normalizeOptions o1) = proposal_normalizeOptions o1 \<and>
   (proposal_normalizeOptions o1 = o1) = options_in_range o1"
proof -
  have keep: "proposal_normalizeOptions o2 = o2" if "options_in_range o2" for o2
    using that by (simp add: options_in_range_def proposal_normalizeOptions_def Let_def)
  have range: "options_in_range (proposal_normalizeOptions o1)"
    by (simp add: options_in_range_def proposal_normalizeOptions_def Let_def)
  with keep show ?thesis by metis
qed

section \<open>The runner\<close>

type_synonym ('s, 'q, 'x) stage_call = "env \<Rightarrow> 'q \<Rightarrow> ('s world, 'x stage_result outcome) state"

record 's proposal_runner =
  lr_surface :: "('s, surface_request, surface_item list) stage_call option"
  lr_capability :: "('s, capability_request, capability_plan list) stage_call option"
  lr_binding :: "('s, binding_request, candidate list \<times> probe_material list) stage_call option"
  lr_evidence :: "('s, evidence_request, verify_spec) stage_call option"
  lr_policy :: policy
  lr_options :: proposal_options
  lr_model :: string

text \<open>The names reported by the runners that have a \<^verbatim>\<open>Model\<close> method.\<close>

fun firstModelName :: "string option list \<Rightarrow> string" where
  "firstModelName [] = []"
| "firstModelName (m # ms) = (case m of Some n \<Rightarrow> if n \<noteq> [] then n else firstModelName ms | None \<Rightarrow> firstModelName ms)"

definition WithPolicy :: "policy \<Rightarrow> 's proposal_runner \<Rightarrow> 's proposal_runner" where
  "WithPolicy next_policy R = R\<lparr>lr_policy := next_policy\<rparr>"

definition NewWithStages where
  "NewWithStages surface capability binding evidence models options =
     \<lparr>lr_surface = surface, lr_capability = capability, lr_binding = binding, lr_evidence = evidence,
      lr_policy = policy_Default, lr_options = proposal_normalizeOptions options, lr_model = firstModelName models\<rparr>"

section \<open>Diagnostics and progress\<close>

abbreviation "ProposalSchemaVersion \<equiv> ''proposal.v1''"
abbreviation "ProposalPromptVersion \<equiv> ''proposal-cli-v1''"

definition proposal_diagnostics ::
    "string \<Rightarrow> proposal_stage list \<Rightarrow> proposal_attempt list \<Rightarrow> proposal_trace option" where
  "proposal_diagnostics modelName stages attempts =
     (let filteredStages = filter (\<lambda>s. ps_name s \<noteq> []) stages in
      if filteredStages = [] \<and> attempts = [] then None
      else Some \<lparr>pt_schema_version = ProposalSchemaVersion, pt_prompt_version = ProposalPromptVersion,
             pt_model = modelName, pt_stages = filteredStages, pt_attempts = attempts\<rparr>)"

fun step_text :: "progress_step \<Rightarrow> string" where
  "step_text StepNone = []"
| "step_text StepSurface = ''surface''"
| "step_text StepCapability = ''capability''"
| "step_text StepBinding = ''binding''"
| "step_text StepEvidence = ''evidence''"

fun status_text :: "progress_status \<Rightarrow> string" where
  "status_text Started = ''started''"
| "status_text Succeeded = ''succeeded''"
| "status_text Failed = ''failed''"
| "status_text Canceled = ''canceled''"

definition stepDetails ::
    "progress_step \<Rightarrow> string \<Rightarrow> int option \<Rightarrow> proposal_stage option \<Rightarrow> proposal_attempt option \<Rightarrow> ginputs" where
  "stepDetails step modelName index stage attempt =
     (let d0 = [(''proposal_stage'', GStr (step_text step))];
          d1 = (if modelName \<noteq> [] then put ''model'' (GStr modelName) d0 else d0);
          d2 = (case index of None \<Rightarrow> d1 | Some i \<Rightarrow> put ''candidate_index'' (GInt i) d1);
          d3 = (case stage of None \<Rightarrow> d2 | Some s \<Rightarrow> fold (\<lambda>(k, n) d. put k (GInt (int n)) d) (ps_summary s) d2)
      in case attempt of
           None \<Rightarrow> d3
         | Some a \<Rightarrow>
             if pa_raw_response a = [] then d3
             else put ''raw_response_bytes'' (GInt (int (length (pa_raw_response a))))
                    (put ''raw_response'' (GStr (pa_raw_response a)) d3))"

definition emitStep ::
    "golib \<Rightarrow> env \<Rightarrow> string \<Rightarrow> proposal_request \<Rightarrow> progress_step \<Rightarrow> progress_status \<Rightarrow> string \<Rightarrow> string \<Rightarrow> int option
      \<Rightarrow> proposal_stage option \<Rightarrow> proposal_attempt option \<Rightarrow> ('s world, unit) state" where
  "emitStep L E modelName req step status message cid index stage attempt = do {
     t \<leftarrow> now E;
     log_event \<lparr>pe_id = ProgressID t, pe_scope = ScopeAcquisition, pe_stage = StageProposal, pe_step = step,
       pe_status = status, pe_message = message, pe_details = stepDetails step modelName index stage attempt,
       pe_trace_id = lq_trace_id req, pe_run_id = [], pe_use_id = [],
       pe_provider_id = (case lq_provider req of None \<Rightarrow> [] | Some p \<Rightarrow> pv_id p), pe_capability_id = cid,
       pe_binding_id = [],
       pe_duration_ms = (case attempt of None \<Rightarrow> 0 | Some a \<Rightarrow> if 0 < pa_duration_ms a then pa_duration_ms a else 0),
       pe_error = (case attempt of None \<Rightarrow> None | Some a \<Rightarrow> pa_error a), pe_created_at = rfc3339 L t\<rparr>}"

definition proposalProgressStatus :: "env \<Rightarrow> gerr option \<Rightarrow> ('s world, progress_status) state" where
  "proposalProgressStatus E err =
     (case err of
        None \<Rightarrow> ret Succeeded
      | Some e \<Rightarrow>
          if err_is e ECanceled \<or> err_is e EDeadline then ret Canceled
          else do {
            c \<leftarrow> ctx_err E;
            ret (if c \<noteq> None then Canceled else Failed)})"

definition emitStepStarted ::
    "golib \<Rightarrow> env \<Rightarrow> string \<Rightarrow> proposal_request \<Rightarrow> progress_step \<Rightarrow> string \<Rightarrow> int option \<Rightarrow> ('s world, unit) state" where
  "emitStepStarted L E modelName req step cid index =
     emitStep L E modelName req step Started (''proposal '' @ step_text step @ '' started'') cid index None None"

definition emitStepCompleted ::
    "golib \<Rightarrow> env \<Rightarrow> string \<Rightarrow> proposal_request \<Rightarrow> progress_step \<Rightarrow> string \<Rightarrow> int option \<Rightarrow> proposal_stage
      \<Rightarrow> proposal_attempt \<Rightarrow> gerr option \<Rightarrow> ('s world, unit) state" where
  "emitStepCompleted L E modelName req step cid index stage attempt err = do {
     status \<leftarrow> proposalProgressStatus E err;
     emitStep L E modelName req step status (''proposal '' @ step_text step @ '' '' @ status_text status) cid index
       (Some stage) (Some attempt)}"

text \<open>\<^verbatim>\<open>surfaceStepDiagnostics\<close> and its three copies, and the appends after a stage.\<close>

definition step_diagnostics :: "'x stage_result option \<Rightarrow> proposal_stage \<times> proposal_attempt" where
  "step_diagnostics r = (case r of None \<Rightarrow> (zero_stage, zero_attempt) | Some x \<Rightarrow> (sr_stage x, sr_attempt x))"

definition stage_list :: "'x stage_result option \<Rightarrow> proposal_stage list" where
  "stage_list r = (case r of None \<Rightarrow> [] | Some x \<Rightarrow> [sr_stage x])"

definition attempt_list :: "'x stage_result option \<Rightarrow> proposal_attempt list" where
  "attempt_list r = (case r of None \<Rightarrow> [] | Some x \<Rightarrow> [sr_attempt x])"

text \<open>A stage between its two events.\<close>

definition staged ::
    "golib \<Rightarrow> env \<Rightarrow> string \<Rightarrow> proposal_request \<Rightarrow> progress_step \<Rightarrow> string \<Rightarrow> int option
      \<Rightarrow> ('s world, 'x stage_result outcome) state \<Rightarrow> ('s world, 'x stage_result outcome) state" where
  "staged L E modelName req step cid index m = do {
     _ \<leftarrow> emitStepStarted L E modelName req step cid index;
     r \<leftarrow> m;
     (let (stage, attempt) = step_diagnostics (fst r) in do {
        _ \<leftarrow> emitStepCompleted L E modelName req step cid index stage attempt (snd r);
        ret r})}"

section \<open>The pipeline of one capability\<close>

record pipeline_result =
  pl_index :: nat
  pl_candidates :: "candidate list"
  pl_plans :: "probe_plan list"
  pl_stages :: "proposal_stage list"
  pl_attempts :: "proposal_attempt list"
  pl_err :: "gerr option"

definition capabilitySurfaces :: "surface_item list \<Rightarrow> capability_surface list" where
  "capabilitySurfaces items =
     map (\<lambda>i. \<lparr>cu_id = si_id i, cu_kind = si_kind i, cu_name = si_name i, cu_description = si_description i\<rparr>) items"

definition bindingSurfacesForPlan :: "surface_item list \<Rightarrow> string list \<Rightarrow> binding_surface list" where
  "bindingSurfacesForPlan items sourceIDs =
     (if sourceIDs = [] then []
      else map (\<lambda>i. \<lparr>bu_id = si_id i, bu_kind = si_kind i, bu_name = si_name i, bu_description = si_description i,
             bu_usage = si_usage i\<rparr>) (filter (\<lambda>i. si_id i \<in> set (filter (\<lambda>s. s \<noteq> []) sourceIDs)) items))"

definition bindingPlan :: "capability_plan \<Rightarrow> binding_plan" where
  "bindingPlan p = \<lparr>gp_capability_id = cn_capability_id p, gp_description = cn_description p,
     gp_sources = cn_sources p, gp_confidence = cn_confidence p\<rparr>"

definition proposalFixture :: "material_fixture \<Rightarrow> fixture" where
  "proposalFixture f = \<lparr>fx_input = mf_input f, fx_filename = mf_filename f, fx_content = mf_content f\<rparr>"

definition evidenceMaterial :: "probe_material \<Rightarrow> evidence_material" where
  "evidenceMaterial m = \<lparr>em_inputs = ml_inputs m, em_fixtures = map proposalFixture (ml_fixtures m)\<rparr>"

definition enrichCandidate :: "candidate \<Rightarrow> string \<Rightarrow> candidate" where
  "enrichCandidate c modelName =
     (let source = (if cd_source c = [] then ''proposal'' else cd_source c) in
      c\<lparr>cd_source := source, cd_provenance := Some \<lparr>po_source = source, po_prompt_version = ProposalPromptVersion,
          po_model = modelName, po_schema_version = ProposalSchemaVersion, po_proposal_hash = []\<rparr>\<rparr>)"

definition probePlan :: "int \<Rightarrow> probe_material \<Rightarrow> verify_spec \<Rightarrow> probe_plan" where
  "probePlan index m v = \<lparr>pp_index = index, pp_inputs = ml_inputs m, pp_fixtures = map proposalFixture (ml_fixtures m),
     pp_verify = v\<rparr>"

fun pipeline_loop ::
    "golib \<Rightarrow> env \<Rightarrow> 's proposal_runner \<Rightarrow> proposal_request \<Rightarrow> probe_material list \<Rightarrow> nat \<Rightarrow> pipeline_result
      \<Rightarrow> candidate list \<Rightarrow> ('s world, pipeline_result) state" where
  "pipeline_loop L E R req materials index result [] = ret result"
| "pipeline_loop L E R req materials index result (c # cs) =
     (if length materials \<le> index then ret (result\<lparr>pl_err := Some (go_panic ''index out of range'')\<rparr>)
      else
        (let material = materials ! index in do {
           r \<leftarrow> staged L E (lr_model R) req StepEvidence (cd_capability_id c) (Some (int index))
                 (the (lr_evidence R) E \<lparr>eq_provider = lq_provider req, eq_observations = lq_observations req,
                    eq_candidate = Some c, eq_candidate_index = int index, eq_material = evidenceMaterial material\<rparr>);
           (let result1 = result\<lparr>pl_stages := pl_stages result @ stage_list (fst r),
                  pl_attempts := pl_attempts result @ attempt_list (fst r)\<rparr>
            in case r of
                 (_, Some e) \<Rightarrow> ret (result1\<lparr>pl_err := Some e\<rparr>)
               | (None, None) \<Rightarrow> ret (result1\<lparr>pl_err := Some (go_panic ''nil evidence result'')\<rparr>)
               | (Some x, None) \<Rightarrow>
                   pipeline_loop L E R req materials (Suc index)
                     (result1\<lparr>pl_candidates := pl_candidates result1 @ [enrichCandidate c (lr_model R)],
                        pl_plans := pl_plans result1 @ [probePlan (int (length (pl_candidates result1))) material (sr_value x)]\<rparr>)
                     cs)}))"

definition runCapabilityPipeline ::
    "golib \<Rightarrow> env \<Rightarrow> 's proposal_runner \<Rightarrow> proposal_request \<Rightarrow> surface_item list \<Rightarrow> capability_plan \<Rightarrow> nat
      \<Rightarrow> proposal_options \<Rightarrow> ('s world, pipeline_result) state" where
  "runCapabilityPipeline L E0 R req surfaces plan index options = do {
     E \<leftarrow> with_timeout E0 (op_per_capability options);
     r \<leftarrow> staged L E (lr_model R) req StepBinding (cn_capability_id plan) None
           (the (lr_binding R) E \<lparr>gq_provider = lq_provider req, gq_observations = lq_observations req,
              gq_surfaces = bindingSurfacesForPlan surfaces (cn_sources plan), gq_capability = bindingPlan plan,
              gq_hint = lq_hint req, gq_max_candidates = op_candidate_limit options\<rparr>);
     (let result = \<lparr>pl_index = index, pl_candidates = [], pl_plans = [], pl_stages = stage_list (fst r),
            pl_attempts = attempt_list (fst r), pl_err = None\<rparr>
      in case r of
           (_, Some e) \<Rightarrow> ret (result\<lparr>pl_err := Some e\<rparr>)
         | (None, None) \<Rightarrow> ret (result\<lparr>pl_err := Some (go_panic ''nil binding result'')\<rparr>)
         | (Some x, None) \<Rightarrow>
             (let (candidates, materials) = sr_value x in pipeline_loop L E R req materials 0 result candidates))}"

text \<open>
  The pipelines, each run to its end before the next is started. When the context is done and a slot
  is free, \<^verbatim>\<open>select\<close> takes either branch: \<open>pick\<close> says which.
\<close>

fun runCapabilityPipelines ::
    "golib \<Rightarrow> (nat \<Rightarrow> bool) \<Rightarrow> env \<Rightarrow> 's proposal_runner \<Rightarrow> proposal_request \<Rightarrow> surface_item list \<Rightarrow> proposal_options
      \<Rightarrow> nat \<Rightarrow> capability_plan list \<Rightarrow> ('s world, pipeline_result list) state" where
  "runCapabilityPipelines L pick E R req surfaces options index [] = ret []"
| "runCapabilityPipelines L pick E R req surfaces options index (plan # plans) = do {
     c \<leftarrow> ctx_err E;
     r \<leftarrow> (if c \<noteq> None \<and> pick index
           then ret \<lparr>pl_index = index, pl_candidates = [], pl_plans = [], pl_stages = [], pl_attempts = [], pl_err = c\<rparr>
           else runCapabilityPipeline L E R req surfaces plan index options);
     rs \<leftarrow> runCapabilityPipelines L pick E R req surfaces options (Suc index) plans;
     ret (r # rs)}"

section \<open>The run\<close>

definition appendPipeline :: "proposal_result \<Rightarrow> pipeline_result \<Rightarrow> proposal_result" where
  "appendPipeline result p =
     result\<lparr>pr_candidates := pr_candidates result @ pl_candidates p,
       pr_plans := pr_plans result @
         map (\<lambda>q. q\<lparr>pp_index := pp_index q + int (length (pr_candidates result))\<rparr>) (pl_plans p)\<rparr>"

definition merge_pipelines :: "proposal_result \<Rightarrow> pipeline_result list \<Rightarrow> proposal_result" where
  "merge_pipelines result ps = foldl (\<lambda>res p. if pl_err p \<noteq> None then res else appendPipeline res p) result ps"

definition firstPipelineError :: "pipeline_result list \<Rightarrow> gerr" where
  "firstPipelineError ps =
     (case find (\<lambda>p. pl_err p \<noteq> None) ps of
        Some p \<Rightarrow> the (pl_err p)
      | None \<Rightarrow> EText ''no capability pipelines ran'')"

definition proposal_validate :: "golib \<Rightarrow> 's proposal_runner option \<Rightarrow> proposal_request option \<Rightarrow> gerr option" where
  "proposal_validate L R0 req0 =
     (case R0 of
        None \<Rightarrow> Some (proposal_error ''missing_stage_runner'' ''proposal runner is required'')
      | Some R \<Rightarrow>
          if lr_surface R = None \<or> lr_capability R = None \<or> lr_binding R = None \<or> lr_evidence R = None
          then Some (proposal_error ''missing_stage_runner'' ''all proposal stage runners are required'')
          else (case req0 of
                  None \<Rightarrow> Some (proposal_error ''invalid_proposal_input'' ''proposal request is required'')
                | Some req \<Rightarrow>
                    if (case lq_provider req of None \<Rightarrow> True | Some p \<Rightarrow> pv_id p = [])
                    then Some (proposal_error ''invalid_proposal_input'' ''provider is required'')
                    else (case policy_Validate L (lr_policy R) of
                            Some e \<Rightarrow> Some (proposal_wrap ''invalid_proposal_input'' ''proposal policy is invalid'' e)
                          | None \<Rightarrow> None)))"

definition diagnosed :: "string \<Rightarrow> proposal_stage list \<Rightarrow> proposal_attempt list \<Rightarrow> proposal_result" where
  "diagnosed modelName stages attempts =
     \<lparr>pr_candidates = [], pr_plans = [], pr_diagnostics = proposal_diagnostics modelName stages attempts\<rparr>"

text \<open>From the pipelines to the result.\<close>

definition proposal_finish ::
    "golib \<Rightarrow> 's proposal_runner \<Rightarrow> proposal_request \<Rightarrow> proposal_options \<Rightarrow> proposal_stage list \<Rightarrow> proposal_attempt list
      \<Rightarrow> pipeline_result list \<Rightarrow> proposal_result outcome" where
  "proposal_finish L R req options stages attempts pipelines =
     (let stages1 = stages @ concat (map pl_stages pipelines);
          attempts1 = attempts @ concat (map pl_attempts pipelines);
          result = (merge_pipelines (diagnosed (lr_model R) stages attempts) pipelines)
            \<lparr>pr_diagnostics := proposal_diagnostics (lr_model R) stages1 attempts1\<rparr>
      in if pr_candidates result = []
         then (Some result, Some (proposal_wrap ''proposal_failed'' ''proposal produced no candidates'' (firstPipelineError pipelines)))
         else (case selectResult L (Some result) \<lparr>no_provider_id = pv_id (the (lq_provider req)),
                      no_limit = op_candidate_limit options\<rparr> of
                 Inl e \<Rightarrow> (Some result, Some (proposal_wrap ''proposal_select_failed'' ''select proposal candidates'' e))
               | Inr selected \<Rightarrow> (Some selected, None)))"

definition proposal_Run ::
    "golib \<Rightarrow> (nat \<Rightarrow> bool) \<Rightarrow> env \<Rightarrow> 's proposal_runner option \<Rightarrow> proposal_request option
      \<Rightarrow> ('s world, proposal_result outcome) state" where
  "proposal_Run L pick E0 R0 req0 =
     (case proposal_validate L R0 req0 of
        Some e \<Rightarrow> ret (None, Some e)
      | None \<Rightarrow>
          (let R = the R0; req = the req0; options = proposal_normalizeOptions (lr_options R) in do {
             E \<leftarrow> with_timeout E0 (op_timeout options);
             sf \<leftarrow> staged L E (lr_model R) req StepSurface [] None
                   (the (lr_surface R) E \<lparr>sq_provider = lq_provider req, sq_observations = lq_observations req,
                      sq_policy = py_surface (lr_policy R), sq_max_items = op_surface_limit options, sq_hint = lq_hint req\<rparr>);
             (let stages = stage_list (fst sf); attempts = attempt_list (fst sf) in
              case sf of
                (_, Some e) \<Rightarrow> ret (Some (diagnosed (lr_model R) stages attempts),
                   Some (proposal_wrap ''proposal_stage_failed'' ''surface stage failed'' e))
              | (None, None) \<Rightarrow> ret (None, Some (go_panic ''nil surface result''))
              | (Some surface, None) \<Rightarrow> do {
                  cp \<leftarrow> staged L E (lr_model R) req StepCapability [] None
                        (the (lr_capability R) E \<lparr>cq_provider = lq_provider req,
                           cq_surfaces = capabilitySurfaces (sr_value surface), cq_catalog = lq_catalog req,
                           cq_policy = py_capability (lr_policy R), cq_hint = lq_hint req,
                           cq_max_plans = op_candidate_limit options\<rparr>);
                  (let stages1 = stages @ stage_list (fst cp); attempts1 = attempts @ attempt_list (fst cp) in
                   case cp of
                     (_, Some e) \<Rightarrow> ret (Some (diagnosed (lr_model R) stages1 attempts1),
                        Some (proposal_wrap ''proposal_stage_failed'' ''capability stage failed'' e))
                   | (None, None) \<Rightarrow> ret (None, Some (go_panic ''nil capability result''))
                   | (Some planned, None) \<Rightarrow> do {
                       pipelines \<leftarrow> runCapabilityPipelines L pick E R req (sr_value surface) options 0 (sr_value planned);
                       ret (proposal_finish L R req options stages1 attempts1 pipelines)})})}))"

section \<open>What the pipelines and the run keep\<close>

definition proposal_events :: "'s world \<Rightarrow> 's world \<Rightarrow> bool" where
  "proposal_events w v \<longleftrightarrow>
     (\<exists>evs. w_events v = w_events w @ evs \<and> list_all (\<lambda>e. pe_step e \<noteq> StepNone \<and> pe_stage e = StageProposal) evs)"

lemma proposal_events_refl: "w_events v = w_events w \<Longrightarrow> proposal_events w v"
  by (simp add: proposal_events_def)

lemma proposal_events_trans: "proposal_events w u \<Longrightarrow> proposal_events u v \<Longrightarrow> proposal_events w v"
  by (auto simp: proposal_events_def)

definition answer_ok :: "('x \<Rightarrow> bool) \<Rightarrow> 'x stage_result outcome \<Rightarrow> bool" where
  "answer_ok ok r = (case r of (Some x, None) \<Rightarrow> ok (sr_value x) | (None, None) \<Rightarrow> False | (_, Some e) \<Rightarrow> True)"

lemma wp_emitStep:
  assumes "step \<noteq> StepNone"
  shows "wp (emitStep L E modelName req step status message cid index stage attempt) (\<lambda>_ v. proposal_events w v) w"
  using assms by (simp add: emitStep_def wp_simps proposal_events_def)

lemma wp_staged:
  assumes "\<And>u. wp m (\<lambda>r v. stage_answer ok r u v) u" and "step \<noteq> StepNone"
  shows "wp (staged L E modelName req step cid index m) (\<lambda>r v. proposal_events w v \<and> answer_ok ok r) w"
proof -
  have done1: "wp (emitStepCompleted L E modelName req step cid index stage attempt err) (\<lambda>_ v. proposal_events u v) u"
    for stage attempt err u
  proof -
    have q: "wp (emitStep L E modelName req step status message cid index stage2 attempt2) (\<lambda>_ v. proposal_events u v) t"
      if "w_events t = w_events u" for status message stage2 attempt2 t
      by (rule wp_mono [OF wp_emitStep [OF assms(2)]])
        (use that in \<open>auto intro: proposal_events_trans [OF proposal_events_refl]\<close>)
    show ?thesis
      by (auto simp: emitStepCompleted_def proposalProgressStatus_def wp_simps split: option.split intro!: q)
  qed
  show ?thesis
    unfolding staged_def emitStepStarted_def wp_bind
  proof (rule wp_mono [OF wp_emitStep [OF assms(2)]])
    fix a u
    assume u: "proposal_events w u"
    show "wp m (\<lambda>r. wp (let (stage, attempt) = step_diagnostics (fst r) in do {
        _ \<leftarrow> emitStepCompleted L E modelName req step cid index stage attempt (snd r); ret r})
        (\<lambda>r v. proposal_events w v \<and> answer_ok ok r)) u"
    proof (rule wp_mono [OF assms(1)])
      fix r t
      assume r: "stage_answer ok r u t"
      then have t: "proposal_events w t" "answer_ok ok r"
        using proposal_events_trans [OF u proposal_events_refl]
        by (auto simp: stage_answer_def answer_ok_def)
      show "wp (let (stage, attempt) = step_diagnostics (fst r) in do {
          _ \<leftarrow> emitStepCompleted L E modelName req step cid index stage attempt (snd r); ret r})
          (\<lambda>r v. proposal_events w v \<and> answer_ok ok r) t"
        unfolding Let_def
        by (auto simp: wp_simps split: prod.split intro!: wp_mono [OF done1] t(2) proposal_events_trans [OF t(1)])
    qed
  qed
qed

text \<open>
  A proposed candidate has the provenance of the proposal, an execution that can be printed, and a
  plan whose verification has checks when it is to be executed.
\<close>

definition proposed :: "golib \<Rightarrow> string \<Rightarrow> candidate \<Rightarrow> bool" where
  "proposed L modelName c \<longleftrightarrow>
     \<not> isl (CanonicalExecution L (cd_execution c)) \<and> cd_source c \<noteq> [] \<and>
     cd_provenance c = Some \<lparr>po_source = cd_source c, po_prompt_version = ProposalPromptVersion, po_model = modelName,
       po_schema_version = ProposalSchemaVersion, po_proposal_hash = []\<rparr>"

definition verified_plan :: "probe_plan \<Rightarrow> bool" where
  "verified_plan p \<longleftrightarrow> (vf_method (pp_verify p) = method_execute \<longrightarrow> vf_checks (pp_verify p) \<noteq> [])"

definition proposal_lists_ok :: "golib \<Rightarrow> string \<Rightarrow> candidate list \<Rightarrow> probe_plan list \<Rightarrow> bool" where
  "proposal_lists_ok L modelName cs ps \<longleftrightarrow>
     map pp_index ps = map int [0..<length cs] \<and> list_all (proposed L modelName) cs \<and> list_all verified_plan ps"

definition pipeline_ok :: "golib \<Rightarrow> string \<Rightarrow> pipeline_result \<Rightarrow> bool" where
  "pipeline_ok L modelName r \<longleftrightarrow> proposal_lists_ok L modelName (pl_candidates r) (pl_plans r)"

lemma proposal_lists_append:
  assumes "proposal_lists_ok L m cs ps" and "proposal_lists_ok L m ds qs"
  shows "proposal_lists_ok L m (cs @ ds) (ps @ map (\<lambda>q. q\<lparr>pp_index := pp_index q + int (length cs)\<rparr>) qs)"
proof -
  have "map (\<lambda>q. pp_index q + int (length cs)) qs = map (\<lambda>i. i + int (length cs)) (map pp_index qs)" by simp
  also have "\<dots> = map (\<lambda>i. i + int (length cs)) (map int [0..<length ds])"
    using assms(2) by (simp only: proposal_lists_ok_def)
  also have "\<dots> = map int [length cs..<length cs + length ds]" by (rule nth_equalityI) auto
  finally have "map pp_index (map (\<lambda>q. q\<lparr>pp_index := pp_index q + int (length cs)\<rparr>) qs)
      = map int [length cs..<length cs + length ds]" by (simp add: comp_def)
  moreover have "map int [0..<length cs + length ds] = map int [0..<length cs] @ map int [length cs..<length cs + length ds]"
    by (simp add: upt_add_eq_append [of 0 "length cs"])
  ultimately show ?thesis
    using assms by (auto simp: proposal_lists_ok_def verified_plan_def list_all_iff)
qed

lemma merge_pipelines_ok:
  assumes "list_all (pipeline_ok L m) ps" and "proposal_lists_ok L m (pr_candidates res) (pr_plans res)"
  shows "proposal_lists_ok L m (pr_candidates (merge_pipelines res ps)) (pr_plans (merge_pipelines res ps))"
  using assms
proof (induction ps arbitrary: res)
  case (Cons p ps)
  have "proposal_lists_ok L m (pr_candidates (appendPipeline res p)) (pr_plans (appendPipeline res p))"
    using Cons.prems proposal_lists_append by (auto simp: appendPipeline_def pipeline_ok_def)
  with Cons show ?case by (auto simp: merge_pipelines_def)
qed (simp add: merge_pipelines_def)

text \<open>A selection over such lists cannot fail.\<close>

lemma select_loop_total:
  assumes "\<forall>j<length cs. map_of plans (i + int j) \<noteq> None" and "list_all (\<lambda>c. \<not> isl (candidateIdentity L c)) cs"
  shows "\<exists>r. select_loop L opts plans i sE sC sel cs = Inr r"
  using assms
proof (induction cs arbitrary: i sE sC sel)
  case (Cons c cs)
  have "\<forall>j<length cs. map_of plans (i + 1 + int j) \<noteq> None"
  proof (intro allI impI)
    fix j
    assume "j < length cs"
    with Cons.prems(1) have "map_of plans (i + int (Suc j)) \<noteq> None" by fastforce
    then show "map_of plans (i + 1 + int j) \<noteq> None"
      by (subst add.assoc) (simp only: of_nat_Suc not_False_eq_True)
  qed
  with Cons have IH: "\<exists>r. select_loop L opts plans (i + 1) sE sC sel cs = Inr r" for sE sC sel by simp
  obtain plan key where "map_of plans i = Some plan" "candidateIdentity L c = Inr key"
    using Cons.prems by (cases "candidateIdentity L c") (auto dest: spec [of _ 0])
  with IH show ?case by simp
qed simp

lemma select_total:
  assumes ok: "proposal_lists_ok L m (pr_candidates res) (pr_plans res)"
  shows "\<exists>r. selectResult L (Some res) opts = Inr r"
proof -
  let ?n = "length (pr_candidates res)" and ?ps = "pr_plans res"
  have idx: "map pp_index ?ps = map int [0..<?n]" using ok by (simp add: proposal_lists_ok_def)
  then have dist: "distinct (map pp_index ?ps)" by (simp add: distinct_map inj_on_def)
  have set: "pp_index ` set ?ps = int ` {0..<?n}" using idx by (metis set_map atLeastLessThan_upt)
  have "pp_index p \<in> int ` {0..<?n}" if "p \<in> set ?ps" for p using that unfolding set [symmetric] by simp
  then have "list_all (\<lambda>p. 0 \<le> pp_index p \<and> pp_index p < int ?n) ?ps" by (fastforce simp: list_all_iff)
  with dist have pos: "index_plans (int ?n) [] ?ps = Inr (foldl (\<lambda>m p. put (pp_index p) p m) [] ?ps)"
    by (simp add: index_plans_Inr list_all_iff)
  have "map_of (foldl (\<lambda>m p. put (pp_index p) p m) [] ?ps) (0 + int j) \<noteq> None" if "j < ?n" for j
  proof -
    have "int j \<in> pp_index ` set ?ps" using set that by auto
    then have "find (\<lambda>p. pp_index p = int j) ?ps \<noteq> None" by (auto simp: find_None_all)
    then show ?thesis by (auto simp: indexed_lookup [OF dist])
  qed
  moreover have "list_all (\<lambda>c. \<not> isl (candidateIdentity L c)) (pr_candidates res)"
    using ok by (auto simp: proposal_lists_ok_def proposed_def list_all_iff candidateIdentity_def split: sum.splits)
  ultimately obtain r where
    "select_loop L opts (foldl (\<lambda>m p. put (pp_index p) p m) [] ?ps) 0 [] []
      \<lparr>pr_candidates = [], pr_plans = [], pr_diagnostics = pr_diagnostics res\<rparr> (pr_candidates res) = Inr r"
    using select_loop_total by blast
  then show ?thesis by (simp add: selectResult_def pos)
qed

text \<open>
  The outcome of a run: a normalized result of proposed candidates with diagnostics, or an error of a
  stage or for want of candidates beside a result that holds the diagnostics only.
\<close>

definition proposal_post :: "golib \<Rightarrow> 's proposal_runner \<Rightarrow> proposal_request \<Rightarrow> proposal_result outcome \<Rightarrow> bool" where
  "proposal_post L R req r \<longleftrightarrow>
     (case r of
        (Some res, None) \<Rightarrow>
          normalized L \<lparr>no_provider_id = pv_id (the (lq_provider req)),
            no_limit = op_candidate_limit (proposal_normalizeOptions (lr_options R))\<rparr> res \<and>
          proposal_lists_ok L (lr_model R) (pr_candidates res) (pr_plans res) \<and> pr_diagnostics res \<noteq> None
      | (Some res, Some e) \<Rightarrow>
          err_as_code ''proposal'' e \<in> {Some ''proposal_stage_failed'', Some ''proposal_failed''} \<and>
          pr_candidates res = [] \<and> pr_plans res = []
      | (None, _) \<Rightarrow> False)"

section \<open>What the runner relies on\<close>

text \<open>
  The contract of the four stages: each answers with a value or an error and emits no event, the
  binding stage gives as many materials as candidates, the evidence stage a spec with checks when it
  is to be executed.
\<close>

definition evidence_answer_ok :: "verify_spec \<Rightarrow> bool" where
  "evidence_answer_ok v \<longleftrightarrow> (vf_method v = method_execute \<longrightarrow> vf_checks v \<noteq> [])"

locale proposal_stages =
  fixes L :: golib
    and surface :: "('s, surface_request, surface_item list) stage_call"
    and capability :: "('s, capability_request, capability_plan list) stage_call"
    and binding :: "('s, binding_request, candidate list \<times> probe_material list) stage_call"
    and evidence :: "('s, evidence_request, verify_spec) stage_call"
  assumes surface_law: "wp (surface E q1) (\<lambda>r v. stage_answer (\<lambda>items. items \<noteq> []) r w v) w"
    and capability_law: "wp (capability E q2) (\<lambda>r v. stage_answer (\<lambda>plans. plans \<noteq> []) r w v) w"
    and binding_law: "wp (binding E q3) (\<lambda>r v. stage_answer (binding_answer_ok L) r w v) w"
    and evidence_law: "wp (evidence E q4) (\<lambda>r v. stage_answer evidence_answer_ok r w v) w"
begin

definition uses_stages :: "'s proposal_runner \<Rightarrow> bool" where
  "uses_stages R \<longleftrightarrow> lr_surface R = Some surface \<and> lr_capability R = Some capability \<and>
     lr_binding R = Some binding \<and> lr_evidence R = Some evidence"

lemma wp_pipeline_loop:
  assumes "uses_stages R" and "length materials = index + length cs" and "length (pl_candidates result) = index"
    and "pipeline_ok L (lr_model R) result" and "list_all (\<lambda>c. \<not> isl (CanonicalExecution L (cd_execution c))) cs"
  shows "wp (pipeline_loop L E R req materials index result cs)
    (\<lambda>r v. proposal_events w v \<and> pipeline_ok L (lr_model R) r) w"
  using assms
proof (induction cs arbitrary: index result w)
  case (Cons c cs)
  let ?Q = "\<lambda>r v. proposal_events w v \<and> pipeline_ok L (lr_model R) r"
  have ev: "lr_evidence R = Some evidence" using Cons.prems(1) by (simp add: uses_stages_def)
  have len: "\<not> length materials \<le> index" using Cons.prems(2) by simp
  show ?case
    unfolding pipeline_loop.simps if_not_P [OF len] Let_def wp_bind
  proof (rule wp_mono [OF wp_staged [where ok = evidence_answer_ok]], goal_cases)
    case (1 u)
    show ?case by (simp add: ev evidence_law)
  next
    case 2
    show ?case by simp
  next
    case (3 r v)
    then have v: "proposal_events w v" and r: "answer_ok evidence_answer_ok r" by auto
    show ?case
    proof (cases "fst r")
      case None
      with r Cons.prems(4) v show ?thesis
        by (cases "snd r"; cases r) (auto simp: answer_ok_def wp_return pipeline_ok_def)
    next
      case (Some x)
      show ?thesis
      proof (cases "snd r")
        case e: (Some e)
        with Some Cons.prems(4) v show ?thesis by (cases r) (auto simp: wp_return pipeline_ok_def)
      next
        case None
        then have rx: "r = (Some x, None)" using Some by (cases r) simp
        let ?r1 = "result\<lparr>pl_stages := pl_stages result @ stage_list (Some x),
            pl_attempts := pl_attempts result @ attempt_list (Some x)\<rparr>"
        let ?r2 = "?r1\<lparr>pl_candidates := pl_candidates ?r1 @ [enrichCandidate c (lr_model R)],
            pl_plans := pl_plans ?r1 @ [probePlan (int (length (pl_candidates ?r1))) (materials ! index) (sr_value x)]\<rparr>"
        have "proposed L (lr_model R) (enrichCandidate c (lr_model R))"
          using Cons.prems(5) by (simp add: proposed_def enrichCandidate_def Let_def)
        moreover have "verified_plan (probePlan (int index) (materials ! index) (sr_value x))"
          using r rx by (simp add: answer_ok_def evidence_answer_ok_def verified_plan_def probePlan_def)
        ultimately have "pipeline_ok L (lr_model R) ?r2"
          using Cons.prems(3,4) by (simp add: pipeline_ok_def proposal_lists_ok_def probePlan_def)
        then have "wp (pipeline_loop L E R req materials (Suc index) ?r2 cs)
            (\<lambda>r t. proposal_events v t \<and> pipeline_ok L (lr_model R) r) v"
          using Cons.prems by (intro Cons.IH) simp_all
        then have "wp (pipeline_loop L E R req materials (Suc index) ?r2 cs) ?Q v"
          by (rule wp_mono) (auto intro: proposal_events_trans [OF v])
        then show ?thesis unfolding rx by simp
      qed
    qed
  qed
qed (simp add: wp_return proposal_events_refl)

lemma wp_pipeline:
  assumes "uses_stages R"
  shows "wp (runCapabilityPipeline L E R req surfaces plan index options)
    (\<lambda>r v. proposal_events w v \<and> pipeline_ok L (lr_model R) r) w"
proof -
  let ?Q = "\<lambda>r v. proposal_events w v \<and> pipeline_ok L (lr_model R) r"
  have b: "lr_binding R = Some binding" using assms by (simp add: uses_stages_def)
  have go: "wp (staged L X (lr_model R) req StepBinding cid None (the (lr_binding R) X q))
      (\<lambda>r v. proposal_events w v \<and> answer_ok (binding_answer_ok L) r) t" if "w_events t = w_events w" for X cid q t
    by (rule wp_mono [OF wp_staged [where ok = "binding_answer_ok L"]])
      (use that in \<open>auto simp: b binding_law intro: proposal_events_trans [OF proposal_events_refl]\<close>)
  have rest: "wp (let result = \<lparr>pl_index = index, pl_candidates = [], pl_plans = [], pl_stages = stage_list (fst r),
            pl_attempts = attempt_list (fst r), pl_err = None\<rparr>
      in case r of
           (_, Some e) \<Rightarrow> ret (result\<lparr>pl_err := Some e\<rparr>)
         | (None, None) \<Rightarrow> ret (result\<lparr>pl_err := Some (go_panic ''nil binding result'')\<rparr>)
         | (Some x, None) \<Rightarrow>
             (let (candidates, materials) = sr_value x in pipeline_loop L X R req materials 0 result candidates)) ?Q v"
    if r: "proposal_events w v" "answer_ok (binding_answer_ok L) r" for r v X
  proof -
    have empty: "pipeline_ok L (lr_model R) \<lparr>pl_index = index, pl_candidates = [], pl_plans = [], pl_stages = s,
        pl_attempts = a, pl_err = e\<rparr>" for s a e by (simp add: pipeline_ok_def proposal_lists_ok_def)
    have loop: "wp (pipeline_loop L X R req materials 0 \<lparr>pl_index = index, pl_candidates = [], pl_plans = [],
        pl_stages = s, pl_attempts = a, pl_err = None\<rparr> candidates) ?Q v"
      if "binding_answer_ok L (candidates, materials)" for materials candidates s a
      by (rule wp_mono [OF wp_pipeline_loop [OF assms]])
        (use that empty in \<open>auto simp: binding_answer_ok_def intro: proposal_events_trans [OF r(1)]\<close>)
    show ?thesis
    proof (cases "snd r")
      case (Some e)
      with r(1) empty show ?thesis by (cases r; cases "fst r") (simp_all add: wp_return Let_def)
    next
      case None
      with r(2) obtain x where "r = (Some x, None)" "binding_answer_ok L (sr_value x)"
        by (cases r) (auto simp: answer_ok_def split: option.splits)
      with loop show ?thesis by (cases "sr_value x") (simp add: Let_def)
    qed
  qed
  show ?thesis
    unfolding runCapabilityPipeline_def wp_bind wp_with_timeout
    by (rule wp_mono [OF go], simp, erule conjE, erule (1) rest)
qed

lemma wp_pipelines:
  assumes "uses_stages R"
  shows "wp (runCapabilityPipelines L pick E R req surfaces options index plans)
    (\<lambda>rs v. proposal_events w v \<and> list_all (pipeline_ok L (lr_model R)) rs \<and> length rs = length plans) w"
proof (induction plans arbitrary: index w)
  case (Cons plan plans)
  let ?Q = "\<lambda>rs v. proposal_events w v \<and> list_all (pipeline_ok L (lr_model R)) rs \<and> length rs = Suc (length plans)"
  have skipped: "pipeline_ok L (lr_model R) \<lparr>pl_index = index, pl_candidates = [], pl_plans = [], pl_stages = [],
      pl_attempts = [], pl_err = c\<rparr>" for c by (simp add: pipeline_ok_def proposal_lists_ok_def)
  have rest: "wp (State_Monad.bind (runCapabilityPipelines L pick E R req surfaces options (Suc index) plans) (\<lambda>rs. ret (r # rs))) ?Q v"
    if "proposal_events w v" "pipeline_ok L (lr_model R) r" for r v
    unfolding wp_bind wp_return
    by (rule wp_mono [OF Cons.IH]) (use that in \<open>auto intro: proposal_events_trans\<close>)
  have one: "wp (runCapabilityPipeline L E R req surfaces plan index options) (\<lambda>r. wp (State_Monad.bind
      (runCapabilityPipelines L pick E R req surfaces options (Suc index) plans) (\<lambda>rs. ret (r # rs))) ?Q) t"
    if "w_events t = w_events w" for t
    by (rule wp_mono [OF wp_pipeline [OF assms]])
      (use that in \<open>auto intro!: rest intro: proposal_events_trans [OF proposal_events_refl]\<close>)
  show ?case
    unfolding runCapabilityPipelines.simps wp_bind [of "ctx_err E"] wp_ctx_err
    by (simp only: wp_bind [of "if _ then _ else _"] wp_if wp_return list.size add_Suc_right add_0_right)
      (auto intro!: rest one skipped proposal_events_refl)
qed (simp add: wp_return proposal_events_refl)

lemma selected_ok:
  assumes sel: "selectResult L (Some res) opts = Inr r"
    and ok: "proposal_lists_ok L m (pr_candidates res) (pr_plans res)"
  shows "normalized L opts r \<and> proposal_lists_ok L m (pr_candidates r) (pr_plans r) \<and> pr_diagnostics r = pr_diagnostics res"
proof -
  obtain seenE seenC pre post where
    inv: "select_inv L opts (pr_plans res) (pr_candidates res) pre seenE seenC r"
    and app: "pr_candidates res = pre @ post" and d: "pr_diagnostics r = pr_diagnostics res"
    using selectResult_inv [OF sel] by blast
  have norm: "normalized L opts r" and sub: "subseq (pr_candidates r) pre"
    and kept: "list_all (plan_kept (pr_candidates res) (pr_plans res)) (zip (pr_candidates r) (pr_plans r))"
    using inv by (auto simp: select_inv_def)
  have idx: "map pp_index (pr_plans r) = map int [0..<length (pr_candidates r)]" using norm by (simp add: normalized_def)
  then have len: "length (pr_plans r) = length (pr_candidates r)" by (metis length_map length_upt minus_nat.diff_0)
  have "list_all (proposed L m) (pr_candidates r)"
    using ok app list_emb_set [OF sub] by (fastforce simp: proposal_lists_ok_def list_all_iff)
  moreover have "verified_plan (pr_plans r ! i)" if "i < length (pr_plans r)" for i
  proof -
    have "plan_kept (pr_candidates res) (pr_plans res) (pr_candidates r ! i, pr_plans r ! i)"
      using kept that len by (auto simp: list_all_length)
    then obtain q where "q \<in> set (pr_plans res)" "pp_verify (pr_plans r ! i) = pp_verify q"
      by (auto simp: plan_kept_def) (metis probe_plan.select_convs(4) probe_plan.surjective probe_plan.update_convs(1))
    with ok show ?thesis by (auto simp: proposal_lists_ok_def verified_plan_def list_all_iff)
  qed
  ultimately show ?thesis using norm idx d by (simp add: proposal_lists_ok_def list_all_length)
qed

lemma finish_post:
  assumes "list_all (pipeline_ok L (lr_model R)) ps" and "attempts \<noteq> []"
  shows "proposal_post L R req (proposal_finish L R req (proposal_normalizeOptions (lr_options R)) stages attempts ps)"
proof -
  let ?m = "merge_pipelines (diagnosed (lr_model R) stages attempts) ps"
  let ?d = "proposal_diagnostics (lr_model R) (stages @ concat (map pl_stages ps)) (attempts @ concat (map pl_attempts ps))"
  let ?res = "?m\<lparr>pr_diagnostics := ?d\<rparr>"
  let ?opts = "\<lparr>no_provider_id = pv_id (the (lq_provider req)),
    no_limit = op_candidate_limit (proposal_normalizeOptions (lr_options R))\<rparr>"
  have ok: "proposal_lists_ok L (lr_model R) (pr_candidates ?res) (pr_plans ?res)"
    using merge_pipelines_ok [OF assms(1), of "diagnosed (lr_model R) stages attempts"]
    by (simp add: diagnosed_def proposal_lists_ok_def)
  have d: "?d \<noteq> None" using assms(2) by (simp add: proposal_diagnostics_def Let_def)
  show ?thesis
  proof (cases "pr_candidates ?m = []")
    case True
    then have "pr_plans ?m = []" using ok by (simp add: proposal_lists_ok_def)
    with True show ?thesis
      by (simp add: proposal_post_def proposal_finish_def Let_def proposal_wrap_def err_as_code_def)
  next
    case False
    obtain r where r: "selectResult L (Some ?res) ?opts = Inr r" using select_total [OF ok] by blast
    with False selected_ok [OF r ok] d show ?thesis
      by (simp add: proposal_post_def proposal_finish_def Let_def)
  qed
qed

lemma wp_proposal_Run:
  assumes R: "uses_stages R" and valid: "proposal_validate L (Some R) (Some req) = None"
  shows "wp (proposal_Run L pick E0 (Some R) (Some req)) (\<lambda>r v. proposal_events w v \<and> proposal_post L R req r) w"
proof -
  let ?Q = "\<lambda>r v. proposal_events w v \<and> proposal_post L R req r"
  have parts: "lr_surface R = Some surface" "lr_capability R = Some capability" using R by (simp_all add: uses_stages_def)
  have failed: "proposal_post L R req (Some (diagnosed m s a), Some (proposal_wrap ''proposal_stage_failed'' msg e))" for m s a msg e
    by (simp add: proposal_post_def diagnosed_def proposal_wrap_def err_as_code_def)
  have pipes: "wp (runCapabilityPipelines L pick E R req items options 0 plans)
      (\<lambda>ps. wp (ret (proposal_finish L R req (proposal_normalizeOptions (lr_options R)) stages attempts ps)) ?Q) v"
    if "proposal_events w v" "attempts \<noteq> []" for E items options plans stages attempts v
    by (rule wp_mono [OF wp_pipelines [OF R]])
      (use that in \<open>auto simp: wp_return intro: finish_post proposal_events_trans\<close>)
  have cap: "wp (staged L E (lr_model R) req StepCapability [] None (the (lr_capability R) E q))
      (\<lambda>r t. proposal_events w t \<and> answer_ok (\<lambda>plans. plans \<noteq> []) r) v" if "proposal_events w v" for E q v
    by (rule wp_mono [OF wp_staged [where ok = "\<lambda>plans. plans \<noteq> []"]])
      (use that in \<open>auto simp: parts capability_law intro: proposal_events_trans\<close>)
  have srf: "wp (staged L E (lr_model R) req StepSurface [] None (the (lr_surface R) E q))
      (\<lambda>r t. proposal_events w t \<and> answer_ok (\<lambda>items. items \<noteq> []) r) v" if "w_events v = w_events w" for E q v
    by (rule wp_mono [OF wp_staged [where ok = "\<lambda>items. items \<noteq> []"]])
      (use that in \<open>auto simp: parts surface_law intro: proposal_events_trans [OF proposal_events_refl]\<close>)
  have attempt1: "attempt_list (Some x) \<noteq> []" for x :: "'y stage_result" by (simp add: attempt_list_def)
  show ?thesis
    unfolding proposal_Run_def valid option.case Let_def wp_bind wp_with_timeout option.sel
    apply (rule wp_mono [OF srf], simp)
    subgoal for r v
      apply (cases r; cases "fst r"; cases "snd r")
         apply (simp_all add: answer_ok_def wp_return failed wp_bind)
      apply (rule wp_mono [OF cap], simp)
      subgoal for _ _ _ r2 v2
        apply (cases r2; cases "fst r2"; cases "snd r2")
           apply (simp_all add: answer_ok_def wp_return failed wp_bind)
        apply (rule pipes)
         apply (simp_all add: attempt_list_def)
        done
      done
    done
qed

end

section \<open>The stages of the repository\<close>

text \<open>
  The four runners over one language model; the decoders of the answers are arguments. A client may
  be absent.
\<close>

record 's live_stages =
  lv_surface :: "('s, surface_request) llm_client option"
  lv_capability :: "('s, capability_request) llm_client option"
  lv_binding :: "('s, binding_request) llm_client option"
  lv_evidence :: "('s, evidence_request) llm_client option"

record decoders =
  de_surface :: "string \<Rightarrow> surface_item list res"
  de_capability :: "string \<Rightarrow> capability_plan list res"
  de_binding :: "string \<Rightarrow> (candidate list \<times> probe_material list) res"
  de_evidence :: "string \<Rightarrow> verify_spec res"

definition NewLiveRunner :: "golib \<Rightarrow> decoders \<Rightarrow> 's live_stages \<Rightarrow> proposal_options \<Rightarrow> 's proposal_runner" where
  "NewLiveRunner L D C options =
     NewWithStages (Some (surface_Run L (de_surface D) (Some (lv_surface C))))
       (Some (capability_Run L (de_capability D) (Some (lv_capability C))))
       (Some (binding_Run L (de_binding D) (Some (lv_binding C))))
       (Some (evidence_Run L (de_evidence D) (Some (lv_evidence C))))
       [Some (stage_Model (Some (lv_surface C))), Some (stage_Model (Some (lv_capability C))),
        Some (stage_Model (Some (lv_binding C))), Some (stage_Model (Some (lv_evidence C)))] options"

interpretation live: proposal_stages L "surface_Run L (de_surface D) (Some (lv_surface C))"
    "capability_Run L (de_capability D) (Some (lv_capability C))" "binding_Run L (de_binding D) (Some (lv_binding C))"
    "evidence_Run L (de_evidence D) (Some (lv_evidence C))"
  for L :: golib and D :: decoders and C :: "'s live_stages"
  by unfold_locales
    (rule surface_Run_answer capability_Run_answer binding_Run_answer evidence_Run_answer [folded evidence_answer_ok_def])+

lemma live_uses: "live.uses_stages L D C (NewLiveRunner L D C options)"
  by (simp add: live.uses_stages_def NewLiveRunner_def NewWithStages_def)

lemma default_policy_valid: "policy_Validate L policy_Default = None"
  by (simp add: valid_simps default_policy_ok)

lemma live_valid:
  assumes "lq_provider req = Some p" and "pv_id p \<noteq> []"
  shows "proposal_validate L (Some (NewLiveRunner L D C options)) (Some req) = None"
  using assms by (simp add: proposal_validate_def NewLiveRunner_def NewWithStages_def default_policy_valid)

lemma live_options: "lr_options (NewLiveRunner L D C options) = proposal_normalizeOptions options"
  by (simp add: NewLiveRunner_def NewWithStages_def)


section \<open>Examples\<close>

text \<open>Stages that always answer the same, and a small policy.\<close>

definition fixed_stage :: "'x \<Rightarrow> ('s, 'q, 'x) stage_call" where
  "fixed_stage x = (\<lambda>E q. ret (Some \<lparr>sr_value = x, sr_stage = zero_stage, sr_attempt = zero_attempt\<rparr>, None))"

definition tiny_policy :: policy where
  "tiny_policy = \<lparr>py_surface = \<lparr>sp_allowed_kinds = [''command''], sp_skip_names = [], sp_skip_patterns = []\<rparr>,
     py_capability = \<lparr>cy_subjects = [''doc''], cy_operations = [''convert'']\<rparr>\<rparr>"

definition fixed_plan :: capability_plan where
  "fixed_plan = \<lparr>cn_capability_id = ''a.b'', cn_description = ''d'', cn_sources = [''s1''], cn_confidence = []\<rparr>"

definition fixed_verify :: verify_spec where
  "fixed_verify = \<lparr>vf_level = L1, vf_method = method_execute, vf_checks = [sample_check ''target'' ''exists'' []]\<rparr>"

definition fixed_runner :: "string \<Rightarrow> unit proposal_runner" where
  "fixed_runner provider = WithPolicy tiny_policy (NewWithStages (Some (fixed_stage [sample_surface ''s1'' ''convert'']))
     (Some (fixed_stage [fixed_plan]))
     (Some (fixed_stage ([sample_candidate provider ''a.b''], [\<lparr>ml_index = 0, ml_inputs = [], ml_fixtures = []\<rparr>])))
     (Some (fixed_stage fixed_verify)) []
     \<lparr>op_timeout = 0, op_per_capability = 0, op_surface_limit = 0, op_concurrency = 0, op_candidate_limit = 0\<rparr>)"

definition demo_proposal_request :: proposal_request where
  "demo_proposal_request = \<lparr>lq_provider = Some \<lparr>pv_id = ''p'', pv_name = ''n'', pv_kind = ''cli'', pv_path = ''/p'', pv_version = []\<rparr>,
     lq_observations = [], lq_catalog = [], lq_hint = [], lq_trace_id = ''t''\<rparr>"

definition demo_env :: env where
  "demo_env = \<lparr>env_time = (\<lambda>_. 0), env_ctx = (\<lambda>_. None)\<rparr>"

definition demo_proposal :: "string \<Rightarrow> proposal_result outcome" where
  "demo_proposal provider = fst (run_state (proposal_Run plain_lib (\<lambda>_. False) demo_env (Some (fixed_runner provider))
     (Some demo_proposal_request)) \<lparr>w_tick = 0, w_events = [], w_ext = ()\<rparr>)"

definition proposal_summary :: "proposal_result outcome \<Rightarrow> (string list \<times> nat list) option \<times> bool" where
  "proposal_summary r = (map_option (\<lambda>x. (map cd_capability_id (pr_candidates x),
     map (\<lambda>p. length (vf_checks (pp_verify p))) (pr_plans x))) (fst r), snd r = None)"

lemma fixed_valid: "proposal_validate plain_lib (Some (fixed_runner provider)) (Some demo_proposal_request) = None"
proof -
  have "policy_Validate plain_lib tiny_policy = None" by code_simp
  then show ?thesis
    by (simp add: proposal_validate_def fixed_runner_def WithPolicy_def NewWithStages_def demo_proposal_request_def)
qed

lemmas proposal_eval = proposal_Run_def staged_def emitStepStarted_def emitStepCompleted_def emitStep_def
  proposalProgressStatus_def step_diagnostics_def runCapabilityPipeline_def with_timeout_def stage_list_def attempt_list_def
  fixed_stage_def Let_def

definition fixed_pipeline :: "string \<Rightarrow> pipeline_result" where
  "fixed_pipeline provider = \<lparr>pl_index = 0, pl_candidates = [enrichCandidate (sample_candidate provider ''a.b'') []],
     pl_plans = [probePlan 0 \<lparr>ml_index = 0, ml_inputs = [], ml_fixtures = []\<rparr> fixed_verify],
     pl_stages = [zero_stage, zero_stage], pl_attempts = [zero_attempt, zero_attempt], pl_err = None\<rparr>"

lemma fixed_run:
  "demo_proposal provider = proposal_finish plain_lib (fixed_runner provider) demo_proposal_request
     (proposal_normalizeOptions (lr_options (fixed_runner provider))) [zero_stage, zero_stage] [zero_attempt, zero_attempt]
     [fixed_pipeline provider]"
  unfolding demo_proposal_def proposal_Run_def fixed_valid option.case
  by (simp add: proposal_eval fixed_runner_def WithPolicy_def NewWithStages_def fixed_plan_def demo_env_def
      fixed_pipeline_def run_eval cong: bind_weak_cong)

text \<open>
  The same pipeline answer is a candidate when it names the requested provider, and with another
  provider's id the run still succeeds, with no candidate at all: unlike the rules and the replay
  proposers, the live one does not reject an empty selection.
\<close>

theorem foreign_candidates_succeed:
  "proposal_summary (demo_proposal ''p'') = (Some ([''a.b''], [1]), True) \<and>
   proposal_summary (demo_proposal ''q'') = (Some ([], []), True)"
  unfolding fixed_run by code_simp

text \<open>A live runner whose model answers every request with the same text.\<close>

definition demo_client :: "(unit, 'q) llm_client" where
  "demo_client = \<lparr>lc_model = ''m'', lc_complete = (\<lambda>E q. ret (Some \<lparr>ls_text = ''x'', ls_model = ''m'',
     ls_usage = \<lparr>us_prompt = 1, us_completion = 1, us_total = 2\<rparr>\<rparr>, None))\<rparr>"

definition demo_live :: "unit live_stages" where
  "demo_live = \<lparr>lv_surface = Some demo_client, lv_capability = Some demo_client, lv_binding = Some demo_client,
     lv_evidence = Some demo_client\<rparr>"

definition demo_decoders :: decoders where
  "demo_decoders = \<lparr>de_surface = (\<lambda>_. Inr [sample_surface ''s1'' ''convert'']), de_capability = (\<lambda>_. Inr [fixed_plan]),
     de_binding = (\<lambda>_. Inr ([sample_candidate [] ''a.b''], [\<lparr>ml_index = 0, ml_inputs = [(''target'', GStr ''/w/out'')],
       ml_fixtures = []\<rparr>])), de_evidence = (\<lambda>_. Inr sample_verify)\<rparr>"

definition demo_proposal_runner :: "unit proposal_runner" where
  "demo_proposal_runner = NewLiveRunner plain_lib demo_decoders demo_live (lr_options (fixed_runner ''p''))"


end
