(* ===== verification/Cal_Pool.thy ===== *)
theory Cal_Pool
  imports Cal_Proposal
begin

text \<open>
  The worker pool of \<^verbatim>\<open>internal/proposal/pipeline.go\<close>: one goroutine per capability, a semaphore
  that bounds how many run, a slot of the result slice for each. A step starts the next pipeline,
  skips it because the context is done, or finishes one that runs, in any order. The outcomes a
  pipeline may have are a parameter.
\<close>

record 'r pool =
  po_next :: nat
  po_running :: "nat set"
  po_results :: "nat \<Rightarrow> 'r option"

definition pool_init :: "'r pool" where
  "pool_init = \<lparr>po_next = 0, po_running = {}, po_results = (\<lambda>_. None)\<rparr>"

definition pool_limit :: "int \<Rightarrow> nat \<Rightarrow> nat" where
  "pool_limit concurrency n = (if concurrency \<le> 0 \<or> int n < concurrency then n else nat concurrency)"

inductive pool_step ::
    "nat \<Rightarrow> nat \<Rightarrow> (nat \<Rightarrow> 'r \<Rightarrow> bool) \<Rightarrow> (nat \<Rightarrow> 'r \<Rightarrow> bool) \<Rightarrow> 'r pool \<Rightarrow> 'r pool \<Rightarrow> bool"
  for n limit :: nat and outcome skipped :: "nat \<Rightarrow> 'r \<Rightarrow> bool" where
  start: "po_next s < n \<Longrightarrow> card (po_running s) < limit \<Longrightarrow>
    pool_step n limit outcome skipped s
      (s\<lparr>po_next := Suc (po_next s), po_running := insert (po_next s) (po_running s)\<rparr>)"
| skip: "po_next s < n \<Longrightarrow> skipped (po_next s) r \<Longrightarrow>
    pool_step n limit outcome skipped s
      (s\<lparr>po_next := Suc (po_next s), po_results := (po_results s)(po_next s \<mapsto> r)\<rparr>)"
| finish: "i \<in> po_running s \<Longrightarrow> outcome i r \<Longrightarrow>
    pool_step n limit outcome skipped s
      (s\<lparr>po_running := po_running s - {i}, po_results := (po_results s)(i \<mapsto> r)\<rparr>)"

inductive_cases pool_stepE: "pool_step n limit outcome skipped s t"

text \<open>\<^verbatim>\<open>wg.Wait\<close> returns when the loop is over and no pipeline runs.\<close>

definition pool_done :: "nat \<Rightarrow> 'r pool \<Rightarrow> bool" where
  "pool_done n s \<longleftrightarrow> po_next s = n \<and> po_running s = {}"

abbreviation pool_run where
  "pool_run n limit outcome skipped \<equiv> (pool_step n limit outcome skipped)\<^sup>*\<^sup>*"

section \<open>Invariant\<close>

definition pool_inv :: "nat \<Rightarrow> nat \<Rightarrow> (nat \<Rightarrow> 'r \<Rightarrow> bool) \<Rightarrow> (nat \<Rightarrow> 'r \<Rightarrow> bool) \<Rightarrow> 'r pool \<Rightarrow> bool" where
  "pool_inv n limit outcome skipped s \<longleftrightarrow>
     po_next s \<le> n \<and> finite (po_running s) \<and> card (po_running s) \<le> limit \<and>
     po_running s \<inter> dom (po_results s) = {} \<and> po_running s \<union> dom (po_results s) = {0..<po_next s} \<and>
     (\<forall>i r. po_results s i = Some r \<longrightarrow> outcome i r \<or> skipped i r)"

lemma pool_inv_init: "pool_inv n limit outcome skipped pool_init"
  by (simp add: pool_inv_def pool_init_def)

lemma pool_inv_step:
  assumes "pool_step n limit outcome skipped s t" and "pool_inv n limit outcome skipped s"
  shows "pool_inv n limit outcome skipped t"
  using assms
proof (cases rule: pool_stepE [OF assms(1)])
  case 1
  with assms(2) have "po_next s \<notin> po_running s" "po_next s \<notin> dom (po_results s)"
    by (auto simp: pool_inv_def)
  with 1 assms(2) show ?thesis by (auto simp: pool_inv_def)
next
  case (2 r)
  with assms(2) have "po_next s \<notin> po_running s" by (auto simp: pool_inv_def)
  with 2 assms(2) show ?thesis by (auto simp: pool_inv_def)
next
  case (3 i r)
  with assms(2) show ?thesis by (auto simp: pool_inv_def card_Diff_singleton)
qed

lemma pool_inv_run:
  "pool_run n limit outcome skipped s t \<Longrightarrow> pool_inv n limit outcome skipped s \<Longrightarrow> pool_inv n limit outcome skipped t"
  by (induction rule: rtranclp_induct) (auto intro: pool_inv_step)

text \<open>
  C38. Under every interleaving no more pipelines run at a time than the limit, and with the options of
  the runner that is at least one and at most fifty; a slot of the results is only ever written with
  an outcome of its own pipeline or with the error of the context, and no pipeline runs twice.
\<close>

theorem pool_bounded:
  assumes "pool_run n (pool_limit (op_concurrency (proposal_normalizeOptions options)) n) outcome skipped pool_init s"
    and "0 < n"
  shows "card (po_running s) \<le> pool_limit (op_concurrency (proposal_normalizeOptions options)) n \<and>
    1 \<le> pool_limit (op_concurrency (proposal_normalizeOptions options)) n \<and>
    pool_limit (op_concurrency (proposal_normalizeOptions options)) n \<le> min 50 n \<and>
    po_running s \<inter> dom (po_results s) = {} \<and>
    (\<forall>i r. po_results s i = Some r \<longrightarrow> i < n \<and> (outcome i r \<or> skipped i r))"
proof -
  let ?c = "op_concurrency (proposal_normalizeOptions options)"
  have c: "1 \<le> ?c" "?c \<le> 50" by (simp_all add: proposal_normalizeOptions_def Let_def)
  have inv: "pool_inv n (pool_limit ?c n) outcome skipped s" by (rule pool_inv_run [OF assms(1) pool_inv_init])
  have "i < n" if "po_results s i = Some r" for i r
  proof -
    have "i \<in> dom (po_results s)" using that by auto
    then have "i \<in> {0..<po_next s}" using inv unfolding pool_inv_def by blast
    with inv show ?thesis by (simp add: pool_inv_def)
  qed
  with inv c assms(2) show ?thesis by (auto simp: pool_inv_def pool_limit_def)
qed

section \<open>Termination\<close>

text \<open>What every step uses up.\<close>

definition pool_work :: "nat \<Rightarrow> 'r pool \<Rightarrow> nat" where
  "pool_work n s = 2 * (n - po_next s) + card (po_running s)"

lemma pool_step_work:
  assumes "pool_step n limit outcome skipped s t" and "pool_inv n limit outcome skipped s"
  shows "pool_work n t < pool_work n s"
proof (cases rule: pool_stepE [OF assms(1)])
  case 1
  have "finite (po_running s)" using assms(2) by (simp add: pool_inv_def)
  then have "card (insert (po_next s) (po_running s)) \<le> Suc (card (po_running s))" by (simp add: card_insert_if)
  moreover have "Suc (n - Suc (po_next s)) = n - po_next s" using 1(2) by simp
  ultimately show ?thesis using 1(1) by (simp add: pool_work_def)
next
  case (2 r)
  then show ?thesis by (simp add: pool_work_def)
next
  case (3 i r)
  have "finite (po_running s)" using assms(2) by (simp add: pool_inv_def)
  from card_Diff1_less [OF this 3(2)] 3 show ?thesis by (simp add: pool_work_def)
qed

lemma pool_steps_bounded:
  "(pool_step n limit outcome skipped ^^ k) s t \<Longrightarrow> pool_inv n limit outcome skipped s \<Longrightarrow> k + pool_work n t \<le> pool_work n s"
proof (induction k arbitrary: t)
  case (Suc k)
  then obtain u where u: "(pool_step n limit outcome skipped ^^ k) s u" "pool_step n limit outcome skipped u t" by auto
  have "pool_inv n limit outcome skipped u" by (rule pool_inv_run [OF relpowp_imp_rtranclp [OF u(1)] Suc.prems(2)])
  from pool_step_work [OF u(2) this] Suc.IH [OF u(1) Suc.prems(2)] show ?case by simp
qed simp

text \<open>
  C39. The pool always comes to its end: every run has at most two steps per capability, and as long
  as the end is not reached some step is possible, provided the semaphore has a slot and every
  pipeline has some outcome. So \<^verbatim>\<open>wg.Wait\<close> returns, under every schedule.
\<close>

theorem pool_terminates:
  assumes "1 \<le> limit" and "\<forall>i<n. \<exists>r. outcome i r"
  shows "((pool_step n limit outcome skipped ^^ k) pool_init s \<longrightarrow> k \<le> 2 * n) \<and>
    (pool_run n limit outcome skipped pool_init s \<and> \<not> pool_done n s \<longrightarrow> (\<exists>t. pool_step n limit outcome skipped s t))"
proof (intro conjI impI)
  assume "(pool_step n limit outcome skipped ^^ k) pool_init s"
  from pool_steps_bounded [OF this pool_inv_init] show "k \<le> 2 * n" by (simp add: pool_work_def pool_init_def)
next
  assume s: "pool_run n limit outcome skipped pool_init s \<and> \<not> pool_done n s"
  then have inv: "pool_inv n limit outcome skipped s" using pool_inv_run pool_inv_init by blast
  show "\<exists>t. pool_step n limit outcome skipped s t"
  proof (cases "po_running s = {}")
    case True
    with s inv have "po_next s < n" by (auto simp: pool_done_def pool_inv_def)
    moreover have "card (po_running s) < limit" using True assms(1) by simp
    ultimately show ?thesis by (blast intro: pool_step.start)
  next
    case False
    then obtain i where i: "i \<in> po_running s" by blast
    with inv have "i \<in> {0..<po_next s}" unfolding pool_inv_def by blast
    with inv have "i < n" by (simp add: pool_inv_def)
    with assms(2) i show ?thesis by (blast intro: pool_step.finish)
  qed
qed

section \<open>Any schedule is as good as one after the other\<close>

definition pool_list :: "nat \<Rightarrow> 'r pool \<Rightarrow> 'r list" where
  "pool_list n s = map (\<lambda>i. the (po_results s i)) [0..<n]"

definition possible :: "nat \<Rightarrow> (nat \<Rightarrow> 'r \<Rightarrow> bool) \<Rightarrow> (nat \<Rightarrow> 'r \<Rightarrow> bool) \<Rightarrow> 'r list \<Rightarrow> bool" where
  "possible n outcome skipped rs \<longleftrightarrow> length rs = n \<and> (\<forall>i<n. outcome i (rs ! i) \<or> skipped i (rs ! i))"

text \<open>The state after the first \<open>k\<close> pipelines were run one after the other.\<close>

definition pool_after :: "'r list \<Rightarrow> nat \<Rightarrow> 'r pool" where
  "pool_after rs k = \<lparr>po_next = k, po_running = {}, po_results = (\<lambda>i. if i < k then Some (rs ! i) else None)\<rparr>"

lemma pool_sequential:
  assumes "possible n outcome skipped rs" and "1 \<le> limit"
  shows "k \<le> n \<Longrightarrow> pool_run n limit outcome skipped pool_init (pool_after rs k)"
proof (induction k)
  case 0
  then show ?case by (simp add: pool_init_def pool_after_def)
next
  case (Suc k)
  have res: "(\<lambda>i. if i < k then Some (rs ! i) else None)(k \<mapsto> rs ! k) = (\<lambda>i. if i < Suc k then Some (rs ! i) else None)"
    by (auto simp: less_Suc_eq)
  have "pool_run n limit outcome skipped (pool_after rs k) (pool_after rs (Suc k))"
  proof (cases "skipped k (rs ! k)")
    case True
    with Suc.prems have "pool_step n limit outcome skipped (pool_after rs k)
        ((pool_after rs k)\<lparr>po_next := Suc (po_next (pool_after rs k)),
          po_results := (po_results (pool_after rs k))(po_next (pool_after rs k) \<mapsto> rs ! k)\<rparr>)"
      by (intro pool_step.skip) (simp_all add: pool_after_def)
    then show ?thesis by (auto simp: pool_after_def res)
  next
    case False
    let ?m = "(pool_after rs k)\<lparr>po_next := Suc k, po_running := {k}\<rparr>"
    have "pool_step n limit outcome skipped (pool_after rs k) ?m"
      using pool_step.start [of "pool_after rs k" n limit outcome skipped] Suc.prems assms(2)
      by (simp add: pool_after_def)
    moreover have "pool_step n limit outcome skipped ?m (pool_after rs (Suc k))"
    proof -
      have "k < n" using Suc.prems by simp
      with False assms(1) have "outcome k (rs ! k)" unfolding possible_def by blast
      from pool_step.finish [of k ?m outcome "rs ! k" n limit skipped, OF _ this] show ?thesis
        by (simp add: pool_after_def res)
    qed
    ultimately show ?thesis by (meson converse_rtranclp_into_rtranclp r_into_rtranclp)
  qed
  with Suc show ?case by (simp add: rtranclp_trans)
qed

text \<open>
  C37. The results the pool can end with are exactly the lists that give every capability one of its
  own outcomes or the error of the context: no result is lost, overwritten or put in another slot,
  and since running the pipelines one after the other already reaches every such list, the order in
  which they run does not show in what the proposal merges.
\<close>

theorem pool_results:
  assumes "1 \<le> limit"
  shows "(\<exists>s. pool_run n limit outcome skipped pool_init s \<and> pool_done n s \<and> pool_list n s = rs) \<longleftrightarrow>
    possible n outcome skipped rs"
proof
  assume "\<exists>s. pool_run n limit outcome skipped pool_init s \<and> pool_done n s \<and> pool_list n s = rs"
  then obtain s where run: "pool_run n limit outcome skipped pool_init s" and fin: "pool_done n s" and rs: "pool_list n s = rs"
    by blast
  have inv: "pool_inv n limit outcome skipped s" by (rule pool_inv_run [OF run pool_inv_init])
  have "outcome i (rs ! i) \<or> skipped i (rs ! i)" if i: "i < n" for i
  proof -
    have "i \<in> dom (po_results s)" using inv fin i by (auto simp: pool_inv_def pool_done_def)
    then obtain r where "po_results s i = Some r" by blast
    moreover have "rs ! i = the (po_results s i)" using rs i by (auto simp: pool_list_def)
    ultimately show ?thesis using inv by (simp add: pool_inv_def)
  qed
  moreover have "length rs = n" using rs by (auto simp: pool_list_def)
  ultimately show "possible n outcome skipped rs" by (simp add: possible_def)
next
  assume p: "possible n outcome skipped rs"
  have "pool_list n (pool_after rs n) = rs"
    using p by (intro nth_equalityI) (simp_all add: pool_list_def pool_after_def possible_def)
  moreover have "pool_done n (pool_after rs n)" by (simp add: pool_done_def pool_after_def)
  ultimately show "\<exists>s. pool_run n limit outcome skipped pool_init s \<and> pool_done n s \<and> pool_list n s = rs"
    using pool_sequential [OF p assms, of n] by blast
qed

section \<open>Examples\<close>

text \<open>Two pipelines, the second skipped while the first runs.\<close>

definition two_options :: proposal_options where
  "two_options = \<lparr>op_timeout = 0, op_per_capability = 0, op_surface_limit = 0, op_concurrency = 1, op_candidate_limit = 0\<rparr>"

definition two_outcome :: "nat \<Rightarrow> string \<Rightarrow> bool" where
  "two_outcome i r \<longleftrightarrow> r = ''done''"

definition two_skipped :: "nat \<Rightarrow> string \<Rightarrow> bool" where
  "two_skipped i r \<longleftrightarrow> r = ''canceled''"

definition two_mid :: "string pool" where
  "two_mid = \<lparr>po_next = 2, po_running = {0}, po_results = (\<lambda>_. None)(1 \<mapsto> ''canceled'')\<rparr>"

lemma two_run: "pool_run 2 1 two_outcome two_skipped pool_init two_mid"
proof -
  let ?a = "\<lparr>po_next = 1, po_running = {0}, po_results = (\<lambda>_. None)\<rparr> :: string pool"
  have "pool_step 2 1 two_outcome two_skipped pool_init ?a"
    using pool_step.start [of "pool_init :: string pool" 2 1 two_outcome two_skipped] by (simp add: pool_init_def)
  moreover have "pool_step 2 1 two_outcome two_skipped ?a two_mid"
    using pool_step.skip [where s = ?a and n = 2 and limit = 1 and outcome = two_outcome and skipped = two_skipped
        and r = "''canceled''"]
    by (simp add: two_mid_def two_skipped_def numeral_2_eq_2)
  ultimately show ?thesis by (meson converse_rtranclp_into_rtranclp r_into_rtranclp)
qed

theorem pool_bounded_witness:
  "pool_limit (op_concurrency (proposal_normalizeOptions two_options)) 2 = 1 \<and> card (po_running two_mid) \<le> 1"
proof -
  have l: "pool_limit (op_concurrency (proposal_normalizeOptions two_options)) 2 = 1" by code_simp
  with pool_bounded [of 2 two_options two_outcome two_skipped two_mid] two_run show ?thesis by simp
qed

theorem pool_terminates_witness:
  "\<not> (pool_step 2 1 two_outcome two_skipped ^^ 5) pool_init two_mid \<and>
   (\<exists>t. pool_step 2 1 two_outcome two_skipped two_mid t)"
proof -
  have "\<forall>i<2. \<exists>r. two_outcome i r" by (simp add: two_outcome_def)
  moreover have "\<not> pool_done 2 two_mid" by (simp add: pool_done_def two_mid_def)
  ultimately show ?thesis
    using pool_terminates [where limit = 1 and n = 2 and outcome = two_outcome and skipped = two_skipped and k = 5
      and s = two_mid] two_run by auto
qed

theorem pool_results_witness:
  "\<exists>s. pool_run 2 1 two_outcome two_skipped pool_init s \<and> pool_done 2 s \<and> pool_list 2 s = [''done'', ''canceled'']"
proof -
  have "possible 2 two_outcome two_skipped [''done'', ''canceled'']"
    by (auto simp: possible_def two_outcome_def two_skipped_def less_Suc_eq numeral_2_eq_2)
  with pool_results [of 1 2 two_outcome two_skipped "[''done'', ''canceled'']"] show ?thesis by simp
qed

end
