(* ===== verification/Cal_Proposers.thy ===== *)
theory Cal_Proposers
  imports Cal_Proposal
begin

text \<open>
  The two proposers without a language model: \<^verbatim>\<open>internal/proposal/rules\<close>, deterministic rules over the
  usage text of a provider, and \<^verbatim>\<open>internal/proposal/replay\<close>, a recorded proposal read from a file.
  Both end in \<open>NormalizeResult\<close>; what they promise is the locale \<open>proposer\<close>.
\<close>

section \<open>Rules\<close>

abbreviation "capabilityDocumentConvert \<equiv> ''document.convert''"
abbreviation "capabilityImageResize \<equiv> ''image.resize''"

definition descriptionForCapability :: "string \<Rightarrow> string" where
  "descriptionForCapability cid =
     (if cid = capabilityDocumentConvert then ''Export or convert a document or text file into a PDF artifact.''
      else if cid = capabilityImageResize then ''Resize an image artifact to requested dimensions.''
      else ''Execute the observed provider capability '' @ cid @ ''.'')"

definition newCLICandidate :: "string \<Rightarrow> string \<Rightarrow> string \<Rightarrow> string list \<Rightarrow> string \<Rightarrow> candidate" where
  "newCLICandidate providerID cid description args source =
     \<lparr>cd_provider_id = trim_space providerID, cd_capability_id = cid, cd_description = description, cd_source = source,
      cd_provenance = None, cd_execution = \<lparr>ex_kind = kind_cli, ex_spec = [(spec_args, GStrs args)]\<rparr>, cd_created_at = []\<rparr>"

definition sipsImageResizeFromHelp :: "golib \<Rightarrow> string \<Rightarrow> string \<Rightarrow> candidate option" where
  "sipsImageResizeFromHelp L providerID txt =
     (let normalized = to_lower L txt in
      if \<not> contains ''sips'' normalized \<or> \<not> contains ''--resampleheightwidth'' normalized \<or> \<not> contains ''--out'' normalized
      then None
      else Some (newCLICandidate providerID capabilityImageResize (descriptionForCapability capabilityImageResize)
             [''-z'', ''{{height}}'', ''{{width}}'', ''{{source}}'', ''--out'', ''{{target}}''] ''rules:cli_help_sips_resize''))"

definition cupsfilterDocumentExportPDFFromHelp :: "golib \<Rightarrow> string \<Rightarrow> string \<Rightarrow> candidate option" where
  "cupsfilterDocumentExportPDFFromHelp L providerID txt =
     (let normalized = to_lower L txt in
      if \<not> contains ''cupsfilter'' normalized \<or> \<not> contains ''-i mime/type'' normalized
         \<or> \<not> contains ''-m mime/type'' normalized \<or> \<not> contains ''application/pdf'' normalized
      then None
      else (let c = newCLICandidate providerID capabilityDocumentConvert (descriptionForCapability capabilityDocumentConvert)
                  [''-i'', ''text/plain'', ''-m'', ''application/pdf'', ''{{source}}''] ''rules:cli_docs_cupsfilter_pdf''
            in Some (c\<lparr>cd_execution := (cd_execution c)\<lparr>ex_spec :=
                  put spec_stdout_path_input (GStr ''target'') (ex_spec (cd_execution c))\<rparr>\<rparr>)))"

definition markerFreeDocumentExportPDFFromHelp :: "golib \<Rightarrow> string \<Rightarrow> string \<Rightarrow> candidate option" where
  "markerFreeDocumentExportPDFFromHelp L providerID txt =
     (let normalized = to_lower L txt in
      if \<not> contains ''export-pdf'' normalized \<or> \<not> contains ''--source'' normalized \<or> \<not> contains ''--target'' normalized
      then None
      else Some (newCLICandidate providerID capabilityDocumentConvert (descriptionForCapability capabilityDocumentConvert)
             [''export-pdf'', ''--source'', ''{{source}}'', ''--target'', ''{{target}}''] ''rules:cli_help_document_convert''))"

text \<open>The markers found so far: capability, command, and whether each was seen.\<close>

record help_markers =
  hm_capability :: string
  hm_command :: string
  hm_has_capability :: bool
  hm_has_command :: bool

definition marker_line :: "string \<Rightarrow> help_markers \<Rightarrow> help_markers" where
  "marker_line line0 m =
     (let line = trim_space line0 in
      if has_prefix ''CAL_CAPABILITY '' line
      then m\<lparr>hm_has_capability := True, hm_capability := trim_space (trim_prefix ''CAL_CAPABILITY '' line)\<rparr>
      else if has_prefix ''CAL_COMMAND '' line
      then m\<lparr>hm_has_command := True, hm_command := trim_space (trim_prefix ''CAL_COMMAND '' line)\<rparr>
      else if line = ''CAL_COMMAND'' then m\<lparr>hm_has_command := True\<rparr>
      else m)"

definition parseHelpMarkers :: "string \<Rightarrow> help_markers" where
  "parseHelpMarkers txt = fold marker_line (split_char CHR 0x0A txt)
     \<lparr>hm_capability = [], hm_command = [], hm_has_capability = False, hm_has_command = False\<rparr>"

definition candidateFromHelp :: "golib \<Rightarrow> string \<Rightarrow> string \<Rightarrow> candidate option res" where
  "candidateFromHelp L providerID txt =
     (let m = parseHelpMarkers txt in
      if hm_has_capability m
      then (if \<not> hm_has_command m then Inr None
            else (let args = fields_acc [] (hm_command m) in
                  if args = [] then Inl (EText ''CAL_COMMAND marker is empty'')
                  else if \<not> ValidCapabilityID (hm_capability m)
                  then Inl (EText (''capability id '' @ quote L (hm_capability m) @ '' is invalid''))
                  else Inr (Some (newCLICandidate providerID (hm_capability m)
                         (descriptionForCapability (hm_capability m)) args ''rules:cli_help_marker''))))
      else (case sipsImageResizeFromHelp L providerID txt of
              Some c \<Rightarrow> Inr (Some c)
            | None \<Rightarrow>
                (case cupsfilterDocumentExportPDFFromHelp L providerID txt of
                   Some c \<Rightarrow> Inr (Some c)
                 | None \<Rightarrow> Inr (markerFreeDocumentExportPDFFromHelp L providerID txt))))"

definition probeInputs :: "string \<Rightarrow> ginputs" where
  "probeInputs cid =
     (if cid = capabilityImageResize
      then [(''source'', GStr ''{{workdir}}/input.png''), (''target'', GStr ''{{workdir}}/output.png''),
            (''width'', GInt 12), (''height'', GInt 8)]
      else [(''source'', GStr ''{{workdir}}/input.txt''), (''target'', GStr ''{{workdir}}/output.pdf'')])"

definition testPNGBase64 :: string where
  "testPNGBase64 = ''iVBORw0KGgoAAAANSUhEUgAAAAUAAAAFCAIAAAACDbGyAAAAFElEQVR4nGM8ceIEA27AhEduBEsDABUMAYuJ1HWoAAAAAElFTkSuQmCC''"

text \<open>\<^verbatim>\<open>mustDecodeString\<close> panics on a bad text; the constant is a good one.\<close>

definition mustDecodeString :: "string \<Rightarrow> string" where
  "mustDecodeString value = (case b64_decode value of Inr decoded \<Rightarrow> decoded | Inl e \<Rightarrow> [])"

definition probeFixtures :: "string \<Rightarrow> fixture list" where
  "probeFixtures cid =
     (if cid = capabilityDocumentConvert
      then [\<lparr>fx_input = ''source'', fx_filename = ''input.txt'', fx_content = ''cal probe input'' @ [CHR 0x0A]\<rparr>]
      else if cid = capabilityImageResize
      then [\<lparr>fx_input = ''source'', fx_filename = ''input.png'', fx_content = mustDecodeString testPNGBase64\<rparr>]
      else [])"

definition verifyForCapability :: "string \<Rightarrow> verify_spec" where
  "verifyForCapability cid =
     \<lparr>vf_level = L2, vf_method = method_execute,
      vf_checks = [\<lparr>vc_subject = \<lparr>vs_type = ''file'', vs_input = ''target''\<rparr>, vc_predicate = ''format'',
        vc_params = [(''format'', GStr (if cid = capabilityImageResize then ''png'' else ''pdf''))]\<rparr>]\<rparr>"

definition kept_stage :: "string \<Rightarrow> (candidate \<Rightarrow> string) \<Rightarrow> candidate list \<Rightarrow> proposal_stage" where
  "kept_stage name reason cs =
     \<lparr>ps_name = name,
      ps_items = map (\<lambda>c. \<lparr>pi_id = cd_capability_id c, pi_kind = ex_kind (cd_execution c), pi_name = cd_description c,
        pi_decision = decision_keep, pi_reason = reason c\<rparr>) cs,
      ps_summary = [(''raw'', length cs), (''keep'', length cs), (''selected'', length cs)], ps_duration_ms = 0\<rparr>"

definition rules_diagnostics :: "candidate list \<Rightarrow> proposal_trace" where
  "rules_diagnostics cs =
     \<lparr>pt_schema_version = ProposalSchemaVersion, pt_prompt_version = ''rules'', pt_model = ''rules'',
      pt_stages = [kept_stage stage_binding cd_source cs], pt_attempts = []\<rparr>"

definition resultFromCandidates :: "candidate list \<Rightarrow> proposal_result" where
  "resultFromCandidates cs =
     \<lparr>pr_candidates = cs,
      pr_plans = map (\<lambda>i. let cid = cd_capability_id (cs ! i) in
        \<lparr>pp_index = int i, pp_inputs = probeInputs cid, pp_fixtures = probeFixtures cid, pp_verify = verifyForCapability cid\<rparr>)
        [0..<length cs],
      pr_diagnostics = Some (rules_diagnostics cs)\<rparr>"

fun rules_candidates :: "golib \<Rightarrow> string \<Rightarrow> observation list \<Rightarrow> candidate list res" where
  "rules_candidates L providerID [] = Inr []"
| "rules_candidates L providerID (ob # obs) =
     (if ob_type ob \<noteq> ''cli_output'' then rules_candidates L providerID obs
      else (case str_at (ob_content ob) ''text'' of
              None \<Rightarrow> rules_candidates L providerID obs
            | Some txt \<Rightarrow>
                (case candidateFromHelp L providerID txt of
                   Inl e \<Rightarrow> Inl e
                 | Inr found \<Rightarrow>
                     (case rules_candidates L providerID obs of
                        Inl e \<Rightarrow> Inl e
                      | Inr cs \<Rightarrow> Inr ((case found of None \<Rightarrow> [] | Some c \<Rightarrow> [c]) @ cs)))))"

definition rules_propose :: "golib \<Rightarrow> proposal_request \<Rightarrow> proposal_result res" where
  "rules_propose L req =
     (case rules_candidates L (pv_id (the (lq_provider req))) (lq_observations req) of
        Inl e \<Rightarrow> Inl e
      | Inr cs \<Rightarrow>
          if cs = [] then Inl (EText ''rules proposal matched no observations'') else Inr (resultFromCandidates cs))"

definition rules_validate :: "unit option \<Rightarrow> proposal_request option \<Rightarrow> gerr option" where
  "rules_validate R req0 =
     (case R of
        None \<Rightarrow> Some (EText ''rules runner is required'')
      | Some _ \<Rightarrow>
          (case req0 of
             None \<Rightarrow> Some (EText ''proposal request is required'')
           | Some req \<Rightarrow>
               if (case lq_provider req of None \<Rightarrow> True | Some p \<Rightarrow> blank (pv_id p)) then Some (EText ''provider is required'')
               else None))"

text \<open>The end both runners share.\<close>

definition normalized_or_empty :: "golib \<Rightarrow> string \<Rightarrow> proposal_request \<Rightarrow> proposal_result \<Rightarrow> proposal_result outcome" where
  "normalized_or_empty L what req result =
     (case NormalizeResult L (Some result) \<lparr>no_provider_id = pv_id (the (lq_provider req)), no_limit = 0\<rparr> of
        Inl e \<Rightarrow> (None, Some e)
      | Inr r \<Rightarrow>
          if pr_candidates r = [] then (Some r, Some (EText (what @ '' proposal produced no matching candidates'')))
          else (Some r, None))"

definition rules_Run :: "golib \<Rightarrow> unit option \<Rightarrow> env \<Rightarrow> proposal_request option \<Rightarrow> ('s world, proposal_result outcome) state" where
  "rules_Run L R E req0 =
     (case rules_validate R req0 of
        Some e \<Rightarrow> ret (None, Some e)
      | None \<Rightarrow> do {
          c \<leftarrow> ctx_err E;
          ret (case c of
                 Some e \<Rightarrow> (None, Some e)
               | None \<Rightarrow>
                   (case rules_propose L (the req0) of
                      Inl e \<Rightarrow> (None, Some e)
                    | Inr result \<Rightarrow> normalized_or_empty L ''rules'' (the req0) result))})"

section \<open>Replay\<close>

record replay_metadata =
  md_source :: string
  md_prompt_version :: string
  md_model :: string
  md_schema_version :: string

record replay_file =
  rf_metadata :: replay_metadata
  rf_candidates :: "candidate list"
  rf_plans :: "probe_plan list"

definition metadataSource :: "replay_metadata \<Rightarrow> string" where
  "metadataSource meta = (if blank (md_source meta) then ''replay'' else trim_space (md_source meta))"

definition metadataSchema :: "replay_metadata \<Rightarrow> string" where
  "metadataSchema meta = (if blank (md_schema_version meta) then ProposalSchemaVersion else trim_space (md_schema_version meta))"

definition validateFile :: "golib \<Rightarrow> replay_file \<Rightarrow> gerr option" where
  "validateFile L f =
     (let schema = trim_space (md_schema_version (rf_metadata f)) in
      if schema \<noteq> [] \<and> schema \<noteq> ProposalSchemaVersion
      then Some (EText (''unsupported replay schema version '' @ quote L schema))
      else if rf_candidates f = [] then Some (EText ''replay proposal has no candidates'')
      else if rf_plans f = [] then Some (EText ''replay proposal has no probe plans'')
      else None)"

definition replay_normalizeCandidate :: "golib \<Rightarrow> candidate \<Rightarrow> string \<Rightarrow> replay_metadata \<Rightarrow> string \<Rightarrow> candidate res" where
  "replay_normalizeCandidate L c0 providerID meta hash =
     (let c = c0\<lparr>cd_provider_id := trim_space providerID, cd_capability_id := trim_space (cd_capability_id c0),
            cd_description := trim_space (cd_description c0), cd_source := ''proposal:replay'',
            cd_execution := (cd_execution c0)\<lparr>ex_kind := trim_space (ex_kind (cd_execution c0))\<rparr>,
            cd_provenance := Some \<lparr>po_source = metadataSource meta, po_prompt_version = trim_space (md_prompt_version meta),
              po_model = trim_space (md_model meta), po_schema_version = trim_space (md_schema_version meta),
              po_proposal_hash = hash\<rparr>\<rparr>
      in if cd_provider_id c = [] then Inl (EText ''provider id is required'')
         else if \<not> ValidCapabilityID (cd_capability_id c)
         then Inl (EText (''capability id '' @ quote L (cd_capability_id c) @ '' is invalid''))
         else if cd_description c = [] then Inl (EText ''description is required'')
         else if \<not> validExecutionKind (ex_kind (cd_execution c))
         then Inl (EText (''execution kind '' @ quote L (ex_kind (cd_execution c)) @ '' is invalid''))
         else (case CanonicalExecution L (cd_execution c) of Inl e \<Rightarrow> Inl e | Inr _ \<Rightarrow> Inr c))"

definition replay_validVerifyLevel :: "string \<Rightarrow> bool" where
  "replay_validVerifyLevel level = (level = L1 \<or> level = L2 \<or> level = L3)"

definition validateProbePlan :: "golib \<Rightarrow> probe_plan \<Rightarrow> nat \<Rightarrow> gerr option" where
  "validateProbePlan L p candidates =
     (let v = pp_verify p in
      if pp_index p < 0 \<or> int candidates \<le> pp_index p
      then Some (EText (''candidate_index '' @ itoa (pp_index p) @ '' is out of range''))
      else if \<not> replay_validVerifyLevel (vf_level v) then Some (EText (''verify level '' @ quote L (vf_level v) @ '' is invalid''))
      else if \<not> validVerifyMethod (vf_method v) then Some (EText (''verify method '' @ quote L (vf_method v) @ '' is invalid''))
      else if vf_method v = method_execute \<and> vf_checks v = [] then Some (EText ''execute verify requires checks'')
      else None)"

definition replay_diagnostics :: "replay_metadata \<Rightarrow> string \<Rightarrow> candidate list \<Rightarrow> proposal_trace" where
  "replay_diagnostics meta hash cs =
     \<lparr>pt_schema_version = metadataSchema meta, pt_prompt_version = trim_space (md_prompt_version meta),
      pt_model = trim_space (md_model meta), pt_stages = [kept_stage stage_binding (\<lambda>_. ''proposal:replay'') cs],
      pt_attempts = [zero_attempt\<lparr>pa_stage := stage_binding, pa_status := attempt_succeeded, pa_raw_response := hash\<rparr>]\<rparr>"

fun replay_candidates :: "golib \<Rightarrow> string \<Rightarrow> replay_metadata \<Rightarrow> string \<Rightarrow> nat \<Rightarrow> candidate list \<Rightarrow> candidate list res" where
  "replay_candidates L providerID meta hash index [] = Inr []"
| "replay_candidates L providerID meta hash index (c # cs) =
     (case replay_normalizeCandidate L c providerID meta hash of
        Inl e \<Rightarrow> Inl (EWrap (''candidate '' @ nat_text index @ '': '') e [])
      | Inr d \<Rightarrow>
          (case replay_candidates L providerID meta hash (Suc index) cs of Inl e \<Rightarrow> Inl e | Inr ds \<Rightarrow> Inr (d # ds)))"

fun replay_plans_err :: "golib \<Rightarrow> nat \<Rightarrow> nat \<Rightarrow> probe_plan list \<Rightarrow> gerr option" where
  "replay_plans_err L n index [] = None"
| "replay_plans_err L n index (p # ps) =
     (case validateProbePlan L p n of
        Some e \<Rightarrow> Some (EWrap (''probe_plan '' @ nat_text index @ '': '') e [])
      | None \<Rightarrow> replay_plans_err L n (Suc index) ps)"

definition replay_parse :: "golib \<Rightarrow> (string \<Rightarrow> replay_file res) \<Rightarrow> string \<Rightarrow> string \<Rightarrow> proposal_result res" where
  "replay_parse L decode content providerID =
     (case decode content of
        Inl e \<Rightarrow> Inl (EWrap ''decode replay proposal: '' e [])
      | Inr f \<Rightarrow>
          (case validateFile L f of
             Some e \<Rightarrow> Inl e
           | None \<Rightarrow>
               (let hash = sha256_hex L content in
                case replay_candidates L providerID (rf_metadata f) hash 0 (rf_candidates f) of
                  Inl e \<Rightarrow> Inl e
                | Inr cs \<Rightarrow>
                    (case replay_plans_err L (length (rf_candidates f)) 0 (rf_plans f) of
                       Some e \<Rightarrow> Inl e
                     | None \<Rightarrow> Inr \<lparr>pr_candidates = cs, pr_plans = rf_plans f,
                         pr_diagnostics = Some (replay_diagnostics (rf_metadata f) hash cs)\<rparr>))))"

text \<open>A runner is its path; \<^verbatim>\<open>os.ReadFile\<close> is an operation of the state.\<close>

definition replay_validate :: "string option \<Rightarrow> proposal_request option \<Rightarrow> gerr option" where
  "replay_validate R req0 =
     (case R of
        None \<Rightarrow> Some (EText ''replay runner is required'')
      | Some path \<Rightarrow>
          if blank path then Some (EText ''replay proposal path is required'')
          else (case req0 of
                  None \<Rightarrow> Some (EText ''proposal request is required'')
                | Some req \<Rightarrow>
                    if (case lq_provider req of None \<Rightarrow> True | Some p \<Rightarrow> blank (pv_id p))
                    then Some (EText ''provider is required'') else None))"

definition replay_Run ::
    "golib \<Rightarrow> (string \<Rightarrow> replay_file res) \<Rightarrow> (string \<Rightarrow> ('s, string res) state) \<Rightarrow> string option \<Rightarrow> env
      \<Rightarrow> proposal_request option \<Rightarrow> ('s world, proposal_result outcome) state" where
  "replay_Run L decode read_file R E req0 =
     (case replay_validate R req0 of
        Some e \<Rightarrow> ret (None, Some e)
      | None \<Rightarrow> do {
          c \<leftarrow> ctx_err E;
          (case c of
             Some e \<Rightarrow> ret (None, Some e)
           | None \<Rightarrow> do {
               content \<leftarrow> call (read_file (trim_space (the R)));
               (case content of
                  Inl e \<Rightarrow> ret (None, Some (EWrap ''read replay proposal: '' e []))
                | Inr txt \<Rightarrow> do {
                    d \<leftarrow> ctx_err E;
                    ret (case d of
                           Some e \<Rightarrow> (None, Some e)
                         | None \<Rightarrow>
                             (case replay_parse L decode txt (pv_id (the (lq_provider (the req0)))) of
                                Inl e \<Rightarrow> (None, Some e)
                              | Inr result \<Rightarrow> normalized_or_empty L ''replay'' (the req0) result))})})})"

section \<open>What a proposer promises\<close>

text \<open>
  A result without an error has candidates, all of the requested provider, with their plans in
  order; a result is never empty beside no error, and there are no events.
\<close>

definition nonempty_proposal :: "golib \<Rightarrow> proposal_request option \<Rightarrow> proposal_result outcome \<Rightarrow> bool" where
  "nonempty_proposal L req0 r \<longleftrightarrow>
     (case r of
        (Some res, None) \<Rightarrow> req0 \<noteq> None \<and> pr_candidates res \<noteq> [] \<and>
          normalized L \<lparr>no_provider_id = pv_id (the (lq_provider (the req0))), no_limit = 0\<rparr> res
      | (None, None) \<Rightarrow> False
      | (_, Some e) \<Rightarrow> True)"

locale proposer =
  fixes L :: golib and propose :: "env \<Rightarrow> proposal_request option \<Rightarrow> ('s world, proposal_result outcome) state"
  assumes propose_law: "wp (propose E req) (\<lambda>r v. w_events v = w_events w \<and> nonempty_proposal L req r) w"
begin

lemma propose_quiet: "quiet (propose E req)"
  by (rule quietI) (rule wp_mono [OF propose_law], simp)

lemma propose_candidates:
  assumes "run_state (propose E (Some req)) w = ((Some res, None), v)"
  shows "pr_candidates res \<noteq> [] \<and> (\<forall>c\<in>set (pr_candidates res).
    pv_id (the (lq_provider req)) = [] \<or> cd_provider_id c = pv_id (the (lq_provider req)))"
  using wp_run [OF propose_law assms] by (auto simp: nonempty_proposal_def normalized_def list_all_iff)

end

lemma normalized_or_empty_ok: "nonempty_proposal L (Some req) (normalized_or_empty L what req result)"
proof (cases "NormalizeResult L (Some result) \<lparr>no_provider_id = pv_id (the (lq_provider req)), no_limit = 0\<rparr>")
  case (Inr r)
  then have "selectResult L (Some result) \<lparr>no_provider_id = pv_id (the (lq_provider req)), no_limit = 0\<rparr> = Inr r"
    by (simp add: NormalizeResult_select)
  from selectResult_inv [OF this] have "normalized L \<lparr>no_provider_id = pv_id (the (lq_provider req)), no_limit = 0\<rparr> r"
    by (auto simp: select_inv_def)
  with Inr show ?thesis by (simp add: normalized_or_empty_def nonempty_proposal_def)
qed (simp add: normalized_or_empty_def nonempty_proposal_def)

interpretation rules: proposer L "rules_Run L R"
  for L :: golib and R
proof unfold_locales
  fix E req and w :: "'s world"
  show "wp (rules_Run L R E req) (\<lambda>r v. w_events v = w_events w \<and> nonempty_proposal L req r) w"
  proof (cases "rules_validate R req")
    case None
    then obtain q where "req = Some q" by (auto simp: rules_validate_def split: option.splits)
    with None show ?thesis
      by (auto simp: rules_Run_def wp_simps normalized_or_empty_ok split: option.split sum.split)
        (simp_all add: nonempty_proposal_def)
  qed (simp add: rules_Run_def wp_return nonempty_proposal_def)
qed

interpretation replay: proposer L "replay_Run L decode read_file R"
  for L :: golib and decode and read_file :: "string \<Rightarrow> ('s, string res) state" and R
proof unfold_locales
  fix E req and w :: "'s world"
  show "wp (replay_Run L decode read_file R E req) (\<lambda>r v. w_events v = w_events w \<and> nonempty_proposal L req r) w"
  proof (cases "replay_validate R req")
    case None
    then obtain q where "req = Some q" by (auto simp: replay_validate_def split: option.splits if_splits)
    with None show ?thesis
      by (auto simp: replay_Run_def wp_simps normalized_or_empty_ok intro!: wp_any split: option.split sum.split)
        (simp_all add: nonempty_proposal_def)
  qed (simp add: replay_Run_def wp_return nonempty_proposal_def)
qed

section \<open>The plans of the rules can be probed\<close>

text \<open>
  A plan is ready when the checker accepts its specification, its checks read an input the plan
  has, and each fixture is written where the input of its name points to.
\<close>

definition plan_ready :: "golib \<Rightarrow> probe_plan \<Rightarrow> bool" where
  "plan_ready L p \<longleftrightarrow> check_Validate L (Some (pp_verify p)) = None \<and> vf_checks (pp_verify p) \<noteq> [] \<and>
     list_all (\<lambda>chk. map_of (pp_inputs p) (vs_input (vc_subject chk)) \<noteq> None) (vf_checks (pp_verify p)) \<and>
     list_all (\<lambda>f. map_of (pp_inputs p) (fx_input f) = Some (GStr (''{{workdir}}/'' @ fx_filename f))) (pp_fixtures p)"

lemma format_check_valid: "x = ''png'' \<or> x = ''pdf'' \<Longrightarrow>
  check_Validate L (Some \<lparr>vf_level = L2, vf_method = method_execute,
      vf_checks = [\<lparr>vc_subject = \<lparr>vs_type = ''file'', vs_input = ''target''\<rparr>, vc_predicate = ''format'',
        vc_params = [(''format'', GStr x)]\<rparr>]\<rparr>) = None"
  by (elim disjE; simp; code_simp)

lemma rules_plan_ready: "plan_ready L \<lparr>pp_index = n, pp_inputs = probeInputs cid, pp_fixtures = probeFixtures cid,
    pp_verify = verifyForCapability cid\<rparr>"
  by (auto simp: plan_ready_def verifyForCapability_def format_check_valid probeInputs_def probeFixtures_def)

lemma kept_plan_ready:
  assumes "plan_kept cs (pr_plans (resultFromCandidates cs)) (c, p)"
  shows "plan_ready L p"
proof -
  from assms obtain i q where "q \<in> set (pr_plans (resultFromCandidates cs))" and p: "p = q\<lparr>pp_index := pp_index p\<rparr>"
    by (auto simp: plan_kept_def)
  then have "plan_ready L q" by (auto simp: resultFromCandidates_def Let_def rules_plan_ready)
  then show ?thesis by (subst p) (simp add: plan_ready_def)
qed

lemma normalized_plans_ready:
  assumes "fst (normalized_or_empty L what req (resultFromCandidates cs)) = Some r"
  shows "length (pr_plans r) = length (pr_candidates r) \<and> list_all (plan_ready L) (pr_plans r)"
proof -
  let ?opts = "\<lparr>no_provider_id = pv_id (the (lq_provider req)), no_limit = 0\<rparr>"
  from assms have "selectResult L (Some (resultFromCandidates cs)) ?opts = Inr r"
    by (auto simp: normalized_or_empty_def NormalizeResult_select split: sum.splits if_splits)
  from selectResult_inv [OF this] have n: "normalized L ?opts r"
    and k: "list_all (plan_kept cs (pr_plans (resultFromCandidates cs))) (zip (pr_candidates r) (pr_plans r))"
    by (auto simp: select_inv_def resultFromCandidates_def)
  from n have len: "length (pr_plans r) = length (pr_candidates r)"
    unfolding normalized_def by (elim conjE) (metis length_map length_upt minus_nat.diff_0)
  have "plan_ready L p" if "p \<in> set (pr_plans r)" for p
  proof -
    from that len obtain c where "(c, p) \<in> set (zip (pr_candidates r) (pr_plans r))"
      by (metis in_set_impl_in_set_zip2)
    with k show ?thesis by (auto simp: list_all_iff dest: kept_plan_ready)
  qed
  with len show ?thesis by (simp add: list_all_iff)
qed

lemma wp_rules_ready:
  "wp (rules_Run L R E req) (\<lambda>r v. \<forall>res. fst r = Some res \<longrightarrow>
     length (pr_plans res) = length (pr_candidates res) \<and> list_all (plan_ready L) (pr_plans res)) w"
  by (cases "rules_validate R req")
    (auto simp: rules_Run_def wp_simps rules_propose_def split: option.splits sum.splits
      dest: normalized_plans_ready)

text \<open>
  A proposal of the rules can be probed: there is a plan for each candidate, the checker accepts
  the specification of each plan, the files its checks read are inputs of the plan, and each
  fixture is written exactly where the input of its name points to.
\<close>

theorem rules_probeable:
  assumes "run_state (rules_Run L R E req) w = ((Some res, err), v)"
  shows "length (pr_plans res) = length (pr_candidates res) \<and> list_all (plan_ready L) (pr_plans res)"
  using wp_run [OF wp_rules_ready assms] by simp

definition cupsfilter_help :: string where
  "cupsfilter_help = ''cupsfilter [ -i mime/type ] [ -m mime/type ] filename (default application/pdf)''"

definition cupsfilter_request :: proposal_request where
  "cupsfilter_request = demo_proposal_request\<lparr>lq_observations :=
     [\<lparr>ob_provider_id = ''p'', ob_type = ''cli_output'', ob_source = ''help'', ob_content = [(''text'', GStr cupsfilter_help)],
       ob_error = None, ob_created_at = []\<rparr>]\<rparr>"

definition rules_demo :: "proposal_result outcome" where
  "rules_demo = fst (run_state (rules_Run plain_lib (Some ()) demo_env (Some cupsfilter_request))
     \<lparr>w_tick = 0, w_events = [], w_ext = ()\<rparr>)"

lemma cupsfilter_propose: "case rules_propose plain_lib cupsfilter_request of
    Inr res \<Rightarrow> map cd_source (pr_candidates res) = [''rules:cli_docs_cupsfilter_pdf''] | Inl e \<Rightarrow> False"
  by code_simp

lemma rules_demo_found: "map_option (\<lambda>res. map cd_source (pr_candidates res)) (fst rules_demo) = Some [''rules:cli_docs_cupsfilter_pdf'']"
  by code_simp

theorem rules_probeable_witness:
  "\<exists>res err v. run_state (rules_Run plain_lib (Some ()) demo_env (Some cupsfilter_request))
       \<lparr>w_tick = 0, w_events = [], w_ext = ()\<rparr> = ((Some res, err), v) \<and>
     map cd_source (pr_candidates res) = [''rules:cli_docs_cupsfilter_pdf''] \<and>
     length (pr_plans res) = length (pr_candidates res) \<and> list_all (plan_ready plain_lib) (pr_plans res)"
proof -
  obtain out v where run: "run_state (rules_Run plain_lib (Some ()) demo_env (Some cupsfilter_request))
       \<lparr>w_tick = 0, w_events = [], w_ext = ()\<rparr> = (out, v)" by fastforce
  then have "rules_demo = out" by (simp add: rules_demo_def)
  from rules_demo_found [unfolded this] obtain res where "fst out = Some res"
    and src: "map cd_source (pr_candidates res) = [''rules:cli_docs_cupsfilter_pdf'']"
    unfolding map_option_eq_Some by (elim exE conjE) (rule that)
  then have out: "out = (Some res, snd out)" by (simp add: prod_eq_iff)
  with run have run': "run_state (rules_Run plain_lib (Some ()) demo_env (Some cupsfilter_request))
       \<lparr>w_tick = 0, w_events = [], w_ext = ()\<rparr> = ((Some res, snd out), v)" by simp
  show ?thesis by (intro exI conjI, rule run', rule src, rule conjunct1 [OF rules_probeable [OF run']],
      rule conjunct2 [OF rules_probeable [OF run']])
qed

section \<open>What a replayed file contributes\<close>

text \<open>The candidate is one of the file, brought to the active provider and stamped with the digest of the file.\<close>

definition replayed_from :: "golib \<Rightarrow> string \<Rightarrow> replay_file \<Rightarrow> string \<Rightarrow> candidate \<Rightarrow> bool" where
  "replayed_from L providerID f hash c \<longleftrightarrow>
     (\<exists>d\<in>set (rf_candidates f). replay_normalizeCandidate L d providerID (rf_metadata f) hash = Inr c) \<and>
     ValidCapabilityID (cd_capability_id c) \<and> validExecutionKind (ex_kind (cd_execution c)) \<and>
     cd_provenance c \<noteq> None \<and> po_proposal_hash (the (cd_provenance c)) = hash"

lemma replay_candidate_from:
  "replay_normalizeCandidate L d providerID meta hash = Inr c \<Longrightarrow>
    ValidCapabilityID (cd_capability_id c) \<and> validExecutionKind (ex_kind (cd_execution c)) \<and>
    cd_provenance c \<noteq> None \<and> po_proposal_hash (the (cd_provenance c)) = hash"
  by (auto simp: replay_normalizeCandidate_def Let_def split: if_splits sum.splits)

lemma replay_candidates_from:
  "replay_candidates L providerID meta hash index ds = Inr cs \<Longrightarrow>
    list_all2 (\<lambda>d c. replay_normalizeCandidate L d providerID meta hash = Inr c) ds cs"
  by (induction ds arbitrary: index cs) (auto split: sum.splits)

lemma replay_parse_from:
  assumes "replay_parse L decode content providerID = Inr r"
  shows "\<exists>f. decode content = Inr f \<and> pr_plans r = rf_plans f \<and>
    list_all (replayed_from L providerID f (sha256_hex L content)) (pr_candidates r)"
proof -
  from assms obtain f where f: "decode content = Inr f" and plans: "pr_plans r = rf_plans f"
    and cs: "replay_candidates L providerID (rf_metadata f) (sha256_hex L content) 0 (rf_candidates f) = Inr (pr_candidates r)"
    by (auto simp: replay_parse_def Let_def split: sum.splits option.splits)
  have "replayed_from L providerID f (sha256_hex L content) c" if "c \<in> set (pr_candidates r)" for c
  proof -
    from replay_candidates_from [OF cs] that obtain d where d: "d \<in> set (rf_candidates f)"
      and "replay_normalizeCandidate L d providerID (rf_metadata f) (sha256_hex L content) = Inr c"
      unfolding list_all2_conv_all_nth in_set_conv_nth by metis
    with replay_candidate_from [OF this(2)] show ?thesis by (auto simp: replayed_from_def)
  qed
  with f plans show ?thesis by (auto simp: list_all_iff)
qed

text \<open>The selected result of a file: its candidates come from the file, its plans are those of the file re-indexed.\<close>

definition replay_of :: "golib \<Rightarrow> string \<Rightarrow> replay_file \<Rightarrow> string \<Rightarrow> proposal_result \<Rightarrow> bool" where
  "replay_of L providerID f hash r \<longleftrightarrow>
     list_all (replayed_from L providerID f hash) (pr_candidates r) \<and>
     list_all (\<lambda>p. \<exists>q\<in>set (rf_plans f). p = q\<lparr>pp_index := pp_index p\<rparr>) (pr_plans r) \<and>
     map pp_index (pr_plans r) = map int [0..<length (pr_candidates r)]"

lemma normalized_replay_of:
  assumes "fst (normalized_or_empty L what req result) = Some r" and "pr_plans result = rf_plans f"
    and "list_all (replayed_from L providerID f hash) (pr_candidates result)"
  shows "replay_of L providerID f hash r"
proof -
  let ?opts = "\<lparr>no_provider_id = pv_id (the (lq_provider req)), no_limit = 0\<rparr>"
  from assms(1) have "selectResult L (Some result) ?opts = Inr r"
    by (auto simp: normalized_or_empty_def NormalizeResult_select split: sum.splits if_splits)
  from selectResult_inv [OF this] have n: "normalized L ?opts r" and sub: "subseq (pr_candidates r) (pr_candidates result)"
    and k: "list_all (plan_kept (pr_candidates result) (pr_plans result)) (zip (pr_candidates r) (pr_plans r))"
    by (auto simp: select_inv_def)
  from n have ix: "map pp_index (pr_plans r) = map int [0..<length (pr_candidates r)]"
    unfolding normalized_def by (elim conjE)
  then have len: "length (pr_plans r) = length (pr_candidates r)"
    by (metis length_map length_upt minus_nat.diff_0)
  have "\<exists>q\<in>set (rf_plans f). p = q\<lparr>pp_index := pp_index p\<rparr>" if "p \<in> set (pr_plans r)" for p
  proof -
    from that len obtain c where "(c, p) \<in> set (zip (pr_candidates r) (pr_plans r))"
      by (metis in_set_impl_in_set_zip2)
    with k assms(2) show ?thesis by (fastforce simp: list_all_iff plan_kept_def)
  qed
  moreover have "set (pr_candidates r) \<subseteq> set (pr_candidates result)"
    using sub by (auto dest: list_emb_set)
  ultimately show ?thesis using assms(3) ix by (auto simp: replay_of_def list_all_iff)
qed

definition replay_source ::
    "golib \<Rightarrow> (string \<Rightarrow> replay_file res) \<Rightarrow> (string \<Rightarrow> ('s, string res) state) \<Rightarrow> string option
      \<Rightarrow> proposal_request option \<Rightarrow> proposal_result \<Rightarrow> bool" where
  "replay_source L decode read_file R req res \<longleftrightarrow>
     (\<exists>s s' content f. run_state (read_file (trim_space (the R))) s = (Inr content, s') \<and> decode content = Inr f \<and>
        replay_of L (pv_id (the (lq_provider (the req)))) f (sha256_hex L content) res)"

lemma wp_self: "(\<And>a t. run_state m s = (a, t) \<Longrightarrow> Q a t) \<Longrightarrow> wp m Q s"
  by (simp add: wp_def split: prod.splits)

lemma wp_replay_source:
  "wp (replay_Run L decode read_file R E req)
     (\<lambda>r v. \<forall>res. fst r = Some res \<longrightarrow> replay_source L decode read_file R req res) w"
proof (cases "replay_validate R req")
  case None
  have fin: "replay_source L decode read_file R req res"
    if "run_state (read_file (trim_space (the R))) s = (Inr content, s')"
      and "replay_parse L decode content (pv_id (the (lq_provider (the req)))) = Inr result"
      and "fst (normalized_or_empty L ''replay'' (the req) result) = Some res" for s s' content result res
    using replay_parse_from [OF that(2)] normalized_replay_of [OF that(3)] that(1)
    unfolding replay_source_def by blast
  from None show ?thesis
    by (auto simp: replay_Run_def wp_simps intro!: wp_self split: option.split sum.split intro: fin)
qed (simp add: replay_Run_def wp_return)

text \<open>
  A replayed proposal comes from the file that was read: every candidate is a candidate of the
  file normalized for the active provider, with a valid id and execution kind and stamped with the
  digest of the whole text; every plan is a plan of the file, re-indexed to its candidate.
\<close>

theorem replay_faithful:
  assumes "run_state (replay_Run L decode read_file R E req) w = ((Some res, err), v)"
  shows "replay_source L decode read_file R req res"
  using wp_run [OF wp_replay_source assms] by simp

definition replay_demo_file :: replay_file where
  "replay_demo_file = \<lparr>rf_metadata = \<lparr>md_source = [], md_prompt_version = ''v'', md_model = ''m'', md_schema_version = []\<rparr>,
     rf_candidates = [sample_candidate ''other'' '' a.b ''], rf_plans = [sample_plan 0]\<rparr>"

definition replay_demo :: "proposal_result outcome" where
  "replay_demo = fst (run_state (replay_Run plain_lib (\<lambda>_. Inr replay_demo_file) (\<lambda>_. ret (Inr ''{}'')) (Some ''/f'') demo_env
     (Some demo_proposal_request)) \<lparr>w_tick = 0, w_events = [], w_ext = ()\<rparr>)"

lemma replay_demo_found:
  "map_option (\<lambda>res. map (\<lambda>c. (cd_provider_id c, cd_capability_id c)) (pr_candidates res)) (fst replay_demo) =
    Some [(''p'', ''a.b'')]"
  by code_simp

theorem replay_faithful_witness:
  "\<exists>res err v. run_state (replay_Run plain_lib (\<lambda>_. Inr replay_demo_file) (\<lambda>_. ret (Inr ''{}'')) (Some ''/f'') demo_env
       (Some demo_proposal_request)) \<lparr>w_tick = 0, w_events = [], w_ext = ()\<rparr> = ((Some res, err), v) \<and>
     map (\<lambda>c. (cd_provider_id c, cd_capability_id c)) (pr_candidates res) = [(''p'', ''a.b'')] \<and>
     replay_source plain_lib (\<lambda>_. Inr replay_demo_file) (\<lambda>_. ret (Inr ''{}'') :: (unit, string res) state) (Some ''/f'')
       (Some demo_proposal_request) res"
proof -
  obtain out v where run: "run_state (replay_Run plain_lib (\<lambda>_. Inr replay_demo_file) (\<lambda>_. ret (Inr ''{}'')) (Some ''/f'')
       demo_env (Some demo_proposal_request)) \<lparr>w_tick = 0, w_events = [], w_ext = ()\<rparr> = (out, v)" by fastforce
  then have "replay_demo = out" by (simp add: replay_demo_def)
  from replay_demo_found [unfolded this] obtain res where "fst out = Some res"
    and found: "map (\<lambda>c. (cd_provider_id c, cd_capability_id c)) (pr_candidates res) = [(''p'', ''a.b'')]"
    unfolding map_option_eq_Some by (elim exE conjE) (rule that)
  then have "out = (Some res, snd out)" by (simp add: prod_eq_iff)
  with run have run': "run_state (replay_Run plain_lib (\<lambda>_. Inr replay_demo_file) (\<lambda>_. ret (Inr ''{}'')) (Some ''/f'')
       demo_env (Some demo_proposal_request)) \<lparr>w_tick = 0, w_events = [], w_ext = ()\<rparr> = ((Some res, snd out), v)" by simp
  show ?thesis by (intro exI conjI, rule run', rule found, rule replay_faithful [OF run'])
qed

end
