(* ===== verification/Cal_Select.thy ===== *)
theory Cal_Select
  imports Cal_Run Cal_Stage
begin

text \<open>
  \<^verbatim>\<open>internal/use/select\<close>: the choice of a promoted binding for an intent. Candidates are scored by
  the words they share with the intent and sorted; the best one is taken locally, or a language
  model chooses among the first five and may add inputs, which are checked here.
\<close>

section \<open>Requests and results\<close>

record select_request =
  tq_intent :: string
  tq_inputs :: ginputs
  tq_provider_id :: string
  tq_force_llm :: bool
  tq_min_level :: string
  tq_capabilities :: "capability list"
  tq_commands :: "(string, string) gomap"

record selection =
  sl_source :: string
  sl_capability_id :: string
  sl_binding_id :: string
  sl_provider_id :: string
  sl_required :: "string list"
  sl_patch :: ginputs
  sl_reason :: string
  sl_considered :: nat

record llm_request =
  lm_system :: string
  lm_user :: string
  lm_json :: bool

record 's select_runner =
  sn_client :: "('s, llm_request) llm_client option"
  sn_top_k :: nat

definition select_NewRunner :: "('s, llm_request) llm_client option \<Rightarrow> 's select_runner" where
  "select_NewRunner client = \<lparr>sn_client = client, sn_top_k = 5\<rparr>"

abbreviation "CodeNoMatch \<equiv> ''no_match''"
abbreviation "CodeAmbiguous \<equiv> ''ambiguous''"
abbreviation "CodeLLMSelectionFailed \<equiv> ''llm_selection_failed''"
abbreviation "CodeInvalidLLMSelection \<equiv> ''invalid_llm_selection''"

section \<open>Candidates\<close>

record scored =
  sd_capability :: capability
  sd_binding :: binding
  sd_required :: "string list"
  sd_missing :: "string list"
  sd_score :: int

text \<open>The matches of \<^verbatim>\<open>[a-z0-9]+\<close>, longest first from the left; \<open>acc\<close> is the run being read, reversed.\<close>

definition token_char :: "char \<Rightarrow> bool" where
  "token_char c \<longleftrightarrow> byte_in 0x61 0x7A c \<or> byte_in 0x30 0x39 c"

fun token_runs :: "string \<Rightarrow> string \<Rightarrow> string list" where
  "token_runs acc [] = (if acc = [] then [] else [rev acc])"
| "token_runs acc (c # s) =
     (if token_char c then token_runs (c # acc) s
      else if acc = [] then token_runs [] s else rev acc # token_runs [] s)"

definition tokenize :: "golib \<Rightarrow> string \<Rightarrow> string list" where
  "tokenize L txt = remdups (token_runs [] (to_lower L txt))"

definition shared_tokens :: "golib \<Rightarrow> string \<Rightarrow> string \<Rightarrow> nat" where
  "shared_tokens L intent txt = length (filter (\<lambda>t. t \<in> set (tokenize L intent)) (tokenize L txt))"

definition intentScore :: "golib \<Rightarrow> string \<Rightarrow> capability \<Rightarrow> int" where
  "intentScore L intent c =
     4 * int (shared_tokens L intent (cp_id c)) + 2 * int (shared_tokens L intent (cp_description c))"

definition select_minLevel :: "select_request \<Rightarrow> string" where
  "select_minLevel req = (if tq_min_level req = [] then L2 else tq_min_level req)"

text \<open>\<open>missingInputs\<close> is the function of the formal runner, which this package repeats.\<close>

definition scoreBinding :: "golib \<Rightarrow> select_request \<Rightarrow> capability \<Rightarrow> binding \<Rightarrow> scored option" where
  "scoreBinding L req c b =
     (if bd_state b \<noteq> state_promoted then None
      else if \<not> blank (tq_provider_id req) \<and> bd_provider_id b \<noteq> trim_space (tq_provider_id req) then None
      else if (case bd_verify b of None \<Rightarrow> True
               | Some v \<Rightarrow> VerifyLevelRank (vf_level v) < VerifyLevelRank (select_minLevel req)) then None
      else (case RequiredInputs (Some (bd_execution b)) of
              Inl e \<Rightarrow> None
            | Inr required \<Rightarrow>
                if intentScore L (tq_intent req) c = 0 then None
                else (let missing = missingInputs required (tq_inputs req) in
                  Some \<lparr>sd_capability = c, sd_binding = b, sd_required = required, sd_missing = missing,
                    sd_score = intentScore L (tq_intent req) c + (int (length required) - int (length missing))
                      + (if blank (tq_provider_id req) then 0 else 4)\<rparr>)))"

definition build_candidates :: "golib \<Rightarrow> select_request \<Rightarrow> scored list" where
  "build_candidates L req =
     concat (map (\<lambda>c. List.map_filter (scoreBinding L req c) (cp_bindings c)) (tq_capabilities req))"

text \<open>Go leaves the order of candidates that compare equal open: the same capability and binding id.\<close>

definition candidate_less :: "scored \<Rightarrow> scored \<Rightarrow> bool" where
  "candidate_less a b =
     (if sd_score a \<noteq> sd_score b then sd_score b < sd_score a
      else if cp_id (sd_capability a) \<noteq> cp_id (sd_capability b) then cp_id (sd_capability a) < cp_id (sd_capability b)
      else bd_id (sd_binding a) < bd_id (sd_binding b))"

fun insert_candidate :: "scored \<Rightarrow> scored list \<Rightarrow> scored list" where
  "insert_candidate x [] = [x]"
| "insert_candidate x (y # ys) = (if candidate_less y x then y # insert_candidate x ys else x # y # ys)"

definition sortCandidates :: "scored list \<Rightarrow> scored list" where
  "sortCandidates cs = foldr insert_candidate cs []"

definition hasNonTargetMissing :: "scored \<Rightarrow> bool" where
  "hasNonTargetMissing s = list_ex (\<lambda>n. n \<noteq> ''target'') (sd_missing s)"

definition shouldUseLLM :: "scored list \<Rightarrow> bool" where
  "shouldUseLLM cs =
     (case cs of
        [] \<Rightarrow> False
      | c # rest \<Rightarrow>
          if hasNonTargetMissing c then True
          else (case rest of [] \<Rightarrow> False | d # _ \<Rightarrow> sd_score c - sd_score d \<le> 4))"

definition resultFromCandidate :: "string \<Rightarrow> scored \<Rightarrow> string \<Rightarrow> nat \<Rightarrow> ginputs \<Rightarrow> selection" where
  "resultFromCandidate source s reason considered patch =
     \<lparr>sl_source = source, sl_capability_id = cp_id (sd_capability s), sl_binding_id = bd_id (sd_binding s),
      sl_provider_id = bd_provider_id (sd_binding s), sl_required = sd_required s, sl_patch = patch,
      sl_reason = reason, sl_considered = considered\<rparr>"

section \<open>The local choice\<close>

definition selectLocal :: "scored list \<Rightarrow> selection res" where
  "selectLocal cs =
     (if 1 < length cs \<and> sd_score (cs ! 0) = sd_score (cs ! 1)
         \<and> cp_id (sd_capability (cs ! 0)) \<noteq> cp_id (sd_capability (cs ! 1))
      then Inl (ESelect CodeAmbiguous ''multiple promoted capabilities matched the intent'')
      else Inr (resultFromCandidate ''local'' (cs ! 0) ''local intent and input match selected this promoted binding''
             (length cs) []))"

section \<open>What the language model is told\<close>

definition looksLikePath :: "string \<Rightarrow> bool" where
  "looksLikePath txt \<longleftrightarrow> slash \<in> set txt \<or> CHR 0x5C \<in> set txt \<or> path_base txt \<noteq> txt"

fun inputSummary :: "gval \<Rightarrow> gval" where
  "inputSummary (GStr s) =
     (let txt = trim_space s in
      if txt = [] then GStr []
      else if looksLikePath txt then GMap [(''kind'', GStr ''path''), (''basename'', GStr (path_base txt))]
      else GStr txt)"
| "inputSummary (GBool b) = GBool b"
| "inputSummary (GInt i) = GInt i"
| "inputSummary (GFloat s) = GFloat s"
| "inputSummary v = GStr (sprint v)"

definition inputKeys :: "ginputs \<Rightarrow> string list" where
  "inputKeys inputs = sort (keys inputs)"

definition inputSummaries :: "ginputs \<Rightarrow> ginputs" where
  "inputSummaries inputs = map (\<lambda>(k, v). (k, inputSummary v)) inputs"

definition providerCommand :: "select_request \<Rightarrow> string \<Rightarrow> string" where
  "providerCommand req providerID = trim_space (case map_of (tq_commands req) providerID of None \<Rightarrow> [] | Some s \<Rightarrow> s)"

definition select_executionArgs :: "execution \<Rightarrow> string list" where
  "select_executionArgs x =
     (case map_of (ex_spec x) spec_args of
        Some (GStrs args) \<Rightarrow> args
      | Some (GList args) \<Rightarrow> List.map_filter is_str args
      | _ \<Rightarrow> [])"

text \<open>The JSON shape of a card and of the payload: a field marked \<^verbatim>\<open>omitempty\<close> is left out when empty.\<close>

definition omit_str :: "string \<Rightarrow> string \<Rightarrow> ginputs" where
  "omit_str k s = (if s = [] then [] else [(k, GStr s)])"

definition omit_strs :: "string \<Rightarrow> string list \<Rightarrow> ginputs" where
  "omit_strs k ss = (if ss = [] then [] else [(k, GStrs ss)])"

definition llmCard :: "select_request \<Rightarrow> scored \<Rightarrow> gval" where
  "llmCard req s =
     GMap ([(''capability_id'', GStr (cp_id (sd_capability s)))]
       @ omit_str ''capability_description'' (cp_description (sd_capability s))
       @ [(''binding_id'', GStr (bd_id (sd_binding s))), (''provider_id'', GStr (bd_provider_id (sd_binding s)))]
       @ omit_str ''provider_command'' (providerCommand req (bd_provider_id (sd_binding s)))
       @ [(''execution_kind'', GStr (ex_kind (bd_execution (sd_binding s))))]
       @ omit_strs ''required_inputs'' (sd_required s)
       @ omit_strs ''execution_args'' (select_executionArgs (bd_execution (sd_binding s))))"

definition llmPayload :: "select_request \<Rightarrow> scored list \<Rightarrow> gval" where
  "llmPayload req cs =
     GMap ([(''intent'', GStr (tq_intent req)), (''input_keys'', GStrs (inputKeys (tq_inputs req)))]
       @ (if tq_inputs req = [] then [] else [(''inputs'', GMap (inputSummaries (tq_inputs req)))])
       @ [(''candidates'', GList (map (llmCard req) cs))])"

text \<open>\<open>system\<close> is the constant text of \<^verbatim>\<open>llmSystemPrompt\<close>.\<close>

definition buildLLMRequest ::
    "golib \<Rightarrow> string \<Rightarrow> select_request \<Rightarrow> scored list \<Rightarrow> (llm_request \<times> (string, scored) gomap) res" where
  "buildLLMRequest L system req cs =
     (case json_encode L (llmPayload req cs) of
        Inl e \<Rightarrow> Inl e
      | Inr content \<Rightarrow> Inr (\<lparr>lm_system = system, lm_user = content, lm_json = True\<rparr>,
          foldl (\<lambda>m s. put (bd_id (sd_binding s)) s m) [] cs))"

section \<open>What it may answer\<close>

record llm_decision =
  ld_binding_id :: string
  ld_patch :: ginputs
  ld_reason :: string

fun patch_loop :: "golib \<Rightarrow> select_request \<Rightarrow> string list \<Rightarrow> ginputs \<Rightarrow> ginputs \<Rightarrow> ginputs res" where
  "patch_loop L req allowed cleaned [] = Inr cleaned"
| "patch_loop L req allowed cleaned ((k, v) # patch) =
     (let name = trim_space k in
      if name = [] then Inl (ESelect CodeInvalidLLMSelection ''llm inputs_patch contains an empty key'')
      else if name = ''target'' then Inl (ESelect CodeInvalidLLMSelection ''llm inputs_patch must not include target'')
      else if name \<notin> set allowed
      then Inl (ESelect CodeInvalidLLMSelection
             (''llm inputs_patch key '' @ quote L name @ '' is not required by selected binding''))
      else if present (tq_inputs req) name
      then Inl (ESelect CodeInvalidLLMSelection (''llm inputs_patch key '' @ quote L name @ '' overwrites caller input''))
      else patch_loop L req allowed (put name v cleaned) patch)"

definition validateInputsPatch :: "golib \<Rightarrow> select_request \<Rightarrow> scored \<Rightarrow> ginputs \<Rightarrow> ginputs res" where
  "validateInputsPatch L req selected patch =
     (if patch = [] then Inr [] else patch_loop L req (sd_required selected) [] patch)"

definition llm_decide ::
    "golib \<Rightarrow> (string \<Rightarrow> llm_decision res) \<Rightarrow> select_request \<Rightarrow> nat \<Rightarrow> (string, scored) gomap \<Rightarrow> string \<Rightarrow> selection res" where
  "llm_decide L decode req considered byID txt =
     (case decode txt of
        Inl e \<Rightarrow> Inl (ESelect CodeInvalidLLMSelection (''decode llm selection: '' @ err_text e))
      | Inr d \<Rightarrow>
          (let bindingID = trim_space (ld_binding_id d) in
           case map_of byID bindingID of
             None \<Rightarrow> Inl (ESelect CodeInvalidLLMSelection (''llm selected unknown binding '' @ quote L bindingID))
           | Some selected \<Rightarrow>
               (case validateInputsPatch L req selected (ld_patch d) of
                  Inl e \<Rightarrow> Inl e
                | Inr patch \<Rightarrow> Inr (resultFromCandidate ''llm'' selected
                    (if blank (ld_reason d) then ''llm selected this promoted binding from the local shortlist''
                     else trim_space (ld_reason d)) considered patch))))"

definition selectWithLLM ::
    "golib \<Rightarrow> string \<Rightarrow> (string \<Rightarrow> llm_decision res) \<Rightarrow> nat \<Rightarrow> ('s, llm_request) llm_client \<Rightarrow> env \<Rightarrow> select_request
      \<Rightarrow> scored list \<Rightarrow> ('s world, selection res) state" where
  "selectWithLLM L system decode topK client E req cs =
     (case buildLLMRequest L system req (take topK cs) of
        Inl e \<Rightarrow> ret (Inl (ESelect CodeLLMSelectionFailed (err_text e)))
      | Inr (request, byID) \<Rightarrow> do {
          answer \<leftarrow> call (lc_complete client E request);
          ret (case answer of
                 (_, Some e) \<Rightarrow> Inl (ESelect CodeLLMSelectionFailed (err_text e))
               | (None, None) \<Rightarrow> Inl (ESelect CodeLLMSelectionFailed ''llm selection returned empty response'')
               | (Some response, None) \<Rightarrow> llm_decide L decode req (length cs) byID (ls_text response))})"

definition select_Run ::
    "golib \<Rightarrow> string \<Rightarrow> (string \<Rightarrow> llm_decision res) \<Rightarrow> 's select_runner option \<Rightarrow> env \<Rightarrow> select_request option
      \<Rightarrow> ('s world, selection res) state" where
  "select_Run L system decode R E req0 =
     (case req0 of
        None \<Rightarrow> ret (Inl (EVar ''selector.ErrNilRequest'' ''use select request is required''))
      | Some req \<Rightarrow>
          (let built = build_candidates L req; cs = sortCandidates built in
           if built = [] then ret (Inl (ESelect CodeNoMatch ''no promoted binding matched the intent''))
           else (case R of
                   None \<Rightarrow> ret (selectLocal cs)
                 | Some runner \<Rightarrow>
                     (case sn_client runner of
                        None \<Rightarrow> ret (selectLocal cs)
                      | Some client \<Rightarrow>
                          if tq_force_llm req \<or> shouldUseLLM cs
                          then selectWithLLM L system decode (sn_top_k runner) client E req cs
                          else ret (selectLocal cs)))))"

section \<open>Candidates are exactly the matching bindings\<close>

definition matching :: "golib \<Rightarrow> select_request \<Rightarrow> capability \<Rightarrow> binding \<Rightarrow> bool" where
  "matching L req c b \<longleftrightarrow>
     bd_state b = state_promoted \<and> (blank (tq_provider_id req) \<or> bd_provider_id b = trim_space (tq_provider_id req)) \<and>
     (case bd_verify b of None \<Rightarrow> False
      | Some v \<Rightarrow> VerifyLevelRank (select_minLevel req) \<le> VerifyLevelRank (vf_level v)) \<and>
     RequiredInputs (Some (bd_execution b)) = Inr (required_of b) \<and> intentScore L (tq_intent req) c \<noteq> 0"

definition scored_as :: "golib \<Rightarrow> select_request \<Rightarrow> capability \<Rightarrow> binding \<Rightarrow> scored" where
  "scored_as L req c b =
     (let missing = missingInputs (required_of b) (tq_inputs req) in
      \<lparr>sd_capability = c, sd_binding = b, sd_required = required_of b, sd_missing = missing,
       sd_score = intentScore L (tq_intent req) c + (int (length (required_of b)) - int (length missing))
         + (if blank (tq_provider_id req) then 0 else 4)\<rparr>)"

lemma scoreBinding_eq: "scoreBinding L req c b = (if matching L req c b then Some (scored_as L req c b) else None)"
  by (auto simp: scoreBinding_def matching_def scored_as_def required_of_def Let_def split: option.splits sum.splits)

lemma build_member: "s \<in> set (build_candidates L req) \<longleftrightarrow>
    (\<exists>c\<in>set (tq_capabilities req). \<exists>b\<in>set (cp_bindings c). matching L req c b \<and> s = scored_as L req c b)"
  by (auto simp: build_candidates_def map_filter_def scoreBinding_eq split: if_splits)

section \<open>Sorting\<close>

abbreviation by_score :: "scored list \<Rightarrow> bool" where
  "by_score \<equiv> sorted_wrt (\<lambda>a b. sd_score b \<le> sd_score a)"

lemma insert_candidate_set [simp]: "set (insert_candidate x ys) = insert x (set ys)"
  by (induction ys) auto

lemma insert_candidate_length [simp]: "length (insert_candidate x ys) = Suc (length ys)"
  by (induction ys) auto

lemma candidate_less_score: "candidate_less a b \<Longrightarrow> sd_score b \<le> sd_score a"
  "\<not> candidate_less a b \<Longrightarrow> sd_score a \<le> sd_score b"
  by (auto simp: candidate_less_def split: if_splits)

lemma insert_candidate_sorted: "by_score ys \<Longrightarrow> by_score (insert_candidate x ys)"
  by (induction ys) (auto dest: candidate_less_score intro: order_trans)

lemma sortCandidates_set [simp]: "set (sortCandidates cs) = set cs"
  by (induction cs) (auto simp: sortCandidates_def)

lemma sortCandidates_length [simp]: "length (sortCandidates cs) = length cs"
  by (induction cs) (auto simp: sortCandidates_def)

lemma sortCandidates_sorted: "by_score (sortCandidates cs)"
  by (induction cs) (auto simp: sortCandidates_def intro: insert_candidate_sorted)

lemma first_is_best:
  assumes "cs \<noteq> []"
  shows "sortCandidates cs ! 0 \<in> set cs \<and> (\<forall>s\<in>set cs. sd_score s \<le> sd_score (sortCandidates cs ! 0))"
proof -
  obtain x ys where xs: "sortCandidates cs = x # ys"
    using assms by (cases "sortCandidates cs") (auto dest: arg_cong [where f = length])
  then have "set cs = insert x (set ys)" by (metis sortCandidates_set list.simps(15))
  with sortCandidates_sorted [of cs] show ?thesis unfolding xs by auto
qed

section \<open>What a selection guarantees\<close>

text \<open>An answered patch adds inputs the binding requires and the caller did not give, and no target.\<close>

definition patch_ok :: "select_request \<Rightarrow> string list \<Rightarrow> ginputs \<Rightarrow> bool" where
  "patch_ok req required patch \<longleftrightarrow> distinct (keys patch) \<and>
     list_all (\<lambda>k. k \<in> set required \<and> k \<noteq> ''target'' \<and> k \<noteq> [] \<and> trim_space k = k \<and> \<not> present (tq_inputs req) k) (keys patch)"

lemma patch_ok_Nil: "patch_ok req required []"
  by (simp add: patch_ok_def)

lemma patch_ok_put:
  "patch_ok req required patch \<Longrightarrow> k \<in> set required \<Longrightarrow> k \<noteq> ''target'' \<Longrightarrow> k \<noteq> [] \<Longrightarrow> trim_space k = k \<Longrightarrow>
    \<not> present (tq_inputs req) k \<Longrightarrow> patch_ok req required (put k v patch)"
  by (auto simp: patch_ok_def list_all_iff put_keys simp del: set_map)

lemma patch_loop_ok:
  "patch_loop L req allowed cleaned patch = Inr x \<Longrightarrow> patch_ok req allowed cleaned \<Longrightarrow> patch_ok req allowed x"
  by (induction L req allowed cleaned patch rule: patch_loop.induct)
    (auto simp: Let_def patch_ok_put split: if_splits)

lemma patch_loop_error:
  "patch_loop L req allowed cleaned patch = Inl e \<Longrightarrow> \<exists>msg. e = ESelect CodeInvalidLLMSelection msg"
  by (induction L req allowed cleaned patch rule: patch_loop.induct) (auto simp: Let_def split: if_splits)

lemma validateInputsPatch_ok:
  "validateInputsPatch L req s patch = Inr x \<Longrightarrow> patch_ok req (sd_required s) x"
  by (cases "patch = []") (auto simp: validateInputsPatch_def patch_ok_Nil intro: patch_loop_ok)

lemma validateInputsPatch_error:
  "validateInputsPatch L req s patch = Inl e \<Longrightarrow> \<exists>msg. e = ESelect CodeInvalidLLMSelection msg"
  by (auto simp: validateInputsPatch_def split: if_splits dest: patch_loop_error)

text \<open>
  The selection \<open>x\<close> is the candidate \<open>sc\<close>: a local one is a best one and adds no input, one of
  the model is among the first \<open>k\<close> candidates.
\<close>

definition selection_of_candidate :: "golib \<Rightarrow> select_request \<Rightarrow> nat \<Rightarrow> scored \<Rightarrow> selection \<Rightarrow> bool" where
  "selection_of_candidate L req k sc x \<longleftrightarrow>
     (\<exists>source reason patch. x = resultFromCandidate source sc reason (length (build_candidates L req)) patch \<and>
        patch_ok req (sd_required sc) patch \<and>
        (source = ''local'' \<and> patch = [] \<and> (\<forall>s\<in>set (build_candidates L req). sd_score s \<le> sd_score sc) \<or>
         source = ''llm'' \<and> sc \<in> set (take k (sortCandidates (build_candidates L req)))))"

definition select_post :: "golib \<Rightarrow> nat \<Rightarrow> select_request \<Rightarrow> selection res \<Rightarrow> bool" where
  "select_post L k req r \<longleftrightarrow>
     (case r of
        Inl e \<Rightarrow> \<exists>code msg. e = ESelect code msg \<and>
          code \<in> {CodeNoMatch, CodeAmbiguous, CodeLLMSelectionFailed, CodeInvalidLLMSelection} \<and>
          (code = CodeNoMatch \<longleftrightarrow> build_candidates L req = [])
      | Inr x \<Rightarrow> \<exists>c\<in>set (tq_capabilities req). \<exists>b\<in>set (cp_bindings c).
          matching L req c b \<and> selection_of_candidate L req k (scored_as L req c b) x)"

lemma select_postI:
  assumes "sc \<in> set (build_candidates L req)" and "selection_of_candidate L req k sc x"
  shows "select_post L k req (Inr x)"
  using assms by (auto simp: select_post_def build_member)

lemma selectLocal_post:
  assumes "build_candidates L req \<noteq> []"
  shows "select_post L k req (selectLocal (sortCandidates (build_candidates L req)))"
proof -
  note best = first_is_best [OF assms]
  have "selection_of_candidate L req k (sortCandidates (build_candidates L req) ! 0)
    (resultFromCandidate ''local'' (sortCandidates (build_candidates L req) ! 0) reason (length (build_candidates L req)) [])" for reason
    unfolding selection_of_candidate_def using best by (blast intro: patch_ok_Nil)
  from select_postI [OF _ this] best show ?thesis
    by (auto simp: selectLocal_def select_post_def assms)
qed

lemma shortlist_member:
  "map_of (foldl (\<lambda>m s. put (bd_id (sd_binding s)) s m) m cs) k = Some sc \<Longrightarrow> sc \<in> set cs \<or> map_of m k = Some sc"
  by (induction cs arbitrary: m) (fastforce split: if_splits)+

lemma llm_decide_post:
  assumes byID: "byID = foldl (\<lambda>m s. put (bd_id (sd_binding s)) s m) [] (take k (sortCandidates (build_candidates L req)))"
    and some: "build_candidates L req \<noteq> []"
  shows "select_post L k req (llm_decide L decode req (length (build_candidates L req)) byID txt)"
proof (cases "decode txt")
  case (Inl e)
  then show ?thesis by (simp add: llm_decide_def select_post_def some)
next
  case (Inr d)
  show ?thesis
  proof (cases "map_of byID (trim_space (ld_binding_id d))")
    case None
    with Inr show ?thesis by (simp add: llm_decide_def Let_def select_post_def some)
  next
    case (Some sc)
    then have mem: "sc \<in> set (take k (sortCandidates (build_candidates L req)))"
      unfolding byID by (auto dest: shortlist_member)
    then have built: "sc \<in> set (build_candidates L req)" by (auto dest: in_set_takeD)
    show ?thesis
    proof (cases "validateInputsPatch L req sc (ld_patch d)")
      case (Inl e)
      then obtain msg where "e = ESelect CodeInvalidLLMSelection msg" using validateInputsPatch_error by blast
      with Inl Some Inr show ?thesis by (simp add: llm_decide_def Let_def select_post_def some)
    next
      case (Inr patch)
      note ok = validateInputsPatch_ok [OF Inr]
      have "selection_of_candidate L req k sc (resultFromCandidate ''llm'' sc reason (length (build_candidates L req)) patch)"
        for reason unfolding selection_of_candidate_def using mem ok by blast
      from select_postI [OF built this] Inr Some \<open>decode txt = Inr d\<close> show ?thesis
        by (simp add: llm_decide_def Let_def)
    qed
  qed
qed

lemma wp_selectWithLLM:
  assumes "build_candidates L req \<noteq> []"
  shows "wp (selectWithLLM L system decode k client E req (sortCandidates (build_candidates L req)))
    (\<lambda>r v. w_events v = w_events w \<and> select_post L k req r) w"
  using assms
  by (auto simp: selectWithLLM_def buildLLMRequest_def wp_simps llm_decide_post select_post_def [of L k req "Inl _"]
      intro!: wp_any split: sum.split option.split prod.split)

definition top_k :: "'s select_runner option \<Rightarrow> nat" where
  "top_k R = (case R of None \<Rightarrow> 0 | Some runner \<Rightarrow> sn_top_k runner)"

lemma wp_select_Run:
  "wp (select_Run L system decode R E (Some req)) (\<lambda>r v. w_events v = w_events w \<and> select_post L (top_k R) req r) w"
proof (cases "build_candidates L req = []")
  case True
  then show ?thesis by (simp add: select_Run_def wp_return select_post_def)
next
  case False
  with selectLocal_post [OF this] wp_selectWithLLM [OF this] show ?thesis
    by (auto simp: select_Run_def Let_def wp_return top_k_def split: option.split)
qed


section \<open>What leaves the machine\<close>

text \<open>No directory: the text has no slash, or it is the slash alone.\<close>

definition dir_free :: "string \<Rightarrow> bool" where
  "dir_free t = (if slash \<in> set t then t = [slash] else True)"

fun texts_of :: "gval \<Rightarrow> string list" where
  "texts_of (GStr s) = [s]"
| "texts_of (GStrs ss) = ss"
| "texts_of (GList vs) = concat (map texts_of vs)"
| "texts_of (GMap kvs) = concat (map (\<lambda>(k, v). texts_of v) kvs)"
| "texts_of v = []"

lemma path_base_dir_free: "dir_free (path_base p)"
proof -
  have "slash \<notin> set (last (split_char slash q))" for q
    by (rule split_char_pieces [OF last_in_set]) simp
  then show ?thesis by (simp add: path_base_def dir_free_def Let_def)
qed

lemma inputSummary_text: "list_all dir_free (texts_of (inputSummary (GStr s)))"
  by (auto simp: Let_def path_base_dir_free) (auto simp: dir_free_def looksLikePath_def)

text \<open>
  No directory of a text input is sent to the model: whatever text the caller gives, the
  summary in the payload has no path separator beyond the root itself. The protection ends at
  texts: a list of texts is sent as printed, with every directory in it.
\<close>

theorem summary_hides_directories:
  "list_all dir_free (texts_of (inputSummary (GStr s))) \<and>
   inputSummary (GStrs [s]) = GStr (''['' @ s @ '']'') \<and> inputSummary (GList [GStr s]) = GStr (''['' @ s @ '']'')"
  using inputSummary_text by simp

section \<open>Examples\<close>

definition export_binding :: "string \<Rightarrow> binding" where
  "export_binding i = \<lparr>bd_id = i, bd_capability_id = ''export'', bd_provider_id = ''p'',
     bd_execution = \<lparr>ex_kind = kind_cli, ex_spec = [(''args'', GStrs [''run''])]\<rparr>,
     bd_verify = Some \<lparr>vf_level = L2, vf_method = method_execute, vf_checks = []\<rparr>, bd_evidence = [],
     bd_state = state_promoted, bd_created_at = []\<rparr>"

definition export_capability :: "string \<Rightarrow> string list \<Rightarrow> capability" where
  "export_capability i bs = \<lparr>cp_id = i, cp_description = ''Export file'', cp_bindings = map export_binding bs\<rparr>"

definition export_request :: "string list \<Rightarrow> select_request" where
  "export_request bs = \<lparr>tq_intent = ''export file'', tq_inputs = [], tq_provider_id = [], tq_force_llm = False,
     tq_min_level = [], tq_capabilities = [export_capability ''export.pdf'' bs, export_capability ''export.png'' [''b9'']],
     tq_commands = []\<rparr>"

definition local_choice :: "string list \<Rightarrow> string + string" where
  "local_choice bs = (case selectLocal (sortCandidates (build_candidates plain_lib (export_request bs))) of
     Inl e \<Rightarrow> Inl (err_text e) | Inr x \<Rightarrow> Inr (sl_binding_id x))"


lemma export_req: "RequiredInputs (Some (bd_execution (export_binding i))) = Inr []"
  by (simp add: export_binding_def) code_simp

lemma export_tokens: "tokenize plain_lib ''export file'' = [''export'', ''file'']"
  "tokenize plain_lib ''Export file'' = [''export'', ''file'']"
  "tokenize plain_lib ''export.pdf'' = [''export'', ''pdf'']"
  "tokenize plain_lib ''export.png'' = [''export'', ''png'']"
  by code_simp+

lemma export_scores: "map (intentScore plain_lib ''export file'') [export_capability ''export.pdf'' bs, export_capability ''export.png'' bs'] = [8, 8]"
  by (simp add: intentScore_def shared_tokens_def export_tokens export_capability_def)

definition export_scored :: "string \<Rightarrow> string list \<Rightarrow> string \<Rightarrow> scored" where
  "export_scored i bs b = \<lparr>sd_capability = export_capability i bs, sd_binding = export_binding b, sd_required = [],
     sd_missing = [], sd_score = 8\<rparr>"

lemma export_one:
  assumes "i \<in> {''export.pdf'', ''export.png''}"
  shows "scoreBinding plain_lib (export_request bs) (export_capability i bs') (export_binding b) = Some (export_scored i bs' b)"
proof -
  have score: "intentScore plain_lib ''export file'' (export_capability i bs') = 8" using assms export_scores by auto
  have req: "tq_intent (export_request bs) = ''export file''" "tq_provider_id (export_request bs) = []"
    "select_minLevel (export_request bs) = L2" "tq_inputs (export_request bs) = []"
    by (simp_all add: export_request_def select_minLevel_def)
  have b: "bd_state (export_binding b) = state_promoted" "bd_verify (export_binding b) =
      Some \<lparr>vf_level = L2, vf_method = method_execute, vf_checks = []\<rparr>" by (simp_all add: export_binding_def)
  show ?thesis by (simp add: scoreBinding_def req b export_req score export_scored_def)
qed

lemma export_build: "build_candidates plain_lib (export_request bs) =
    map (export_scored ''export.pdf'' bs) bs @ [export_scored ''export.png'' [''b9''] ''b9'']"
proof -
  have one: "List.map_filter (scoreBinding plain_lib (export_request bs) (export_capability i bs')) (map export_binding bs'') =
      map (export_scored i bs') bs''" if "i \<in> {''export.pdf'', ''export.png''}" for i bs' bs''
    by (induction bs'') (simp_all add: export_one [OF that])
  have "tq_capabilities (export_request bs) = [export_capability ''export.pdf'' bs, export_capability ''export.png'' [''b9'']]"
    and b: "\<And>i bs. cp_bindings (export_capability i bs) = map export_binding bs"
    by (simp_all add: export_request_def export_capability_def)
  then show ?thesis
    unfolding build_candidates_def
    using one [of "''export.pdf''" bs bs] one [of "''export.png''" "[''b9'']" "[''b9'']"]
    by (simp only: list.map concat.simps b append_Nil2 simp_thms insert_iff)
qed

text \<open>
  The local choice misses an ambiguity: two capabilities that match an intent equally well are
  reported as ambiguous, but when the first of them has two bindings only these two are compared,
  and the first one is chosen without a word.
\<close>

theorem ambiguity_missed:
  "local_choice [''b1''] = Inl ''multiple promoted capabilities matched the intent'' \<and>
   local_choice [''b1'', ''b2''] = Inr ''b1'' \<and>
   map sd_score (build_candidates plain_lib (export_request [''b1'', ''b2''])) = [8, 8, 8]"
  unfolding local_choice_def export_build by code_simp

definition tied_run :: "selection res \<times> unit world" where
  "tied_run = run_state (select_Run plain_lib [] (\<lambda>_. Inl (EText [])) None \<lparr>env_time = (\<lambda>_. 0), env_ctx = (\<lambda>_. None)\<rparr>
     (Some (export_request [''b1'', ''b2'']))) \<lparr>w_tick = 0, w_events = [], w_ext = ()\<rparr>"

lemma tied_choice: "case fst tied_run of Inl e \<Rightarrow> False | Inr x \<Rightarrow> sl_binding_id x = ''b1''"
  unfolding tied_run_def select_Run_def option.case Let_def export_build by code_simp


end
