(* ===== verification/Cal_Use.thy ===== *)
theory Cal_Use
  imports Cal_Select
begin

text \<open>
  \<^verbatim>\<open>internal/use\<close>: an intent is served by selecting a promoted binding (\<^verbatim>\<open>internal/use/select\<close>),
  planning its inputs (\<^verbatim>\<open>internal/use/plan\<close>) and running it with the formal runner.
\<close>

section \<open>Planning inputs\<close>

definition ErrInvalidInputsPatch :: gerr where
  "ErrInvalidInputsPatch = EVar ''plan.ErrInvalidInputsPatch'' ''invalid inputs patch''"

definition ErrMissingInputs :: gerr where
  "ErrMissingInputs = EVar ''plan.ErrMissingInputs'' ''missing inputs''"

definition ErrArtifactPathFailed :: gerr where
  "ErrArtifactPathFailed = EVar ''plan.ErrArtifactPathFailed'' ''artifact path failed''"

record plan_request =
  pn_use_id :: string
  pn_now :: int
  pn_inputs :: ginputs
  pn_required :: "string list"
  pn_patch :: ginputs

text \<open>
  What the operating system and the time package give: \<^verbatim>\<open>os.TempDir\<close>, the text of a day and
  \<^verbatim>\<open>os.MkdirAll\<close>. The zero time is the first of January of the year 1.
\<close>

record 's plan_host =
  ph_temp :: string
  ph_day :: "int \<Rightarrow> string"
  ph_mkdir_all :: "string \<Rightarrow> ('s, gerr option) state"

definition zero_time :: int where
  "zero_time = -62135596800000000000"

definition TargetPath :: "'s plan_host \<Rightarrow> env \<Rightarrow> string \<Rightarrow> int \<Rightarrow> ('s world, string res) state" where
  "TargetPath H E useID0 now0 = do {
     let useID = (if blank useID0 then ''use'' else trim_space useID0);
     t \<leftarrow> (if now0 = zero_time then now E else ret now0);
     let dir = path_join [ph_temp H, ''cal'', ''artifacts'', ph_day H t];
     err \<leftarrow> call (ph_mkdir_all H dir);
     ret (case err of
            Some e \<Rightarrow> Inl (EWrap2 ErrArtifactPathFailed '': '' e)
          | None \<Rightarrow> Inr (path_join [dir, useID @ ''.out'']))}"

fun merge_loop :: "ginputs \<Rightarrow> ginputs \<Rightarrow> ginputs res" where
  "merge_loop merged [] = Inr merged"
| "merge_loop merged ((k, v) # patch) =
     (let name = trim_space k in
      if name = [] then Inl (EWrap [] ErrInvalidInputsPatch '': empty key'')
      else if name = ''target'' then Inl (EWrap [] ErrInvalidInputsPatch '': target is generated locally'')
      else if present merged name then Inl (EWrap [] ErrInvalidInputsPatch ('': '' @ name @ '' overwrites caller input''))
      else merge_loop (put name v merged) patch)"

definition mergeInputs :: "ginputs \<Rightarrow> ginputs \<Rightarrow> ginputs res" where
  "mergeInputs inputs patch = merge_loop inputs patch"

text \<open>The missing inputs are those of the formal runner's function of the same name.\<close>

definition missing_check :: "string list \<Rightarrow> ginputs \<Rightarrow> ginputs res" where
  "missing_check required inputs =
     (if missingInputs required inputs \<noteq> []
      then Inl (EWrap [] ErrMissingInputs ('': '' @ join '', '' (missingInputs required inputs)))
      else Inr inputs)"

definition plan_Run :: "'s plan_host \<Rightarrow> env \<Rightarrow> plan_request option \<Rightarrow> ('s world, ginputs res) state" where
  "plan_Run H E req0 =
     (case req0 of
        None \<Rightarrow> ret (Inl (EVar ''plan.ErrNilRequest'' ''use plan request is required''))
      | Some req \<Rightarrow>
          (case mergeInputs (pn_inputs req) (pn_patch req) of
             Inl e \<Rightarrow> ret (Inl e)
           | Inr inputs \<Rightarrow>
               if ''target'' \<in> set (pn_required req) \<and> \<not> present inputs ''target'' then do {
                 target \<leftarrow> TargetPath H E (pn_use_id req) (pn_now req);
                 ret (case target of
                        Inl e \<Rightarrow> Inl e
                      | Inr p \<Rightarrow> missing_check (pn_required req) (put ''target'' (GStr p) inputs))}
               else ret (missing_check (pn_required req) inputs)))"

section \<open>Requests and results\<close>

record use_request =
  uq_intent :: string
  uq_inputs :: ginputs
  uq_provider_id :: string
  uq_force_llm :: bool
  uq_verify :: bool
  uq_min_level :: string

record use_selection =
  un_source :: string
  un_capability_id :: string
  un_binding_id :: string
  un_provider_id :: string
  un_reason :: string
  un_considered :: nat

record use_result =
  ur_id :: string
  ur_intent :: string
  ur_selection :: "use_selection option"
  ur_run :: "run option"
  ur_status :: string
  ur_started_at :: string
  ur_finished_at :: string
  ur_duration_ms :: int
  ur_error :: "record_error option"

record 's use_store =
  us_list_capabilities :: "('s, capability list res) state"
  us_list_providers :: "('s, provider list res) state"

type_synonym 's use_executor = "env \<Rightarrow> run_request option \<Rightarrow> ('s world, run_result outcome) state"

record 's use_runner =
  uu_store :: "'s use_store option"
  uu_selector :: "'s select_runner option"
  uu_planner :: "'s plan_host option"
  uu_executor :: "'s use_executor option"

text \<open>\<^verbatim>\<open>NewDefaultRunner\<close>: the standard selector, with the client if there is one, and the planner.\<close>

definition use_NewDefaultRunner ::
    "'s use_store option \<Rightarrow> 's use_executor option \<Rightarrow> ('s, llm_request) llm_client option \<Rightarrow> 's plan_host \<Rightarrow> 's use_runner" where
  "use_NewDefaultRunner st exe client host =
     \<lparr>uu_store = st, uu_selector = Some (select_NewRunner client), uu_planner = Some host, uu_executor = exe\<rparr>"

definition newUseID :: "int \<Rightarrow> string" where
  "newUseID t = ''use_'' @ itoa t"

definition use_newResult :: "golib \<Rightarrow> string \<Rightarrow> int \<Rightarrow> use_result" where
  "use_newResult L intent t =
     \<lparr>ur_id = newUseID t, ur_intent = trim_space intent, ur_selection = None, ur_run = None, ur_status = [],
      ur_started_at = rfc3339 L t, ur_finished_at = [], ur_duration_ms = 0, ur_error = None\<rparr>"

definition use_finishSucceeded :: "golib \<Rightarrow> env \<Rightarrow> use_result \<Rightarrow> int \<Rightarrow> ('s world, use_result) state" where
  "use_finishSucceeded L E x started = do {
     finished \<leftarrow> now E;
     ret (x\<lparr>ur_status := ''succeeded'', ur_finished_at := rfc3339 L finished,
            ur_duration_ms := millis (finished - started), ur_error := None\<rparr>)}"

definition use_finishFailed :: "golib \<Rightarrow> env \<Rightarrow> use_result \<Rightarrow> int \<Rightarrow> string \<Rightarrow> string \<Rightarrow> ('s world, use_result) state" where
  "use_finishFailed L E x started code message = do {
     finished \<leftarrow> now E;
     ret (x\<lparr>ur_status := ''failed'', ur_finished_at := rfc3339 L finished,
            ur_duration_ms := millis (finished - started),
            ur_error := Some \<lparr>re_code = code, re_message = message\<rparr>\<rparr>)}"

section \<open>Progress\<close>

text \<open>An identifier of an event: of the selection if it is set, else of the run, else empty.\<close>

definition use_field :: "(use_selection \<Rightarrow> string) \<Rightarrow> (run \<Rightarrow> string) \<Rightarrow> use_result \<Rightarrow> string" where
  "use_field sel run x =
     (if (case ur_selection x of None \<Rightarrow> [] | Some s \<Rightarrow> sel s) \<noteq> [] then sel (the (ur_selection x))
      else (case ur_run x of None \<Rightarrow> [] | Some r \<Rightarrow> run r))"

definition useProviderID :: "use_result \<Rightarrow> string" where
  "useProviderID = use_field un_provider_id rn_provider_id"

definition useCapabilityID :: "use_result \<Rightarrow> string" where
  "useCapabilityID = use_field un_capability_id rn_capability_id"

definition useBindingID :: "use_result \<Rightarrow> string" where
  "useBindingID = use_field un_binding_id rn_binding_id"

definition useRunID :: "use_result \<Rightarrow> string" where
  "useRunID x = (case ur_run x of None \<Rightarrow> [] | Some r \<Rightarrow> rn_id r)"

definition use_event ::
    "golib \<Rightarrow> use_result \<Rightarrow> progress_stage \<Rightarrow> progress_status \<Rightarrow> int \<Rightarrow> record_error option \<Rightarrow> int \<Rightarrow> progress_event" where
  "use_event L x stage status started err t =
     \<lparr>pe_id = ProgressID t, pe_scope = ScopeUse, pe_stage = stage, pe_step = StepNone, pe_status = status,
      pe_message = [], pe_details = [], pe_trace_id = [], pe_run_id = useRunID x, pe_use_id = ur_id x,
      pe_provider_id = useProviderID x, pe_capability_id = useCapabilityID x, pe_binding_id = useBindingID x,
      pe_duration_ms = (if status \<noteq> Started then millis (t - started) else 0), pe_error = err,
      pe_created_at = rfc3339 L t\<rparr>"

definition use_emitProgress ::
    "golib \<Rightarrow> env \<Rightarrow> use_result \<Rightarrow> progress_stage \<Rightarrow> progress_status \<Rightarrow> int \<Rightarrow> record_error option \<Rightarrow> ('s world, unit) state" where
  "use_emitProgress L E x stage status started err = do {
     t \<leftarrow> now E;
     log_event (use_event L x stage status started err t)}"

definition useRecordError :: "string \<Rightarrow> string \<Rightarrow> record_error option" where
  "useRecordError code message = Some \<lparr>re_code = code, re_message = message\<rparr>"

section \<open>The runner\<close>

abbreviation "CodeMissingInputs \<equiv> ''missing_inputs''"
abbreviation "CodeArtifactPathFailed \<equiv> ''artifact_path_failed''"
abbreviation "CodeRunFailed \<equiv> ''run_failed''"
abbreviation "CodeUseStoreFailed \<equiv> ''use_store_failed''"

definition use_validate :: "'s use_runner option \<Rightarrow> use_request option \<Rightarrow> gerr option" where
  "use_validate R0 req0 =
     (case R0 of
        None \<Rightarrow> Some (EVar ''use.ErrMissingStore'' ''use store is not configured'')
      | Some R \<Rightarrow>
          if uu_store R = None then Some (EVar ''use.ErrMissingStore'' ''use store is not configured'')
          else if uu_selector R = None then Some (EVar ''use.ErrMissingSelector'' ''use selector is not configured'')
          else if uu_planner R = None then Some (EVar ''use.ErrMissingPlanner'' ''use planner is not configured'')
          else if uu_executor R = None then Some (EVar ''use.ErrMissingRunner'' ''use run runner is not configured'')
          else (case req0 of
                  None \<Rightarrow> Some (EVar ''use.ErrNilRequest'' ''use request is required'')
                | Some req \<Rightarrow> if blank (uq_intent req) then Some (EText ''invalid_use_input: intent is required'') else None))"

definition normalizeRequest :: "use_request \<Rightarrow> use_request" where
  "normalizeRequest req = req\<lparr>uq_intent := trim_space (uq_intent req),
     uq_min_level := (if uq_min_level req = [] then L2 else uq_min_level req)\<rparr>"

definition selectionResult :: "selection \<Rightarrow> use_selection" where
  "selectionResult x = \<lparr>un_source = sl_source x, un_capability_id = sl_capability_id x, un_binding_id = sl_binding_id x,
     un_provider_id = sl_provider_id x, un_reason = sl_reason x, un_considered = sl_considered x\<rparr>"

definition providerCommands :: "provider list \<Rightarrow> (string, string) gomap" where
  "providerCommands ps = foldl (\<lambda>m p.
     (let command = (if blank (pv_name p) then path_base (pv_path p) else trim_space (pv_name p))
      in if pv_id p \<noteq> [] \<and> command \<noteq> [] then put (pv_id p) command m else m)) [] ps"

definition use_selectionError :: "gerr \<Rightarrow> string \<times> string" where
  "use_selectionError e = (case err_as_select e of Some cm \<Rightarrow> cm | None \<Rightarrow> (CodeNoMatch, err_text e))"

definition planError :: "gerr \<Rightarrow> string \<times> string" where
  "planError e =
     (if err_is e ErrMissingInputs then (CodeMissingInputs, err_text e)
      else if err_is e ErrInvalidInputsPatch then (CodeInvalidLLMSelection, err_text e)
      else if err_is e ErrArtifactPathFailed then (CodeArtifactPathFailed, err_text e)
      else (CodeMissingInputs, err_text e))"

text \<open>A stage that ends the use: the result is failed, then the event is emitted.\<close>

definition use_fail_stage ::
    "golib \<Rightarrow> env \<Rightarrow> use_result \<Rightarrow> progress_stage \<Rightarrow> int \<Rightarrow> int \<Rightarrow> string \<times> string \<Rightarrow> ('s world, use_result outcome) state" where
  "use_fail_stage L E x stage started stageStarted cm = do {
     y \<leftarrow> use_finishFailed L E x started (fst cm) (snd cm);
     _ \<leftarrow> use_emitProgress L E y stage Failed stageStarted (useRecordError (fst cm) (snd cm));
     ret (Some y, None)}"

text \<open>A stage that ends without a result.\<close>

definition use_abort ::
    "golib \<Rightarrow> env \<Rightarrow> use_result \<Rightarrow> progress_stage \<Rightarrow> int \<Rightarrow> string \<Rightarrow> gerr \<Rightarrow> ('s world, use_result outcome) state" where
  "use_abort L E x stage stageStarted code err = do {
     _ \<leftarrow> use_emitProgress L E x stage Failed stageStarted (useRecordError code (err_text err));
     ret (None, Some err)}"

text \<open>What follows the call of the formal runner.\<close>

definition use_ran ::
    "golib \<Rightarrow> env \<Rightarrow> use_result \<Rightarrow> int \<Rightarrow> int \<Rightarrow> run_result outcome \<Rightarrow> ('s world, use_result outcome) state" where
  "use_ran L E x started stageStarted answer =
     (case answer of
        (_, Some e) \<Rightarrow> use_abort L E x StageRun stageStarted CodeRunFailed e
      | (None, None) \<Rightarrow> use_fail_stage L E x StageRun started stageStarted (CodeRunFailed, ''run result is required'')
      | (Some rr, None) \<Rightarrow>
          (let y = x\<lparr>ur_run := Some (rr_run rr)\<rparr> in
           if rn_status (rr_run rr) = ''failed''
           then use_fail_stage L E y StageRun started stageStarted
             (case rn_error (rr_run rr) of
                Some e \<Rightarrow> (re_code e, re_message e)
              | None \<Rightarrow> (CodeRunFailed, ''selected binding run failed''))
           else do {
             _ \<leftarrow> use_emitProgress L E y StageRun Succeeded stageStarted None;
             z \<leftarrow> use_finishSucceeded L E y started;
             ret (Some z, None)}))"

definition use_run ::
    "golib \<Rightarrow> env \<Rightarrow> 's use_executor \<Rightarrow> use_request \<Rightarrow> use_result \<Rightarrow> int \<Rightarrow> selection \<Rightarrow> ginputs \<Rightarrow> ('s world, use_result outcome) state" where
  "use_run L E executor req x started sel planned = do {
     stageStarted \<leftarrow> now E;
     _ \<leftarrow> use_emitProgress L E x StageRun Started stageStarted None;
     answer \<leftarrow> executor E (Some \<lparr>rq_capability_id = sl_capability_id sel, rq_binding_id = sl_binding_id sel,
       rq_provider_id = sl_provider_id sel, rq_inputs = Some planned, rq_verify = uq_verify req,
       rq_min_level = uq_min_level req\<rparr>);
     use_ran L E x started stageStarted answer}"

definition use_plan ::
    "golib \<Rightarrow> env \<Rightarrow> 's plan_host \<Rightarrow> 's use_executor \<Rightarrow> use_request \<Rightarrow> use_result \<Rightarrow> int \<Rightarrow> selection \<Rightarrow> ('s world, use_result outcome) state" where
  "use_plan L E H executor req x started sel = do {
     stageStarted \<leftarrow> now E;
     _ \<leftarrow> use_emitProgress L E x StagePlan Started stageStarted None;
     planned \<leftarrow> plan_Run H E (Some \<lparr>pn_use_id = ur_id x, pn_now = started, pn_inputs = uq_inputs req,
       pn_required = sl_required sel, pn_patch = sl_patch sel\<rparr>);
     (case planned of
        Inl e \<Rightarrow> use_fail_stage L E x StagePlan started stageStarted (planError e)
      | Inr inputs \<Rightarrow> do {
          _ \<leftarrow> use_emitProgress L E x StagePlan Succeeded stageStarted None;
          use_run L E executor req x started sel inputs})}"

definition use_select_request :: "use_request \<Rightarrow> capability list \<Rightarrow> provider list \<Rightarrow> select_request" where
  "use_select_request req capabilities providers =
     \<lparr>tq_intent = uq_intent req, tq_inputs = uq_inputs req, tq_provider_id = uq_provider_id req,
      tq_force_llm = uq_force_llm req, tq_min_level = uq_min_level req, tq_capabilities = capabilities,
      tq_commands = providerCommands providers\<rparr>"

definition use_Run ::
    "golib \<Rightarrow> string \<Rightarrow> (string \<Rightarrow> llm_decision res) \<Rightarrow> env \<Rightarrow> 's use_runner option \<Rightarrow> use_request option
      \<Rightarrow> ('s world, use_result outcome) state" where
  "use_Run L system decode E R0 req0 =
     (case use_validate R0 req0 of
        Some e \<Rightarrow> ret (None, Some e)
      | None \<Rightarrow> (let R = the R0; req = normalizeRequest (the req0) in do {
          started \<leftarrow> now E;
          let x = use_newResult L (uq_intent req) started;
          stageStarted \<leftarrow> now E;
          _ \<leftarrow> use_emitProgress L E x StageSelect Started stageStarted None;
          listed \<leftarrow> call (us_list_capabilities (the (uu_store R)));
          (case listed of
             Inl e \<Rightarrow> use_abort L E x StageSelect stageStarted CodeUseStoreFailed e
           | Inr capabilities \<Rightarrow> do {
               known \<leftarrow> call (us_list_providers (the (uu_store R)));
               (case known of
                  Inl e \<Rightarrow> use_abort L E x StageSelect stageStarted CodeUseStoreFailed e
                | Inr providers \<Rightarrow> do {
                    selected \<leftarrow> select_Run L system decode (uu_selector R) E
                      (Some (use_select_request req capabilities providers));
                    (case selected of
                       Inl e \<Rightarrow> use_fail_stage L E x StageSelect started stageStarted (use_selectionError e)
                     | Inr sel \<Rightarrow> do {
                         let y = x\<lparr>ur_selection := Some (selectionResult sel)\<rparr>;
                         _ \<leftarrow> use_emitProgress L E y StageSelect Succeeded stageStarted None;
                         use_plan L E (the (uu_planner R)) (the (uu_executor R)) req y started sel})})})}))"

section \<open>Planned inputs\<close>

text \<open>
  Planned inputs hold every required input, keep what the caller gave and add only what the patch
  names, or the target.
\<close>

definition plan_ok :: "ginputs \<Rightarrow> string list \<Rightarrow> ginputs \<Rightarrow> ginputs \<Rightarrow> bool" where
  "plan_ok inputs required patch planned \<longleftrightarrow>
     list_all (present planned) required \<and>
     (\<forall>k. present inputs k \<longrightarrow> map_of planned k = map_of inputs k) \<and>
     (\<forall>k. present planned k \<longrightarrow> present inputs k \<or> k \<in> trim_space ` set (keys patch) \<or> k = ''target'' \<and> k \<in> set required)"

lemma missingInputs_Nil [simp]: "missingInputs required inputs = [] \<longleftrightarrow> list_all (present inputs) required"
  by (induction required) auto

lemma present_put: "present (put k v m) j = (if j = k then v \<noteq> GNil \<and> v \<noteq> GStr [] else present m j)"
  by (simp add: present_def)

lemma merge_loop_keeps:
  "merge_loop merged patch = Inr m \<Longrightarrow> present merged k \<Longrightarrow> map_of m k = map_of merged k \<and> present m k"
proof (induction merged patch rule: merge_loop.induct)
  case (2 merged j v patch)
  then have "k \<noteq> trim_space j" by (auto simp: Let_def split: if_splits)
  with 2 show ?case by (auto simp: Let_def present_put split: if_splits)
qed simp

lemma merge_loop_adds:
  "merge_loop merged patch = Inr m \<Longrightarrow> present m k \<Longrightarrow> present merged k \<or> k \<in> trim_space ` set (keys patch)"
  by (induction merged patch rule: merge_loop.induct) (fastforce simp: Let_def present_put split: if_splits)+

lemma merge_loop_error:
  "merge_loop merged patch = Inl e \<Longrightarrow> err_is e ErrInvalidInputsPatch \<and> \<not> err_is e ErrMissingInputs"
  by (induction merged patch rule: merge_loop.induct)
    (auto simp: Let_def err_is_def ErrInvalidInputsPatch_def ErrMissingInputs_def split: if_splits)

lemma missing_check_Inr: "missing_check required inputs = Inr m \<longleftrightarrow> m = inputs \<and> list_all (present inputs) required"
  by (auto simp: missing_check_def)

lemma plan_ok_merge:
  assumes "mergeInputs inputs patch = Inr m" and "list_all (present m) required"
  shows "plan_ok inputs required patch m"
  using assms merge_loop_keeps [of inputs patch m] merge_loop_adds [of inputs patch m]
  by (auto simp: plan_ok_def mergeInputs_def)

lemma plan_ok_target:
  assumes "mergeInputs inputs patch = Inr m" and "list_all (present (put ''target'' v m)) required"
    and "\<not> present m ''target''" and "''target'' \<in> set required"
  shows "plan_ok inputs required patch (put ''target'' v m)"
  using assms merge_loop_keeps [of inputs patch m] merge_loop_adds [of inputs patch m]
  by (auto simp: plan_ok_def mergeInputs_def present_put)

lemma wp_TargetPath:
  "wp (TargetPath H E useID t) (\<lambda>r v. w_events v = w_events w) w"
  by (auto simp: TargetPath_def Let_def wp_simps intro!: wp_any split: option.split)

lemma wp_plan_Run:
  "wp (plan_Run H E (Some req)) (\<lambda>r v. w_events v = w_events w \<and>
     (\<forall>m. r = Inr m \<longrightarrow> plan_ok (pn_inputs req) (pn_required req) (pn_patch req) m)) w"
proof (cases "mergeInputs (pn_inputs req) (pn_patch req)")
  case (Inr m)
  show ?thesis
  proof (cases "''target'' \<in> set (pn_required req) \<and> \<not> present m ''target''")
    case True
    then show ?thesis
      unfolding plan_Run_def option.case Inr sum.case
      by (simp add: wp_bind) (rule wp_mono [OF wp_TargetPath],
        auto simp: wp_return missing_check_Inr plan_ok_target [OF Inr] split: sum.splits)
  next
    case False
    then have "plan_Run H E (Some req) = ret (missing_check (pn_required req) m)" by (auto simp: plan_Run_def Inr)
    then show ?thesis by (auto simp: wp_return missing_check_Inr plan_ok_merge [OF Inr])
  qed
qed (simp add: plan_Run_def wp_return)

text \<open>
  A plan gives the binding every input it requires; what the caller gave is passed on unchanged,
  whatever the model's patch says, and nothing is added but keys of the patch and, when it is required
  and missing, a target made locally.
\<close>

theorem plan_inputs:
  assumes "run_state (plan_Run H E (Some req)) w = (Inr planned, v)"
  shows "w_events v = w_events w \<and> plan_ok (pn_inputs req) (pn_required req) (pn_patch req) planned"
  using wp_run [OF wp_plan_Run assms] by simp

section \<open>The protocol of a use\<close>

definition use_log :: "'s world \<Rightarrow> (progress_stage \<times> progress_status) list" where
  "use_log w = map (\<lambda>e. (pe_stage e, pe_status e)) (filter (\<lambda>e. pe_scope e = ScopeUse) (w_events w))"

lemma use_log_simps [simp]:
  "use_log (w\<lparr>w_tick := n\<rparr>) = use_log w" "use_log (w\<lparr>w_ext := s\<rparr>) = use_log w"
  "use_log (w\<lparr>w_events := w_events u @ [use_event L x stage status started err t]\<rparr>) = use_log u @ [(stage, status)]"
  by (simp_all add: use_log_def use_event_def)

lemma use_log_quiet: "w_events v = w_events w \<Longrightarrow> use_log v = use_log w"
  by (simp add: use_log_def)

lemma wp_bind_eta: "wp (State_Monad.bind m f) Q = wp m (\<lambda>a. wp (f a) Q)"
  by (rule ext) (simp add: wp_bind)

lemma wp_use_emit:
  "(\<And>v. use_log v = use_log w @ [(stage, status)] \<Longrightarrow> w_ext v = w_ext w \<Longrightarrow> Q () v) \<Longrightarrow>
    wp (use_emitProgress L E x stage status started err) Q w"
  by (simp add: use_emitProgress_def wp_simps)

lemma wp_use_finish:
  "(\<And>y v. y = x\<lparr>ur_status := ''succeeded'', ur_finished_at := ur_finished_at y, ur_duration_ms := ur_duration_ms y, ur_error := None\<rparr> \<Longrightarrow>
     use_log v = use_log w \<Longrightarrow> w_ext v = w_ext w \<Longrightarrow> Q y v) \<Longrightarrow> wp (use_finishSucceeded L E x started) Q w"
  by (simp add: use_finishSucceeded_def wp_simps)

definition failed_as :: "use_result \<Rightarrow> use_result \<Rightarrow> bool" where
  "failed_as x y \<longleftrightarrow> ur_status y = ''failed'' \<and> ur_error y \<noteq> None \<and> ur_run y = ur_run x \<and> ur_selection y = ur_selection x"

lemma wp_use_fail_stage:
  "wp (use_fail_stage L E x stage started stageStarted cm)
     (\<lambda>r v. use_log v = use_log w @ [(stage, Failed)] \<and> w_ext v = w_ext w \<and> (\<exists>y. r = (Some y, None) \<and> failed_as x y)) w"
  by (simp add: use_fail_stage_def use_finishFailed_def wp_simps use_emitProgress_def failed_as_def)

lemma wp_use_abort:
  "wp (use_abort L E x stage stageStarted code e) (\<lambda>r v. use_log v = use_log w @ [(stage, Failed)] \<and> r = (None, Some e)) w"
  by (simp add: use_abort_def wp_simps use_emitProgress_def)

text \<open>The three stages of a use; all but the last one end well.\<close>

definition use_stages :: "progress_stage list" where
  "use_stages = [StageSelect, StagePlan, StageRun]"

definition use_protocol :: "'s world \<Rightarrow> 's world \<Rightarrow> bool \<Rightarrow> bool" where
  "use_protocol w v ok \<longleftrightarrow>
     (\<exists>n<3. use_log v = use_log w @ stage_pairs (map (\<lambda>st. (st, True)) (take n use_stages) @ [(use_stages ! n, ok)]) \<and>
       (ok \<longrightarrow> n = 2))"

text \<open>The run of a result is the run of its selection, on planned inputs; \<open>recorded\<close> is what the executor promises.\<close>

definition run_of_selection ::
    "(run_request \<Rightarrow> run_result \<Rightarrow> 's \<Rightarrow> bool) \<Rightarrow> golib \<Rightarrow> nat \<Rightarrow> use_request \<Rightarrow> use_result \<Rightarrow> 's \<Rightarrow> bool" where
  "run_of_selection recorded L k req x s \<longleftrightarrow>
     (\<forall>r. ur_run x = Some r \<longrightarrow> (\<exists>sel rr planned capabilities providers.
        ur_selection x = Some (selectionResult sel) \<and>
        select_post L k (use_select_request req capabilities providers) (Inr sel) \<and>
        plan_ok (uq_inputs req) (sl_required sel) (sl_patch sel) planned \<and> r = rr_run rr \<and>
        recorded \<lparr>rq_capability_id = sl_capability_id sel, rq_binding_id = sl_binding_id sel,
          rq_provider_id = sl_provider_id sel, rq_inputs = Some planned, rq_verify = uq_verify req,
          rq_min_level = uq_min_level req\<rparr> rr s))"

definition use_post ::
    "(run_request \<Rightarrow> run_result \<Rightarrow> 's \<Rightarrow> bool) \<Rightarrow> golib \<Rightarrow> nat \<Rightarrow> use_request \<Rightarrow> 's world \<Rightarrow> use_result outcome \<Rightarrow> 's world \<Rightarrow> bool" where
  "use_post recorded L k req w r v \<longleftrightarrow>
     (case r of
        (Some x, None) \<Rightarrow> run_of_selection recorded L k req x (w_ext v) \<and>
          (ur_status x = ''succeeded'' \<and> ur_error x = None \<and> (\<exists>rn. ur_run x = Some rn \<and> rn_status rn \<noteq> ''failed'') \<and>
             use_protocol w v True \<or>
           ur_status x = ''failed'' \<and> ur_error x \<noteq> None \<and> use_protocol w v False)
      | (None, Some e) \<Rightarrow> use_protocol w v False
      | _ \<Rightarrow> False)"

text \<open>What the last stage adds to a log that already has the first two.\<close>

definition use_run_post ::
    "(run_request \<Rightarrow> run_result \<Rightarrow> 's \<Rightarrow> bool) \<Rightarrow> use_result \<Rightarrow> run_request \<Rightarrow> 's world \<Rightarrow> use_result outcome \<Rightarrow> 's world \<Rightarrow> bool" where
  "use_run_post recorded x rq w r v \<longleftrightarrow>
     (case r of
        (Some y, None) \<Rightarrow> ur_selection y = ur_selection x \<and>
          (\<forall>rn. ur_run y = Some rn \<longrightarrow> (\<exists>rr. rn = rr_run rr \<and> recorded rq rr (w_ext v))) \<and>
          (ur_status y = ''succeeded'' \<and> ur_error y = None \<and> (\<exists>rn. ur_run y = Some rn \<and> rn_status rn \<noteq> ''failed'') \<and>
             use_log v = use_log w @ [(StageRun, Started), (StageRun, Succeeded)] \<or>
           ur_status y = ''failed'' \<and> ur_error y \<noteq> None \<and>
             use_log v = use_log w @ [(StageRun, Started), (StageRun, Failed)])
      | (None, Some e) \<Rightarrow> use_log v = use_log w @ [(StageRun, Started), (StageRun, Failed)]
      | _ \<Rightarrow> False)"

lemma use_run_failed:
  assumes "use_log u = use_log w @ [(StageRun, Started)]" and "ur_selection y = ur_selection x"
    and "\<And>rn. ur_run y = Some rn \<Longrightarrow> \<exists>rr. rn = rr_run rr \<and> recorded rq rr (w_ext u)"
  shows "wp (use_fail_stage L E y StageRun started stageStarted cm) (use_run_post recorded x rq w) u"
  by (rule wp_mono [OF wp_use_fail_stage]) (use assms in \<open>auto simp: use_run_post_def failed_as_def\<close>)

lemma wp_use_ran:
  assumes log: "use_log u = use_log w @ [(StageRun, Started)]" and x: "ur_run x = None"
    and rec: "\<And>rr. r = (Some rr, None) \<Longrightarrow> recorded rq rr (w_ext u)"
  shows "wp (use_ran L E x started stageStarted r) (use_run_post recorded x rq w) u"
proof -
  consider (err) a e where "r = (a, Some e)" | (none) "r = (None, None)" | (ran) rr where "r = (Some rr, None)"
    by (metis option.exhaust prod.exhaust)
  then show ?thesis
  proof cases
    case err
    have "wp (use_abort L E x StageRun stageStarted CodeRunFailed e) (use_run_post recorded x rq w) u"
      by (rule wp_mono [OF wp_use_abort]) (auto simp: use_run_post_def log)
    with err show ?thesis by (cases a) (simp_all add: use_ran_def)
  next
    case none
    then show ?thesis by (simp add: use_ran_def) (rule use_run_failed [OF log]; simp add: x)
  next
    case ran
    let ?y = "x\<lparr>ur_run := Some (rr_run rr)\<rparr>"
    have failed: "wp (use_fail_stage L E ?y StageRun started stageStarted cm) (use_run_post recorded x rq w) u" for cm
      by (rule use_run_failed [OF log]) (use rec ran in auto)
    have "wp (use_emitProgress L E ?y StageRun Succeeded stageStarted None)
        (\<lambda>_. wp (use_finishSucceeded L E ?y started) (\<lambda>z. wp (ret (Some z, None)) (use_run_post recorded x rq w))) u"
      if ok: "rn_status (rr_run rr) \<noteq> ''failed''"
    proof (rule wp_use_emit, rule wp_use_finish)
      fix v1 y v2
      assume "use_log v1 = use_log u @ [(StageRun, Succeeded)]" "w_ext v1 = w_ext u"
        and y: "y = ?y\<lparr>ur_status := ''succeeded'', ur_finished_at := ur_finished_at y, ur_duration_ms := ur_duration_ms y,
          ur_error := None\<rparr>" and "use_log v2 = use_log v1" "w_ext v2 = w_ext v1"
      then have "use_log v2 = use_log w @ [(StageRun, Started), (StageRun, Succeeded)]" "w_ext v2 = w_ext u"
        by (simp_all add: log)
      moreover have "ur_run y = Some (rr_run rr)" "ur_selection y = ur_selection x" "ur_status y = ''succeeded''" "ur_error y = None"
        by (subst y; simp)+
      ultimately show "wp (ret (Some y, None)) (use_run_post recorded x rq w) v2"
        using rec [OF ran] ok by (auto simp: wp_return use_run_post_def)
    qed
    with failed ran show ?thesis
      by (cases "rn_status (rr_run rr) = ''failed''") (simp_all add: use_ran_def Let_def wp_bind_eta)
  qed
qed

locale use_executor =
  fixes exec :: "'s use_executor" and recorded :: "run_request \<Rightarrow> run_result \<Rightarrow> 's \<Rightarrow> bool"
  assumes exec_law: "wp (exec E (Some rq)) (\<lambda>r v. use_log v = use_log w \<and>
    (\<forall>rr. r = (Some rr, None) \<longrightarrow> recorded rq rr (w_ext v))) w"
begin

lemma wp_use_run:
  assumes "ur_run x = None"
  shows "wp (use_run L E exec req x started sel planned)
    (use_run_post recorded x \<lparr>rq_capability_id = sl_capability_id sel, rq_binding_id = sl_binding_id sel,
       rq_provider_id = sl_provider_id sel, rq_inputs = Some planned, rq_verify = uq_verify req,
       rq_min_level = uq_min_level req\<rparr> w) w"
  unfolding use_run_def wp_bind wp_now
  by (rule wp_use_emit, rule wp_mono [OF exec_law], rule wp_use_ran [OF _ assms]) auto

text \<open>From the selection on: the log has the first stage, and planning is next.\<close>

lemma wp_use_plan:
  assumes log: "use_log w = use_log w0 @ [(StageSelect, Started), (StageSelect, Succeeded)]"
    and x: "ur_run x = None" "ur_selection x = Some (selectionResult sel)"
    and sel: "select_post L k (use_select_request req capabilities providers) (Inr sel)"
  shows "wp (use_plan L E H exec req x started sel) (use_post recorded L k req w0) w"
  unfolding use_plan_def wp_bind wp_now
proof (rule wp_use_emit, rule wp_mono [OF wp_plan_Run])
  fix v :: "'s world" and planned :: "ginputs res" and u :: "'s world"
  assume "use_log v = use_log (w\<lparr>w_tick := Suc (w_tick w)\<rparr>) @ [(StagePlan, Started)]"
    and p: "w_events u = w_events v \<and> (\<forall>m. planned = Inr m \<longrightarrow>
      plan_ok (pn_inputs \<lparr>pn_use_id = ur_id x, pn_now = started, pn_inputs = uq_inputs req, pn_required = sl_required sel,
        pn_patch = sl_patch sel\<rparr>) (pn_required \<lparr>pn_use_id = ur_id x, pn_now = started, pn_inputs = uq_inputs req,
        pn_required = sl_required sel, pn_patch = sl_patch sel\<rparr>) (pn_patch \<lparr>pn_use_id = ur_id x, pn_now = started,
        pn_inputs = uq_inputs req, pn_required = sl_required sel, pn_patch = sl_patch sel\<rparr>) m)"
  then have u: "use_log u = use_log w0 @ [(StageSelect, Started), (StageSelect, Succeeded), (StagePlan, Started)]"
    by (simp add: use_log_quiet [of u v] log)
  show "wp (case planned of
        Inl e \<Rightarrow> use_fail_stage L E x StagePlan started (env_time E (w_tick w)) (planError e)
      | Inr inputs \<Rightarrow> do {
          _ \<leftarrow> use_emitProgress L E x StagePlan Succeeded (env_time E (w_tick w)) None;
          use_run L E exec req x started sel inputs}) (use_post recorded L k req w0) u"
  proof (cases planned)
    case (Inl e)
    have "wp (use_fail_stage L E x StagePlan started (env_time E (w_tick w)) (planError e)) (use_post recorded L k req w0) u"
    proof (rule wp_mono [OF wp_use_fail_stage])
      fix r :: "use_result outcome" and v :: "'s world" assume r: "use_log v = use_log u @ [(StagePlan, Failed)] \<and> w_ext v = w_ext u \<and> (\<exists>y. r = (Some y, None) \<and> failed_as x y)"
      have "use_protocol w0 v False"
        unfolding use_protocol_def by (intro exI [of _ 1]) (use r u in \<open>simp add: stage_pairs_def use_stages_def\<close>)
      with r show "use_post recorded L k req w0 r v" by (auto simp: use_post_def failed_as_def run_of_selection_def x)
    qed
    with Inl show ?thesis by simp
  next
    case (Inr inputs)
    let ?rq = "\<lparr>rq_capability_id = sl_capability_id sel, rq_binding_id = sl_binding_id sel,
       rq_provider_id = sl_provider_id sel, rq_inputs = Some inputs, rq_verify = uq_verify req,
       rq_min_level = uq_min_level req\<rparr>"
    have ok: "plan_ok (uq_inputs req) (sl_required sel) (sl_patch sel) inputs" using p Inr by simp
    have "wp (use_emitProgress L E x StagePlan Succeeded (env_time E (w_tick w)) None)
      (\<lambda>_. wp (use_run L E exec req x started sel inputs) (use_post recorded L k req w0)) u"
    proof (rule wp_use_emit, rule wp_mono [OF wp_use_run [OF x(1)]])
      fix v1 :: "'s world" and r :: "use_result outcome" and v2 :: "'s world"
      assume v1: "use_log v1 = use_log u @ [(StagePlan, Succeeded)]"
        and post: "use_run_post recorded x ?rq v1 r v2"
      have protocol: "use_protocol w0 v2 good" if "use_log v2 = use_log v1 @ [(StageRun, Started), (StageRun, if good then Succeeded else Failed)]"
        for good unfolding use_protocol_def
        by (intro exI [of _ 2]) (use that v1 u in \<open>simp add: stage_pairs_def use_stages_def\<close>)
      have run_ok: "run_of_selection recorded L k req y (w_ext v2)"
        if "ur_selection y = ur_selection x" "\<forall>rn. ur_run y = Some rn \<longrightarrow> (\<exists>rr. rn = rr_run rr \<and> recorded ?rq rr (w_ext v2))" for y
        unfolding run_of_selection_def using that x(2) sel ok by metis
      show "use_post recorded L k req w0 r v2"
        using post protocol [of True] protocol [of False]
        by (auto simp: use_run_post_def use_post_def split: option.splits prod.splits intro!: run_ok)
    qed
    with Inr show ?thesis by (simp add: wp_bind_eta)
  qed
qed

lemma wp_use_Run:
  assumes "use_validate (Some R) (Some req) = None" and "uu_executor R = Some exec"
  shows "wp (use_Run L system decode E (Some R) (Some req)) (use_post recorded L (top_k (uu_selector R)) (normalizeRequest req) w) w"
proof -
  let ?req = "normalizeRequest req" and ?k = "top_k (uu_selector R)"
  let ?post = "use_post recorded L ?k ?req w"
  let ?x = "use_newResult L (uq_intent ?req) (env_time E (w_tick w))"
  have fail: "wp (use_abort L E ?x StageSelect t code e) ?post u"
    if "use_log u = use_log w @ [(StageSelect, Started)]" for t code e and u :: "'s world"
  proof (rule wp_mono [OF wp_use_abort])
    fix r :: "use_result outcome" and v :: "'s world" assume r: "use_log v = use_log u @ [(StageSelect, Failed)] \<and> r = (None, Some e)"
    have "use_protocol w v False"
      unfolding use_protocol_def by (intro exI [of _ 0]) (use r that in \<open>simp add: stage_pairs_def use_stages_def\<close>)
    with r show "?post r v" by (simp add: use_post_def)
  qed
  have stop: "wp (use_fail_stage L E ?x StageSelect started t cm) ?post u"
    if "use_log u = use_log w @ [(StageSelect, Started)]" for started t cm and u :: "'s world"
  proof (rule wp_mono [OF wp_use_fail_stage])
    fix r :: "use_result outcome" and v :: "'s world"
    assume r: "use_log v = use_log u @ [(StageSelect, Failed)] \<and> w_ext v = w_ext u \<and> (\<exists>y. r = (Some y, None) \<and> failed_as ?x y)"
    have "use_protocol w v False"
      unfolding use_protocol_def by (intro exI [of _ 0]) (use r that in \<open>simp add: stage_pairs_def use_stages_def\<close>)
    with r show "?post r v" by (auto simp: use_post_def failed_as_def run_of_selection_def use_newResult_def)
  qed
  have go: "wp (case selected of
        Inl e \<Rightarrow> use_fail_stage L E ?x StageSelect (env_time E (w_tick w)) t (use_selectionError e)
      | Inr sel \<Rightarrow> do {
          let y = ?x\<lparr>ur_selection := Some (selectionResult sel)\<rparr>;
          _ \<leftarrow> use_emitProgress L E y StageSelect Succeeded t None;
          use_plan L E (the (uu_planner R)) exec ?req y (env_time E (w_tick w)) sel}) ?post u"
    if log: "use_log u = use_log w @ [(StageSelect, Started)]"
      and post: "select_post L ?k (use_select_request ?req capabilities providers) selected"
    for t selected capabilities providers and u :: "'s world"
  proof (cases selected)
    case (Inr sel)
    have "wp (use_emitProgress L E (?x\<lparr>ur_selection := Some (selectionResult sel)\<rparr>) StageSelect Succeeded t None)
      (\<lambda>_. wp (use_plan L E (the (uu_planner R)) exec ?req (?x\<lparr>ur_selection := Some (selectionResult sel)\<rparr>)
         (env_time E (w_tick w)) sel) ?post) u"
      by (rule wp_use_emit, rule wp_use_plan) (use log post Inr in \<open>auto simp: use_newResult_def\<close>)
    with Inr show ?thesis by (simp add: wp_bind_eta Let_def)
  qed (simp add: stop [OF log])
  show ?thesis
    unfolding use_Run_def assms option.case Let_def wp_bind wp_now option.sel
    apply (rule wp_use_emit)
    apply (rule wp_call_any)
    subgoal for v listed s
      apply (cases listed)
       apply (simp only: sum.case, rule fail, simp)
      apply (simp only: sum.case wp_bind_eta)
      apply (rule wp_call_any)
      subgoal for capabilities known t
        apply (cases known)
         apply (simp only: sum.case, rule fail, simp)
        apply (simp only: sum.case wp_bind_eta)
        apply (rule wp_mono [OF wp_select_Run])
        subgoal for providers selected u
          by (rule go [unfolded Let_def wp_bind_eta]) (auto dest: use_log_quiet)
        done
      done
    done
qed

end

section \<open>The runner on the program's own parts\<close>

text \<open>The events of one kind a computation leaves alone.\<close>

definition no_use_event :: "('s world, 'a) state \<Rightarrow> bool" where
  "no_use_event m \<longleftrightarrow> (\<forall>w. wp m (\<lambda>_ v. use_log v = use_log w) w)"

lemma no_use_quiet: "quiet m \<Longrightarrow> no_use_event m"
  unfolding no_use_event_def by (auto intro: wp_quiet use_log_quiet)

lemma no_use_bind: "no_use_event m \<Longrightarrow> (\<And>a. no_use_event (f a)) \<Longrightarrow> no_use_event (State_Monad.bind m f)"
  unfolding no_use_event_def wp_bind by (metis (mono_tags, lifting) wp_mono)

lemma no_use_emit: "no_use_event (run_emitProgress L E req r stage status started err)"
  by (simp add: no_use_event_def run_emitProgress_def wp_simps use_log_def run_event_def)

lemma no_use_base: "no_use_event (now E)" "no_use_event (call m)" "no_use_event (ret a)"
  by (simp_all add: no_use_event_def wp_simps wp_any)

lemmas no_use = no_use_bind no_use_emit no_use_base

lemma no_use_save: "no_use_event (run_save L E st r outs evidence)"
  unfolding run_save_def by (intro no_use) (auto intro!: no_use split: option.split)

lemma no_use_fail: "no_use_event (run_fail L E st r started code message)"
  unfolding run_fail_def finishFailed_def by (intro no_use no_use_save)

lemma no_use_fail_stage: "no_use_event (run_fail_stage L E st req r stage started stageStarted code message)"
  unfolding run_fail_stage_def by (intro no_use no_use_fail)

lemmas no_use_run = no_use no_use_save no_use_fail no_use_fail_stage

lemma no_use_finish:
  assumes "\<And>q. no_use_event (checker q)"
  shows "no_use_event (run_finish L E st checker req inputs r started b outs)"
  unfolding run_finish_def finishSucceeded_def Let_def
  by (auto intro!: no_use_run assms split: prod.split option.split)

lemma no_use_execute:
  assumes "\<And>q. no_use_event (checker q)" and "\<And>q. no_use_event (executor q)"
  shows "no_use_event (run_execute L E st executor checker req inputs r started b prov)"
  unfolding run_execute_def Let_def
  by (auto intro!: no_use_run no_use_finish assms split: prod.split option.split)

lemma no_use_start:
  assumes "\<And>q. no_use_event (checker q)" and "\<And>q. no_use_event (executor q)"
  shows "no_use_event (run_start L E st resolver executor checker req inputs)"
  unfolding run_start_def Let_def
  by (auto intro!: no_use_run no_use_execute assms split: sum.split option.split)

lemma no_use_run_Run:
  assumes "quiet_parts R"
  shows "no_use_event (run_Run L E (Some R) (Some req))"
proof (cases "run_validate (Some R) (Some req)")
  case None
  then obtain exe where exe: "ru_executor R = Some exe" by (auto simp: run_validate_def split: if_splits)
  have chk: "no_use_event ((case ru_checker R of None \<Rightarrow> no_checker | Some c \<Rightarrow> c) q)" for q
    using assms by (auto simp: quiet_parts_def no_checker_def no_use_base intro: no_use_quiet split: option.split)
  have "no_use_event (exe q)" for q using assms exe by (auto simp: quiet_parts_def intro: no_use_quiet)
  from no_use_start [OF chk this] None exe show ?thesis by (simp add: run_Run_def Let_def)
qed (simp add: run_Run_def no_use_base)

text \<open>The formal runner as an executor.\<close>

definition run_executor ::
    "golib \<Rightarrow> capability codec \<Rightarrow> provider codec \<Rightarrow> run codec \<Rightarrow> store \<Rightarrow> fsys machine \<Rightarrow> fsys use_executor" where
  "run_executor L CC CP CR S M = (\<lambda>E rq. do {
     r \<leftarrow> run_Run L E (Some (file_runner L E CC CP CR S M)) rq;
     ret (case r of Inl e \<Rightarrow> (None, Some e) | Inr rr \<Rightarrow> (Some rr, None))})"

interpretation formal: use_executor "run_executor L CC CP CR S M" "run_stored L CR S"
  for L CC CP CR S M
proof unfold_locales
  fix E rq and w :: "fsys world"
  have "quiet_parts (file_runner L E CC CP CR S M)"
    by (auto simp: quiet_parts_def file_runner_def run_NewDefaultRunner_def intro: keeps)
  then have "wp (run_Run L E (Some (file_runner L E CC CP CR S M)) (Some rq)) (\<lambda>_ v. use_log v = use_log w) w"
    using no_use_run_Run unfolding no_use_event_def by blast
  then show "wp (run_executor L CC CP CR S M E (Some rq)) (\<lambda>r v. use_log v = use_log w \<and>
      (\<forall>rr. r = (Some rr, None) \<longrightarrow> run_stored L CR S rq rr (w_ext v))) w"
    unfolding run_executor_def wp_bind
    by (auto simp: wp_iff run_ret split: sum.splits dest: file_run_saved)
qed


section \<open>The run resolves to the selected binding\<close>

text \<open>Identifiers of a catalog: capabilities and their bindings are told apart by ids without surrounding space.\<close>

definition plain_id :: "string \<Rightarrow> bool" where
  "plain_id i \<longleftrightarrow> i \<noteq> [] \<and> trim_space i = i"

definition catalog_ok :: "capability list \<Rightarrow> bool" where
  "catalog_ok cs \<longleftrightarrow> distinct (map cp_id cs) \<and>
     list_all (\<lambda>c. distinct (map bd_id (cp_bindings c)) \<and>
       list_all (\<lambda>b. plain_id (bd_id b) \<and> plain_id (bd_provider_id b)) (cp_bindings c)) cs"

lemma filter_by_id:
  assumes "distinct (map f xs)" and "x \<in> set xs" and "P x" and "\<And>y. P y \<Longrightarrow> f y = f x"
  shows "filter P xs = [x]"
  using assms
proof (induction xs)
  case (Cons y ys)
  show ?case
  proof (cases "y = x")
    case True
    with Cons.prems(1) have "f x \<notin> f ` set ys" by simp
    then have "\<not> P z" if "z \<in> set ys" for z using that Cons.prems(4) [of z] by (metis image_eqI)
    with True Cons.prems(3) show ?thesis by simp
  next
    case False
    with Cons.prems have "x \<in> set ys" by simp
    then have "f y \<noteq> f x" using Cons.prems(1) by auto
    with Cons.prems(4) have "\<not> P y" by blast
    moreover have "filter P ys = [x]"
      by (rule Cons.IH [OF _ \<open>x \<in> set ys\<close> Cons.prems(3,4)]) (use Cons.prems(1) in simp)
    ultimately show ?thesis by simp
  qed
qed simp

lemma find_by_id: "distinct (map f xs) \<Longrightarrow> x \<in> set xs \<Longrightarrow> find (\<lambda>y. f y = f x) xs = Some x"
  by (induction xs) (auto simp: image_iff)

text \<open>
  C7. What is selected is what runs: in a catalog whose ids are distinct, the formal runner's resolver,
  asked with the ids, the inputs and the level a use hands over, takes exactly the selected binding
  of the selected capability, whatever the planned inputs are.
\<close>

theorem selection_resolves:
  assumes "run_state (select_Run L system decode R E (Some req)) w = (Inr sel, v)"
    and "catalog_ok (tq_capabilities req)"
  shows "\<exists>c b. find (\<lambda>c. cp_id c = sl_capability_id sel) (tq_capabilities req) = Some c \<and>
    b \<in> set (cp_bindings c) \<and> bd_id b = sl_binding_id sel \<and> matching L req c b \<and>
    resolve_Run (Some \<lparr>sq_capability = Some c, sq_binding_id = sl_binding_id sel, sq_provider_id = sl_provider_id sel,
      sq_inputs = planned, sq_min_level = select_minLevel req\<rparr>) = Inr (resolution_of c b)"
proof -
  from wp_run [OF wp_select_Run assms(1)] obtain c b where c: "c \<in> set (tq_capabilities req)"
    and b: "b \<in> set (cp_bindings c)" and m: "matching L req c b"
    and sel: "selection_of_candidate L req (top_k R) (scored_as L req c b) sel"
    by (auto simp: select_post_def)
  then have ids: "sl_capability_id sel = cp_id c" "sl_binding_id sel = bd_id b" "sl_provider_id sel = bd_provider_id b"
    by (auto simp: selection_of_candidate_def resultFromCandidate_def scored_as_def Let_def)
  from assms(2) c b have cat: "distinct (map cp_id (tq_capabilities req))" "distinct (map bd_id (cp_bindings c))"
    "plain_id (bd_id b)" "plain_id (bd_provider_id b)"
    by (auto simp: catalog_ok_def list_all_iff)
  let ?rq = "\<lparr>sq_capability = Some c, sq_binding_id = bd_id b, sq_provider_id = bd_provider_id b,
      sq_inputs = planned, sq_min_level = select_minLevel req\<rparr>"
  have "select_minLevel req \<noteq> []" by (simp add: select_minLevel_def)
  with m cat have el: "eligible ?rq b" by (auto simp: eligible_def matching_def plain_id_def split: option.splits)
  have only: "bd_id b' = bd_id b" if "eligible ?rq b'" for b'
    using that cat by (auto simp: eligible_def plain_id_def split: if_splits)
  have f: "filter (eligible ?rq) (cp_bindings c) = [b]"
    by (rule filter_by_id [where f = bd_id and P = "eligible ?rq", OF cat(2) b el]) (rule only)
  from m have req: "RequiredInputs (Some (bd_execution b)) = Inr (required_of b)" by (simp add: matching_def)
  have "resolve_Run (Some ?rq) = Inr (resolution_of c b)"
    using resolve_loop_choice [of ?rq "cp_bindings c" c None] req
    by (simp add: resolve_Run_def f split: option.splits if_splits)
  with find_by_id [OF cat(1) c] ids b m show ?thesis by auto
qed

section \<open>Examples\<close>

definition demo_host :: "'s plan_host" where
  "demo_host = \<lparr>ph_temp = ''/tmp'', ph_day = (\<lambda>_. ''2026-07-04''), ph_mkdir_all = (\<lambda>_. ret None)\<rparr>"

definition demo_plan :: plan_request where
  "demo_plan = \<lparr>pn_use_id = ''use_1'', pn_now = 1, pn_inputs = [(''source'', GStr ''a.md'')],
     pn_required = [''source'', ''format'', ''target''], pn_patch = [(''format'', GStr ''pdf'')]\<rparr>"

definition demo_planned :: "ginputs res \<times> unit world" where
  "demo_planned = run_state (plan_Run demo_host demo_env (Some demo_plan)) \<lparr>w_tick = 0, w_events = [], w_ext = ()\<rparr>"

lemma demo_planned_ok: "demo_planned =
   (Inr [(''source'', GStr ''a.md''), (''format'', GStr ''pdf''), (''target'', GStr ''/tmp/cal/artifacts/2026-07-04/use_1.out'')],
    \<lparr>w_tick = 1, w_events = [], w_ext = ()\<rparr>)"
  by code_simp

theorem plan_inputs_witness:
  "plan_ok [(''source'', GStr ''a.md'')] [''source'', ''format'', ''target''] [(''format'', GStr ''pdf'')]
     [(''source'', GStr ''a.md''), (''format'', GStr ''pdf''), (''target'', GStr ''/tmp/cal/artifacts/2026-07-04/use_1.out'')]"
  using plan_inputs [OF demo_planned_ok [unfolded demo_planned_def]] by (simp add: demo_plan_def)

theorem selection_resolves_witness:
  "\<exists>sel c b. fst tied_run = Inr sel \<and> sl_binding_id sel = ''b1'' \<and> cp_id c = sl_capability_id sel \<and>
     resolve_Run (Some \<lparr>sq_capability = Some c, sq_binding_id = sl_binding_id sel, sq_provider_id = sl_provider_id sel,
       sq_inputs = [], sq_min_level = L2\<rparr>) = Inr (resolution_of c b) \<and> bd_id b = ''b1''"
proof -
  from tied_choice obtain sel where sel: "fst tied_run = Inr sel" "sl_binding_id sel = ''b1''"
    by (cases "fst tied_run") auto
  have run: "run_state (select_Run plain_lib [] (\<lambda>_. Inl (EText [])) None \<lparr>env_time = (\<lambda>_. 0), env_ctx = (\<lambda>_. None)\<rparr>
     (Some (export_request [''b1'', ''b2'']))) \<lparr>w_tick = 0, w_events = [], w_ext = ()\<rparr> = (Inr sel, snd tied_run)"
    using sel(1) by (simp only: tied_run_def prod_eq_iff fst_conv snd_conv simp_thms)
  have "catalog_ok (tq_capabilities (export_request [''b1'', ''b2'']))" by code_simp
  from selection_resolves [OF run this, of "[]"] obtain c b
    where cb: "find (\<lambda>c. cp_id c = sl_capability_id sel) (tq_capabilities (export_request [''b1'', ''b2''])) = Some c"
      "bd_id b = sl_binding_id sel"
      "resolve_Run (Some \<lparr>sq_capability = Some c, sq_binding_id = sl_binding_id sel, sq_provider_id = sl_provider_id sel,
         sq_inputs = [], sq_min_level = select_minLevel (export_request [''b1'', ''b2''])\<rparr>) = Inr (resolution_of c b)"
    by (elim exE conjE) (rule that)
  moreover have "select_minLevel (export_request [''b1'', ''b2'']) = L2" by (simp add: select_minLevel_def export_request_def)
  moreover have "cp_id c = sl_capability_id sel" using cb(1) by (auto dest: find_SomeD)
  ultimately show ?thesis using sel by (intro exI [of _ sel] exI [of _ c] exI [of _ b]) simp
qed

definition demo_use_runner :: "fsys use_runner" where
  "demo_use_runner = use_NewDefaultRunner
     (Some \<lparr>us_list_capabilities = ListCapabilities plain_lib demo_capabilities demo_store,
       us_list_providers = ListProviders plain_lib demo_providers demo_store\<rparr>)
     (Some (run_executor plain_lib demo_capabilities demo_providers demo_runs demo_store echo_machine)) None demo_host"

definition demo_use_request :: use_request where
  "demo_use_request = \<lparr>uq_intent = ''echo a text'', uq_inputs = [(''text'', GStr ''hello'')], uq_provider_id = [],
     uq_force_llm = False, uq_verify = True, uq_min_level = L1\<rparr>"


end
