(* ===== verification/Cal_Entry.thy ===== *)
theory Cal_Entry
  imports Cal_Store Cal_World
begin

text \<open>
  \<^verbatim>\<open>internal/entry\<close>: the registry of providers. A path is normalized, the file behind it decides the
  kind of provider, and the provider is stored under an id derived from platform, kind and path.
  Paths are those of Unix; \<^verbatim>\<open>path_windows.go\<close> is not modelled.
\<close>

abbreviation "CodeInvalidProviderPath \<equiv> ''invalid_provider_path''"
abbreviation "CodeTargetProviderNotFound \<equiv> ''target_provider_not_found''"
abbreviation "CodeProviderNotFound \<equiv> ''provider_not_found''"
abbreviation "CodeEntryStoreFailed \<equiv> ''entry_store_failed''"

definition entry_error :: "string \<Rightarrow> string \<Rightarrow> gerr" where
  "entry_error code message = ECoded ''entry'' code message None"

definition entry_wrap :: "string \<Rightarrow> string \<Rightarrow> gerr \<Rightarrow> gerr" where
  "entry_wrap code message e = ECoded ''entry'' code message (Some e)"

section \<open>Provider paths\<close>

text \<open>
  The operating system: its name, \<^verbatim>\<open>os.UserHomeDir\<close>, \<^verbatim>\<open>os.ExpandEnv\<close>, \<^verbatim>\<open>os.Getwd\<close> as \<^verbatim>\<open>filepath.Abs\<close>
  uses it, and \<^verbatim>\<open>os.Stat\<close>: whether the file is a directory and whether some execute bit is set.
\<close>

record 's entry_host =
  eh_goos :: string
  eh_home :: "string res"
  eh_expand :: "string \<Rightarrow> string"
  eh_wd :: "string res"
  eh_stat :: "string \<Rightarrow> ('s, (bool \<times> bool) res) state"

definition path_abs :: "string res \<Rightarrow> string \<Rightarrow> string res" where
  "path_abs wd p =
     (if path_is_abs p then Inr (path_clean p)
      else (case wd of Inl e \<Rightarrow> Inl e | Inr d \<Rightarrow> Inr (path_join [d, p])))"

definition expandProviderPath :: "'s entry_host \<Rightarrow> string \<Rightarrow> string" where
  "expandProviderPath H path =
     (case eh_home H of
        Inr home \<Rightarrow>
          if path = ''$HOME'' then home
          else if has_prefix ''$HOME/'' path then path_join [home, trim_prefix ''$HOME/'' path]
          else eh_expand H path
      | Inl e \<Rightarrow> eh_expand H path)"

definition normalizeProviderPath :: "'s entry_host \<Rightarrow> string \<Rightarrow> string res" where
  "normalizeProviderPath H providerPath =
     (if blank providerPath then Inl (entry_error CodeInvalidProviderPath ''provider_path is required'')
      else (case path_abs (eh_wd H) (path_clean (expandProviderPath H (trim_space providerPath))) of
              Inl e \<Rightarrow> Inl (entry_wrap CodeInvalidProviderPath ''normalize provider_path'' e)
            | Inr p \<Rightarrow> Inr p))"

text \<open>The three builds of \<^verbatim>\<open>providerKind\<close> for Unix: the app bundle is a case of darwin only.\<close>

definition providerKind_linux :: "bool \<times> bool \<Rightarrow> string option" where
  "providerKind_linux info = (if \<not> fst info \<and> snd info then Some kind_cli else None)"

definition providerKind_darwin :: "golib \<Rightarrow> string \<Rightarrow> bool \<times> bool \<Rightarrow> string option" where
  "providerKind_darwin L path info =
     (if fst info \<and> equal_fold L (path_ext (path_base path)) ''.app'' then Some ''app''
      else if \<not> fst info \<and> snd info then Some kind_cli else None)"

definition providerKind :: "golib \<Rightarrow> string \<Rightarrow> string \<Rightarrow> bool \<times> bool \<Rightarrow> string option" where
  "providerKind L goos path info =
     (if goos = ''darwin'' then providerKind_darwin L path info else providerKind_linux info)"

definition trim_suffix :: "string \<Rightarrow> string \<Rightarrow> string" where
  "trim_suffix suf s = (if has_suffix suf s then take (length s - length suf) s else s)"

definition providerName :: "string \<Rightarrow> string \<Rightarrow> string" where
  "providerName path kind =
     (if kind = ''app'' then trim_suffix (path_ext (path_base path)) (path_base path) else path_base path)"

definition resolveProviderPath :: "golib \<Rightarrow> 's entry_host \<Rightarrow> string \<Rightarrow> ('s, provider res) state" where
  "resolveProviderPath L H providerPath =
     (case normalizeProviderPath H providerPath of
        Inl e \<Rightarrow> ret (Inl e)
      | Inr path \<Rightarrow> do {
          info \<leftarrow> eh_stat H path;
          ret (case info of
                 Inl e \<Rightarrow> Inl (entry_error CodeTargetProviderNotFound ''provider path did not resolve to a supported provider'')
               | Inr i \<Rightarrow>
                   (case providerKind L (eh_goos H) path i of
                      None \<Rightarrow> Inl (entry_error CodeTargetProviderNotFound ''provider path did not resolve to a supported provider'')
                    | Some kind \<Rightarrow> Inr \<lparr>pv_id = ProviderID L (eh_goos H) kind path, pv_name = providerName path kind,
                        pv_kind = kind, pv_path = path, pv_version = []\<rparr>))})"

section \<open>The registry\<close>

record 's provider_store =
  vs_list :: "('s, provider list res) state"
  vs_get :: "string \<Rightarrow> ('s, provider option res) state"
  vs_save :: "provider option \<Rightarrow> ('s, gerr option) state"

record register_result =
  rg_provider :: provider
  rg_created :: bool
  rg_updated :: bool

text \<open>A registry that is nil or has no store is \<open>None\<close>.\<close>

definition entry_validate :: "env \<Rightarrow> 's provider_store option \<Rightarrow> ('s world, gerr option) state" where
  "entry_validate E G =
     (case G of
        None \<Rightarrow> ret (Some (entry_error CodeEntryStoreFailed ''provider store is required''))
      | Some S \<Rightarrow> ctx_err E)"

text \<open>\<^verbatim>\<open>Register\<close> from the listing on, and once the list is known.\<close>

definition register_listed :: "env \<Rightarrow> 's provider_store \<Rightarrow> provider \<Rightarrow> provider list \<Rightarrow> ('s world, register_result res) state" where
  "register_listed E S p providers = do {
     c \<leftarrow> ctx_err E;
     (case c of
        Some e \<Rightarrow> ret (Inl e)
      | None \<Rightarrow>
          (let known = list_ex (\<lambda>q. pv_id q = pv_id p) providers;
               result = \<lparr>rg_provider = p, rg_created = \<not> known, rg_updated = known\<rparr>
           in do {
             saved \<leftarrow> call (vs_save S (Some p));
             ret (case saved of
                    Some e \<Rightarrow> Inl (entry_wrap CodeEntryStoreFailed ''save provider'' e)
                  | None \<Rightarrow> Inr result)}))}"

definition register_provider :: "env \<Rightarrow> 's provider_store \<Rightarrow> provider \<Rightarrow> ('s world, register_result res) state" where
  "register_provider E S p = do {
     c \<leftarrow> ctx_err E;
     (case c of
        Some e \<Rightarrow> ret (Inl e)
      | None \<Rightarrow> do {
          listed \<leftarrow> call (vs_list S);
          (case listed of
             Inl e \<Rightarrow> ret (Inl (entry_wrap CodeEntryStoreFailed ''list providers'' e))
           | Inr providers \<Rightarrow> register_listed E S p providers)})}"

definition Register ::
    "golib \<Rightarrow> 's entry_host \<Rightarrow> env \<Rightarrow> 's provider_store option \<Rightarrow> string option \<Rightarrow> ('s world, register_result res) state" where
  "Register L H E G req = do {
     v \<leftarrow> entry_validate E G;
     (case v of
        Some e \<Rightarrow> ret (Inl e)
      | None \<Rightarrow>
          (case req of
             None \<Rightarrow> ret (Inl (entry_error CodeInvalidProviderPath ''provider_path is required''))
           | Some providerPath \<Rightarrow> do {
               resolved \<leftarrow> call (resolveProviderPath L H providerPath);
               (case resolved of
                  Inl e \<Rightarrow> ret (Inl e)
                | Inr p \<Rightarrow> register_provider E (the G) p)}))}"

definition Load :: "golib \<Rightarrow> env \<Rightarrow> 's provider_store option \<Rightarrow> string option \<Rightarrow> ('s world, provider res) state" where
  "Load L E G req = do {
     v \<leftarrow> entry_validate E G;
     (case v of
        Some e \<Rightarrow> ret (Inl e)
      | None \<Rightarrow>
          (if (case req of None \<Rightarrow> True | Some i \<Rightarrow> blank i)
           then ret (Inl (entry_error CodeProviderNotFound ''provider_id is required''))
           else do {
             let providerID = trim_space (the req);
             found \<leftarrow> call (vs_get (the G) providerID);
             ret (case found of
                    Inl e \<Rightarrow> Inl (entry_wrap CodeEntryStoreFailed ''get provider'' e)
                  | Inr None \<Rightarrow> Inl (entry_error CodeProviderNotFound (''provider '' @ quote L providerID @ '' was not found''))
                  | Inr (Some p) \<Rightarrow> Inr p)}))}"

definition List_Providers :: "env \<Rightarrow> 's provider_store option \<Rightarrow> ('s world, provider list res) state" where
  "List_Providers E G = do {
     v \<leftarrow> entry_validate E G;
     (case v of
        Some e \<Rightarrow> ret (Inl e)
      | None \<Rightarrow> do {
          listed \<leftarrow> call (vs_list (the G));
          ret (case listed of Inl e \<Rightarrow> Inl (entry_wrap CodeEntryStoreFailed ''list providers'' e) | Inr ps \<Rightarrow> Inr ps)})}"

definition GetByPath :: "'s entry_host \<Rightarrow> env \<Rightarrow> 's provider_store option \<Rightarrow> string \<Rightarrow> ('s world, provider option res) state" where
  "GetByPath H E G providerPath = do {
     v \<leftarrow> entry_validate E G;
     (case v of
        Some e \<Rightarrow> ret (Inl e)
      | None \<Rightarrow>
          (case normalizeProviderPath H providerPath of
             Inl e \<Rightarrow> ret (Inl e)
           | Inr path \<Rightarrow> do {
               listed \<leftarrow> call (vs_list (the G));
               ret (case listed of
                      Inl e \<Rightarrow> Inl (entry_wrap CodeEntryStoreFailed ''list providers'' e)
                    | Inr ps \<Rightarrow> Inr (find (\<lambda>p. pv_path p = path) ps))}))}"

section \<open>On the program's store\<close>

definition file_provider_store :: "golib \<Rightarrow> provider codec \<Rightarrow> store \<Rightarrow> fsys provider_store" where
  "file_provider_store L C S = \<lparr>vs_list = ListProviders L C S, vs_get = GetProvider L C S, vs_save = SaveProvider L C S\<rparr>"

text \<open>What the model relies on: the working directory is absolute, \<^verbatim>\<open>os.Stat\<close> changes no file, digests are hexadecimal.\<close>

definition host_ok :: "fsys entry_host \<Rightarrow> bool" where
  "host_ok H \<longleftrightarrow> (case eh_wd H of Inl _ \<Rightarrow> True | Inr d \<Rightarrow> path_is_abs d) \<and>
     (\<forall>p s. fs_files (snd (run_state (eh_stat H p) s)) = fs_files s)"

definition hex_char :: "char \<Rightarrow> bool" where
  "hex_char c \<longleftrightarrow> is_digit c \<or> byte_in 0x61 0x66 c"

definition hex_digests :: "golib \<Rightarrow> bool" where
  "hex_digests L \<longleftrightarrow> (\<forall>s. list_all hex_char (sha256_hex L s))"

lemma ProviderID_trim:
  assumes "hex_digests L"
  shows "trim_space (ProviderID L platform kind path) = ProviderID L platform kind path"
proof (rule trim_space_visible)
  have "byte_in 33 126 c" if "hex_char c" for c using that by (auto simp: hex_char_def is_digit_def byte_in_def)
  moreover have "hex_char c" if "c \<in> set (ShortHash L [platform, kind, path])" for c
    using that assms by (auto simp: ShortHash_def hex_digests_def list_all_iff dest: in_set_takeD)
  ultimately show "list_all (byte_in 33 126) (ProviderID L platform kind path)"
    by (auto simp: ProviderID_def byte_in_def list_all_iff)
qed

lemma ProviderID_visible:
  assumes "hex_digests L"
  shows "visible (ProviderID L platform kind path)"
proof -
  let ?h = "ShortHash L [platform, kind, path]"
  have hex: "hex_char c" if "c \<in> set ?h" for c
    using that assms by (auto simp: ShortHash_def hex_digests_def list_all_iff dest: in_set_takeD)
  have range: "byte_in 33 126 c \<and> c \<noteq> slash \<and> c \<noteq> CHR 0x5C" if "hex_char c" for c
    using that by (auto simp: hex_char_def is_digit_def byte_in_def)
  note ProviderID_trim [OF assms]
  moreover have "slash \<notin> set (ProviderID L platform kind path)" "CHR 0x5C \<notin> set (ProviderID L platform kind path)"
    using hex range by (auto simp: ProviderID_def)
  ultimately have "record_id (ProviderID L platform kind path)" by (auto simp: record_id_def ProviderID_def)
  then show ?thesis by (rule visibleI) (simp add: ProviderID_def)
qed

lemma normalizeProviderPath_abs:
  assumes "host_ok H" and "normalizeProviderPath H providerPath = Inr path"
  shows "path_is_abs path \<and> path_clean path = path"
proof -
  let ?q = "path_clean (expandProviderPath H (trim_space providerPath))"
  from assms(2) have abs: "path_abs (eh_wd H) ?q = Inr path"
    by (auto simp: normalizeProviderPath_def split: if_splits sum.splits)
  show ?thesis
  proof (cases "path_is_abs ?q")
    case True
    with abs show ?thesis by (auto simp: path_abs_def path_is_abs_def)
  next
    case False
    with abs obtain d where d: "eh_wd H = Inr d" "path = path_join [d, ?q]"
      by (auto simp: path_abs_def split: sum.splits)
    with assms(1) have "path_is_abs d" by (simp add: host_ok_def)
    then have "d \<noteq> []" and "is_rooted (d @ slash # ?q)" by (cases d; auto simp: path_is_abs_def is_rooted_def)+
    with d(2) show ?thesis by (simp add: path_join_def path_is_abs_def)
  qed
qed

text \<open>The provider a path resolves to.\<close>

definition resolved_provider :: "golib \<Rightarrow> 's entry_host \<Rightarrow> provider \<Rightarrow> bool" where
  "resolved_provider L H p \<longleftrightarrow> path_is_abs (pv_path p) \<and> path_clean (pv_path p) = pv_path p \<and>
     (pv_kind p = kind_cli \<or> pv_kind p = ''app'') \<and> pv_id p = ProviderID L (eh_goos H) (pv_kind p) (pv_path p) \<and>
     pv_name p = providerName (pv_path p) (pv_kind p)"

lemma providerKind_kinds: "providerKind L goos path i = Some kind \<Longrightarrow> kind = kind_cli \<or> kind = ''app''"
  by (auto simp: providerKind_def providerKind_darwin_def providerKind_linux_def split: if_splits)

lemma wp_resolve:
  assumes "host_ok H"
  shows "wp (resolveProviderPath L H providerPath) (\<lambda>r t. fs_files t = fs_files s \<and>
    (\<forall>p. r = Inr p \<longrightarrow> resolved_provider L H p)) s"
proof (cases "normalizeProviderPath H providerPath")
  case (Inr path)
  have stat: "wp (eh_stat H path) (\<lambda>r t. fs_files t = fs_files s) s"
    using assms by (simp add: host_ok_def wp_def split: prod.split) (metis snd_conv)
  have "path_is_abs path \<and> path_clean path = path" by (rule normalizeProviderPath_abs [OF assms Inr])
  with Inr show ?thesis
    by (simp add: resolveProviderPath_def wp_bind, intro wp_mono [OF stat])
      (auto simp: wp_return resolved_provider_def dest: providerKind_kinds split: sum.splits option.splits)
qed (simp add: resolveProviderPath_def wp_return)

definition register_post where
  "register_post L C S H w r v \<longleftrightarrow>
     (case r of
        Inl e \<Rightarrow> provider_view C S (w_ext v) = provider_view C S (w_ext w)
      | Inr x \<Rightarrow>
          let p = rg_provider x in
          resolved_provider L H p \<and> ValidateProvider L p = None \<and> visible (pv_id p) \<and>
          provider_view C S (w_ext v) = (provider_view C S (w_ext w))(pv_id p := reread C p) \<and>
          rg_created x \<noteq> rg_updated x)"

lemma wp_register_listed:
  assumes "hex_digests L" and p: "resolved_provider L H p"
    and u: "provider_view C S (w_ext u) = provider_view C S (w_ext w)"
  shows "wp (register_listed E (file_provider_store L C S) p providers) (register_post L C S H w) u"
proof -
  have vis: "visible (pv_id p)" using p by (simp add: resolved_provider_def ProviderID_visible [OF assms(1)])
  show ?thesis
    unfolding register_listed_def file_provider_store_def Let_def
    apply (simp add: wp_simps split: option.split)
    apply (intro conjI impI allI)
     apply (rule wp_mono [OF providers.save_law [OF vis]])
    subgoal for r t by (cases r) (simp_all add: register_post_def Let_def p vis u)
    apply (simp add: register_post_def u)
    done
qed

lemma wp_register_provider:
  assumes "hex_digests L" and "resolved_provider L H p"
    and u: "provider_view C S (w_ext u) = provider_view C S (w_ext w)"
  shows "wp (register_provider E (file_provider_store L C S) p) (register_post L C S H w) u"
proof -
  have list: "vs_list (file_provider_store L C S) = listJSONRecords C S providersDir (ValidateProvider L) pv_id"
    by (simp add: file_provider_store_def ListProviders_def)
  show ?thesis
    unfolding register_provider_def wp_bind wp_ctx_err
    apply (simp add: wp_simps list split: option.split)
    apply (intro conjI impI allI)
     apply (rule wp_mono [OF wp_list_keeps])
    subgoal for r t
      by (cases r) (auto simp: wp_return register_post_def u dest: stored_files [of _ _ C S]
        intro!: wp_register_listed [OF assms(1,2)])
    apply (simp add: register_post_def u)
    done
qed

lemma wp_register:
  assumes "host_ok H" and "hex_digests L"
  shows "wp (Register L H E (Some (file_provider_store L C S)) req) (register_post L C S H w) w"
  unfolding Register_def entry_validate_def
  apply (simp add: wp_simps split: option.split)
  apply (intro conjI impI allI)
    apply (simp_all add: register_post_def [of _ _ _ _ _ "Inl _"])
  apply (rule wp_mono [OF wp_resolve [OF assms(1)]])
  subgoal for providerPath r t
    by (cases r) (auto simp: wp_return register_post_def dest: stored_files [of _ _ C S]
      intro!: wp_register_provider [OF assms(2)])
  done

text \<open>
  C28. Registering a path either fails and changes no provider, or stores exactly one provider, valid,
  under the id its platform, kind and path give, with an absolute clean path; every other provider
  stays, and the result says created or updated, never both. Loading it by its id afterwards gives
  what the store reads back for it.
\<close>

theorem register_then_load:
  assumes "host_ok H" and "hex_digests L"
    and "run_state (Register L H E (Some (file_provider_store L C S)) req) w = (r, v)"
  shows "register_post L C S H w r v \<and>
    (\<forall>x q u. r = Inr x \<and> run_state (Load L E' (Some (file_provider_store L C S)) (Some (pv_id (rg_provider x)))) v = (Inr q, u) \<longrightarrow>
       reread C (rg_provider x) = Some q \<and> provider_view C S (w_ext u) = provider_view C S (w_ext v))"
proof (intro conjI allI impI)
  show post: "register_post L C S H w r v" using wp_run [OF wp_register [OF assms(1,2)] assms(3)] .
  fix x q u
  assume load: "r = Inr x \<and> run_state (Load L E' (Some (file_provider_store L C S)) (Some (pv_id (rg_provider x)))) v = (Inr q, u)"
  let ?i = "pv_id (rg_provider x)"
  from post load have vis: "visible ?i" and view: "provider_view C S (w_ext v) ?i = reread C (rg_provider x)"
    by (auto simp: register_post_def Let_def)
  then have id: "\<not> blank ?i" "trim_space ?i = ?i"
    using ProviderID_visible [OF assms(2)] post load
    by (auto simp: visible_def record_id_def register_post_def Let_def resolved_provider_def ProviderID_trim [OF assms(2)])
  have "wp (Load L E' (Some (file_provider_store L C S)) (Some ?i))
    (\<lambda>y u. provider_view C S (w_ext u) = provider_view C S (w_ext v) \<and>
       (\<forall>q. y = Inr q \<longrightarrow> provider_view C S (w_ext v) ?i = Some q)) v"
    unfolding Load_def entry_validate_def file_provider_store_def
    apply (simp add: wp_simps id Let_def split: option.split)
    apply (intro conjI impI allI)
    apply (rule providers.wp_get [OF vis])
      apply (simp_all add: wp_return)
    done
  from wp_run [OF this] load view
  show "reread C (rg_provider x) = Some q" "provider_view C S (w_ext u) = provider_view C S (w_ext v)" by auto
qed

definition hex_lib :: golib where
  "hex_lib = plain_lib\<lparr>sha256_hex := (\<lambda>_. ''0123456789abcdef'')\<rparr>"

definition demo_entry_host :: "fsys entry_host" where
  "demo_entry_host = \<lparr>eh_goos = ''linux'', eh_home = Inr ''/home/u'', eh_expand = (\<lambda>p. p), eh_wd = Inr ''/work'',
     eh_stat = (\<lambda>p. ret (Inr (False, True)))\<rparr>"

definition path_codec :: "provider codec" where
  "path_codec = \<lparr>to_json = (\<lambda>p. Inr (pv_path p)), of_json = (\<lambda>t. Inr \<lparr>pv_id = ''provider_0123456789ab'', pv_name = path_base t,
     pv_kind = kind_cli, pv_path = t, pv_version = []\<rparr>)\<rparr>"

definition demo_register :: "register_result res \<times> fsys world" where
  "demo_register = run_state (Register hex_lib demo_entry_host \<lparr>env_time = (\<lambda>_. 0), env_ctx = (\<lambda>_. None)\<rparr>
     (Some (file_provider_store hex_lib path_codec \<lparr>st_root = ''/h''\<rparr>)) (Some '' $HOME/bin/../tool ''))
     \<lparr>w_tick = 0, w_events = [], w_ext = empty_fs\<rparr>"

lemma demo_registered: "map_prod id (\<lambda>v. fs_files (w_ext v)) demo_register =
   (Inr \<lparr>rg_provider = \<lparr>pv_id = ''provider_0123456789ab'', pv_name = ''tool'', pv_kind = kind_cli, pv_path = ''/home/u/tool'',
      pv_version = []\<rparr>, rg_created = True, rg_updated = False\<rparr>,
    [(''/h/providers/provider_0123456789ab.json'', ''/home/u/tool'')])"
  by code_simp

theorem register_then_load_witness:
  "case fst demo_register of Inl e \<Rightarrow> False
   | Inr x \<Rightarrow> pv_path (rg_provider x) = ''/home/u/tool'' \<and>
       provider_view path_codec \<lparr>st_root = ''/h''\<rparr> (w_ext (snd demo_register)) (pv_id (rg_provider x)) = Some (rg_provider x)"
proof -
  let ?w = "\<lparr>w_tick = 0, w_events = [], w_ext = empty_fs\<rparr>"
  have "host_ok demo_entry_host" by (simp add: host_ok_def demo_entry_host_def path_is_abs_def is_rooted_def run_ret)
  moreover have "list_all hex_char (''0123456789abcdef'' :: string)" by code_simp
  then have "hex_digests hex_lib" by (simp add: hex_digests_def hex_lib_def)
  moreover have "run_state (Register hex_lib demo_entry_host \<lparr>env_time = (\<lambda>_. 0), env_ctx = (\<lambda>_. None)\<rparr>
     (Some (file_provider_store hex_lib path_codec \<lparr>st_root = ''/h''\<rparr>)) (Some '' $HOME/bin/../tool '')) ?w =
      (fst demo_register, snd demo_register)"
    by (simp only: demo_register_def prod.collapse)
  ultimately have "register_post hex_lib path_codec \<lparr>st_root = ''/h''\<rparr> demo_entry_host ?w (fst demo_register) (snd demo_register)"
    by (rule register_then_load [THEN conjunct1])
  moreover have "fst demo_register = Inr \<lparr>rg_provider = \<lparr>pv_id = ''provider_0123456789ab'', pv_name = ''tool'', pv_kind = kind_cli,
      pv_path = ''/home/u/tool'', pv_version = []\<rparr>, rg_created = True, rg_updated = False\<rparr>"
    using arg_cong [OF demo_registered, of fst] by (simp add: fst_map_prod)
  moreover have "path_base ''/home/u/tool'' = ''tool''" by code_simp
  ultimately show ?thesis by (simp add: register_post_def Let_def reread_def path_codec_def)
qed

end
