(* ===== verification/Cal_Flow.thy ===== *)
theory Cal_Flow
  imports Cal_Acquisition
begin

text \<open>
  What the trace of an acquisition holds. The runner only passes data on: if every component promises
  something about what it returns, the trace that is saved and returned, also one of a failed or
  canceled run, keeps all these promises at once. The components' promises are the \<open>assumes\<close> of the
  locale; the program's components discharge them in \<^verbatim>\<open>Cal_App\<close>.
\<close>

text \<open>A trace written from a state of the acquisition.\<close>

definition trace_of :: "acq_state \<Rightarrow> trace \<Rightarrow> bool" where
  "trace_of st tr \<longleftrightarrow> tr_provider_ids tr = as_providerIDs st \<and> tr_observations tr = as_observations st \<and>
     tr_proposal tr = as_proposal st \<and> tr_candidates tr = as_candidates st \<and> tr_probes tr = as_probes st \<and>
     tr_promotions tr = as_promotions st"

lemma trace_of_built: "trace_of st (buildTrace L (as_traceRequest st req err) status t)"
  by (simp add: trace_of_def buildTrace_def as_traceRequest_def Let_def)

locale acquisition_parts =
  fixes proposed :: "provider option \<Rightarrow> proposal_result \<Rightarrow> bool"
    and probed :: "bool \<Rightarrow> provider option \<Rightarrow> candidate list \<Rightarrow> probe_plan list \<Rightarrow> probe list \<Rightarrow> bool"
    and promoted :: "bool \<Rightarrow> candidate list \<Rightarrow> probe list \<Rightarrow> promotion list \<Rightarrow> bool"
    and E :: env and A :: "'s acq_runner"
  assumes propose_law: "wp (the (ar_proposer A) E (Some q)) (\<lambda>r v. \<forall>x. fst r = Some x \<longrightarrow> proposed (lq_provider q) x) w"
    and probe_law: "wp (the (ar_prober A) E (Some b)) (\<lambda>r v. \<forall>x. fst r = Some x \<longrightarrow>
          probed (snd r = None) (bq_provider b) (bq_candidates b) (bq_plans b) x) w"
    and promote_law: "wp (the (ar_promoter A) E (Some p)) (\<lambda>r v. \<forall>x. fst r = Some x \<longrightarrow>
          promoted (snd r = None) (pq_candidates p) (pq_probes p) x) w"
    and none_yet: "proposed prov \<lparr>pr_candidates = [], pr_plans = [], pr_diagnostics = None\<rparr>"
      "probed False prov cs ps []" "promoted False cs bs []"
    and partly: "probed True prov cs ps bs' \<Longrightarrow> probed False prov cs ps bs'"
      "promoted True cs bs ms \<Longrightarrow> promoted False cs bs ms"
begin

text \<open>The promises about a state, \<open>n\<close> telling how many of probe and promote have ended without error.\<close>

definition proposal_of :: "acq_state \<Rightarrow> proposal_result" where
  "proposal_of st = \<lparr>pr_candidates = as_candidates st, pr_plans = as_plans st, pr_diagnostics = as_proposal st\<rparr>"

definition holds :: "bool \<Rightarrow> bool \<Rightarrow> acq_state \<Rightarrow> bool" where
  "holds b m st \<longleftrightarrow> proposed (as_provider st) (proposal_of st) \<and>
     probed b (as_provider st) (as_candidates st) (as_plans st) (as_probes st) \<and>
     promoted m (as_candidates st) (as_probes st) (as_promotions st)"

definition trace_holds :: "bool \<Rightarrow> trace \<Rightarrow> bool" where
  "trace_holds complete tr \<longleftrightarrow> (\<exists>st. trace_of st tr \<and> holds complete complete st)"

definition ends :: "trace_outcome \<Rightarrow> bool" where
  "ends r \<longleftrightarrow> (\<forall>tr. fst r = Some tr \<longrightarrow> trace_holds (snd r = None) tr)"

lemma built_holds: "holds c c st \<Longrightarrow> trace_holds c (buildTrace L (as_traceRequest st req err) status t)"
  unfolding trace_holds_def using trace_of_built by blast

lemma holds_partly: "holds b m st \<Longrightarrow> holds False False st"
  by (cases b; cases m) (auto simp: holds_def intro: partly)

end

text \<open>A tracer that writes what it is asked to write.\<close>

locale recorded_parts = acquisition_parts proposed probed promoted E A + trace_sink L save start complete fail cancel
  for proposed probed promoted E and A :: "'s acq_runner" and L :: golib and save :: "'s trace_saver" and start complete fail cancel
begin

abbreviation tracer :: "'s tracer" where
  "tracer \<equiv> sink_tracer start complete fail cancel"

lemma wp_terminate_holds:
  assumes "holds b m st"
  shows "wp (acq_terminate E tracer req st code message err) (\<lambda>r v. ends r) w"
  unfolding acq_terminate_eq wp_bind wp_isContextDone sink_tracer_simps option.case
  apply (rule wp_mono [OF terminal_law])
  subgoal for r v
    using built_holds [OF holds_partly [OF assms]]
    by (cases "fst r"; cases "snd r"; cases r) (auto simp: wp_return writes_trace_def terminal_result_def ends_def)
  done

lemma wp_complete_holds:
  assumes "holds True True st"
  shows "wp (acq_complete E tracer req st) (\<lambda>r v. ends r) w"
  unfolding acq_complete_def wp_bind sink_tracer_simps
  apply (rule wp_mono [OF complete_law])
  subgoal for r v
    using built_holds [OF assms]
    by (cases "fst r"; cases "snd r"; cases r) (auto simp: wp_return writes_trace_def ends_def)
  done

lemma wp_abort_holds:
  assumes "holds b m st"
  shows "wp (acq_abort L E tracer req st s e t code message err) (\<lambda>r v. ends r) w"
  unfolding acq_abort_def wp_bind wp_acq_emit by (rule wp_terminate_holds [OF assms])

lemma wp_stage_holds:
  assumes op: "\<And>u. wp op (\<lambda>r v. \<forall>x. fst r = Some x \<longrightarrow> (\<exists>b m. holds b m (keep x st)) \<and> (snd r = None \<longrightarrow> good (keep x st))) u"
    and st: "holds b m st" and rest: "\<And>st1 v. good st1 \<Longrightarrow> wp (k st1) (\<lambda>r v. ends r) v"
  shows "wp (acq_stage L E tracer req st s code message required op keep k) (\<lambda>r v. ends r) w"
  unfolding acq_stage_def wp_bind wp_now wp_acq_emit
  apply (rule wp_mono [OF op])
  subgoal for r v
    using st
    by (cases "fst r"; cases "snd r"; cases r)
      (auto simp: Let_def acq_progressStatus_def wp_simps wp_isContextDone intro!: wp_abort_holds rest)
  done

text \<open>The states before the proposal, before probing and before promotion.\<close>

definition unproposed :: "acq_state \<Rightarrow> bool" where
  "unproposed st \<longleftrightarrow> as_candidates st = [] \<and> as_plans st = [] \<and> as_proposal st = None \<and> as_probes st = [] \<and> as_promotions st = []"

definition unprobed :: "acq_state \<Rightarrow> bool" where
  "unprobed st \<longleftrightarrow> proposed (as_provider st) (proposal_of st) \<and> as_probes st = [] \<and> as_promotions st = []"

definition unpromoted :: "acq_state \<Rightarrow> bool" where
  "unpromoted st \<longleftrightarrow> proposed (as_provider st) (proposal_of st) \<and>
     probed True (as_provider st) (as_candidates st) (as_plans st) (as_probes st) \<and> as_promotions st = []"

lemma unprobed_holds: "unprobed st \<Longrightarrow> holds False False st"
  by (simp add: unprobed_def holds_def none_yet)

lemma unproposed_unprobed: "unproposed st \<Longrightarrow> unprobed st"
  by (simp add: unproposed_def unprobed_def proposal_of_def none_yet)

lemma unpromoted_holds: "unpromoted st \<Longrightarrow> holds True False st"
  by (simp add: unpromoted_def holds_def none_yet)

lemma wp_promote_holds:
  assumes st: "unpromoted st"
  shows "wp (acq_promote L E A tracer req st) (\<lambda>r v. ends r) w"
  unfolding acq_promote_def
proof (rule wp_stage_holds [OF _ unpromoted_holds [OF st]])
  fix u
  show "wp (the (ar_promoter A) E (Some \<lparr>pq_candidates = as_candidates st, pq_probes = as_probes st\<rparr>))
    (\<lambda>r v. \<forall>x. fst r = Some x \<longrightarrow> (\<exists>b m. holds b m (st\<lparr>as_promotions := x\<rparr>)) \<and>
       (snd r = None \<longrightarrow> holds True True (st\<lparr>as_promotions := x\<rparr>))) u"
    by (rule wp_mono [OF promote_law])
      (use st in \<open>auto simp: holds_def unpromoted_def proposal_of_def\<close>)
qed (rule wp_complete_holds)

lemma wp_probe_holds:
  assumes st: "unprobed st"
  shows "wp (acq_probe L E A tracer req st) (\<lambda>r v. ends r) w"
  unfolding acq_probe_def
proof (rule wp_stage_holds [OF _ unprobed_holds [OF st]])
  fix u
  show "wp (the (ar_prober A) E (Some \<lparr>bq_provider = as_provider st, bq_candidates = as_candidates st,
      bq_plans = as_plans st, bq_trace_id = as_trace_id st, bq_work_root = trim_space (aq_work_root req)\<rparr>))
    (\<lambda>r v. \<forall>x. fst r = Some x \<longrightarrow> (\<exists>b m. holds b m (st\<lparr>as_probes := x\<rparr>)) \<and>
       (snd r = None \<longrightarrow> unpromoted (st\<lparr>as_probes := x\<rparr>))) u"
    apply (rule wp_mono [OF probe_law])
    subgoal for r v
    proof (intro allI impI)
      fix x assume "\<forall>x. fst r = Some x \<longrightarrow> probed (snd r = None) (bq_provider \<lparr>bq_provider = as_provider st,
        bq_candidates = as_candidates st, bq_plans = as_plans st, bq_trace_id = as_trace_id st,
        bq_work_root = trim_space (aq_work_root req)\<rparr>) (bq_candidates \<lparr>bq_provider = as_provider st,
        bq_candidates = as_candidates st, bq_plans = as_plans st, bq_trace_id = as_trace_id st,
        bq_work_root = trim_space (aq_work_root req)\<rparr>) (bq_plans \<lparr>bq_provider = as_provider st,
        bq_candidates = as_candidates st, bq_plans = as_plans st, bq_trace_id = as_trace_id st,
        bq_work_root = trim_space (aq_work_root req)\<rparr>) x" and "fst r = Some x"
      then have x: "probed (snd r = None) (as_provider st) (as_candidates st) (as_plans st) x" by simp
      then have "holds (snd r = None) False (st\<lparr>as_probes := x\<rparr>)"
        using st by (simp add: holds_def unprobed_def proposal_of_def none_yet)
      moreover have "snd r = None \<longrightarrow> unpromoted (st\<lparr>as_probes := x\<rparr>)"
        using st x by (cases "snd r") (simp_all add: unpromoted_def unprobed_def proposal_of_def)
      ultimately show "(\<exists>b m. holds b m (st\<lparr>as_probes := x\<rparr>)) \<and> (snd r = None \<longrightarrow> unpromoted (st\<lparr>as_probes := x\<rparr>))"
        by blast
    qed
    done
qed (rule wp_promote_holds)

lemma wp_propose_holds:
  assumes st: "unproposed st"
  shows "wp (acq_propose L E A tracer req st) (\<lambda>r v. ends r) w"
  unfolding acq_propose_def
proof (rule wp_stage_holds [OF _ unprobed_holds [OF unproposed_unprobed [OF st]]])
  fix u
  let ?keep = "\<lambda>x. st\<lparr>as_proposal := pr_diagnostics x, as_candidates := pr_candidates x, as_plans := pr_plans x\<rparr>"
  show "wp (the (ar_proposer A) E (Some \<lparr>lq_provider = as_provider st, lq_observations = as_observations st,
      lq_catalog = as_catalog st, lq_hint = trim_space (aq_hint req), lq_trace_id = as_trace_id st\<rparr>))
    (\<lambda>r v. \<forall>x. fst r = Some x \<longrightarrow> (\<exists>b m. holds b m (?keep x)) \<and> (snd r = None \<longrightarrow> unprobed (?keep x))) u"
    apply (rule wp_mono [OF propose_law])
    subgoal for r v
    proof (intro allI impI)
      fix x assume "\<forall>x. fst r = Some x \<longrightarrow> proposed (lq_provider \<lparr>lq_provider = as_provider st,
        lq_observations = as_observations st, lq_catalog = as_catalog st, lq_hint = trim_space (aq_hint req),
        lq_trace_id = as_trace_id st\<rparr>) x" and "fst r = Some x"
      then have "unprobed (?keep x)" using st by (cases x) (simp add: unprobed_def unproposed_def proposal_of_def)
      with unprobed_holds show "(\<exists>b m. holds b m (?keep x)) \<and> (snd r = None \<longrightarrow> unprobed (?keep x))" by blast
    qed
    done
qed (rule wp_probe_holds)

lemma wp_observe_holds:
  assumes st: "unproposed st"
  shows "wp (acq_observe L E A tracer req st) (\<lambda>r v. ends r) w"
  unfolding acq_observe_def
proof (rule wp_stage_holds [where good = unproposed, OF _ unprobed_holds [OF unproposed_unprobed [OF st]]])
  fix u
  have next_ok: "unproposed (st\<lparr>as_observations := x\<rparr>)" for x using st by (simp add: unproposed_def)
  show "wp (the (ar_observer A) E (as_provider st))
    (\<lambda>r v. \<forall>x. fst r = Some x \<longrightarrow> (\<exists>b m. holds b m (st\<lparr>as_observations := x\<rparr>)) \<and>
       (snd r = None \<longrightarrow> unproposed (st\<lparr>as_observations := x\<rparr>))) u"
    by (rule wp_any) (use next_ok unprobed_holds [OF unproposed_unprobed [OF next_ok]] in blast)
qed (rule wp_propose_holds)

lemma wp_catalog_holds:
  assumes st: "unproposed st"
  shows "wp (acq_catalog L E A tracer req st) (\<lambda>r v. ends r) w"
proof -
  have next_ok: "unproposed (st\<lparr>as_catalog := x\<rparr>)" for x using st by (simp add: unproposed_def)
  note abort = wp_abort_holds [OF unprobed_holds [OF unproposed_unprobed [OF st]]]
  show ?thesis
    unfolding acq_catalog_def Let_def
    by (auto simp: wp_simps intro!: abort wp_any wp_observe_holds next_ok split: option.split sum.split)
qed

lemma wp_entry_holds: "wp (acq_entry L E A tracer req) (\<lambda>r v. ends r) w"
proof -
  have early: "ends (None, e)" for e by (simp add: ends_def)
  have go: "wp (acq_catalog L E A tracer req (acq_state0\<lparr>as_provider := p, as_trace_id := i, as_started_at := s\<rparr>)) (\<lambda>r v. ends r) v" for p i s v
    by (rule wp_catalog_holds) (simp add: unproposed_def acq_state0_def)
  have begun: "wp (start E q) (\<lambda>r v. wp (case r of
          (_, Some e) \<Rightarrow> ret (None, Some (acq_wrap CodeTraceWriteFailed ''start trace'' e))
        | (None, None) \<Rightarrow> ret (None, Some (acq_error CodeTraceWriteFailed ''start trace result is required''))
        | (Some tr, None) \<Rightarrow> acq_catalog L E A tracer req
            (acq_state0\<lparr>as_provider := p, as_trace_id := tr_id tr, as_started_at := tr_started_at tr\<rparr>)) (\<lambda>r v. ends r) v) u" for q p u
    by (rule wp_any) (auto simp: wp_return early intro: go split: option.split prod.split)
  show ?thesis
    unfolding acq_entry_def Let_def
    apply (simp add: wp_simps)
    apply (rule wp_any)
    subgoal for r v
      by (cases "fst r"; cases "snd r"; cases r)
        (auto simp: acq_progressStatus_def wp_simps wp_isContextDone early intro!: begun split: option.split prod.split)
    done
qed

text \<open>Every trace that a run returns keeps the promises of all the components.\<close>

lemma acq_trace_holds:
  assumes "ar_tracer A = Some tracer" and "run_state (acq_Run L E (Some A) (Some req)) w = ((Some tr, err), v)"
  shows "trace_holds (err = None) tr"
proof -
  have "wp (acq_Run L E (Some A) (Some req)) (\<lambda>r v. ends r) w"
    using wp_entry_holds assms(1)
    by (auto simp: acq_Run_def wp_return ends_def split: option.split)
  from wp_run [OF this assms(2)] show ?thesis by (simp add: ends_def)
qed

end

end
