(* ===== verification/Cal_Observe.thy ===== *)
theory Cal_Observe
  imports Cal_Entry
begin

text \<open>
  \<^verbatim>\<open>internal/observe\<close> and \<^verbatim>\<open>internal/observe/cli\<close>: what a provider says about itself. A command is asked
  for its usage in four ways and then its manual page is looked up; the first useful text becomes the
  one observation of the provider.
\<close>

abbreviation "CodeInvalidObserveInput \<equiv> ''invalid_observe_input''"
abbreviation "CodeUnsupportedProviderKind \<equiv> ''unsupported_provider_kind''"
abbreviation "CodeObserverNotConfigured \<equiv> ''observer_not_configured''"
abbreviation "CodeObservationFailed \<equiv> ''observation_failed''"

definition observe_error :: "string \<Rightarrow> string \<Rightarrow> gerr" where
  "observe_error code message = ECoded ''observe'' code message None"

definition observe_wrap :: "string \<Rightarrow> string \<Rightarrow> gerr \<Rightarrow> gerr" where
  "observe_wrap code message e = ECoded ''observe'' code message (Some e)"

section \<open>Usage texts\<close>

definition hasUsageHeader :: "string \<Rightarrow> bool" where
  "hasUsageHeader lower \<longleftrightarrow> list_ex (\<lambda>s. contains s lower)
     [''usage:'', ''options:'', ''command options'', ''commands:'', ''cal_capability'', ''cal_command'']"

definition hasOptionLine :: "string \<Rightarrow> bool" where
  "hasOptionLine lower \<longleftrightarrow> list_ex (\<lambda>line. has_prefix ''-'' (trim_space line)) (split_char (CHR 0x0A) lower)"

definition hasOptionError :: "string \<Rightarrow> bool" where
  "hasOptionError lower \<longleftrightarrow> list_ex (\<lambda>s. contains s lower)
     [''unrecognized option'', ''unknown option'', ''invalid option'', ''illegal option'', ''bad option'']"

definition isUsefulUsage :: "golib \<Rightarrow> string \<Rightarrow> bool" where
  "isUsefulUsage L txt =
     (let trimmed = trim_space txt; lower = to_lower L trimmed in
      if trimmed = [] then False
      else if hasOptionError lower then hasUsageHeader lower
      else if hasUsageHeader lower \<or> hasOptionLine lower then True
      else 200 \<le> length trimmed)"

section \<open>Commands\<close>

text \<open>
  The host: \<^verbatim>\<open>CombinedOutput\<close> of a command under a context, the same of \<^verbatim>\<open>man\<close> with the pagers set to
  \<^verbatim>\<open>cat\<close>, \<^verbatim>\<open>exec.LookPath\<close>, and the working directory.
\<close>

record 's usage_host =
  uh_combined :: "env \<Rightarrow> string \<Rightarrow> string list \<Rightarrow> ('s, string \<times> gerr option) state"
  uh_man :: "env \<Rightarrow> string \<Rightarrow> ('s, string \<times> gerr option) state"
  uh_look_path :: "string \<Rightarrow> ('s, string res) state"
  uh_wd :: "string res"

record usage_output =
  uo_source :: string
  uo_text :: string

definition usageCommandTimeout :: int where
  "usageCommandTimeout = 10 * 1000000000"

text \<open>The end of a command by its context: a deadline is reported as such, another end as it is.\<close>

definition context_end :: "env \<Rightarrow> string \<Rightarrow> ('s world, gerr option) state" where
  "context_end X timedOut = do {
     c \<leftarrow> ctx_err X;
     if c = Some EDeadline then ret (Some (EText timedOut)) else ctx_err X}"

definition command_result :: "bool \<Rightarrow> string \<times> gerr option \<Rightarrow> string res" where
  "command_result allowNonzeroOutput answer =
     (case answer of
        (txt, Some e) \<Rightarrow> if allowNonzeroOutput \<and> \<not> blank txt then Inr txt else Inl e
      | (txt, None) \<Rightarrow> if blank txt then Inl (EText ''command returned empty output'') else Inr txt)"

definition commandOutput :: "'s usage_host \<Rightarrow> env \<Rightarrow> string \<Rightarrow> bool \<Rightarrow> string list \<Rightarrow> ('s world, string res) state" where
  "commandOutput H E path allowNonzeroOutput args = do {
     X \<leftarrow> with_timeout E usageCommandTimeout;
     answer \<leftarrow> call (uh_combined H X path args);
     ended \<leftarrow> context_end X ''command timed out after 10s'';
     ret (case ended of Some e \<Rightarrow> Inl e | None \<Rightarrow> command_result allowNonzeroOutput answer)}"

definition useful_or_error :: "golib \<Rightarrow> string \<Rightarrow> string res \<Rightarrow> usage_output res" where
  "useful_or_error L source answer =
     (case answer of
        Inl e \<Rightarrow> Inl e
      | Inr txt \<Rightarrow> if isUsefulUsage L txt then Inr \<lparr>uo_source = source, uo_text = txt\<rparr>
          else Inl (EText ''command returned low-signal output''))"

definition runUsageCommand ::
    "golib \<Rightarrow> 's usage_host \<Rightarrow> env \<Rightarrow> string \<Rightarrow> string \<times> string list \<Rightarrow> ('s world, usage_output res) state" where
  "runUsageCommand L H E path spec = do {
     answer \<leftarrow> commandOutput H E path True (snd spec);
     ret (useful_or_error L (fst spec) answer)}"

section \<open>The manual page\<close>

definition man_result :: "string \<times> gerr option \<Rightarrow> string res" where
  "man_result answer =
     (case answer of
        (txt, Some e) \<Rightarrow> Inl e
      | (txt, None) \<Rightarrow> if blank txt then Inl (EText ''man returned empty output'') else Inr txt)"

text \<open>The page is only asked for when the name of the command resolves to the provider itself.\<close>

definition man_name :: "golib \<Rightarrow> 's usage_host \<Rightarrow> string \<Rightarrow> string res \<Rightarrow> gerr option" where
  "man_name L H path looked =
     (case looked of
        Inl e \<Rightarrow> Some e
      | Inr resolved \<Rightarrow>
          (case path_abs (uh_wd H) resolved of
             Inl e \<Rightarrow> Some e
           | Inr resolvedAbs \<Rightarrow>
               (case path_abs (uh_wd H) path of
                  Inl e \<Rightarrow> Some e
                | Inr pathAbs \<Rightarrow>
                    if path_clean resolvedAbs \<noteq> path_clean pathAbs
                    then Some (EText (''man name '' @ quote L (path_base path) @ '' resolves to '' @ quote L resolvedAbs
                      @ '', not provider path '' @ quote L pathAbs))
                    else None)))"

definition manOutput :: "golib \<Rightarrow> 's usage_host \<Rightarrow> env \<Rightarrow> string \<Rightarrow> ('s world, string res) state" where
  "manOutput L H E path =
     (if blank (path_base path) then ret (Inl (EText ''man name is required''))
      else do {
        looked \<leftarrow> call (uh_look_path H (path_base path));
        (case man_name L H path looked of
           Some e \<Rightarrow> ret (Inl e)
         | None \<Rightarrow> do {
             X \<leftarrow> with_timeout E usageCommandTimeout;
             answer \<leftarrow> call (uh_man H X (path_base path));
             ended \<leftarrow> context_end X ''man timed out after 10s'';
             ret (case ended of Some e \<Rightarrow> Inl e | None \<Rightarrow> man_result answer)})})"

definition usageFallback :: "golib \<Rightarrow> 's usage_host \<Rightarrow> env \<Rightarrow> string \<Rightarrow> ('s world, usage_output res) state" where
  "usageFallback L H E path = do {
     answer \<leftarrow> manOutput L H E path;
     ret (case answer of Inl e \<Rightarrow> Inl e | Inr txt \<Rightarrow> Inr \<lparr>uo_source = ''man'', uo_text = txt\<rparr>)}"

section \<open>The usage of a command\<close>

definition usage_specs :: "(string \<times> string list) list" where
  "usage_specs = [(''help'', [''--help'']), (''dash_help'', [''-help'']), (''short_help'', [''-h'']), (''usage'', [])]"

text \<open>The loop over the specs: the first output, or the first error if there was one.\<close>

fun usage_loop ::
    "golib \<Rightarrow> 's usage_host \<Rightarrow> env \<Rightarrow> string \<Rightarrow> gerr option \<Rightarrow> (string \<times> string list) list
      \<Rightarrow> ('s world, gerr option + usage_output) state" where
  "usage_loop L H E path firstErr [] = ret (Inl firstErr)"
| "usage_loop L H E path firstErr (spec # specs) = do {
     answer \<leftarrow> runUsageCommand L H E path spec;
     (case answer of
        Inr x \<Rightarrow> ret (Inr x)
      | Inl e \<Rightarrow> usage_loop L H E path (if firstErr = None then Some e else firstErr) specs)}"

definition usage_end :: "golib \<Rightarrow> gerr option \<Rightarrow> usage_output res \<Rightarrow> usage_output list res" where
  "usage_end L firstErr fallback =
     (case fallback of
        Inr x \<Rightarrow>
          if isUsefulUsage L (uo_text x) then Inr [x]
          else (case firstErr of
                  Some e \<Rightarrow> Inl (EWrap ''observe cli usage: '' e [])
                | None \<Rightarrow> Inl (EText ''observe cli usage: no useful output''))
      | Inl err \<Rightarrow> Inl (EWrap ''observe cli usage: '' (case firstErr of Some e \<Rightarrow> e | None \<Rightarrow> err) []))"

definition UsageOutputs :: "golib \<Rightarrow> 's usage_host \<Rightarrow> env \<Rightarrow> string \<Rightarrow> ('s world, usage_output list res) state" where
  "UsageOutputs L H E path = do {
     tried \<leftarrow> usage_loop L H E path None usage_specs;
     (case tried of
        Inr x \<Rightarrow> ret (Inr [x])
      | Inl firstErr \<Rightarrow> do {
          fallback \<leftarrow> usageFallback L H E path;
          ret (usage_end L firstErr fallback)})}"

section \<open>Observers\<close>

record observe_result =
  ov_provider_id :: string
  ov_observations :: "observation list"

text \<open>A request that is nil and one without a provider are treated alike: both are \<open>None\<close>.\<close>

type_synonym 's observer = "env \<Rightarrow> provider option \<Rightarrow> ('s world, observe_result outcome) state"

definition usage_observation :: "string \<Rightarrow> usage_output \<Rightarrow> observation" where
  "usage_observation providerID x =
     \<lparr>ob_provider_id = providerID, ob_type = ''cli_output'', ob_source = uo_source x,
      ob_content = [(''text'', GStr (uo_text x))], ob_error = None, ob_created_at = []\<rparr>"

definition cli_Observe :: "golib \<Rightarrow> 's usage_host \<Rightarrow> 's observer" where
  "cli_Observe L H E req =
     (case req of
        None \<Rightarrow> ret (Some \<lparr>ov_provider_id = [], ov_observations = []\<rparr>, None)
      | Some p \<Rightarrow>
          if pv_kind p \<noteq> kind_cli then ret (Some \<lparr>ov_provider_id = pv_id p, ov_observations = []\<rparr>, None)
          else do {
            outputs \<leftarrow> UsageOutputs L H E (pv_path p);
            ret (case outputs of
                   Inl e \<Rightarrow> (Some \<lparr>ov_provider_id = pv_id p, ov_observations = []\<rparr>, Some e)
                 | Inr xs \<Rightarrow> (Some \<lparr>ov_provider_id = pv_id p, ov_observations = map (usage_observation (pv_id p)) xs\<rparr>, None))})"

text \<open>What the runner does with the answer of an observer.\<close>

definition observe_finish :: "provider \<Rightarrow> observe_result outcome \<Rightarrow> observe_result outcome" where
  "observe_finish p answer =
     (case answer of
        (_, Some e) \<Rightarrow> (None, Some (observe_wrap CodeObservationFailed ''observer failed'' e))
      | (None, None) \<Rightarrow> (None, Some (observe_error CodeObservationFailed ''observer result is required''))
      | (Some x, None) \<Rightarrow>
          (let providerID = (if ov_provider_id x = [] then pv_id p else ov_provider_id x) in
           (Some \<lparr>ov_provider_id = providerID,
              ov_observations = map (\<lambda>b. if ob_provider_id b = [] then b\<lparr>ob_provider_id := providerID\<rparr> else b)
                (ov_observations x)\<rparr>, None)))"

text \<open>The runner is its map from kinds to observers; a kind bound to nil is a kind that is not bound.\<close>

definition Observe ::
    "golib \<Rightarrow> env \<Rightarrow> (string, 's observer) gomap option \<Rightarrow> provider option \<Rightarrow> ('s world, observe_result outcome) state" where
  "Observe L E R req = do {
     c \<leftarrow> ctx_err E;
     (case c of
        Some e \<Rightarrow> ret (None, Some e)
      | None \<Rightarrow>
          (case R of
             None \<Rightarrow> ret (None, Some (observe_error CodeObserverNotConfigured ''observe runner is not configured''))
           | Some observers \<Rightarrow>
               (case req of
                  None \<Rightarrow> ret (None, Some (observe_error CodeInvalidObserveInput ''provider is required''))
                | Some p \<Rightarrow>
                    if pv_kind p = []
                    then ret (None, Some (observe_error CodeUnsupportedProviderKind ''provider kind is required''))
                    else (case map_of observers (pv_kind p) of
                            None \<Rightarrow> ret (None, Some (observe_error CodeObserverNotConfigured
                              (''observer for provider kind '' @ quote L (pv_kind p) @ '' is not configured'')))
                          | Some observer \<Rightarrow> do {
                              answer \<leftarrow> observer E (Some p);
                              ret (observe_finish p answer)}))))}"

section \<open>What an observation is\<close>

definition usage_sources :: "string list" where
  "usage_sources = map fst usage_specs @ [''man'']"

definition good_usage :: "golib \<Rightarrow> usage_output \<Rightarrow> bool" where
  "good_usage L x \<longleftrightarrow> uo_source x \<in> set usage_sources \<and> isUsefulUsage L (uo_text x)"

lemma wp_context_end:
  assumes "\<And>e v. w_events v = w_events w \<Longrightarrow> w_ext v = w_ext w \<Longrightarrow> Q e v"
  shows "wp (context_end X timedOut) Q w"
  unfolding context_end_def wp_bind wp_ctx_err by (simp add: wp_simps assms)

lemma wp_runUsageCommand:
  assumes "\<And>e v. w_events v = w_events w \<Longrightarrow> Q (Inl e) v"
    and "\<And>x v. uo_source x = fst spec \<Longrightarrow> isUsefulUsage L (uo_text x) \<Longrightarrow> w_events v = w_events w \<Longrightarrow> Q (Inr x) v"
  shows "wp (runUsageCommand L H E path spec) Q w"
  unfolding runUsageCommand_def commandOutput_def wp_bind wp_with_timeout
  by (intro wp_call_any wp_context_end)
    (auto simp: wp_return useful_or_error_def assms split: option.splits sum.splits)

lemma wp_usage_loop:
  assumes "\<And>firstErr v. w_events v = w_events w \<Longrightarrow> specs \<noteq> [] \<or> first \<noteq> None \<Longrightarrow> firstErr \<noteq> None \<Longrightarrow> Q (Inl firstErr) v"
    and "specs = [] \<Longrightarrow> Q (Inl first) w"
    and "\<And>x v. uo_source x \<in> fst ` set specs \<Longrightarrow> isUsefulUsage L (uo_text x) \<Longrightarrow> w_events v = w_events w \<Longrightarrow> Q (Inr x) v"
  shows "wp (usage_loop L H E path first specs) Q w"
  using assms
proof (induction specs arbitrary: first w)
  case Nil
  then show ?case by (simp add: wp_return)
next
  case (Cons spec specs)
  show ?case
    unfolding usage_loop.simps wp_bind
  proof (rule wp_runUsageCommand)
    fix e and v :: "'a world" assume v: "w_events v = w_events w"
    show "wp (case Inl e of Inr x \<Rightarrow> ret (Inr x)
        | Inl e \<Rightarrow> usage_loop L H E path (if first = None then Some e else first) specs) Q v"
      unfolding sum.case by (rule Cons.IH) (use Cons.prems v in \<open>auto split: if_splits\<close>)
  qed (use Cons.prems in \<open>simp add: wp_return\<close>)
qed

lemma wp_usageFallback:
  assumes "\<And>r v. w_events v = w_events w \<Longrightarrow> (\<And>x. r = Inr x \<Longrightarrow> uo_source x = ''man'') \<Longrightarrow> Q r v"
  shows "wp (usageFallback L H E path) Q w"
proof -
  have "wp (manOutput L H E path) (\<lambda>r v. w_events v = w_events w) w"
    unfolding manOutput_def wp_bind wp_if
    by (auto simp: wp_return wp_bind wp_with_timeout split: option.split intro!: wp_call_any wp_context_end)
  then show ?thesis unfolding usageFallback_def wp_bind
    by (rule wp_mono) (auto simp: wp_return intro!: assms split: sum.splits)
qed

lemma wp_UsageOutputs:
  "wp (UsageOutputs L H E path) (\<lambda>r v. w_events v = w_events w \<and>
     (case r of Inr xs \<Rightarrow> \<exists>x. xs = [x] \<and> good_usage L x | Inl e \<Rightarrow> \<exists>e'. e = EWrap ''observe cli usage: '' e' [])) w"
  unfolding UsageOutputs_def wp_bind
proof (rule wp_usage_loop)
  fix firstErr and v :: "'a world"
  assume "w_events v = w_events w" "firstErr \<noteq> (None :: gerr option)"
  then show "wp (case Inl firstErr of Inr x \<Rightarrow> ret (Inr [x])
      | Inl firstErr \<Rightarrow> State_Monad.bind (usageFallback L H E path) (\<lambda>fallback. ret (usage_end L firstErr fallback)))
      (\<lambda>r v. w_events v = w_events w \<and>
         (case r of Inr xs \<Rightarrow> \<exists>x. xs = [x] \<and> good_usage L x | Inl e \<Rightarrow> \<exists>e'. e = EWrap ''observe cli usage: '' e' [])) v"
    unfolding sum.case wp_bind
    by (intro wp_usageFallback)
      (auto simp: wp_return usage_end_def good_usage_def usage_sources_def split: sum.split option.split)
qed (auto simp: wp_return good_usage_def usage_sources_def usage_specs_def)

definition observed :: "golib \<Rightarrow> provider \<Rightarrow> observe_result outcome \<Rightarrow> bool" where
  "observed L p r \<longleftrightarrow>
     (case r of
        (Some x, e) \<Rightarrow> e = None \<and> ov_provider_id x = pv_id p \<and> pv_kind p = kind_cli \<and>
          (\<exists>u. good_usage L u \<and> ov_observations x = [usage_observation (pv_id p) u])
      | (None, Some e) \<Rightarrow> True
      | (None, None) \<Rightarrow> False)"

lemma observe_finish_observed:
  "observed L p (observe_finish p (case outputs of
      Inl e \<Rightarrow> (Some \<lparr>ov_provider_id = pv_id p, ov_observations = []\<rparr>, Some e)
    | Inr xs \<Rightarrow> (Some \<lparr>ov_provider_id = pv_id p, ov_observations = map (usage_observation (pv_id p)) xs\<rparr>, None)))"
  if "pv_kind p = kind_cli"
    and "case outputs of Inr xs \<Rightarrow> \<exists>x. xs = [x] \<and> good_usage L x | Inl e \<Rightarrow> \<exists>e'. e = EWrap ''observe cli usage: '' e' []"
  using that by (cases outputs) (auto simp: observed_def observe_finish_def usage_observation_def Let_def)

lemma wp_Observe:
  "wp (Observe L E (Some [(kind_cli, cli_Observe L H)]) (Some p)) (\<lambda>r v. w_events v = w_events w \<and> observed L p r) w"
proof -
  have run: "wp (cli_Observe L H E (Some p)) (\<lambda>a v. w_events v = w_events w \<and> observed L p (observe_finish p a)) u"
    if "w_events u = w_events w" and "pv_kind p = kind_cli" for u
    unfolding cli_Observe_def option.case wp_if
    using that by (auto simp: wp_bind wp_return intro!: wp_mono [OF wp_UsageOutputs] observe_finish_observed)
  have err: "observed L p (None, Some e)" for e by (simp add: observed_def)
  show ?thesis unfolding Observe_def wp_bind wp_ctx_err
    by (auto simp: wp_return wp_bind err split: option.split intro!: wp_mono [OF run])
qed

text \<open>
  The observation of a provider with the program's observers is all or nothing: either an error
  and no result, or exactly one observation, of a provider of kind cli, under the provider's id, whose
  text is useful and comes from one of the four usage commands or the manual page; no progress event
  is emitted on the way.
\<close>

theorem observe_outcome:
  assumes "run_state (Observe L E (Some [(kind_cli, cli_Observe L H)]) (Some p)) w = (r, v)"
  shows "w_events v = w_events w \<and>
    (case r of
       (Some x, e) \<Rightarrow> e = None \<and> ov_provider_id x = pv_id p \<and> pv_kind p = kind_cli \<and>
         (\<exists>u. good_usage L u \<and> ov_observations x = [usage_observation (pv_id p) u])
     | (None, Some e) \<Rightarrow> True
     | (None, None) \<Rightarrow> False)"
  using wp_run [OF wp_Observe assms] by (simp add: observed_def)

section \<open>The first useful usage\<close>

text \<open>
  A host whose commands answer \<open>outs args\<close> whatever the state, with the manual page \<open>page\<close>; and a
  context that ends neither by itself nor by a timeout.
\<close>

definition answers :: "'s usage_host \<Rightarrow> string \<Rightarrow> (string list \<Rightarrow> string \<times> gerr option) \<Rightarrow> string res \<Rightarrow> string \<times> gerr option \<Rightarrow> bool" where
  "answers H path outs looked page \<longleftrightarrow> (\<forall>X args. uh_combined H X path args = ret (outs args)) \<and>
     uh_look_path H (path_base path) = ret looked \<and> (\<forall>X. uh_man H X (path_base path) = ret page)"

definition live :: "env \<Rightarrow> bool" where
  "live E \<longleftrightarrow> (\<forall>n. env_ctx E n = None) \<and> (\<forall>m n. env_time E n < env_time E m + usageCommandTimeout)"

text \<open>What is shown without any state: the first spec with a useful text, else the page, else the error of the first.\<close>

definition spec_answer :: "golib \<Rightarrow> (string list \<Rightarrow> string \<times> gerr option) \<Rightarrow> string \<times> string list \<Rightarrow> usage_output res" where
  "spec_answer L outs spec = useful_or_error L (fst spec) (command_result True (outs (snd spec)))"

definition page_answer :: "golib \<Rightarrow> 's usage_host \<Rightarrow> string \<Rightarrow> string res \<Rightarrow> string \<times> gerr option \<Rightarrow> string res" where
  "page_answer L H path looked page =
     (if blank (path_base path) then Inl (EText ''man name is required'')
      else (case man_name L H path looked of Some e \<Rightarrow> Inl e | None \<Rightarrow> man_result page))"

definition first_usage ::
    "golib \<Rightarrow> 's usage_host \<Rightarrow> string \<Rightarrow> (string list \<Rightarrow> string \<times> gerr option) \<Rightarrow> string res \<Rightarrow> string \<times> gerr option
      \<Rightarrow> usage_output list res" where
  "first_usage L H path outs looked page =
     (let failed = Inl (EWrap ''observe cli usage: '' (projl (spec_answer L outs (hd usage_specs))) []) in
      case find (\<lambda>r. \<not> isl r) (map (spec_answer L outs) usage_specs) of
        Some r \<Rightarrow> Inr [projr r]
      | None \<Rightarrow>
          (case page_answer L H path looked page of
             Inl e \<Rightarrow> failed
           | Inr txt \<Rightarrow> if isUsefulUsage L txt then Inr [\<lparr>uo_source = ''man'', uo_text = txt\<rparr>] else failed))"

lemma timeout_live: "live E \<Longrightarrow> env_ctx (timeout_env E k (env_time E m + usageCommandTimeout)) n = None"
proof -
  assume "live E"
  then have "done_at E (env_time E m + usageCommandTimeout) u = None" for u
    by (auto simp: done_at_def live_def linorder_not_le)
  moreover have "find (\<lambda>u. False) ns = None" for ns :: "nat list" by (simp add: find_None_iff)
  ultimately show ?thesis by (simp add: timeout_env_def)
qed

lemma run_context_end: "live E \<Longrightarrow>
  fst (run_state (context_end (timeout_env E k (env_time E m + usageCommandTimeout)) t) w) = None"
  by (simp add: context_end_def run_eval timeout_live)

lemma run_runUsageCommand:
  assumes "answers H path outs looked page" and "live E"
  shows "fst (run_state (runUsageCommand L H E path spec) w) = spec_answer L outs spec"
  using assms(1)
  by (simp add: run_context_end [OF assms(2)] runUsageCommand_def commandOutput_def run_eval with_timeout_def answers_def spec_answer_def case_prod_beta)

lemma run_usage_loop:
  assumes "answers H path outs looked page" and "live E"
  shows "fst (run_state (usage_loop L H E path first specs) w) =
    (case find (\<lambda>r. \<not> isl r) (map (spec_answer L outs) specs) of
       Some r \<Rightarrow> Inr (projr r)
     | None \<Rightarrow> Inl (if first = None \<and> specs \<noteq> [] then Some (projl (spec_answer L outs (hd specs))) else first))"
proof (induction specs arbitrary: first w)
  case (Cons spec specs)
  then show ?case
    using run_runUsageCommand [OF assms, of L spec w]
    by (cases "run_state (runUsageCommand L H E path spec) w"; cases "spec_answer L outs spec")
      (auto simp: run_eval split: option.split)
qed (simp add: run_eval)

lemma run_usageFallback:
  assumes "answers H path outs looked page" and "live E"
  shows "fst (run_state (usageFallback L H E path) w) =
    (case page_answer L H path looked page of Inl e \<Rightarrow> Inl e | Inr txt \<Rightarrow> Inr \<lparr>uo_source = ''man'', uo_text = txt\<rparr>)"
  using assms(1)
  by (simp add: run_context_end [OF assms(2)] usageFallback_def manOutput_def run_eval with_timeout_def answers_def page_answer_def case_prod_beta
      split: option.split)

text \<open>
  As long as no context ends, the usage of a command is what a search without state finds: the
  first of the four usage commands whose text is useful (also when the command failed), else the manual
  page if it is useful, else the error of the first command; the errors of the others and of the manual
  page are never reported.
\<close>

theorem usage_is_first_useful:
  assumes "answers H path outs looked page" and "live E"
  shows "fst (run_state (UsageOutputs L H E path) w) = first_usage L H path outs looked page"
proof -
  obtain r u where u: "run_state (usage_loop L H E path None usage_specs) w = (r, u)" by fastforce
  with run_usage_loop [OF assms, of L None usage_specs w]
  have r: "r = (case find (\<lambda>r. \<not> isl r) (map (spec_answer L outs) usage_specs) of
       Some r \<Rightarrow> Inr (projr r) | None \<Rightarrow> Inl (Some (projl (spec_answer L outs (hd usage_specs)))))"
    by (simp add: usage_specs_def)
  have "fst (run_state (UsageOutputs L H E path) w) =
    (case r of Inr x \<Rightarrow> Inr [x] | Inl e \<Rightarrow> usage_end L e (fst (run_state (usageFallback L H E path) u)))"
    by (simp add: UsageOutputs_def run_eval u case_prod_beta split: sum.split)
  also have "\<dots> = first_usage L H path outs looked page"
    unfolding r run_usageFallback [OF assms]
    by (cases "find (\<lambda>r. \<not> isl r) (map (spec_answer L outs) usage_specs)"; cases "page_answer L H path looked page")
      (simp_all only: first_usage_def usage_end_def Let_def option.case sum.case usage_output.simps)
  finally show ?thesis .
qed

section \<open>Examples\<close>

definition tool_host :: "unit usage_host" where
  "tool_host = \<lparr>uh_combined = (\<lambda>E p args. ret (if args = [''-h''] then (''Usage: tool FILE'', Some (EOS ''exit status 1''))
       else (''tool: invalid option'', None))),
     uh_man = (\<lambda>E n. ret ([], None)), uh_look_path = (\<lambda>n. ret (Inr ''/bin/tool'')), uh_wd = Inr ''/''\<rparr>"

abbreviation "tool_env \<equiv> \<lparr>env_time = (\<lambda>_. 0), env_ctx = (\<lambda>_. None)\<rparr>"

definition tool :: provider where
  "tool = \<lparr>pv_id = ''p'', pv_name = ''tool'', pv_kind = kind_cli, pv_path = ''/bin/tool'', pv_version = []\<rparr>"

definition tool_observed :: "observe_result outcome \<times> unit world" where
  "tool_observed = run_state (Observe plain_lib tool_env (Some [(kind_cli, cli_Observe plain_lib tool_host)]) (Some tool))
     \<lparr>w_tick = 0, w_events = [], w_ext = ()\<rparr>"

lemma tool_first: "fst tool_observed = (Some \<lparr>ov_provider_id = ''p'',
    ov_observations = [usage_observation ''p'' \<lparr>uo_source = ''short_help'', uo_text = ''Usage: tool FILE''\<rparr>]\<rparr>, None)"
  by code_simp

theorem observe_outcome_witness:
  "w_events (snd tool_observed) = [] \<and>
   (\<exists>x u. fst tool_observed = (Some x, None) \<and> good_usage plain_lib u \<and> ov_observations x = [usage_observation ''p'' u])"
  using observe_outcome [of plain_lib tool_env tool_host tool "\<lparr>w_tick = 0, w_events = [], w_ext = ()\<rparr>"
      "fst tool_observed" "snd tool_observed", folded tool_observed_def, OF prod.collapse [symmetric]]
  by (simp only: tool_first prod.case option.case) (simp add: tool_def del: split_paired_Ex)

theorem usage_is_first_useful_witness:
  "first_usage plain_lib tool_host ''/bin/tool'' (\<lambda>args. if args = [''-h''] then (''Usage: tool FILE'', Some (EOS ''exit status 1''))
       else (''tool: invalid option'', None)) (Inr ''/bin/tool'') ([], None)
   = Inr [\<lparr>uo_source = ''short_help'', uo_text = ''Usage: tool FILE''\<rparr>]"
proof -
  have base: "path_base ''/bin/tool'' = ''tool''" by code_simp
  have "live tool_env" by (simp add: live_def usageCommandTimeout_def)
  moreover have "answers tool_host ''/bin/tool'' (\<lambda>args. if args = [''-h''] then (''Usage: tool FILE'', Some (EOS ''exit status 1''))
       else (''tool: invalid option'', None)) (Inr ''/bin/tool'') ([], None)"
    by (simp add: answers_def tool_host_def)
  moreover have "fst (run_state (UsageOutputs plain_lib tool_host tool_env ''/bin/tool'') \<lparr>w_tick = 0, w_events = [], w_ext = ()\<rparr>)
    = Inr [\<lparr>uo_source = ''short_help'', uo_text = ''Usage: tool FILE''\<rparr>]" by code_simp
  ultimately show ?thesis using usage_is_first_useful by metis
qed

end
