(* ===== verification/Cal_Eval.thy ===== *)
theory Cal_Eval
  imports Cal_Store
begin

text \<open>
  \<^verbatim>\<open>internal/eval\<close>: the metrics over the stored traces, runs and capabilities. The records are listed,
  filtered by provider and capability and aggregated in one pass; the lemmas relate each metric to a
  count over the records.
\<close>

section \<open>Metrics\<close>

record count_by_status =
  cb_total :: int
  cb_by_name :: "(string, int) gomap"

type_synonym count_by_code = "(string, int) gomap"

record probe_metrics =
  em_probes :: int
  em_passed :: int
  em_failed :: int

record promotion_metrics =
  em_promotions :: int
  em_capabilities :: int
  em_bindings :: int

record acquisition_metrics =
  am_traces :: count_by_status
  am_candidates :: int
  am_probes :: probe_metrics
  am_promotions :: promotion_metrics
  am_errors :: count_by_code

record run_slice =
  sc_runs :: count_by_status
  sc_verified :: int

record reuse_metrics =
  rm_runs :: count_by_status
  rm_verified :: int
  rm_by_provider :: "(string, run_slice) gomap"
  rm_by_capability :: "(string, run_slice) gomap"
  rm_errors :: count_by_code

record capability_metrics =
  cm_capabilities :: int
  cm_bindings :: int
  cm_promoted :: int
  cm_with_verify :: int
  cm_without_bindings :: int

text \<open>A map that is nil and one that is empty are the empty list.\<close>

definition value_at :: "(string, int) gomap \<Rightarrow> string \<Rightarrow> int" where
  "value_at m k = (case map_of m k of None \<Rightarrow> 0 | Some n \<Rightarrow> n)"

definition newCountByStatus :: count_by_status where
  "newCountByStatus = \<lparr>cb_total = 0, cb_by_name = []\<rparr>"

definition status_add :: "string \<Rightarrow> count_by_status \<Rightarrow> count_by_status" where
  "status_add status c = \<lparr>cb_total = cb_total c + 1, cb_by_name = put status (value_at (cb_by_name c) status + 1) (cb_by_name c)\<rparr>"

definition code_add :: "string \<Rightarrow> count_by_code \<Rightarrow> count_by_code" where
  "code_add code m = (if code = [] then m else put code (value_at m code + 1) m)"

definition error_add :: "record_error option \<Rightarrow> count_by_code \<Rightarrow> count_by_code" where
  "error_add err m = (case err of None \<Rightarrow> m | Some e \<Rightarrow> code_add (re_code e) m)"

section \<open>Traces\<close>

definition add_probe :: "acquisition_metrics \<Rightarrow> probe \<Rightarrow> acquisition_metrics" where
  "add_probe m p =
     (let pm = am_probes m;
          counted = (if pb_passed p then pm\<lparr>em_passed := em_passed pm + 1\<rparr> else pm\<lparr>em_failed := em_failed pm + 1\<rparr>)
      in m\<lparr>am_probes := counted, am_errors := error_add (pb_error p) (am_errors m)\<rparr>)"

text \<open>The ids seen so far: \<open>promotedCapabilities\<close> and \<open>promotedBindings\<close>, maps to the empty struct.\<close>

definition see :: "string \<Rightarrow> string list \<Rightarrow> string list" where
  "see k ks = (if k = [] then ks else List.insert k ks)"

definition add_promotion ::
    "acquisition_metrics \<times> string list \<times> string list \<Rightarrow> promotion \<Rightarrow> acquisition_metrics \<times> string list \<times> string list" where
  "add_promotion s p =
     (case s of (m, caps, binds) \<Rightarrow>
       (m\<lparr>am_promotions := (am_promotions m)\<lparr>em_promotions := em_promotions (am_promotions m) + 1\<rparr>\<rparr>,
        see (pm_capability_id p) caps, see (pm_binding_id p) binds))"

definition add_trace ::
    "acquisition_metrics \<times> string list \<times> string list \<Rightarrow> trace \<Rightarrow> acquisition_metrics \<times> string list \<times> string list" where
  "add_trace s t =
     (case s of (m, caps, binds) \<Rightarrow>
       (let m1 = m\<lparr>am_traces := status_add (tr_status t) (am_traces m),
              am_candidates := am_candidates m + int (length (tr_candidates t)),
              am_probes := (am_probes m)\<lparr>em_probes := em_probes (am_probes m) + int (length (tr_probes t))\<rparr>\<rparr>;
            m2 = foldl add_probe m1 (tr_probes t)
        in case foldl add_promotion (m2, caps, binds) (tr_promotions t) of
             (m3, caps3, binds3) \<Rightarrow> (m3\<lparr>am_errors := error_add (tr_error t) (am_errors m3)\<rparr>, caps3, binds3)))"

definition zero_acquisition :: acquisition_metrics where
  "zero_acquisition = \<lparr>am_traces = newCountByStatus, am_candidates = 0,
     am_probes = \<lparr>em_probes = 0, em_passed = 0, em_failed = 0\<rparr>,
     am_promotions = \<lparr>em_promotions = 0, em_capabilities = 0, em_bindings = 0\<rparr>, am_errors = []\<rparr>"

definition aggregateAcquisition :: "trace list \<Rightarrow> acquisition_metrics" where
  "aggregateAcquisition traces =
     (case foldl add_trace (zero_acquisition, [], []) traces of (m, caps, binds) \<Rightarrow>
        m\<lparr>am_promotions := (am_promotions m)\<lparr>em_capabilities := int (length caps), em_bindings := int (length binds)\<rparr>\<rparr>)"

section \<open>Runs and capabilities\<close>

definition addRun :: "run \<Rightarrow> run_slice \<Rightarrow> run_slice" where
  "addRun r s = \<lparr>sc_runs = status_add (rn_status r) (sc_runs s),
     sc_verified = (if rn_verified r then sc_verified s + 1 else sc_verified s)\<rparr>"

definition zero_slice :: run_slice where
  "zero_slice = \<lparr>sc_runs = newCountByStatus, sc_verified = 0\<rparr>"

definition slice_at :: "(string, run_slice) gomap \<Rightarrow> string \<Rightarrow> run_slice" where
  "slice_at m k = (case map_of m k of None \<Rightarrow> zero_slice | Some s \<Rightarrow> s)"

definition slice_add :: "string \<Rightarrow> run \<Rightarrow> (string, run_slice) gomap \<Rightarrow> (string, run_slice) gomap" where
  "slice_add k r m = (if k = [] then m else put k (addRun r (slice_at m k)) m)"

definition add_reuse :: "reuse_metrics \<Rightarrow> run \<Rightarrow> reuse_metrics" where
  "add_reuse m r =
     (let all = addRun r \<lparr>sc_runs = rm_runs m, sc_verified = rm_verified m\<rparr>
      in \<lparr>rm_runs = sc_runs all, rm_verified = sc_verified all,
          rm_by_provider = slice_add (rn_provider_id r) r (rm_by_provider m),
          rm_by_capability = slice_add (rn_capability_id r) r (rm_by_capability m),
          rm_errors = error_add (rn_error r) (rm_errors m)\<rparr>)"

definition aggregateReuse :: "run list \<Rightarrow> reuse_metrics" where
  "aggregateReuse runs = foldl add_reuse
     \<lparr>rm_runs = newCountByStatus, rm_verified = 0, rm_by_provider = [], rm_by_capability = [], rm_errors = []\<rparr> runs"

definition add_binding :: "capability_metrics \<Rightarrow> binding \<Rightarrow> capability_metrics" where
  "add_binding m b =
     (let m1 = m\<lparr>cm_bindings := cm_bindings m + 1\<rparr>;
          m2 = (if bd_state b = state_promoted then m1\<lparr>cm_promoted := cm_promoted m1 + 1\<rparr> else m1)
      in if bd_verify b \<noteq> None then m2\<lparr>cm_with_verify := cm_with_verify m2 + 1\<rparr> else m2)"

definition add_capability :: "capability_metrics \<Rightarrow> capability \<Rightarrow> capability_metrics" where
  "add_capability m c =
     (let m1 = m\<lparr>cm_capabilities := cm_capabilities m + 1\<rparr>;
          m2 = (if cp_bindings c = [] then m1\<lparr>cm_without_bindings := cm_without_bindings m1 + 1\<rparr> else m1)
      in foldl add_binding m2 (cp_bindings c))"

definition aggregateCapability :: "capability list \<Rightarrow> capability_metrics" where
  "aggregateCapability cs = foldl add_capability
     \<lparr>cm_capabilities = 0, cm_bindings = 0, cm_promoted = 0, cm_with_verify = 0, cm_without_bindings = 0\<rparr> cs"

section \<open>Filters\<close>

record record_filter =
  rf_provider_id :: string
  rf_capability_id :: string

definition no_filter :: "record_filter \<Rightarrow> bool" where
  "no_filter f \<longleftrightarrow> rf_provider_id f = [] \<and> rf_capability_id f = []"

definition traceHasProvider :: "trace \<Rightarrow> string \<Rightarrow> bool" where
  "traceHasProvider t p \<longleftrightarrow>
     list_ex (\<lambda>i. i = p) (tr_provider_ids t) \<or> list_ex (\<lambda>b. ob_provider_id b = p) (tr_observations t) \<or>
     list_ex (\<lambda>c. cd_provider_id c = p) (tr_candidates t) \<or> list_ex (\<lambda>m. pm_provider_id m = p) (tr_promotions t)"

definition traceHasCapability :: "trace \<Rightarrow> string \<Rightarrow> bool" where
  "traceHasCapability t c \<longleftrightarrow>
     list_ex (\<lambda>d. cd_capability_id d = c) (tr_candidates t) \<or> list_ex (\<lambda>m. pm_capability_id m = c) (tr_promotions t)"

definition capabilityHasProvider :: "capability \<Rightarrow> string \<Rightarrow> bool" where
  "capabilityHasProvider c p \<longleftrightarrow> list_ex (\<lambda>b. bd_provider_id b = p) (cp_bindings c)"

definition traceMatches :: "trace \<Rightarrow> record_filter \<Rightarrow> bool" where
  "traceMatches t f =
     (if rf_provider_id f \<noteq> [] \<and> \<not> traceHasProvider t (rf_provider_id f) then False
      else if rf_capability_id f \<noteq> [] \<and> \<not> traceHasCapability t (rf_capability_id f) then False
      else True)"

definition filterTraces :: "trace list \<Rightarrow> record_filter \<Rightarrow> trace list" where
  "filterTraces ts f = (if no_filter f then ts else filter (\<lambda>t. traceMatches t f) ts)"

definition filterRuns :: "run list \<Rightarrow> record_filter \<Rightarrow> run list" where
  "filterRuns rs f =
     (if no_filter f then rs
      else filter (\<lambda>r. if rf_provider_id f \<noteq> [] \<and> rn_provider_id r \<noteq> rf_provider_id f then False
                       else \<not> (rf_capability_id f \<noteq> [] \<and> rn_capability_id r \<noteq> rf_capability_id f)) rs)"

definition filterCapabilities :: "capability list \<Rightarrow> record_filter \<Rightarrow> capability list" where
  "filterCapabilities cs f =
     (if no_filter f then cs
      else filter (\<lambda>c. if rf_capability_id f \<noteq> [] \<and> cp_id c \<noteq> rf_capability_id f then False
                       else \<not> (rf_provider_id f \<noteq> [] \<and> \<not> capabilityHasProvider c (rf_provider_id f))) cs)"

section \<open>The runner\<close>

record 's eval_store =
  es_traces :: "('s, trace list res) state"
  es_runs :: "('s, run list res) state"
  es_capabilities :: "('s, capability list res) state"

record eval_records =
  er_traces :: "trace list"
  er_runs :: "run list"
  er_capabilities :: "capability list"

record eval_result =
  el_acquisition :: acquisition_metrics
  el_reuse :: reuse_metrics
  el_capability :: capability_metrics

definition eval_list :: "string \<Rightarrow> ('s, 'a list res) state \<Rightarrow> ('s world, 'a list res) state" where
  "eval_list message m = do {
     listed \<leftarrow> call m;
     ret (case listed of Inl e \<Rightarrow> Inl (EWrap message e []) | Inr xs \<Rightarrow> Inr xs)}"

definition loadRecords :: "env \<Rightarrow> 's eval_store \<Rightarrow> record_filter \<Rightarrow> ('s world, eval_records res) state" where
  "loadRecords E S f = do {
     traces \<leftarrow> eval_list ''list traces: '' (es_traces S);
     (case traces of
        Inl e \<Rightarrow> ret (Inl e)
      | Inr ts \<Rightarrow> do {
          c \<leftarrow> ctx_err E;
          (case c of
             Some e \<Rightarrow> ret (Inl e)
           | None \<Rightarrow> do {
               runs \<leftarrow> eval_list ''list runs: '' (es_runs S);
               (case runs of
                  Inl e \<Rightarrow> ret (Inl e)
                | Inr rs \<Rightarrow> do {
                    c \<leftarrow> ctx_err E;
                    (case c of
                       Some e \<Rightarrow> ret (Inl e)
                     | None \<Rightarrow> do {
                         capabilities \<leftarrow> eval_list ''list capabilities: '' (es_capabilities S);
                         ret (case capabilities of
                                Inl e \<Rightarrow> Inl e
                              | Inr cs \<Rightarrow> Inr \<lparr>er_traces = filterTraces ts f, er_runs = filterRuns rs f,
                                  er_capabilities = filterCapabilities cs f\<rparr>)})})})})}"

definition requestFilter :: "record_filter option \<Rightarrow> record_filter" where
  "requestFilter req = (case req of None \<Rightarrow> \<lparr>rf_provider_id = [], rf_capability_id = []\<rparr> | Some f \<Rightarrow> f)"

definition eval_of :: "eval_records \<Rightarrow> eval_result" where
  "eval_of rs = \<lparr>el_acquisition = aggregateAcquisition (er_traces rs), el_reuse = aggregateReuse (er_runs rs),
     el_capability = aggregateCapability (er_capabilities rs)\<rparr>"

text \<open>A runner that is nil or has no store is \<open>None\<close>; a request has the fields of the filter.\<close>

definition eval_Run :: "env \<Rightarrow> 's eval_store option \<Rightarrow> record_filter option \<Rightarrow> ('s world, eval_result res) state" where
  "eval_Run E R req =
     (case R of
        None \<Rightarrow> ret (Inl (EText ''eval store is required''))
      | Some S \<Rightarrow> do {
          c \<leftarrow> ctx_err E;
          (case c of
             Some e \<Rightarrow> ret (Inl e)
           | None \<Rightarrow> do {
               loaded \<leftarrow> loadRecords E S (requestFilter req);
               (case loaded of
                  Inl e \<Rightarrow> ret (Inl e)
                | Inr rs \<Rightarrow> do {
                    c \<leftarrow> ctx_err E;
                    ret (case c of Some e \<Rightarrow> Inl e | None \<Rightarrow> Inr (eval_of rs))})})})"

section \<open>Metrics are counts\<close>

text \<open>A map that counts a list: the keys are its elements, the values how often each occurs.\<close>

definition tallies :: "(string, int) gomap \<Rightarrow> string list \<Rightarrow> bool" where
  "tallies m xs \<longleftrightarrow> (\<forall>k. map_of m k = (if k \<in> set xs then Some (int (count_list xs k)) else None))"

definition status_tally :: "count_by_status \<Rightarrow> string list \<Rightarrow> bool" where
  "status_tally c xs \<longleftrightarrow> cb_total c = int (length xs) \<and> tallies (cb_by_name c) xs"

definition codes_of :: "record_error option list \<Rightarrow> string list" where
  "codes_of errs = filter (\<lambda>c. c \<noteq> []) (map (\<lambda>e. case e of None \<Rightarrow> [] | Some x \<Rightarrow> re_code x) errs)"

definition run_tally :: "run_slice \<Rightarrow> run list \<Rightarrow> bool" where
  "run_tally s rs \<longleftrightarrow> status_tally (sc_runs s) (map rn_status rs) \<and> sc_verified s = int (length (filter rn_verified rs))"

definition slices_tally :: "(string, run_slice) gomap \<Rightarrow> (run \<Rightarrow> string) \<Rightarrow> run list \<Rightarrow> bool" where
  "slices_tally m f rs \<longleftrightarrow>
     (\<forall>k. case map_of m k of
            None \<Rightarrow> k = [] \<or> k \<notin> set (map f rs)
          | Some s \<Rightarrow> k \<noteq> [] \<and> k \<in> set (map f rs) \<and> run_tally s (filter (\<lambda>r. f r = k) rs))"

lemma count_list_0: "count_list xs k = 0 \<longleftrightarrow> k \<notin> set xs"
  by (induction xs) auto

lemma tallies_Nil [simp]: "tallies [] []"
  by (simp add: tallies_def)

lemma tallies_value: "tallies m xs \<Longrightarrow> value_at m k = int (count_list xs k)"
  by (auto simp: tallies_def value_at_def count_list_0)

lemma tallies_snoc: "tallies m xs \<Longrightarrow> tallies (put k (value_at m k + 1) m) (xs @ [k])"
  by (subst tallies_value, assumption) (auto simp: tallies_def count_list_0)

lemma status_tally_Nil [simp]: "status_tally newCountByStatus []"
  by (simp add: status_tally_def newCountByStatus_def)

lemma status_tally_snoc: "status_tally c xs \<Longrightarrow> status_tally (status_add s c) (xs @ [s])"
  by (simp add: status_tally_def status_add_def tallies_snoc)

lemma codes_of_append: "codes_of (as @ bs) = codes_of as @ codes_of bs"
  by (simp add: codes_of_def)

lemma error_add_tally: "tallies m (codes_of errs) \<Longrightarrow> tallies (error_add e m) (codes_of (errs @ [e]))"
  by (cases e) (simp_all add: error_add_def code_add_def codes_of_append codes_of_def tallies_snoc)

lemma errors_tally: "tallies m (codes_of errs) \<Longrightarrow> tallies (foldl (\<lambda>m e. error_add e m) m es) (codes_of (errs @ es))"
proof (induction es arbitrary: m errs)
  case (Cons e es)
  from Cons.IH [OF error_add_tally [OF Cons.prems]] show ?case by simp
qed simp

lemma run_tally_zero [simp]: "run_tally zero_slice []"
  by (simp add: run_tally_def zero_slice_def)

lemma slice_eta [simp]: "\<lparr>sc_runs = sc_runs s, sc_verified = sc_verified s\<rparr> = (s :: run_slice)"
  by simp

lemma run_tally_snoc: "run_tally s rs \<Longrightarrow> run_tally (addRun r s) (rs @ [r])"
  by (simp add: run_tally_def addRun_def status_tally_snoc)

lemma slices_tally_snoc: "slices_tally m f rs \<Longrightarrow> slices_tally (slice_add (f r) r m) f (rs @ [r])"
proof -
  assume m: "slices_tally m f rs"
  then have old: "case map_of m k of None \<Rightarrow> k = [] \<or> k \<notin> set (map f rs)
      | Some s \<Rightarrow> k \<noteq> [] \<and> k \<in> set (map f rs) \<and> run_tally s (filter (\<lambda>r. f r = k) rs)" for k
    by (simp add: slices_tally_def)
  have "run_tally (slice_at m (f r)) (filter (\<lambda>x. f x = f r) rs)" if "f r \<noteq> []"
  proof (cases "map_of m (f r)")
    case None
    with old [of "f r"] that have "filter (\<lambda>x. f x = f r) rs = []" by (auto simp: filter_empty_conv image_iff)
    with None show ?thesis by (simp add: slice_at_def)
  next
    case (Some s)
    with old [of "f r"] show ?thesis by (simp add: slice_at_def)
  qed
  then have new: "run_tally (addRun r (slice_at m (f r))) (filter (\<lambda>x. f x = f r) rs @ [r])" if "f r \<noteq> []"
    using that run_tally_snoc by blast
  show ?thesis unfolding slices_tally_def
  proof
    fix k
    show "case map_of (slice_add (f r) r m) k of None \<Rightarrow> k = [] \<or> k \<notin> set (map f (rs @ [r]))
      | Some s \<Rightarrow> k \<noteq> [] \<and> k \<in> set (map f (rs @ [r])) \<and> run_tally s (filter (\<lambda>r. f r = k) (rs @ [r]))"
      using old [of k] new by (cases "f r = []"; cases "k = f r"; cases "map_of m k") (auto simp: slice_add_def)
  qed
qed

definition reuse_tally :: "reuse_metrics \<Rightarrow> run list \<Rightarrow> bool" where
  "reuse_tally m rs \<longleftrightarrow> run_tally \<lparr>sc_runs = rm_runs m, sc_verified = rm_verified m\<rparr> rs \<and>
     slices_tally (rm_by_provider m) rn_provider_id rs \<and> slices_tally (rm_by_capability m) rn_capability_id rs \<and>
     tallies (rm_errors m) (codes_of (map rn_error rs))"

lemma aggregateReuse_tally: "reuse_tally (aggregateReuse rs) rs"
proof (induction rs rule: rev_induct)
  case Nil
  show ?case
    by (simp add: aggregateReuse_def reuse_tally_def run_tally_def slices_tally_def codes_of_def)
next
  case (snoc r rs)
  define m where "m = aggregateReuse rs"
  have "aggregateReuse (rs @ [r]) = add_reuse m r" by (simp add: aggregateReuse_def m_def)
  with snoc show ?case
    by (simp add: m_def [symmetric] reuse_tally_def add_reuse_def Let_def slices_tally_snoc error_add_tally run_tally_snoc)
qed

definition capability_tally :: "capability_metrics \<Rightarrow> capability list \<Rightarrow> bool" where
  "capability_tally m cs \<longleftrightarrow>
     (let bs = concat (map cp_bindings cs) in
      cm_capabilities m = int (length cs) \<and> cm_bindings m = int (length bs) \<and>
      cm_promoted m = int (length (filter (\<lambda>b. bd_state b = state_promoted) bs)) \<and>
      cm_with_verify m = int (length (filter (\<lambda>b. bd_verify b \<noteq> None) bs)) \<and>
      cm_without_bindings m = int (length (filter (\<lambda>c. cp_bindings c = []) cs)))"

lemma fold_bindings: "foldl add_binding m bs =
  m\<lparr>cm_bindings := cm_bindings m + int (length bs),
    cm_promoted := cm_promoted m + int (length (filter (\<lambda>b. bd_state b = state_promoted) bs)),
    cm_with_verify := cm_with_verify m + int (length (filter (\<lambda>b. bd_verify b \<noteq> None) bs))\<rparr>"
  by (induction bs arbitrary: m) (simp_all add: add_binding_def Let_def)

lemma aggregateCapability_tally: "capability_tally (aggregateCapability cs) cs"
proof (induction cs rule: rev_induct)
  case (snoc c cs)
  define m where "m = aggregateCapability cs"
  have "aggregateCapability (cs @ [c]) = add_capability m c" by (simp add: aggregateCapability_def m_def)
  with snoc show ?case
    by (simp add: m_def [symmetric] capability_tally_def add_capability_def fold_bindings Let_def)
qed (simp add: aggregateCapability_def capability_tally_def)

definition trace_tally :: "acquisition_metrics \<Rightarrow> trace list \<Rightarrow> bool" where
  "trace_tally m ts \<longleftrightarrow>
     (let probes = concat (map tr_probes ts); promotions = concat (map tr_promotions ts) in
      status_tally (am_traces m) (map tr_status ts) \<and> am_candidates m = int (length (concat (map tr_candidates ts))) \<and>
      em_probes (am_probes m) = int (length probes) \<and> em_passed (am_probes m) = int (length (filter pb_passed probes)) \<and>
      em_failed (am_probes m) = int (length (filter (\<lambda>p. \<not> pb_passed p) probes)) \<and>
      em_promotions (am_promotions m) = int (length promotions) \<and>
      em_capabilities (am_promotions m) = int (card (set (map pm_capability_id promotions) - {[]})) \<and>
      em_bindings (am_promotions m) = int (card (set (map pm_binding_id promotions) - {[]})) \<and>
      tallies (am_errors m) (codes_of (concat (map (\<lambda>t. map pb_error (tr_probes t) @ [tr_error t]) ts))))"

lemma fold_probes: "foldl add_probe m ps =
  m\<lparr>am_probes := (am_probes m)\<lparr>em_passed := em_passed (am_probes m) + int (length (filter pb_passed ps)),
      em_failed := em_failed (am_probes m) + int (length (filter (\<lambda>p. \<not> pb_passed p) ps))\<rparr>,
    am_errors := foldl (\<lambda>m e. error_add e m) (am_errors m) (map pb_error ps)\<rparr>"
  by (induction ps arbitrary: m) (simp_all add: add_probe_def Let_def)

text \<open>The ids seen, as sets.\<close>

definition seen :: "string list \<Rightarrow> string list \<Rightarrow> bool" where
  "seen ks xs \<longleftrightarrow> distinct ks \<and> set ks = set xs - {[]}"

lemma see_seen: "seen ks xs \<Longrightarrow> seen (see k ks) (xs @ [k])"
  by (auto simp: seen_def see_def)

lemma seen_card: "seen ks xs \<Longrightarrow> length ks = card (set xs - {[]})"
  unfolding seen_def by (metis distinct_card)

lemma fold_promotions:
  assumes "seen caps xs" and "seen binds ys"
  shows "\<exists>caps' binds'. foldl add_promotion (m, caps, binds) ps =
      (m\<lparr>am_promotions := (am_promotions m)\<lparr>em_promotions := em_promotions (am_promotions m) + int (length ps)\<rparr>\<rparr>, caps', binds') \<and>
    seen caps' (xs @ map pm_capability_id ps) \<and> seen binds' (ys @ map pm_binding_id ps)"
  using assms
proof (induction ps arbitrary: m caps binds xs ys)
  case (Cons p ps)
  let ?m = "m\<lparr>am_promotions := (am_promotions m)\<lparr>em_promotions := em_promotions (am_promotions m) + 1\<rparr>\<rparr>"
  have step: "foldl add_promotion (m, caps, binds) (p # ps) =
      foldl add_promotion (?m, see (pm_capability_id p) caps, see (pm_binding_id p) binds) ps"
    by (simp add: add_promotion_def)
  show ?case unfolding step
    using Cons.IH [OF see_seen [OF Cons.prems(1), of "pm_capability_id p"] see_seen [OF Cons.prems(2), of "pm_binding_id p"], of ?m]
    by (simp add: add.assoc)
qed simp

text \<open>The state of the outer loop after some traces: everything but the two numbers of distinct ids.\<close>

definition traces_done :: "acquisition_metrics \<times> string list \<times> string list \<Rightarrow> trace list \<Rightarrow> bool" where
  "traces_done s ts \<longleftrightarrow>
     (case s of (m, caps, binds) \<Rightarrow>
       (let promotions = concat (map tr_promotions ts) in
        trace_tally (m\<lparr>am_promotions := (am_promotions m)\<lparr>em_capabilities := int (length caps), em_bindings := int (length binds)\<rparr>\<rparr>) ts \<and>
        seen caps (map pm_capability_id promotions) \<and> seen binds (map pm_binding_id promotions)))"

lemma add_trace_done: "traces_done s ts \<Longrightarrow> traces_done (add_trace s t) (ts @ [t])"
proof -
  assume s: "traces_done s ts"
  obtain m caps binds where m: "s = (m, caps, binds)" by (cases s)
  let ?ps = "concat (map tr_promotions ts)"
  from s m have seen: "seen caps (map pm_capability_id ?ps)" "seen binds (map pm_binding_id ?ps)"
    by (simp_all add: traces_done_def Let_def)
  define m2 where "m2 = foldl add_probe (m\<lparr>am_traces := status_add (tr_status t) (am_traces m),
              am_candidates := am_candidates m + int (length (tr_candidates t)),
              am_probes := (am_probes m)\<lparr>em_probes := em_probes (am_probes m) + int (length (tr_probes t))\<rparr>\<rparr>) (tr_probes t)"
  from fold_promotions [OF seen, of m2 "tr_promotions t"] obtain caps3 binds3 where
    f: "foldl add_promotion (m2, caps, binds) (tr_promotions t) =
      (m2\<lparr>am_promotions := (am_promotions m2)\<lparr>em_promotions := em_promotions (am_promotions m2) + int (length (tr_promotions t))\<rparr>\<rparr>, caps3, binds3)"
    and seen3: "seen caps3 (map pm_capability_id (?ps @ tr_promotions t))" "seen binds3 (map pm_binding_id (?ps @ tr_promotions t))"
    by auto
  have errs: "tallies (foldl (\<lambda>m e. error_add e m) (am_errors m) (map pb_error (tr_probes t) @ [tr_error t]))
    (codes_of (concat (map (\<lambda>t. map pb_error (tr_probes t) @ [tr_error t]) ts) @ map pb_error (tr_probes t) @ [tr_error t]))"
    using s m by (intro errors_tally) (simp add: traces_done_def trace_tally_def Let_def)
  show ?thesis
    using s m f seen3 errs
    by (simp add: traces_done_def trace_tally_def Let_def add_trace_def m2_def [symmetric])
      (simp add: m2_def fold_probes status_tally_snoc seen_card image_Un)
qed

lemma aggregateAcquisition_tally: "trace_tally (aggregateAcquisition ts) ts"
proof -
  have "traces_done (foldl add_trace (zero_acquisition, [], []) ts) ts"
  proof (induction ts rule: rev_induct)
    case (snoc t ts)
    then show ?case using add_trace_done by simp
  qed (simp add: traces_done_def trace_tally_def zero_acquisition_def seen_def codes_of_def)
  then show ?thesis by (simp add: aggregateAcquisition_def traces_done_def Let_def split: prod.splits)
qed

section \<open>The program's store\<close>

definition file_eval_store ::
    "golib \<Rightarrow> trace codec \<Rightarrow> run codec \<Rightarrow> capability codec \<Rightarrow> store \<Rightarrow> fsys eval_store" where
  "file_eval_store L CT CR CC S = \<lparr>es_traces = ListTraces L CT S, es_runs = ListRuns L CR S, es_capabilities = ListCapabilities L CC S\<rparr>"

text \<open>Records that were read from files with the content of \<open>s\<close>.\<close>

definition read_from :: "(fsys, 'a list res) state \<Rightarrow> fsys \<Rightarrow> 'a list \<Rightarrow> bool" where
  "read_from m s xs \<longleftrightarrow> (\<exists>t. fs_files t = fs_files s \<and> fst (run_state m t) = Inr xs)"

lemma wp_eval_list:
  assumes "\<And>t. wp m (\<lambda>r t'. fs_files t' = fs_files t) t" and "fs_files (w_ext u) = fs_files s"
    and "w_events u = evs"
  shows "wp (eval_list message m) (\<lambda>r v. fs_files (w_ext v) = fs_files s \<and> w_events v = evs \<and>
    (\<forall>xs. r = Inr xs \<longrightarrow> read_from m s xs)) u"
proof -
  have "wp m (\<lambda>r t'. fs_files t' = fs_files s \<and> (\<forall>xs. r = Inr xs \<longrightarrow> read_from m s xs)) (w_ext u)"
    using assms(1) [of "w_ext u"] assms(2) by (auto simp: wp_def read_from_def split: prod.splits)
  then show ?thesis unfolding eval_list_def wp_bind wp_call
    by (rule wp_mono) (auto simp: wp_return assms(3) split: sum.splits)
qed

section \<open>The run\<close>

definition eval_post ::
    "golib \<Rightarrow> trace codec \<Rightarrow> run codec \<Rightarrow> capability codec \<Rightarrow> store \<Rightarrow> record_filter \<Rightarrow> fsys \<Rightarrow> eval_result res \<Rightarrow> bool" where
  "eval_post L CT CR CC S f s r \<longleftrightarrow>
     (case r of
        Inl e \<Rightarrow> True
      | Inr x \<Rightarrow> \<exists>ts rs cs. read_from (ListTraces L CT S) s ts \<and> read_from (ListRuns L CR S) s rs \<and>
          read_from (ListCapabilities L CC S) s cs \<and> trace_tally (el_acquisition x) (filterTraces ts f) \<and>
          reuse_tally (el_reuse x) (filterRuns rs f) \<and> capability_tally (el_capability x) (filterCapabilities cs f))"

lemma wp_eval_Run:
  "wp (eval_Run E (Some (file_eval_store L CT CR CC S)) req) (\<lambda>r v.
     fs_files (w_ext v) = fs_files (w_ext w) \<and> w_events v = w_events w \<and>
     eval_post L CT CR CC S (requestFilter req) (w_ext w) r) w"
proof -
  let ?same = "\<lambda>v :: fsys world. fs_files (w_ext v) = fs_files (w_ext w) \<and> w_events v = w_events w"
  have traces: "wp (eval_list m (ListTraces L CT S)) (\<lambda>r v. ?same v \<and> (\<forall>xs. r = Inr xs \<longrightarrow> read_from (ListTraces L CT S) (w_ext w) xs)) u"
    if "?same u" for u m
    by (rule wp_mono [OF wp_eval_list [OF wp_ListTraces_keeps conjunct1 [OF that] conjunct2 [OF that]]]) auto
  have runs: "wp (eval_list m (ListRuns L CR S)) (\<lambda>r v. ?same v \<and> (\<forall>xs. r = Inr xs \<longrightarrow> read_from (ListRuns L CR S) (w_ext w) xs)) u"
    if "?same u" for u m
    unfolding ListRuns_def
    by (rule wp_mono [OF wp_eval_list [OF wp_list_keeps conjunct1 [OF that] conjunct2 [OF that]]]) auto
  have caps: "wp (eval_list m (ListCapabilities L CC S)) (\<lambda>r v. ?same v \<and> (\<forall>xs. r = Inr xs \<longrightarrow> read_from (ListCapabilities L CC S) (w_ext w) xs)) u"
    if "?same u" for u m
    unfolding ListCapabilities_def
    by (rule wp_mono [OF wp_eval_list [OF wp_list_keeps conjunct1 [OF that] conjunct2 [OF that]]]) auto
  have load: "wp (loadRecords E (file_eval_store L CT CR CC S) f) (\<lambda>r v. ?same v \<and>
      (\<forall>x. r = Inr x \<longrightarrow> eval_post L CT CR CC S f (w_ext w) (Inr (eval_of x)))) u" if "?same u" for u f
    unfolding loadRecords_def wp_bind file_eval_store_def eval_store.select_convs
    apply (rule wp_mono [OF traces [OF that]])
    subgoal for r1 v1
      apply (cases r1)
       apply (simp add: wp_return)
      apply (simp add: wp_return wp_bind wp_ctx_err split: option.split)
      apply (intro impI wp_mono [OF runs])
       apply simp
      subgoal for ts r2 v2
        apply (cases r2)
         apply (simp add: wp_return)
        apply (simp add: wp_return wp_bind wp_ctx_err split: option.split)
        apply (intro impI wp_mono [OF caps])
         apply simp
        subgoal for rs r3 v3
          using aggregateAcquisition_tally aggregateReuse_tally aggregateCapability_tally
          by (cases r3) (auto simp: wp_return eval_post_def eval_of_def, blast)
        done
      done
    done
  show ?thesis
    unfolding eval_Run_def option.case wp_bind wp_ctx_err
    apply (simp add: wp_return wp_bind eval_post_def [of _ _ _ _ _ _ _ "Inl _"] split: option.split)
    apply (intro impI wp_mono [OF load])
     apply simp
    subgoal for r v
      by (cases r) (auto simp: wp_return wp_bind wp_ctx_err eval_post_def [of _ _ _ _ _ _ _ "Inl _"] split: option.split)
    done
qed


section \<open>Examples\<close>

definition no_codec :: "'a codec" where
  "no_codec = \<lparr>to_json = (\<lambda>_. Inl (EText ''none'')), of_json = (\<lambda>_. Inl ''none'')\<rparr>"

definition demo_eval :: "eval_result res \<times> fsys world" where
  "demo_eval = run_state (eval_Run \<lparr>env_time = (\<lambda>_. 0), env_ctx = (\<lambda>_. None)\<rparr>
     (Some (file_eval_store plain_lib no_codec no_codec name_codec \<lparr>st_root = ''/h''\<rparr>)) None)
     \<lparr>w_tick = 0, w_events = [], w_ext = saved_fs\<rparr>"

lemma demo_eval_counts: "case fst demo_eval of Inl e \<Rightarrow> False | Inr x \<Rightarrow> el_capability x =
    \<lparr>cm_capabilities = 1, cm_bindings = 0, cm_promoted = 0, cm_with_verify = 0, cm_without_bindings = 1\<rparr> \<and>
    cb_total (am_traces (el_acquisition x)) = 0"
  by code_simp


end
