(* ===== verification/Cal_App.thy ===== *)
theory Cal_App
  imports Cal_Flow Cal_Proposers Cal_Use Cal_Observe Cal_Eval
begin

text \<open>
  \<^verbatim>\<open>internal/cald/app\<close>: the application of the daemon. It wires the components together on one store
  and answers the requests of the contract. The lines it logs are left out, and with them the readings
  of the clock for the duration of an operation.
\<close>

section \<open>The parts of the machine and the application\<close>

text \<open>
  What is not in the repository: the codecs of JSON, the operating system, the language model as the
  components see it, the scheduler of the proposal pipelines.
\<close>

record app_codecs =
  ak_providers :: "provider codec"
  ak_capabilities :: "capability codec"
  ak_runs :: "run codec"
  ak_traces :: "trace codec"

record app_host =
  ah_codecs :: app_codecs
  ah_entry :: "fsys entry_host"
  ah_usage :: "fsys usage_host"
  ah_machine :: "fsys machine"
  ah_work :: "fsys workdir_ops"
  ah_plan :: "fsys plan_host"
  ah_decoders :: decoders
  ah_pick :: "nat \<Rightarrow> bool"
  ah_replay_decode :: "string \<Rightarrow> replay_file res"
  ah_read_file :: "string \<Rightarrow> (fsys, string res) state"
  ah_prompt :: string
  ah_select_decode :: "string \<Rightarrow> llm_decision res"

text \<open>One \<^verbatim>\<open>llm.Client\<close>, by the requests it is asked.\<close>

record app_llm =
  al_stages :: "fsys live_stages"
  al_select :: "(fsys, llm_request) llm_client"

record acq_runtime =
  ax_loader :: "(env \<Rightarrow> string \<Rightarrow> (fsys world, provider outcome) state) option"
  ax_catalog :: "(fsys, capability list res) state option"
  ax_observer :: "(env \<Rightarrow> provider option \<Rightarrow> (fsys world, observation list outcome) state) option"
  ax_prober :: "(env \<Rightarrow> probe_request option \<Rightarrow> (fsys world, probe list outcome) state) option"
  ax_promoter :: "(env \<Rightarrow> promote_request option \<Rightarrow> (fsys world, promotion list outcome) state) option"
  ax_tracer :: "fsys tracer option"

record app =
  ap_home :: string
  ap_work_root :: string
  ap_store :: "store option"
  ap_registry :: "fsys provider_store option"
  ap_acquire :: "acq_runtime option"
  ap_llm :: "app_llm option"
  ap_run :: "(env \<Rightarrow> fsys run_runner) option"
  ap_use :: "fsys use_runner option"
  ap_eval :: "fsys eval_store option"

definition ErrHomeRequired :: gerr where
  "ErrHomeRequired = EVar ''app.ErrHomeRequired'' ''cal home is required''"

definition ErrInvalidMode :: gerr where
  "ErrInvalidMode = EVar ''app.ErrInvalidMode'' ''invalid acquisition mode''"

definition ErrLLMNotConfigured :: gerr where
  "ErrLLMNotConfigured = EVar ''app.ErrLLMNotConfigured'' ''llm is not configured''"

definition ErrProposalPathRequired :: gerr where
  "ErrProposalPathRequired = EVar ''app.ErrProposalPathRequired'' ''proposal path is required''"

definition workRoot :: "string \<Rightarrow> string \<Rightarrow> string" where
  "workRoot home configured = (if \<not> blank configured then path_clean configured else path_join [home, ''work''])"

section \<open>Wiring\<close>

text \<open>The components as the acquisition calls them.\<close>

definition app_loader :: "golib \<Rightarrow> provider codec \<Rightarrow> store \<Rightarrow> env \<Rightarrow> string \<Rightarrow> (fsys world, provider outcome) state" where
  "app_loader L C S E i = do {
     r \<leftarrow> Load L E (Some (file_provider_store L C S)) (Some i);
     ret (case r of Inl e \<Rightarrow> (None, Some e) | Inr p \<Rightarrow> (Some p, None))}"

definition app_observer :: "golib \<Rightarrow> fsys usage_host \<Rightarrow> env \<Rightarrow> provider option \<Rightarrow> (fsys world, observation list outcome) state" where
  "app_observer L H E p = do {
     r \<leftarrow> Observe L E (Some [(kind_cli, cli_Observe L H)]) p;
     ret (map_option ov_observations (fst r), snd r)}"

definition app_prober :: "golib \<Rightarrow> app_host \<Rightarrow> env \<Rightarrow> probe_request option \<Rightarrow> (fsys world, probe list outcome) state" where
  "app_prober L H E = probe_Run L E (Some (probe_NewRunner
     (Some (\<lambda>X. execute_Run (Some (cli_Run L X (ah_machine H))))) (Some fs_view) (ah_work H) \<lparr>po_timeout = 0, po_keep = False\<rparr>))"

definition app_promoter :: "golib \<Rightarrow> capability codec \<Rightarrow> store \<Rightarrow> env \<Rightarrow> promote_request option \<Rightarrow> (fsys world, promotion list outcome) state" where
  "app_promoter L C S E = promote_Run L E (Some (Some (file_promote_store L C S)))"

definition newAcquisitionRuntime :: "golib \<Rightarrow> app_host \<Rightarrow> store \<Rightarrow> acq_runtime" where
  "newAcquisitionRuntime L H S =
     \<lparr>ax_loader = Some (app_loader L (ak_providers (ah_codecs H)) S),
      ax_catalog = Some (ListCapabilities L (ak_capabilities (ah_codecs H)) S),
      ax_observer = Some (app_observer L (ah_usage H)), ax_prober = Some (app_prober L H),
      ax_promoter = Some (app_promoter L (ak_capabilities (ah_codecs H)) S),
      ax_tracer = Some (writer_tracer L (SaveTrace L (ak_traces (ah_codecs H)) S))\<rparr>"

text \<open>
  \<^verbatim>\<open>New\<close>; \<open>client\<close> is what \<^verbatim>\<open>config.Load\<close> and \<^verbatim>\<open>buildLLMClient\<close> give: an error, no client or a client.
\<close>

definition app_wired :: "golib \<Rightarrow> app_host \<Rightarrow> string \<Rightarrow> string \<Rightarrow> store \<Rightarrow> app_llm option \<Rightarrow> app" where
  "app_wired L H home configured S client =
     (let K = ah_codecs H in
      \<lparr>ap_home = home, ap_work_root = workRoot home configured, ap_store = Some S,
       ap_registry = Some (file_provider_store L (ak_providers K) S),
       ap_acquire = Some (newAcquisitionRuntime L H S), ap_llm = client,
       ap_run = Some (\<lambda>E. file_runner L E (ak_capabilities K) (ak_providers K) (ak_runs K) S (ah_machine H)),
       ap_use = Some (use_NewDefaultRunner
         (Some \<lparr>us_list_capabilities = ListCapabilities L (ak_capabilities K) S,
           us_list_providers = ListProviders L (ak_providers K) S\<rparr>)
         (Some (run_executor L (ak_capabilities K) (ak_providers K) (ak_runs K) S (ah_machine H)))
         (map_option al_select client) (ah_plan H)),
       ap_eval = Some (file_eval_store L (ak_traces K) (ak_runs K) (ak_capabilities K) S)\<rparr>)"

definition app_New ::
    "golib \<Rightarrow> app_host \<Rightarrow> string \<Rightarrow> string \<Rightarrow> (string \<Rightarrow> (fsys, app_llm option res) state) \<Rightarrow> (fsys, app res) state" where
  "app_New L H home0 configured client =
     (let home = trim_space home0 in
      if home = [] then ret (Inl ErrHomeRequired)
      else (case New home of
              Inl e \<Rightarrow> ret (Inl e)
            | Inr S \<Rightarrow> do {
                made \<leftarrow> Ensure S;
                (case made of
                   Some e \<Rightarrow> ret (Inl e)
                 | None \<Rightarrow> do {
                     c \<leftarrow> client home;
                     ret (case c of Inl e \<Rightarrow> Inl e | Inr llm \<Rightarrow> Inr (app_wired L H home configured S llm))})}))"

definition app_validate :: "app option \<Rightarrow> gerr option" where
  "app_validate A0 =
     (case A0 of
        None \<Rightarrow> Some (EText ''cald app is not configured'')
      | Some A \<Rightarrow>
          if ap_store A = None \<or> ap_registry A = None \<or> ap_acquire A = None \<or> ap_run A = None \<or> ap_use A = None
             \<or> ap_eval A = None
          then Some (EText ''cald app is not configured'') else None)"

section \<open>Acquisition\<close>

type_synonym app_proposer = "env \<Rightarrow> proposal_request option \<Rightarrow> (fsys world, proposal_result outcome) state"

record acquire_request =
  xq_provider_id :: string
  xq_hint :: string
  xq_proposal_path :: string
  xq_mode :: string

record acquire_response =
  xr_trace_id :: string
  xr_provider_ids :: "string list"
  xr_capabilities :: nat
  xr_bindings :: nat
  xr_trace :: trace
  xr_error :: "record_error option"

definition acquisitionMode :: "string \<Rightarrow> string" where
  "acquisitionMode mode = (if mode = [] then ''live'' else mode)"

definition liveProposer :: "golib \<Rightarrow> app_host \<Rightarrow> app_llm \<Rightarrow> app_proposer" where
  "liveProposer L H client = (\<lambda>E. proposal_Run L (ah_pick H) E (Some (NewLiveRunner L (ah_decoders H) (al_stages client)
     \<lparr>op_timeout = 0, op_per_capability = 0, op_surface_limit = 0, op_concurrency = 0, op_candidate_limit = 0\<rparr>)))"

definition proposerFor :: "golib \<Rightarrow> app_host \<Rightarrow> app \<Rightarrow> acquire_request \<Rightarrow> app_proposer res" where
  "proposerFor L H A req =
     (let mode = acquisitionMode (xq_mode req) in
      if mode = ''live'' then (case ap_llm A of None \<Rightarrow> Inl ErrLLMNotConfigured | Some client \<Rightarrow> Inr (liveProposer L H client))
      else if mode = ''replay'' then
        (if blank (xq_proposal_path req) then Inl ErrProposalPathRequired
         else Inr (replay_Run L (ah_replay_decode H) (ah_read_file H) (Some (xq_proposal_path req))))
      else if mode = ''rules'' then Inr (rules_Run L (Some ()))
      else Inl (EWrap [] ErrInvalidMode ('' '' @ quote L (xq_mode req))))"

definition runtime_runner :: "acq_runtime \<Rightarrow> app_proposer \<Rightarrow> fsys acq_runner" where
  "runtime_runner X pz =
     \<lparr>ar_loader = ax_loader X, ar_catalog = ax_catalog X, ar_observer = ax_observer X, ar_proposer = Some pz,
      ar_prober = ax_prober X, ar_promoter = ax_promoter X, ar_tracer = ax_tracer X\<rparr>"

definition promotedCounts :: "promotion list \<Rightarrow> nat \<times> nat" where
  "promotedCounts ps =
     (length (foldl (\<lambda>ks p. see (pm_capability_id p) ks) [] ps), length (foldl (\<lambda>ks p. see (pm_binding_id p) ks) [] ps))"

definition acquisitionResponse :: "trace \<Rightarrow> acquire_response" where
  "acquisitionResponse tr =
     \<lparr>xr_trace_id = tr_id tr, xr_provider_ids = tr_provider_ids tr, xr_capabilities = fst (promotedCounts (tr_promotions tr)),
      xr_bindings = snd (promotedCounts (tr_promotions tr)), xr_trace = tr, xr_error = tr_error tr\<rparr>"

definition Acquire ::
    "golib \<Rightarrow> app_host \<Rightarrow> env \<Rightarrow> app option \<Rightarrow> acquire_request option \<Rightarrow> (fsys world, acquire_response outcome) state" where
  "Acquire L H E A0 req0 =
     (case app_validate A0 of
        Some e \<Rightarrow> ret (None, Some e)
      | None \<Rightarrow>
          (case req0 of
             None \<Rightarrow> ret (None, Some (EText ''acquisition request is required''))
           | Some req \<Rightarrow>
               (case proposerFor L H (the A0) req of
                  Inl e \<Rightarrow> ret (None, Some e)
                | Inr pz \<Rightarrow> do {
                    result \<leftarrow> acq_Run L E (Some (runtime_runner (the (ap_acquire (the A0))) pz))
                      (Some \<lparr>aq_provider_id = xq_provider_id req, aq_hint = xq_hint req, aq_trace_id = [],
                        aq_work_root = ap_work_root (the A0)\<rparr>);
                    ret (case result of
                           (Some tr, _) \<Rightarrow> (Some (acquisitionResponse tr), None)
                         | (None, err) \<Rightarrow> (None, err))})))"

section \<open>Use and run\<close>

record app_use_request =
  xu_intent :: string
  xu_inputs :: ginputs
  xu_provider_id :: string
  xu_strategy :: string
  xu_verify :: bool
  xu_min_level :: string

record app_run_request =
  xn_capability_id :: string
  xn_binding_id :: string
  xn_inputs :: "ginputs option"
  xn_provider_id :: string
  xn_strategy :: string
  xn_verify :: bool
  xn_min_level :: string

definition validateStrategy :: "golib \<Rightarrow> string \<Rightarrow> gerr option" where
  "validateStrategy L strategy =
     (if strategy \<in> {[], ''default'', ''first'', ''best''} then None
      else Some (EText (''unsupported run strategy '' @ quote L strategy)))"

text \<open>The response has the fields of the result of a use.\<close>

definition useSelection :: "use_selection option \<Rightarrow> use_selection option" where
  "useSelection sel =
     (case sel of
        None \<Rightarrow> None
      | Some s \<Rightarrow> Some \<lparr>un_source = un_source s, un_capability_id = un_capability_id s, un_binding_id = un_binding_id s,
          un_provider_id = un_provider_id s, un_reason = un_reason s, un_considered = un_considered s\<rparr>)"

definition useResponse :: "use_result \<Rightarrow> use_result" where
  "useResponse x =
     \<lparr>ur_id = ur_id x, ur_intent = ur_intent x, ur_selection = useSelection (ur_selection x), ur_run = ur_run x,
      ur_status = ur_status x, ur_started_at = ur_started_at x, ur_finished_at = ur_finished_at x,
      ur_duration_ms = ur_duration_ms x, ur_error = ur_error x\<rparr>"

definition app_use_of :: "app_use_request \<Rightarrow> use_request" where
  "app_use_of req =
     \<lparr>uq_intent = xu_intent req, uq_inputs = xu_inputs req, uq_provider_id = xu_provider_id req,
      uq_force_llm = (xu_strategy req = ''best''), uq_verify = xu_verify req, uq_min_level = xu_min_level req\<rparr>"

definition app_Use ::
    "golib \<Rightarrow> app_host \<Rightarrow> env \<Rightarrow> app option \<Rightarrow> app_use_request option \<Rightarrow> (fsys world, use_result outcome) state" where
  "app_Use L H E A0 req0 =
     (case app_validate A0 of
        Some e \<Rightarrow> ret (None, Some e)
      | None \<Rightarrow>
          (case req0 of
             None \<Rightarrow> ret (None, Some (EText ''use request is required''))
           | Some req \<Rightarrow>
               (case validateStrategy L (xu_strategy req) of
                  Some e \<Rightarrow> ret (None, Some e)
                | None \<Rightarrow> do {
                    result \<leftarrow> use_Run L (ah_prompt H) (ah_select_decode H) E (ap_use (the A0)) (Some (app_use_of req));
                    ret (case result of
                           (_, Some e) \<Rightarrow> (None, Some e)
                         | (None, None) \<Rightarrow> (None, Some (EText ''use result is required''))
                         | (Some x, None) \<Rightarrow> (Some (useResponse x), None))})))"

definition app_run_of :: "app_run_request \<Rightarrow> run_request" where
  "app_run_of req =
     \<lparr>rq_capability_id = xn_capability_id req, rq_binding_id = xn_binding_id req, rq_provider_id = xn_provider_id req,
      rq_inputs = xn_inputs req, rq_verify = xn_verify req, rq_min_level = xn_min_level req\<rparr>"

definition app_Run :: "golib \<Rightarrow> env \<Rightarrow> app option \<Rightarrow> app_run_request option \<Rightarrow> (fsys world, run res) state" where
  "app_Run L E A0 req0 =
     (case app_validate A0 of
        Some e \<Rightarrow> ret (Inl e)
      | None \<Rightarrow>
          (case req0 of
             None \<Rightarrow> ret (Inl (EText ''run request is required''))
           | Some req \<Rightarrow>
               (case validateStrategy L (xn_strategy req) of
                  Some e \<Rightarrow> ret (Inl e)
                | None \<Rightarrow> do {
                    result \<leftarrow> run_Run L E (Some (the (ap_run (the A0)) E)) (Some (app_run_of req));
                    ret (case result of Inl e \<Rightarrow> Inl e | Inr x \<Rightarrow> Inr (rr_run x))})))"

text \<open>
  The strategy of a run is only checked: every one that is accepted gives the same run. (A use looks at it:
  \<^verbatim>\<open>best\<close> forces the language model.)
\<close>

lemma run_strategy_ignored:
  assumes "validateStrategy L s = None" and "validateStrategy L t = None"
  shows "app_Run L E A (Some (req\<lparr>xn_strategy := s\<rparr>)) = app_Run L E A (Some (req\<lparr>xn_strategy := t\<rparr>))"
  using assms by (auto simp: app_Run_def app_run_of_def split: option.split)

section \<open>Lists\<close>

definition app_ListProviders :: "env \<Rightarrow> app option \<Rightarrow> (fsys world, provider list res) state" where
  "app_ListProviders E A0 =
     (case app_validate A0 of Some e \<Rightarrow> ret (Inl e) | None \<Rightarrow> List_Providers E (ap_registry (the A0)))"

definition AddProvider ::
    "golib \<Rightarrow> app_host \<Rightarrow> env \<Rightarrow> app option \<Rightarrow> string option \<Rightarrow> (fsys world, provider list res) state" where
  "AddProvider L H E A0 req =
     (case app_validate A0 of
        Some e \<Rightarrow> ret (Inl e)
      | None \<Rightarrow> do {
          registered \<leftarrow> Register L (ah_entry H) E (ap_registry (the A0)) (Some (case req of None \<Rightarrow> [] | Some p \<Rightarrow> p));
          (case registered of
             Inl e \<Rightarrow> ret (Inl e)
           | Inr _ \<Rightarrow> app_ListProviders E A0)})"

record binding_summary =
  xb_available :: nat
  xb_provider_ids :: "string list"
  xb_levels :: "string list"

record capability_summary =
  xc_id :: string
  xc_description :: string
  xc_bindings :: binding_summary

definition promotedBindings :: "binding list \<Rightarrow> string \<Rightarrow> binding list" where
  "promotedBindings bs providerID =
     filter (\<lambda>b. bd_state b = state_promoted \<and> \<not> (providerID \<noteq> [] \<and> bd_provider_id b \<noteq> providerID)) bs"

definition sortedKeys :: "string list \<Rightarrow> string list" where
  "sortedKeys ks = sort ks"

definition bindingSummary :: "binding list \<Rightarrow> binding_summary" where
  "bindingSummary bs =
     \<lparr>xb_available = length bs, xb_provider_ids = sortedKeys (foldl (\<lambda>ks b. see (bd_provider_id b) ks) [] bs),
      xb_levels = sortedKeys (foldl (\<lambda>ks b. case bd_verify b of None \<Rightarrow> ks | Some v \<Rightarrow> see (vf_level v) ks) [] bs)\<rparr>"

text \<open>A filter has the fields of a request, trimmed.\<close>

definition capabilityFilter :: "record_filter option \<Rightarrow> record_filter" where
  "capabilityFilter req =
     (case req of
        None \<Rightarrow> \<lparr>rf_provider_id = [], rf_capability_id = []\<rparr>
      | Some f \<Rightarrow> \<lparr>rf_provider_id = trim_space (rf_provider_id f), rf_capability_id = trim_space (rf_capability_id f)\<rparr>)"

definition capabilitySummary :: "capability \<Rightarrow> record_filter \<Rightarrow> capability_summary option" where
  "capabilitySummary c f =
     (if rf_capability_id f \<noteq> [] \<and> cp_id c \<noteq> rf_capability_id f then None
      else (let bs = promotedBindings (cp_bindings c) (rf_provider_id f) in
        if rf_provider_id f \<noteq> [] \<and> bs = [] then None
        else Some \<lparr>xc_id = cp_id c, xc_description = cp_description c, xc_bindings = bindingSummary bs\<rparr>))"

definition app_ListCapabilities ::
    "golib \<Rightarrow> app_host \<Rightarrow> env \<Rightarrow> app option \<Rightarrow> record_filter option \<Rightarrow> (fsys world, (nat \<times> capability_summary list) res) state" where
  "app_ListCapabilities L H E A0 req =
     (case app_validate A0 of
        Some e \<Rightarrow> ret (Inl e)
      | None \<Rightarrow> do {
          c \<leftarrow> ctx_err E;
          (case c of
             Some e \<Rightarrow> ret (Inl e)
           | None \<Rightarrow> do {
               listed \<leftarrow> call (ListCapabilities L (ak_capabilities (ah_codecs H)) (the (ap_store (the A0))));
               ret (case listed of
                      Inl e \<Rightarrow> Inl e
                    | Inr cs \<Rightarrow> (let summaries = List.map_filter (\<lambda>c. capabilitySummary c (capabilityFilter req)) cs
                        in Inr (length summaries, summaries)))})})"

section \<open>Metrics\<close>

text \<open>The contract's metrics have the fields of eval's; a map is copied entry by entry, an empty one is nil.\<close>

definition copy_map :: "('v \<Rightarrow> 'w) \<Rightarrow> (string, 'v) gomap \<Rightarrow> (string, 'w) gomap" where
  "copy_map f m = foldl (\<lambda>copied (k, v). put k (f v) copied) [] m"

definition countByStatus :: "count_by_status \<Rightarrow> count_by_status" where
  "countByStatus c = \<lparr>cb_total = cb_total c, cb_by_name = copy_map (\<lambda>n. n) (cb_by_name c)\<rparr>"

definition countByCode :: "count_by_code \<Rightarrow> count_by_code" where
  "countByCode m = copy_map (\<lambda>n. n) m"

definition runSlices :: "(string, run_slice) gomap \<Rightarrow> (string, run_slice) gomap" where
  "runSlices m = copy_map (\<lambda>s. \<lparr>sc_runs = countByStatus (sc_runs s), sc_verified = sc_verified s\<rparr>) m"

definition acquisitionMetrics :: "acquisition_metrics \<Rightarrow> acquisition_metrics" where
  "acquisitionMetrics m =
     \<lparr>am_traces = countByStatus (am_traces m), am_candidates = am_candidates m,
      am_probes = \<lparr>em_probes = em_probes (am_probes m), em_passed = em_passed (am_probes m), em_failed = em_failed (am_probes m)\<rparr>,
      am_promotions = \<lparr>em_promotions = em_promotions (am_promotions m), em_capabilities = em_capabilities (am_promotions m),
        em_bindings = em_bindings (am_promotions m)\<rparr>,
      am_errors = countByCode (am_errors m)\<rparr>"

definition reuseMetrics :: "reuse_metrics \<Rightarrow> reuse_metrics" where
  "reuseMetrics m =
     \<lparr>rm_runs = countByStatus (rm_runs m), rm_verified = rm_verified m, rm_by_provider = runSlices (rm_by_provider m),
      rm_by_capability = runSlices (rm_by_capability m), rm_errors = countByCode (rm_errors m)\<rparr>"

definition capabilityMetrics :: "capability_metrics \<Rightarrow> capability_metrics" where
  "capabilityMetrics m =
     \<lparr>cm_capabilities = cm_capabilities m, cm_bindings = cm_bindings m, cm_promoted = cm_promoted m,
      cm_with_verify = cm_with_verify m, cm_without_bindings = cm_without_bindings m\<rparr>"

definition evalResponse :: "eval_result \<Rightarrow> eval_result" where
  "evalResponse x =
     \<lparr>el_acquisition = acquisitionMetrics (el_acquisition x), el_reuse = reuseMetrics (el_reuse x),
      el_capability = capabilityMetrics (el_capability x)\<rparr>"

definition app_Eval :: "env \<Rightarrow> app option \<Rightarrow> record_filter option \<Rightarrow> (fsys world, eval_result res) state" where
  "app_Eval E A0 req =
     (case app_validate A0 of
        Some e \<Rightarrow> ret (Inl e)
      | None \<Rightarrow> do {
          result \<leftarrow> eval_Run E (ap_eval (the A0))
            (Some (case req of None \<Rightarrow> \<lparr>rf_provider_id = [], rf_capability_id = []\<rparr> | Some f \<Rightarrow> f));
          ret (case result of Inl e \<Rightarrow> Inl e | Inr x \<Rightarrow> Inr (evalResponse x))})"

section \<open>The components emit no stage events\<close>

lemma quiet_steps: "quiet m \<Longrightarrow> steps_only m"
  by (simp add: quiet_def steps_only_def)

lemma quiet_now [keeps]: "quiet (now E)"
  by (rule quietI) (simp add: wp_now)

lemma quiet_timeout [keeps]: "quiet (with_timeout E t)"
  by (rule quietI) (simp add: wp_with_timeout)

lemma quiet_world_checker [keeps]: "quiet (world_checker L view E req)"
  by (rule quietI) (simp add: wp_def world_checker_def)

lemma quiet_loader: "quiet (app_loader L C S E i)"
  unfolding app_loader_def Load_def entry_validate_def Let_def
  by (auto intro!: keeps split: option.split sum.split)

lemma quiet_observer: "quiet (app_observer L H E p)"
proof -
  have "quiet (Observe L E (Some [(kind_cli, cli_Observe L H)]) p)"
  proof (cases p)
    case None
    then show ?thesis unfolding Observe_def by (auto intro!: keeps split: option.split)
  next
    case (Some q)
    then show ?thesis by (auto intro!: quietI wp_mono [OF wp_Observe])
  qed
  then show ?thesis unfolding app_observer_def by (auto intro!: keeps)
qed

lemma quiet_probe_loop:
  assumes "\<And>X q. quiet (exe X q)"
  shows "quiet (probe_loop L E R exe view prov t probes targets)"
proof (induction targets arbitrary: probes)
  case (Cons target targets)
  have "quiet (executeAndCheck L E exe view timeout prov target plan t)" for timeout plan
    unfolding executeAndCheck_def Let_def by (auto intro!: keeps assms split: option.split prod.split)
  then have "quiet (runTarget L E R exe view prov target t)"
    unfolding runTarget_def probe_attempt_def Let_def by (auto intro!: keeps split: option.split sum.split)
  with Cons.IH show ?case by (auto intro!: keeps split: prod.split)
qed (simp add: quiet_ret)

lemma quiet_prober: "quiet (app_prober L H E q)"
  unfolding app_prober_def probe_Run_def Let_def probe_NewRunner_def
  by (auto intro!: keeps quiet_probe_loop split: option.split sum.split)

lemma quiet_promote_loop: "quiet (promote_loop L E st acc targets)"
  by (induction targets arbitrary: acc) (auto intro!: keeps split: option.split sum.split)

lemma quiet_promoter: "quiet (app_promoter L C S E q)"
  unfolding app_promoter_def promote_Run_def
  by (auto intro!: keeps quiet_promote_loop split: option.split sum.split prod.split)

lemma main_log_proposal: "proposal_events w v \<Longrightarrow> main_log v = main_log w"
proof -
  assume "proposal_events w v"
  then obtain evs where v: "w_events v = w_events w @ evs" and evs: "list_all (\<lambda>e. pe_step e \<noteq> StepNone \<and> pe_stage e = StageProposal) evs"
    by (auto simp: proposal_events_def)
  then have "filter (\<lambda>e. pe_step e = StepNone) evs = []" by (auto simp: filter_empty_conv list_all_iff)
  with v show ?thesis by (simp add: log_of_def)
qed

section \<open>What the proposers promise\<close>

text \<open>Candidates of the requested provider, one per capability, plans numbered like their candidates.\<close>

definition app_proposed :: "provider option \<Rightarrow> proposal_result \<Rightarrow> bool" where
  "app_proposed prov x \<longleftrightarrow> map pp_index (pr_plans x) = map int [0..<length (pr_candidates x)] \<and>
     distinct (map candidateCapabilityKey (pr_candidates x)) \<and>
     list_all (\<lambda>c. prov \<noteq> None \<and> pv_id (the prov) \<noteq> [] \<and> cd_provider_id c = pv_id (the prov)) (pr_candidates x)"

lemma app_proposed_empty: "pr_candidates x = [] \<Longrightarrow> pr_plans x = [] \<Longrightarrow> app_proposed prov x"
  by (simp add: app_proposed_def)

lemma app_proposed_normalized:
  assumes "normalized L \<lparr>no_provider_id = pv_id p, no_limit = n\<rparr> x" and "pv_id p \<noteq> []"
  shows "app_proposed (Some p) x"
  using assms by (auto simp: app_proposed_def normalized_def list_all_iff)

definition proposes :: "app_proposer \<Rightarrow> bool" where
  "proposes pz \<longleftrightarrow> (\<forall>E q w. wp (pz E (Some q)) (\<lambda>r v. main_log v = main_log w \<and>
     (\<forall>x. fst r = Some x \<longrightarrow> app_proposed (lq_provider q) x)) w) \<and> (\<forall>E. steps_only (pz E None))"

lemma proposal_validate_nil: "\<exists>e. proposal_validate L R0 None = Some e"
  by (cases R0) (simp_all add: proposal_validate_def)

lemma trim_Nil: "trim_space [] = []"
  by code_simp

lemma not_blank: "trim_space s \<noteq> [] \<Longrightarrow> s \<noteq> []"
  using trim_Nil by auto

lemma live_proposes: "proposes (liveProposer L H client)"
  unfolding proposes_def
proof (intro conjI allI)
  fix E q and w :: "fsys world"
  let ?R = "NewLiveRunner L (ah_decoders H) (al_stages client)
    \<lparr>op_timeout = 0, op_per_capability = 0, op_surface_limit = 0, op_concurrency = 0, op_candidate_limit = 0\<rparr>"
  show "wp (liveProposer L H client E (Some q)) (\<lambda>r v. main_log v = main_log w \<and>
     (\<forall>x. fst r = Some x \<longrightarrow> app_proposed (lq_provider q) x)) w"
  proof (cases "case lq_provider q of None \<Rightarrow> True | Some p \<Rightarrow> pv_id p = []")
    case True
    then have "\<exists>e. proposal_validate L (Some ?R) (Some q) = Some e"
      by (auto simp: proposal_validate_def split: option.splits)
    then show ?thesis by (auto simp: liveProposer_def proposal_Run_def wp_return)
  next
    case False
    then obtain p where p: "lq_provider q = Some p" "pv_id p \<noteq> []" by (auto split: option.splits)
    show ?thesis unfolding liveProposer_def
    proof (rule wp_mono [OF live.wp_proposal_Run [OF live_uses live_valid [OF p]]])
      fix r and v :: "fsys world"
      assume r: "proposal_events w v \<and> proposal_post L ?R q r"
      have "app_proposed (lq_provider q) x" if "fst r = Some x" for x
        using r that p by (cases r; cases "snd r") (auto simp: proposal_post_def intro: app_proposed_normalized app_proposed_empty)
      with r show "main_log v = main_log w \<and> (\<forall>x. fst r = Some x \<longrightarrow> app_proposed (lq_provider q) x)"
        by (simp add: main_log_proposal)
    qed
  qed
next
  fix E
  obtain e where "proposal_validate L (Some (NewLiveRunner L (ah_decoders H) (al_stages client)
    \<lparr>op_timeout = 0, op_per_capability = 0, op_surface_limit = 0, op_concurrency = 0, op_candidate_limit = 0\<rparr>)) None = Some e"
    using proposal_validate_nil by blast
  then have "liveProposer L H client E None = ret (None, Some e)" by (simp add: liveProposer_def proposal_Run_def)
  then show "steps_only (liveProposer L H client E None)" by (simp add: quiet_steps quiet_ret)
qed

lemma normalized_or_empty_proposed:
  assumes "fst (normalized_or_empty L what q result) = Some x" and "lq_provider q = Some p" and "pv_id p \<noteq> []"
  shows "app_proposed (lq_provider q) x"
proof -
  have n: "NormalizeResult L (Some result) \<lparr>no_provider_id = pv_id p, no_limit = 0\<rparr> = Inr x"
    using assms(1,2) by (auto simp: normalized_or_empty_def split: sum.splits if_splits)
  then have "selectResult L (Some result) \<lparr>no_provider_id = pv_id p, no_limit = 0\<rparr> = Inr x"
    by (simp add: NormalizeResult_select)
  from selectResult_inv [OF this] show ?thesis
    using assms(2,3) by (auto simp: select_inv_def intro: app_proposed_normalized)
qed

lemma wp_rules_proposed: "wp (rules_Run L R E (Some q)) (\<lambda>r v. \<forall>x. fst r = Some x \<longrightarrow> app_proposed (lq_provider q) x) w"
proof (cases "rules_validate R (Some q)")
  case None
  then obtain p where "lq_provider q = Some p" and p: "trim_space (pv_id p) \<noteq> []"
    by (auto simp: rules_validate_def split: option.splits if_splits)
  with None not_blank [OF p] show ?thesis
    by (auto simp: rules_Run_def wp_simps split: option.split sum.split dest: normalized_or_empty_proposed)
qed (simp add: rules_Run_def wp_return)

lemma wp_replay_proposed:
  "wp (replay_Run L decode read_file R E (Some q)) (\<lambda>r v. \<forall>x. fst r = Some x \<longrightarrow> app_proposed (lq_provider q) x) w"
proof (cases "replay_validate R (Some q)")
  case None
  then obtain p where "lq_provider q = Some p" and p: "trim_space (pv_id p) \<noteq> []"
    by (auto simp: replay_validate_def split: option.splits if_splits)
  with None not_blank [OF p] show ?thesis
    by (auto simp: replay_Run_def wp_simps intro!: wp_any split: option.split sum.split dest: normalized_or_empty_proposed)
qed (simp add: replay_Run_def wp_return)

lemma proposer_proposes:
  assumes "proposer L pz" and "\<And>E q w. wp (pz E (Some q)) (\<lambda>r v. \<forall>x. fst r = Some x \<longrightarrow> app_proposed (lq_provider q) x) w"
  shows "proposes pz"
  unfolding proposes_def
proof (intro conjI allI)
  fix E q and w :: "fsys world"
  have "wp (pz E (Some q)) (\<lambda>r v. w_events v = w_events w) w"
    by (rule wp_mono [OF proposer.propose_law [OF assms(1)]]) simp
  from wp_conj [OF this assms(2)]
  show "wp (pz E (Some q)) (\<lambda>r v. main_log v = main_log w \<and> (\<forall>x. fst r = Some x \<longrightarrow> app_proposed (lq_provider q) x)) w"
    by (rule wp_mono) simp
qed (rule quiet_steps [OF proposer.propose_quiet [OF assms(1)]])

lemma proposerFor_proposes: "proposerFor L H A req = Inr pz \<Longrightarrow> proposes pz"
  unfolding proposerFor_def Let_def
  by (auto split: if_splits option.splits
      intro: live_proposes proposer_proposes [OF rules.proposer_axioms wp_rules_proposed]
        proposer_proposes [OF replay.proposer_axioms wp_replay_proposed])

section \<open>What a trace of the application holds\<close>

definition passed_ok :: "golib \<Rightarrow> probe \<Rightarrow> bool" where
  "passed_ok L b \<longleftrightarrow> check_Validate L (Some (pb_verify b)) = None \<and> vf_level (pb_verify b) \<noteq> L0 \<and> pb_error b = None \<and>
     pb_evidence b \<noteq> [] \<and> list_all (\<lambda>e. evidence_err e = None) (pb_evidence b) \<and>
     (vf_method (pb_verify b) = method_contract \<or> verified_by L fs_view b)"

definition app_probed :: "golib \<Rightarrow> bool \<Rightarrow> provider option \<Rightarrow> candidate list \<Rightarrow> probe_plan list \<Rightarrow> probe list \<Rightarrow> bool" where
  "app_probed L complete prov cs ps bs \<longleftrightarrow> map pb_candidate_index bs = map int [0..<length bs] \<and> length bs \<le> length cs \<and>
     (complete \<longrightarrow> length bs = length cs) \<and> list_all (\<lambda>b. pb_passed b \<longrightarrow> passed_ok L b) bs"

definition app_promoted :: "bool \<Rightarrow> candidate list \<Rightarrow> probe list \<Rightarrow> promotion list \<Rightarrow> bool" where
  "app_promoted complete cs bs ms \<longleftrightarrow> (\<exists>n\<le>length (filter pb_passed bs).
     map pm_candidate_index ms = map pb_candidate_index (take n (filter pb_passed bs)) \<and>
     (complete \<longrightarrow> n = length (filter pb_passed bs)))"

lemma wp_app_prober:
  "wp (app_prober L H E (Some q)) (\<lambda>r v. \<forall>x. fst r = Some x \<longrightarrow>
     app_probed L (snd r = None) (bq_provider q) (bq_candidates q) (bq_plans q) x) w"
  unfolding app_prober_def
proof (rule wp_mono [OF wp_probe_Run], intro allI impI)
  fix r :: "probe list outcome" and v :: "fsys world" and x
  let ?R = "probe_NewRunner (Some (\<lambda>X. execute_Run (Some (cli_Run L X (ah_machine H))))) (Some fs_view) (ah_work H)
    \<lparr>po_timeout = 0, po_keep = False\<rparr>"
  assume "\<forall>probes. fst r = Some probes \<longrightarrow> probes_ok L (the (bx_view ?R)) q (snd r) probes" and "fst r = Some x"
  then have ok: "probes_ok L fs_view q (snd r) x" by (simp add: probe_NewRunner_def)
  then have "\<forall>i<length x. probe_sound L fs_view (target_at q i) (x ! i)" by (auto simp: probes_ok_def list_all2_conv_all_nth)
  then have "\<forall>b\<in>set x. pb_passed b \<longrightarrow> passed_ok L b" by (auto simp: in_set_conv_nth probe_sound_def passed_ok_def)
  with ok show "app_probed L (snd r = None) (bq_provider q) (bq_candidates q) (bq_plans q) x"
    by (auto simp: app_probed_def probes_ok_def list_all_iff split: option.splits)
qed

lemma wp_app_promoter:
  "wp (app_promoter L C S E (Some q)) (\<lambda>r v. \<forall>x. fst r = Some x \<longrightarrow>
     app_promoted (snd r = None) (pq_candidates q) (pq_probes q) x) w"
  unfolding app_promoter_def by (rule wp_mono [OF wp_promote_Run]) (simp add: promoted_prefix_def app_promoted_def)

lemma app_parts:
  assumes "proposes pz"
  shows "recorded_parts app_proposed (app_probed L) app_promoted E (runtime_runner (newAcquisitionRuntime L H S) pz) L save
    (tracelog_Start L (Some (Some save))) (tracelog_Complete L (Some (Some save)))
    (tracelog_Fail L (Some (Some save))) (tracelog_Cancel L (Some (Some save)))"
proof (intro recorded_parts.intro acquisition_parts.intro writer.trace_sink_axioms)
  fix q and w :: "fsys world"
  have "wp (pz E (Some q)) (\<lambda>r v. main_log v = main_log w \<and> (\<forall>x. fst r = Some x \<longrightarrow> app_proposed (lq_provider q) x)) w"
    using assms unfolding proposes_def by blast
  then show "wp (the (ar_proposer (runtime_runner (newAcquisitionRuntime L H S) pz)) E (Some q))
    (\<lambda>r v. \<forall>x. fst r = Some x \<longrightarrow> app_proposed (lq_provider q) x) w"
    by (simp add: runtime_runner_def) (rule wp_mono, assumption, simp)
qed (simp_all add: runtime_runner_def newAcquisitionRuntime_def wp_app_prober wp_app_promoter,
    auto simp: app_proposed_def app_probed_def app_promoted_def)

text \<open>The three ways to run the application's acquisition.\<close>

interpretation live_app: recorded_parts app_proposed "app_probed L" app_promoted E
    "runtime_runner (newAcquisitionRuntime L H S) (liveProposer L H client)" L save
    "tracelog_Start L (Some (Some save))" "tracelog_Complete L (Some (Some save))"
    "tracelog_Fail L (Some (Some save))" "tracelog_Cancel L (Some (Some save))"
  for L E H S client save
  by (rule app_parts) (rule live_proposes)

definition trace_sound :: "golib \<Rightarrow> bool \<Rightarrow> trace \<Rightarrow> bool" where
  "trace_sound L complete tr \<longleftrightarrow>
     list_all (\<lambda>c. tr_provider_ids tr = [cd_provider_id c]) (tr_candidates tr) \<and>
     distinct (map candidateCapabilityKey (tr_candidates tr)) \<and>
     app_probed L complete None (tr_candidates tr) [] (tr_probes tr) \<and>
     app_promoted complete (tr_candidates tr) (tr_probes tr) (tr_promotions tr)"

lemma acq_trace_sound:
  assumes "proposes pz"
    and "run_state (acq_Run L E (Some (runtime_runner (newAcquisitionRuntime L H S) pz)) (Some req)) w = ((Some tr, err), v)"
  shows "trace_sound L (err = None) tr"
proof -
  let ?save = "SaveTrace L (ak_traces (ah_codecs H)) S"
  note parts = app_parts [OF assms(1), of L E H S ?save]
  have "ar_tracer (runtime_runner (newAcquisitionRuntime L H S) pz) =
      Some (sink_tracer (tracelog_Start L (Some (Some ?save))) (tracelog_Complete L (Some (Some ?save)))
        (tracelog_Fail L (Some (Some ?save))) (tracelog_Cancel L (Some (Some ?save))))"
    by (simp add: runtime_runner_def newAcquisitionRuntime_def writer_tracer_def)
  note h = recorded_parts.acq_trace_holds [OF parts this assms(2)]
  note acq = recorded_parts.axioms(1) [OF parts]
  from h obtain st where st: "trace_of st tr"
    and "acquisition_parts.holds app_proposed (app_probed L) app_promoted (err = None) (err = None) st"
    unfolding acquisition_parts.trace_holds_def [OF acq] by blast
  then show ?thesis
    unfolding acquisition_parts.holds_def [OF acq] acquisition_parts.proposal_of_def [OF acq]
    by (auto simp: trace_sound_def trace_of_def app_proposed_def app_probed_def as_providerIDs_def list_all_iff split: option.splits)
qed

lemma app_steps_only:
  assumes "proposes pz"
  shows "steps_only_parts E (runtime_runner (newAcquisitionRuntime L H S) pz)"
proof -
  have "steps_only (pz E q)" for q
    using assms
    by (cases q) (auto simp: proposes_def steps_only_def wp_def split: prod.splits, metis snd_conv surj_pair)
  then show ?thesis
    by (simp add: steps_only_parts_def runtime_runner_def newAcquisitionRuntime_def quiet_steps quiet_loader quiet_observer
        quiet_prober quiet_promoter)
qed

lemma save_trace_id: "run_state (SaveTrace L C S (Some tr)) s0 = (None, s1) \<Longrightarrow> record_id (tr_id tr)"
  by (auto simp: SaveTrace_def run_ret split: option.splits)

lemma app_wired_valid: "app_validate (Some (app_wired L H home configured S client)) = None"
  by (simp add: app_validate_def app_wired_def Let_def)

lemma promotedCounts_card:
  "promotedCounts ps = (card (set (map pm_capability_id ps) - {[]}), card (set (map pm_binding_id ps) - {[]}))"
proof -
  have "seen (foldl (\<lambda>ks p. see (f p) ks) ks ps) (xs @ map f ps)" if "seen ks xs" for f ks xs
    using that
  proof (induction ps arbitrary: ks xs)
    case (Cons p ps)
    from Cons.IH [OF see_seen [OF Cons.prems, of "f p"]] show ?case by simp
  qed simp
  from seen_card [OF this [of "[]" "[]"]] show ?thesis by (simp add: promotedCounts_def seen_def)
qed

text \<open>
  C1. A response of an acquisition of the wired application, in any mode and for any answers of the
  model, the provider and the operating system, reports a trace that is valid and stored as reported,
  completed exactly when the response has no error. All its candidates are of the one provider it names
  and of different capabilities; probe \<open>i\<close> is of candidate \<open>i\<close>; a probe that passed has an accepted
  spec above L0 and evidence the checker produced from the files unless the method is the contract
  method; the promotions are of the passed probes in order, of all of them when the trace is completed;
  and the reported numbers are those of different capabilities and bindings promoted.
\<close>

theorem acquire_trustworthy:
  assumes "run_state (Acquire L H E (Some (app_wired L H home configured S client)) (Some req)) w = ((Some x, err), v)"
  shows "err = None \<and> (let tr = xr_trace x in
    trace_view (ak_traces (ah_codecs H)) S (w_ext v) (tr_id tr) = reread (ak_traces (ah_codecs H)) tr \<and>
    ValidateTrace L tr = None \<and> tr_status tr \<in> {status_completed, status_failed, status_canceled} \<and>
    (tr_status tr = status_completed \<longleftrightarrow> xr_error x = None) \<and> trace_sound L (tr_status tr = status_completed) tr \<and>
    xr_trace_id x = tr_id tr \<and> xr_provider_ids x = tr_provider_ids tr \<and> xr_error x = tr_error tr \<and>
    xr_capabilities x = card (set (map pm_capability_id (tr_promotions tr)) - {[]}) \<and>
    xr_bindings x = card (set (map pm_binding_id (tr_promotions tr)) - {[]}))"
proof -
  let ?A = "app_wired L H home configured S client"
  let ?CT = "ak_traces (ah_codecs H)"
  obtain pz where pz: "proposerFor L H ?A req = Inr pz"
    using assms by (auto simp: Acquire_def app_wired_valid run_ret split: sum.splits)
  note ok = proposerFor_proposes [OF pz]
  let ?R = "runtime_runner (newAcquisitionRuntime L H S) pz"
  let ?q = "\<lparr>aq_provider_id = xq_provider_id req, aq_hint = xq_hint req, aq_trace_id = [], aq_work_root = ap_work_root ?A\<rparr>"
  have runtime: "the (ap_acquire ?A) = newAcquisitionRuntime L H S" by (simp add: app_wired_def Let_def)
  obtain r where acq: "run_state (acq_Run L E (Some ?R) (Some ?q)) w = (r, v)"
    and x: "(Some x, err) = (case r of (Some tr, _) \<Rightarrow> (Some (acquisitionResponse tr), None) | (None, err) \<Rightarrow> (None, err))"
    using assms by (auto simp: Acquire_def app_wired_valid pz runtime run_bind run_ret split: prod.splits)
  then obtain tr e where r: "r = (Some tr, e)" and res: "x = acquisitionResponse tr" "err = None"
    by (cases r; cases "fst r") auto
  have tracer: "ar_tracer ?R = Some (writer_tracer L (SaveTrace L ?CT S))"
    by (simp add: runtime_runner_def newAcquisitionRuntime_def)
  have valid: "acq_validate (Some ?R) (Some ?q) = None"
    using acq r by (auto simp: acq_Run_def run_ret split: option.splits)
  obtain fin where post: "acq_result (SaveTrace L ?CT S) acq_stages fin (Some tr, e) v"
    using wp_run [OF acq_Run_post [OF valid tracer app_steps_only [OF ok]] acq] r by (auto simp: acq_post_def)
  then obtain s0 where save: "run_state (SaveTrace L ?CT S (Some tr)) s0 = (None, w_ext v)"
    by (auto simp: acq_result_def saved_last_def split: option.splits)
  from wp_run [OF traces.save_law [OF save_trace_id [OF save]] save]
  have stored: "ValidateTrace L tr = None" "trace_view ?CT S (w_ext v) (tr_id tr) = reread ?CT tr" by auto
  have status: "tr_status tr \<in> {status_completed, status_failed, status_canceled}"
    "tr_status tr = status_completed \<longleftrightarrow> e = None" "tr_error tr = None \<longleftrightarrow> e = None"
    using post by (auto simp: acq_result_def stopped_trace_def split: option.splits)
  have "trace_sound L (e = None) tr" by (rule acq_trace_sound [OF ok acq [unfolded r]])
  with stored status res show ?thesis
    by (simp add: acquisitionResponse_def promotedCounts_card Let_def)
qed

section \<open>An example\<close>

text \<open>
  The rules acquire \<^verbatim>\<open>cupsfilter\<close>, registered under \<open>p\<close>: its help text is observed, the
  conversion to PDF is proposed, probed with a program that prints a PDF, and promoted.
\<close>

definition put_file :: "string \<Rightarrow> string \<Rightarrow> (fsys, gerr option) state" where
  "put_file p c = State (\<lambda>s. (None, s\<lparr>fs_files := put p c (fs_files s)\<rparr>))"

definition pdf_machine :: "fsys machine" where
  "pdf_machine = \<lparr>mc_exec = (\<lambda>p args. ret \<lparr>pc_stdout = ''%PDF-1.7'', pc_stderr = [], pc_exit = Some 0, pc_err = None\<rparr>),
     mc_write = put_file\<rparr>"

definition pdf_host :: app_host where
  "pdf_host =
     \<lparr>ah_codecs =
        \<lparr>ak_providers = \<lparr>to_json = (\<lambda>p. Inr (pv_id p)), of_json = (\<lambda>t. Inr \<lparr>pv_id = t, pv_name = ''cupsfilter'', pv_kind = kind_cli,
             pv_path = ''/bin/cupsfilter'', pv_version = []\<rparr>)\<rparr>,
         ak_capabilities = \<lparr>to_json = (\<lambda>c. Inr (cp_id c)), of_json = (\<lambda>t. Inr \<lparr>cp_id = t, cp_description = t, cp_bindings = []\<rparr>)\<rparr>,
         ak_runs = demo_runs, ak_traces = demo_trace_codec\<rparr>,
      ah_entry = demo_entry_host,
      ah_usage = \<lparr>uh_combined = (\<lambda>E p args. ret (''Usage: '' @ cupsfilter_help, None)), uh_man = (\<lambda>E n. ret ([], None)),
        uh_look_path = (\<lambda>n. ret (Inr n)), uh_wd = Inr ''/''\<rparr>,
      ah_machine = pdf_machine,
      ah_work = \<lparr>wk_mkdir_all = (\<lambda>d. ret None), wk_write_file = put_file, wk_remove_all = (\<lambda>d. ret None)\<rparr>,
      ah_plan = demo_host, ah_decoders = demo_decoders, ah_pick = (\<lambda>_. False), ah_replay_decode = (\<lambda>_. Inl (EText [])),
      ah_read_file = (\<lambda>_. ret (Inl (EText []))), ah_prompt = [], ah_select_decode = (\<lambda>_. Inl (EText []))\<rparr>"

definition pdf_world :: "fsys world" where
  "pdf_world = \<lparr>w_tick = 0, w_events = [], w_ext =
     \<lparr>fs_files = [(''/h/providers/p.json'', ''p'')], fs_dirs = [''/h'', ''/h/providers''], fs_clock = 0, fs_fault = (\<lambda>_. None)\<rparr>\<rparr>"

definition pdf_request :: acquire_request where
  "pdf_request = \<lparr>xq_provider_id = ''p'', xq_hint = [], xq_proposal_path = [], xq_mode = ''rules''\<rparr>"

definition pdf_acquired :: "acquire_response outcome \<times> fsys world" where
  "pdf_acquired = run_state (Acquire plain_lib pdf_host demo_env (Some (app_wired plain_lib pdf_host ''/h'' [] demo_store None))
     (Some pdf_request)) pdf_world"

text \<open>
  The run stage by stage: \<open>gives m n s r n' t\<close> says that \<open>m\<close>, run at tick \<open>n\<close> on the files \<open>s\<close>, gives \<open>r\<close>
  and ends at tick \<open>n'\<close> with the files \<open>t\<close>, whatever the events are.
\<close>

definition gives :: "('s world, 'a) state \<Rightarrow> nat \<Rightarrow> 's \<Rightarrow> 'a \<Rightarrow> nat \<Rightarrow> 's \<Rightarrow> bool" where
  "gives m n s r n' t \<longleftrightarrow> (\<forall>w. w_tick w = n \<and> w_ext w = s \<longrightarrow>
     map_prod id (\<lambda>v. (w_tick v, w_ext v)) (run_state m w) = (r, n', t))"

definition files_at :: "nat \<Rightarrow> fsys \<Rightarrow> (string \<times> string) list \<times> string list \<times> nat \<times> string option" where
  "files_at n s = (fs_files s, fs_dirs s, fs_clock s, fs_fault s n)"

lemma files_at_eq: "(\<And>n. files_at n s = files_at n t) \<Longrightarrow> s = (t :: fsys)"
  by (simp add: files_at_def fun_eq_iff)

lemma givesI:
  assumes "\<And>es k. map_prod id (\<lambda>v. (w_tick v, files_at k (w_ext v))) (run_state m \<lparr>w_tick = n, w_events = es, w_ext = s\<rparr>)
    = (r, n', files_at k t)"
  shows "gives m n s r n' t"
  unfolding gives_def
proof (intro allI impI)
  fix w :: "fsys world" assume "w_tick w = n \<and> w_ext w = s"
  then have w: "w = \<lparr>w_tick = n, w_events = w_events w, w_ext = s\<rparr>" by auto
  have "map_prod id (\<lambda>v. (w_tick v, files_at k (w_ext v))) (run_state m w) = (r, n', files_at k t)" for k
    by (subst w) (rule assms)
  then show "map_prod id (\<lambda>v. (w_tick v, w_ext v)) (run_state m w) = (r, n', t)"
    by (cases "run_state m w") (auto intro: files_at_eq)
qed

lemma wp_gives:
  "gives m n s r n' t \<Longrightarrow> w_tick w = n \<Longrightarrow> w_ext w = s \<Longrightarrow> (\<And>v. w_tick v = n' \<Longrightarrow> w_ext v = t \<Longrightarrow> Q r v) \<Longrightarrow> wp m Q w"
  unfolding gives_def wp_def by (cases "run_state m w") auto

lemma wp_stage_gives:
  assumes "gives op n s (Some x, None) n' t" and "w_tick w + 2 = n" and "w_ext w = s"
    and "\<And>v. w_tick v = n' + 1 \<Longrightarrow> w_ext v = t \<Longrightarrow> wp (k (keep x st)) Q v"
  shows "wp (acq_stage L E T req st stage code m r op keep k) Q w"
  unfolding acq_stage_def wp_bind wp_now wp_acq_emit
  by (rule wp_gives [OF assms(1)]) (use assms(2-4) in \<open>simp_all add: wp_simps\<close>)

text \<open>The files at the start, once the provider is loaded, the trace begun, the catalog listed, the probes made, and promoted.\<close>

definition pdf_fs :: "nat \<Rightarrow> (string \<times> string) list \<Rightarrow> string list \<Rightarrow> fsys" where
  "pdf_fs k files dirs = \<lparr>fs_files = (''/h/providers/p.json'', ''p'') # files, fs_dirs = [''/h'', ''/h/providers''] @ dirs,
     fs_clock = k, fs_fault = (\<lambda>_. None)\<rparr>"

definition pdf_files :: "(string \<times> string) list" where
  "pdf_files = [(''/h/traces/trace_0/trace.json'', status_running)]"

definition pdf_work_files :: "(string \<times> string) list" where
  "pdf_work_files = pdf_files @ [(''/h/work/probes/0/input.txt'', ''cal probe input'' @ [CHR 0x0A]),
     (''/h/work/probes/0/output.pdf'', ''%PDF-1.7'')]"

definition pdf_dirs :: "string list" where
  "pdf_dirs = [''/h/traces'', ''/h/traces/trace_0'']"

definition pdf_end_files :: "(string \<times> string) list" where
  "pdf_end_files = pdf_work_files @ [(''/h/capabilities/document.convert.json'', ''document.convert'')]"

definition pdf_end_dirs :: "string list" where
  "pdf_end_dirs = pdf_dirs @ [''/h/capabilities'']"

definition pdf_provider :: provider where
  "pdf_provider = \<lparr>pv_id = ''p'', pv_name = ''cupsfilter'', pv_kind = kind_cli, pv_path = ''/bin/cupsfilter'', pv_version = []\<rparr>"

definition pdf_observation :: observation where
  "pdf_observation = usage_observation ''p'' \<lparr>uo_source = ''help'', uo_text = ''Usage: '' @ cupsfilter_help\<rparr>"

definition pdf_candidate :: candidate where
  "pdf_candidate = \<lparr>cd_provider_id = ''p'', cd_capability_id = ''document.convert'',
     cd_description = ''Export or convert a document or text file into a PDF artifact.'',
     cd_source = ''rules:cli_docs_cupsfilter_pdf'', cd_provenance = None,
     cd_execution = \<lparr>ex_kind = kind_cli, ex_spec =
       [(spec_args, GStrs [''-i'', ''text/plain'', ''-m'', ''application/pdf'', ''{{source}}'']),
        (spec_stdout_path_input, GStr ''target'')]\<rparr>, cd_created_at = []\<rparr>"

definition pdf_proposal :: proposal_result where
  "pdf_proposal = resultFromCandidates [pdf_candidate]"

definition pdf_probe :: probe where
  "pdf_probe = \<lparr>pb_candidate_index = 0, pb_passed = True,
     pb_inputs = [(''source'', GStr ''/h/work/probes/0/input.txt''), (''target'', GStr ''/h/work/probes/0/output.pdf'')],
     pb_verify = verifyForCapability ''document.convert'',
     pb_evidence = [\<lparr>ev_id = ''check_1_target_format'', ev_type = ''format'',
       ev_content = [(''subject'', subject_val \<lparr>vs_type = ''file'', vs_input = ''target''\<rparr>), (''predicate'', GStr ''format'')], ev_ref = []\<rparr>],
     pb_reason = ''verify_checks_passed'', pb_error = None, pb_created_at = ''0''\<rparr>"

definition pdf_promotion :: promotion where
  "pdf_promotion = \<lparr>pm_candidate_index = 0, pm_capability_id = ''document.convert'', pm_binding_id = ''binding_document.con'',
     pm_provider_id = ''p'', pm_capability_action = ''created'', pm_binding_action = ''created'', pm_created_at = ''0''\<rparr>"

definition pdf_trace :: trace where
  "pdf_trace = \<lparr>tr_id = ''trace_0'', tr_started_at = ''0'', tr_ended_at = ''0'', tr_status = status_completed, tr_hint = [],
     tr_provider_ids = [''p''], tr_observations = [pdf_observation], tr_proposal = pr_diagnostics pdf_proposal,
     tr_candidates = [pdf_candidate], tr_probes = [pdf_probe], tr_promotions = [pdf_promotion], tr_error = None\<rparr>"

abbreviation "pdf_codecs \<equiv> ah_codecs pdf_host"
abbreviation "pdf_tracer \<equiv> writer_tracer plain_lib (SaveTrace plain_lib (ak_traces pdf_codecs) demo_store)"

lemma pdf_loads: "gives (app_loader plain_lib (ak_providers pdf_codecs) demo_store demo_env ''p'') 2 (pdf_fs 0 [] [])
    (Some pdf_provider, None) 4 (pdf_fs (Suc 0) [] [])"
  by (rule givesI) code_simp

lemma pdf_started: "gives (tc_start pdf_tracer demo_env (Some \<lparr>wq_trace_id = [], wq_started_at = [], wq_hint = [],
      wq_provider_ids = as_providerIDs (acq_state0\<lparr>as_provider := Some pdf_provider\<rparr>), wq_observations = [], wq_proposal = None, wq_candidates = [], wq_probes = [], wq_promotions = [],
      wq_error = None\<rparr>)) 5 (pdf_fs (Suc 0) [] [])
    (Some (pdf_trace\<lparr>tr_ended_at := [], tr_status := status_running, tr_observations := [], tr_proposal := None, tr_candidates := [],
      tr_probes := [], tr_promotions := []\<rparr>), None) 8 (pdf_fs 7 pdf_files pdf_dirs)"
  by (rule givesI) code_simp

lemma pdf_catalog: "gives (call (ListCapabilities plain_lib (ak_capabilities pdf_codecs) demo_store)) 11
    (pdf_fs 7 pdf_files pdf_dirs) (Inr []) 12 (pdf_fs 8 pdf_files pdf_dirs)"
  by (rule givesI) code_simp

lemma pdf_observed: "gives (app_observer plain_lib (ah_usage pdf_host) demo_env (Some pdf_provider)) 15
    (pdf_fs 8 pdf_files pdf_dirs) (Some [pdf_observation], None) 20 (pdf_fs 8 pdf_files pdf_dirs)"
  by (rule givesI) code_simp

lemma pdf_proposed: "gives (rules_Run plain_lib (Some ()) demo_env (Some \<lparr>lq_provider = Some pdf_provider,
     lq_observations = [pdf_observation], lq_catalog = [], lq_hint = [], lq_trace_id = ''trace_0''\<rparr>)) 23
   (pdf_fs 8 pdf_files pdf_dirs) (Some pdf_proposal, None) 24 (pdf_fs 8 pdf_files pdf_dirs)"
  by (rule givesI) code_simp

lemma pdf_probed: "gives (app_prober plain_lib pdf_host demo_env (Some \<lparr>bq_provider = Some pdf_provider,
     bq_candidates = [pdf_candidate], bq_plans = pr_plans pdf_proposal, bq_trace_id = ''trace_0'', bq_work_root = ''/h/work''\<rparr>)) 27
   (pdf_fs 8 pdf_files pdf_dirs) (Some [pdf_probe], None) 35 (pdf_fs 8 pdf_work_files pdf_dirs)"
  by (rule givesI) code_simp

lemma pdf_promotes: "gives (app_promoter plain_lib (ak_capabilities pdf_codecs) demo_store demo_env
     (Some \<lparr>pq_candidates = [pdf_candidate], pq_probes = [pdf_probe]\<rparr>)) 38
   (pdf_fs 8 pdf_work_files pdf_dirs) (Some [pdf_promotion], None) 41 (pdf_fs 15 pdf_end_files pdf_end_dirs)"
  by (rule givesI) code_simp

lemma pdf_saved: "fst (run_state (SaveTrace plain_lib (ak_traces pdf_codecs) demo_store (Some pdf_trace)) (pdf_fs 15 pdf_end_files pdf_end_dirs)) = None"
  by code_simp

abbreviation "pdf_runner \<equiv> runtime_runner (newAcquisitionRuntime plain_lib pdf_host demo_store) (rules_Run plain_lib (Some ()))"
abbreviation "pdf_acq_request \<equiv> \<lparr>aq_provider_id = ''p'', aq_hint = [], aq_trace_id = [], aq_work_root = ''/h/work''\<rparr>"

lemma pdf_trims: "\<not> blank ''p''" "\<not> blank ''/h/work''" "trim_space ''p'' = ''p''" "trim_space ''/h/work'' = ''/h/work''"
  "trim_space [] = []" "\<not> blank ''trace_0''" "trim_space ''trace_0'' = ''trace_0''" "\<not> blank ''0''" "trim_space ''0'' = ''0''" "itoa 0 = ''0''"
  by code_simp+

lemma pdf_live: "env_ctx demo_env n = None" "env_time demo_env n = 0"
  by (simp_all add: demo_env_def)

lemmas pdf_parts = runtime_runner_def newAcquisitionRuntime_def pdf_trims pdf_live

lemma pdf_completes:
  assumes "w_ext w = (pdf_fs 15 pdf_end_files pdf_end_dirs)"
    and "buildTrace plain_lib (as_traceRequest st pdf_acq_request None) status_completed 0 = pdf_trace"
    and "as_trace_id st = ''trace_0''"
  shows "wp (acq_complete demo_env pdf_tracer pdf_acq_request st) (\<lambda>r v. r = (Some pdf_trace, None)) w"
proof -
  obtain s where save: "run_state (SaveTrace plain_lib (ak_traces pdf_codecs) demo_store (Some pdf_trace)) (pdf_fs 15 pdf_end_files pdf_end_dirs) = (None, s)"
    using pdf_saved by (cases "run_state (SaveTrace plain_lib (ak_traces pdf_codecs) demo_store (Some pdf_trace)) (pdf_fs 15 pdf_end_files pdf_end_dirs)") auto
  have "wq_trace_id (as_traceRequest st pdf_acq_request None) = ''trace_0''" using assms(3) by (simp add: as_traceRequest_def)
  then show ?thesis
    using assms(1,2) by (simp add: acq_complete_def writer_tracer_def tracelog_Complete_def tracelog_write_def tracelog_validate_def
      wp_simps pdf_trims pdf_live) (simp add: wp_def save)
qed

lemma wp_entry_gives:
  assumes "gives (the (ar_loader A) E (trim_space (aq_provider_id req))) 2 s (Some p, None) n t"
    and "gives (tc_start T E (Some \<lparr>wq_trace_id = trim_space (aq_trace_id req), wq_started_at = [], wq_hint = aq_hint req,
      wq_provider_ids = as_providerIDs (acq_state0\<lparr>as_provider := Some p\<rparr>), wq_observations = [], wq_proposal = None, wq_candidates = [], wq_probes = [], wq_promotions = [],
      wq_error = None\<rparr>)) (Suc n) t (Some tr, None) m u"
    and "w_tick w = 0" and "w_ext w = s"
    and "\<And>v. w_tick v = m \<Longrightarrow> w_ext v = u \<Longrightarrow> wp (acq_catalog L E A T req (acq_state0\<lparr>as_provider := Some p,
      as_trace_id := tr_id tr, as_started_at := tr_started_at tr\<rparr>)) Q v"
  shows "wp (acq_entry L E A T req) Q w"
  unfolding acq_entry_def Let_def wp_bind wp_now wp_acq_emit
  by (rule wp_gives [OF assms(1)], simp_all add: assms(3,4) wp_simps)
    (rule wp_gives [OF assms(2)], simp_all add: assms(5))

lemma wp_catalog_gives:
  assumes "gives (call (the (ar_catalog A))) n s (Inr cs) m t" and "w_tick w + 3 = n" and "w_ext w = s"
    and "env_ctx E (w_tick w + 2) = None"
    and "\<And>v. w_tick v = m + 1 \<Longrightarrow> w_ext v = t \<Longrightarrow> wp (acq_observe L E A T req (st\<lparr>as_catalog := cs\<rparr>)) Q v"
  shows "wp (acq_catalog L E A T req st) Q w"
  unfolding acq_catalog_def wp_bind wp_now wp_acq_emit wp_ctx_err
  using assms(4) by (simp add: wp_bind)
    (rule wp_gives [OF assms(1)], use assms(2,3) in \<open>simp_all add: assms(5) wp_simps\<close>)

lemma pdf_stages:
  "the (ar_loader pdf_runner) = app_loader plain_lib (ak_providers pdf_codecs) demo_store"
  "the (ar_catalog pdf_runner) = ListCapabilities plain_lib (ak_capabilities pdf_codecs) demo_store"
  "the (ar_observer pdf_runner) = app_observer plain_lib (ah_usage pdf_host)"
  "the (ar_proposer pdf_runner) = rules_Run plain_lib (Some ())"
  "the (ar_prober pdf_runner) = app_prober plain_lib pdf_host"
  "the (ar_promoter pdf_runner) = app_promoter plain_lib (ak_capabilities pdf_codecs) demo_store"
  "the (ar_tracer pdf_runner) = pdf_tracer"
  by (simp_all add: runtime_runner_def newAcquisitionRuntime_def)

lemma pdf_results: "pr_candidates pdf_proposal = [pdf_candidate]" "tr_id pdf_trace = ''trace_0''" "tr_started_at pdf_trace = ''0''"
  "pv_id pdf_provider = ''p''"
  by (simp_all add: pdf_proposal_def resultFromCandidates_def pdf_trace_def pdf_provider_def)

lemma pdf_run: "wp (acq_Run plain_lib demo_env (Some pdf_runner) (Some pdf_acq_request)) (\<lambda>r v. r = (Some pdf_trace, None)) pdf_world"
proof -
  have start: "w_tick pdf_world = 0" "w_ext pdf_world = pdf_fs 0 [] []" by (simp_all add: pdf_world_def pdf_fs_def)
  have valid: "acq_validate (Some pdf_runner) (Some pdf_acq_request) = None"
    by (simp add: acq_validate_def runtime_runner_def newAcquisitionRuntime_def pdf_trims)
  show ?thesis
    unfolding acq_Run_def valid option.case option.sel pdf_stages
    apply (rule wp_entry_gives, simp only: pdf_stages pdf_trims acq_request.simps, rule pdf_loads)
    apply (simp add: pdf_trims, rule pdf_started, (simp only: start)+)
    apply (rule wp_catalog_gives, simp add: pdf_stages, rule pdf_catalog, (simp add: pdf_live)+)
    unfolding acq_observe_def acq_propose_def acq_probe_def acq_promote_def pdf_stages
    apply (rule wp_stage_gives, simp, rule pdf_observed, simp+)
    apply (rule wp_stage_gives, simp add: pdf_trims pdf_results, rule pdf_proposed, simp+)
    apply (rule wp_stage_gives, simp add: pdf_trims pdf_results, rule pdf_probed, simp+)
    apply (rule wp_stage_gives, simp add: pdf_trims pdf_results, rule pdf_promotes, simp+)
    apply (rule pdf_completes, assumption)
    apply (simp_all add: pdf_results)
    apply (simp add: buildTrace_def as_traceRequest_def pdf_trims as_providerIDs_def acq_state0_def pdf_trace_def pdf_results plain_lib_def)
    done
qed

theorem acquire_trustworthy_witness:
  "\<exists>x. fst pdf_acquired = (Some x, None) \<and> xr_trace x = pdf_trace \<and> trace_sound plain_lib True pdf_trace \<and>
     passed_ok plain_lib pdf_probe \<and> ValidateTrace plain_lib pdf_trace = None \<and> xr_capabilities x = 1 \<and> xr_bindings x = 1"
proof -
  let ?A = "app_wired plain_lib pdf_host ''/h'' [] demo_store None"
  have root: "ap_work_root ?A = ''/h/work''" by code_simp
  have parts: "proposerFor plain_lib pdf_host ?A pdf_request = Inr (rules_Run plain_lib (Some ()))"
    "the (ap_acquire ?A) = newAcquisitionRuntime plain_lib pdf_host demo_store"
    by (simp_all add: proposerFor_def acquisitionMode_def pdf_request_def app_wired_def Let_def)
  have "wp (Acquire plain_lib pdf_host demo_env (Some ?A) (Some pdf_request))
      (\<lambda>r v. r = (Some (acquisitionResponse pdf_trace), None)) pdf_world"
    using pdf_run by (simp add: Acquire_def app_wired_valid parts root pdf_request_def [THEN arg_cong, of xq_provider_id]
      pdf_request_def [THEN arg_cong, of xq_hint] wp_bind) (rule wp_mono, assumption, simp add: wp_simps)
  then have first: "fst pdf_acquired = (Some (acquisitionResponse pdf_trace), None)"
    unfolding wp_def pdf_acquired_def by (simp only: case_prod_beta)
  have run: "run_state (Acquire plain_lib pdf_host demo_env (Some ?A) (Some pdf_request)) pdf_world =
      ((Some (acquisitionResponse pdf_trace), None), snd pdf_acquired)"
    unfolding first [symmetric] prod.collapse by (rule pdf_acquired_def [symmetric])
  have of: "tr_status pdf_trace = status_completed" "tr_probes pdf_trace = [pdf_probe]" "pb_passed pdf_probe"
    "tr_promotions pdf_trace = [pdf_promotion]" "tr_candidates pdf_trace = [pdf_candidate]"
    "pm_capability_id pdf_promotion = ''document.convert''" "pm_binding_id pdf_promotion = ''binding_document.con''"
    by (simp_all add: pdf_trace_def pdf_probe_def pdf_promotion_def)
  show ?thesis
    by (rule exI [of _ "acquisitionResponse pdf_trace"], use acquire_trustworthy [OF run] in
      \<open>simp add: first acquisitionResponse_def of Let_def trace_sound_def app_probed_def insert_Diff_if\<close>)
qed

end
