(* ===== verification/Cal_Config.thy ===== *)
theory Cal_Config
  imports Cal_Store Cal_Select
begin

text \<open>
  \<^verbatim>\<open>internal/config\<close>: the configuration file under the home directory, its defaults and its validator.
  \<^verbatim>\<open>internal/llm\<close> without the third-party package it calls: options and the client. \<^verbatim>\<open>cald/app/llm.go\<close>:
  which client the daemon gets from the configuration and its environment.
\<close>

section \<open>Logging settings\<close>

abbreviation "LoggingLevelDebug \<equiv> ''debug''"
abbreviation "LoggingLevelInfo \<equiv> ''info''"
abbreviation "LoggingLevelWarn \<equiv> ''warn''"
abbreviation "LoggingLevelError \<equiv> ''error''"

abbreviation "DefaultLogMaxBytes \<equiv> 10 * 1024 * 1024 :: int"
abbreviation "DefaultLogMaxFiles \<equiv> 5 :: int"

record logging_file =
  lf_enabled :: "bool option"
  lf_max_bytes :: int
  lf_max_files :: int

record logging_config =
  lg_level :: string
  lg_file :: logging_file

definition NormalizeLoggingLevel :: "golib \<Rightarrow> string \<Rightarrow> string res" where
  "NormalizeLoggingLevel L level =
     (let l = to_lower L (trim_space level) in
      if l = LoggingLevelDebug then Inr LoggingLevelDebug
      else if l = [] \<or> l = LoggingLevelInfo then Inr LoggingLevelInfo
      else if l = LoggingLevelWarn \<or> l = ''warning'' then Inr LoggingLevelWarn
      else if l = LoggingLevelError then Inr LoggingLevelError
      else Inl (EText (''unsupported logging level '' @ quote L level)))"

definition FileEnabled :: "logging_file \<Rightarrow> bool" where
  "FileEnabled f = (case lf_enabled f of None \<Rightarrow> True | Some b \<Rightarrow> b)"

definition logging_validate :: "golib \<Rightarrow> logging_config \<Rightarrow> gerr option" where
  "logging_validate L cfg =
     (case NormalizeLoggingLevel L (lg_level cfg) of
        Inl e \<Rightarrow> Some e
      | Inr _ \<Rightarrow>
          if lf_max_bytes (lg_file cfg) \<le> 0 then Some (EText ''logging file max_bytes must be positive'')
          else if lf_max_files (lg_file cfg) \<le> 0 then Some (EText ''logging file max_files must be positive'')
          else None)"

definition defaultLogging :: logging_config where
  "defaultLogging = \<lparr>lg_level = LoggingLevelInfo,
     lg_file = \<lparr>lf_enabled = Some True, lf_max_bytes = DefaultLogMaxBytes, lf_max_files = DefaultLogMaxFiles\<rparr>\<rparr>"

definition logging_file_defaults :: "logging_file \<Rightarrow> logging_file \<Rightarrow> logging_file" where
  "logging_file_defaults defaults f =
     \<lparr>lf_enabled = (if lf_enabled f = None then lf_enabled defaults else lf_enabled f),
      lf_max_bytes = (if lf_max_bytes f = 0 then lf_max_bytes defaults else lf_max_bytes f),
      lf_max_files = (if lf_max_files f = 0 then lf_max_files defaults else lf_max_files f)\<rparr>"

definition logging_defaults :: "golib \<Rightarrow> logging_config \<Rightarrow> logging_config" where
  "logging_defaults L cfg =
     (let level = (if blank (lg_level cfg) then lg_level defaultLogging else lg_level cfg) in
      \<lparr>lg_level = (case NormalizeLoggingLevel L level of Inl _ \<Rightarrow> level | Inr l \<Rightarrow> l),
       lg_file = logging_file_defaults (lg_file defaultLogging) (lg_file cfg)\<rparr>)"

section \<open>Settings of the language model\<close>

abbreviation "LLMAPIResponses \<equiv> ''responses''"
abbreviation "LLMAPIChatCompletions \<equiv> ''chat_completions''"
abbreviation "apiKeyRefEnvPrefix \<equiv> ''env:''"

record llm_config =
  lk_api :: string
  lk_base_url :: string
  lk_model :: string
  lk_key_ref :: string

definition validLLMAPI :: "string \<Rightarrow> bool" where
  "validLLMAPI api \<longleftrightarrow> api = LLMAPIResponses \<or> api = LLMAPIChatCompletions"

definition llm_config_validate :: "golib \<Rightarrow> llm_config \<Rightarrow> gerr option" where
  "llm_config_validate L c =
     (if lk_api c \<noteq> [] \<and> \<not> validLLMAPI (lk_api c) then Some (EText (''unsupported llm api '' @ quote L (lk_api c)))
      else if lk_key_ref c \<noteq> [] \<and> \<not> has_prefix apiKeyRefEnvPrefix (lk_key_ref c)
      then Some (EText (''unsupported llm api key ref '' @ quote L (lk_key_ref c)))
      else if lk_key_ref c = apiKeyRefEnvPrefix then Some (EText ''llm api key env ref is required'')
      else None)"

definition llm_config_defaults :: "llm_config \<Rightarrow> llm_config" where
  "llm_config_defaults c = \<lparr>lk_api = trim_space (lk_api c), lk_base_url = trim_space (lk_base_url c),
     lk_model = trim_space (lk_model c), lk_key_ref = trim_space (lk_key_ref c)\<rparr>"

section \<open>The configuration file\<close>

record config =
  cf_llm :: "llm_config option"
  cf_logging :: logging_config

definition WithDefaults :: "golib \<Rightarrow> config \<Rightarrow> config" where
  "WithDefaults L cfg = \<lparr>cf_llm = map_option llm_config_defaults (cf_llm cfg), cf_logging = logging_defaults L (cf_logging cfg)\<rparr>"

definition config_default :: "golib \<Rightarrow> config" where
  "config_default L = WithDefaults L \<lparr>cf_llm = None,
     cf_logging = \<lparr>lg_level = [], lg_file = \<lparr>lf_enabled = None, lf_max_bytes = 0, lf_max_files = 0\<rparr>\<rparr>\<rparr>"

definition config_validate :: "golib \<Rightarrow> config option \<Rightarrow> gerr option" where
  "config_validate L c =
     (case c of
        None \<Rightarrow> Some (EText ''config is required'')
      | Some cfg \<Rightarrow>
          (case (case cf_llm cfg of None \<Rightarrow> None | Some l \<Rightarrow> llm_config_validate L l) of
             Some e \<Rightarrow> Some e
           | None \<Rightarrow> logging_validate L (cf_logging cfg)))"

definition config_path :: "string \<Rightarrow> string" where
  "config_path home = path_join [home, ''config.json'']"

definition readConfig :: "config codec \<Rightarrow> string \<Rightarrow> (fsys, config res) state" where
  "readConfig C path = do {
     opened \<leftarrow> fs_read_file path;
     (case opened of
        Inl e \<Rightarrow> ret (Inl (EWrap ''open config: '' e []))
      | Inr text \<Rightarrow> do {
          c \<leftarrow> syscall (\<lambda>s. Inr ((), s));
          ret (case c of
                 Inl e \<Rightarrow> Inl (EWrap ''decode config: '' e [])
               | Inr _ \<Rightarrow> (case of_json C text of Inl m \<Rightarrow> Inl (EWrap ''decode config: '' (EText m) []) | Inr cfg \<Rightarrow> Inr cfg))})}"

definition config_Load :: "golib \<Rightarrow> config codec \<Rightarrow> string \<Rightarrow> (fsys, config res) state" where
  "config_Load L C path = do {
     r \<leftarrow> readConfig C path;
     ret (case r of
            Inl e \<Rightarrow> if err_not_exist e then Inr (config_default L) else Inl e
          | Inr cfg0 \<Rightarrow>
              (let cfg = WithDefaults L cfg0 in
               case config_validate L (Some cfg) of Some e \<Rightarrow> Inl e | None \<Rightarrow> Inr cfg))}"

definition config_Save :: "golib \<Rightarrow> config codec \<Rightarrow> string \<Rightarrow> config option \<Rightarrow> (fsys, gerr option) state" where
  "config_Save L C path cfg0 =
     (case cfg0 of
        None \<Rightarrow> ret (Some (EText ''config is required''))
      | Some c \<Rightarrow>
          (let cfg = WithDefaults L c in
           case config_validate L (Some cfg) of Some e \<Rightarrow> ret (Some e) | None \<Rightarrow> WriteAtomic path (to_json C cfg)))"

definition fs_stat :: "string \<Rightarrow> (fsys, unit res) state" where
  "fs_stat p = syscall (\<lambda>s.
     if map_of (fs_files s) p \<noteq> None \<or> p \<in> set (fs_dirs s) then Inr ((), s) else Inl (not_exist ''stat'' p))"

definition config_Ensure :: "golib \<Rightarrow> config codec \<Rightarrow> string \<Rightarrow> (fsys, config res) state" where
  "config_Ensure L C path = do {
     st \<leftarrow> fs_stat path;
     (case st of
        Inr _ \<Rightarrow> config_Load L C path
      | Inl e \<Rightarrow>
          if \<not> err_not_exist e then ret (Inl (EWrap ''stat config: '' e []))
          else do {
            saved \<leftarrow> config_Save L C path (Some (config_default L));
            ret (case saved of Some e \<Rightarrow> Inl e | None \<Rightarrow> Inr (config_default L))})}"

section \<open>Defaults\<close>

lemma normalize_level_cases:
  "NormalizeLoggingLevel L level = Inr l \<Longrightarrow> l \<in> {LoggingLevelDebug, LoggingLevelInfo, LoggingLevelWarn, LoggingLevelError}"
  by (auto simp: NormalizeLoggingLevel_def Let_def split: if_splits)

lemma normalize_level_fixed:
  assumes "l \<in> {LoggingLevelDebug, LoggingLevelInfo, LoggingLevelWarn, LoggingLevelError}"
  shows "NormalizeLoggingLevel L l = Inr l"
proof -
  have "is_ascii ''debug'' \<and> map lower_char (trim_space ''debug'') = ''debug'' \<and> is_ascii (trim_space ''debug'')"
    "is_ascii ''info'' \<and> map lower_char (trim_space ''info'') = ''info'' \<and> is_ascii (trim_space ''info'')"
    "is_ascii ''warn'' \<and> map lower_char (trim_space ''warn'') = ''warn'' \<and> is_ascii (trim_space ''warn'')"
    "is_ascii ''error'' \<and> map lower_char (trim_space ''error'') = ''error'' \<and> is_ascii (trim_space ''error'')"
    by code_simp+
  then show ?thesis using assms by (auto simp: NormalizeLoggingLevel_def to_lower_def)
qed

definition default_level :: "golib \<Rightarrow> string \<Rightarrow> string" where
  "default_level L l =
     (let level = (if blank l then LoggingLevelInfo else l) in
      case NormalizeLoggingLevel L level of Inl _ \<Rightarrow> level | Inr n \<Rightarrow> n)"

lemma default_level_idem: "default_level L (default_level L l) = default_level L l"
proof -
  define level where "level = (if blank l then LoggingLevelInfo else l)"
  have info: "\<not> blank ''info''" "\<not> blank ''debug''" "\<not> blank ''warn''" "\<not> blank ''error''" by code_simp+
  then have "\<not> blank level" by (simp add: level_def)
  show ?thesis
  proof (cases "NormalizeLoggingLevel L level")
    case (Inl e)
    then have "default_level L l = level" by (simp add: default_level_def level_def Let_def)
    with \<open>\<not> blank level\<close> Inl show ?thesis by (simp add: default_level_def)
  next
    case (Inr n)
    then have n: "default_level L l = n" by (simp add: default_level_def level_def Let_def)
    from normalize_level_cases [OF Inr] normalize_level_fixed [of n L] info
    have "NormalizeLoggingLevel L n = Inr n" "\<not> blank n" by auto
    then show ?thesis unfolding n by (simp add: default_level_def)
  qed
qed

lemma logging_defaults_idem: "logging_defaults L (logging_defaults L cfg) = logging_defaults L cfg"
proof -
  have level: "lg_level defaultLogging = LoggingLevelInfo" by (simp add: defaultLogging_def)
  have "logging_defaults L cfg =
    \<lparr>lg_level = default_level L (lg_level cfg), lg_file = logging_file_defaults (lg_file defaultLogging) (lg_file cfg)\<rparr>" for cfg
    unfolding logging_defaults_def default_level_def Let_def level by simp
  moreover have "logging_file_defaults d (logging_file_defaults d f) = logging_file_defaults d f" for d f
    by (auto simp: logging_file_defaults_def)
  ultimately show ?thesis by (simp add: default_level_idem)
qed

lemma WithDefaults_idem: "WithDefaults L (WithDefaults L cfg) = WithDefaults L cfg"
  by (cases "cf_llm cfg") (simp_all add: WithDefaults_def logging_defaults_idem llm_config_defaults_def trim_space_idem)

lemma default_valid: "config_validate L (Some (config_default L)) = None"
proof -
  have "NormalizeLoggingLevel L LoggingLevelInfo = Inr LoggingLevelInfo" by (rule normalize_level_fixed) simp
  moreover have "blank []" by code_simp
  ultimately show ?thesis
    by (simp add: config_validate_def config_default_def WithDefaults_def logging_defaults_def logging_validate_def
        logging_file_defaults_def defaultLogging_def)
qed

section \<open>Saving and loading\<close>

lemma wp_config_Load:
  "wp (config_Load L C path) (\<lambda>r t. fs_files t = fs_files s \<and> (\<forall>cfg. r = Inr cfg \<longrightarrow>
     config_validate L (Some cfg) = None \<and> WithDefaults L cfg = cfg \<and>
     (map_of (fs_files s) path = None \<and> cfg = config_default L \<or>
      (\<exists>cfg0. file_record C s path = Some cfg0 \<and> cfg = WithDefaults L cfg0)))) s"
proof -
  have d: "WithDefaults L (config_default L) = config_default L" by (simp add: config_default_def WithDefaults_idem)
  have "wp (readConfig C path) (\<lambda>r t. fs_files t = fs_files s \<and>
    (case r of Inl e \<Rightarrow> err_not_exist e \<longrightarrow> map_of (fs_files s) path = None | Inr cfg \<Rightarrow> file_record C s path = Some cfg)) s"
    unfolding readConfig_def wp_bind
    apply (rule wp_read_file)
      apply (simp_all add: wp_return wp_bind wp_syscall Let_def file_record_def err_not_exist_def)
    apply (auto simp: wp_return file_record_def err_not_exist_def split: option.splits sum.splits)
    done
  then show ?thesis
    unfolding config_Load_def wp_bind wp_return
    by (rule wp_mono) (auto simp: Let_def default_valid d WithDefaults_idem split: sum.splits option.splits)
qed

lemma path_not_temp_in:
  assumes "slash \<notin> set n" and "\<not> has_prefix ''.tmp-'' n" and "path = d @ slash # n" and "path_dir path = d"
  shows "path \<noteq> temp_name (path_dir path) m"
proof
  assume "path = temp_name (path_dir path) m"
  then have "n = ''.tmp-'' @ nat_text m @ ''.json''" using assms(3,4) by (simp add: temp_name_def)
  then show False using assms(2) by (simp add: has_prefix_append)
qed


section \<open>Options and the client of the language model\<close>

definition ErrEmptyResponse :: gerr where
  "ErrEmptyResponse = EVar ''llm.ErrEmptyResponse'' ''llm returned empty output''"

definition ErrMissingOptions :: gerr where
  "ErrMissingOptions = EVar ''llm.ErrMissingOptions'' ''llm options are required''"

definition ErrMissingAPI :: gerr where
  "ErrMissingAPI = EVar ''llm.ErrMissingAPI'' ''llm api is not configured''"

definition ErrMissingAPIKey :: gerr where
  "ErrMissingAPIKey = EVar ''llm.ErrMissingAPIKey'' ''llm provider api key is not configured''"

definition ErrMissingModel :: gerr where
  "ErrMissingModel = EVar ''llm.ErrMissingModel'' ''llm model is not configured''"

definition ErrNoClient :: gerr where
  "ErrNoClient = EVar ''llm.ErrNoClient'' ''llm client is not configured''"

definition ErrNilRequest :: gerr where
  "ErrNilRequest = EVar ''llm.ErrNilRequest'' ''llm request is required''"

definition ErrUnsupportedAPI :: gerr where
  "ErrUnsupportedAPI = EVar ''llm.ErrUnsupportedAPI'' ''unsupported llm api''"

record llm_options =
  lo_api :: string
  lo_base_url :: string
  lo_model :: string
  lo_key :: string

definition cleanOptions :: "llm_options option \<Rightarrow> llm_options res" where
  "cleanOptions opts =
     (case opts of
        None \<Rightarrow> Inl ErrMissingOptions
      | Some o0 \<Rightarrow>
          (let c = \<lparr>lo_api = trim_space (lo_api o0), lo_base_url = trim_space (lo_base_url o0),
             lo_model = trim_space (lo_model o0), lo_key = trim_space (lo_key o0)\<rparr> in
           if lo_api c = [] then Inl ErrMissingAPI
           else if lo_key c = [] then Inl ErrMissingAPIKey
           else if lo_model c = [] then Inl ErrMissingModel
           else if validLLMAPI (lo_api c) then Inr c
           else Inl (EWrap [] ErrUnsupportedAPI ('': '' @ lo_api c))))"

text \<open>The package that talks to the provider: the texts of the choices and the token counts, or its error.\<close>

record 's openai_sdk =
  sdk_responses :: "env \<Rightarrow> llm_options \<Rightarrow> string \<Rightarrow> string \<Rightarrow> ('s, (string \<times> llm_usage) res) state"
  sdk_chat :: "env \<Rightarrow> llm_options \<Rightarrow> string \<Rightarrow> string \<Rightarrow> bool \<Rightarrow> ('s, (string list \<times> llm_usage) res) state"

definition openai_response :: "llm_options \<Rightarrow> string \<Rightarrow> llm_usage \<Rightarrow> llm_response outcome" where
  "openai_response c text0 usage =
     (let t = trim_space text0 in
      if t = [] then (None, Some ErrEmptyResponse) else (Some \<lparr>ls_text = t, ls_model = lo_model c, ls_usage = usage\<rparr>, None))"

definition completeResponses :: "'s openai_sdk \<Rightarrow> llm_options \<Rightarrow> env \<Rightarrow> llm_request \<Rightarrow> ('s, llm_response outcome) state" where
  "completeResponses S c E req = do {
     r \<leftarrow> sdk_responses S E c (lm_system req) (lm_user req);
     ret (case r of Inl e \<Rightarrow> (None, Some e) | Inr (t, usage) \<Rightarrow> openai_response c t usage)}"

definition completeChat :: "'s openai_sdk \<Rightarrow> llm_options \<Rightarrow> env \<Rightarrow> llm_request \<Rightarrow> ('s, llm_response outcome) state" where
  "completeChat S c E req = do {
     r \<leftarrow> sdk_chat S E c (lm_system req) (lm_user req) (lm_json req);
     ret (case r of
            Inl e \<Rightarrow> (None, Some e)
          | Inr ([], _) \<Rightarrow> (None, Some ErrEmptyResponse)
          | Inr (t # _, usage) \<Rightarrow> openai_response c t usage)}"

definition llm_Complete ::
    "'s openai_sdk \<Rightarrow> llm_options option \<Rightarrow> env \<Rightarrow> llm_request option \<Rightarrow> ('s, llm_response outcome) state" where
  "llm_Complete S client E req0 =
     (case client of
        None \<Rightarrow> ret (None, Some ErrNoClient)
      | Some c \<Rightarrow>
          (case req0 of
             None \<Rightarrow> ret (None, Some ErrNilRequest)
           | Some req \<Rightarrow>
               if lo_api c = LLMAPIResponses then completeResponses S c E req
               else if lo_api c = LLMAPIChatCompletions then completeChat S c E req
               else ret (None, Some ErrUnsupportedAPI)))"

definition newOpenAIClient :: "'s openai_sdk \<Rightarrow> llm_options \<Rightarrow> ('s, llm_request) llm_client" where
  "newOpenAIClient S c = \<lparr>lc_model = lo_model c, lc_complete = (\<lambda>E req. llm_Complete S (Some c) E (Some req))\<rparr>"

definition llm_New :: "'s openai_sdk \<Rightarrow> llm_options option \<Rightarrow> ('s, llm_request) llm_client res" where
  "llm_New S opts = (case cleanOptions opts of Inl e \<Rightarrow> Inl e | Inr c \<Rightarrow> Inr (newOpenAIClient S c))"

section \<open>Which options the daemon uses\<close>

abbreviation "envLLMAPI \<equiv> ''CAL_LLM_API''"
abbreviation "envLLMBaseURL \<equiv> ''CAL_LLM_BASE_URL''"
abbreviation "envLLMModel \<equiv> ''CAL_LLM_MODEL''"
abbreviation "envLLMAPIKey \<equiv> ''CAL_LLM_API_KEY''"

text \<open>\<^verbatim>\<open>os.Getenv\<close> is a function of the name; a variable that is blank counts as not set.\<close>

definition app_envValue :: "(string \<Rightarrow> string) \<Rightarrow> string \<Rightarrow> string option" where
  "app_envValue getenv name = (let v = trim_space (getenv name) in if v = [] then None else Some v)"

definition resolveAPIKey :: "(string \<Rightarrow> string) \<Rightarrow> string \<Rightarrow> string option" where
  "resolveAPIKey getenv ref0 =
     (let ref = trim_space ref0 in
      if \<not> has_prefix apiKeyRefEnvPrefix ref then None
      else (let name = trim_space (trim_prefix apiKeyRefEnvPrefix ref) in
        if name = [] then None else app_envValue getenv name))"

definition llmOptionsFromConfig :: "(string \<Rightarrow> string) \<Rightarrow> config option \<Rightarrow> llm_options \<times> bool" where
  "llmOptionsFromConfig getenv cfg =
     (case (case cfg of None \<Rightarrow> None | Some c \<Rightarrow> cf_llm c) of
        None \<Rightarrow> (\<lparr>lo_api = [], lo_base_url = [], lo_model = [], lo_key = []\<rparr>, False)
      | Some l \<Rightarrow>
          (let o1 = \<lparr>lo_api = lk_api l, lo_base_url = lk_base_url l, lo_model = lk_model l,
             lo_key = (case resolveAPIKey getenv (lk_key_ref l) of None \<Rightarrow> [] | Some k \<Rightarrow> k)\<rparr> in
           (o1, lo_api o1 \<noteq> [] \<or> lo_base_url o1 \<noteq> [] \<or> lo_model o1 \<noteq> [] \<or> lo_key o1 \<noteq> [])))"

definition applyLLMEnv :: "(string \<Rightarrow> string) \<Rightarrow> llm_options \<Rightarrow> llm_options \<times> bool" where
  "applyLLMEnv getenv o0 =
     (let pick = (\<lambda>name old. case app_envValue getenv name of None \<Rightarrow> old | Some v \<Rightarrow> v) in
      (\<lparr>lo_api = pick envLLMAPI (lo_api o0), lo_base_url = pick envLLMBaseURL (lo_base_url o0),
        lo_model = pick envLLMModel (lo_model o0), lo_key = pick envLLMAPIKey (lo_key o0)\<rparr>,
       list_ex (\<lambda>name. app_envValue getenv name \<noteq> None) [envLLMAPI, envLLMBaseURL, envLLMModel, envLLMAPIKey]))"

definition llmOptions :: "(string \<Rightarrow> string) \<Rightarrow> llm_options option \<Rightarrow> config option \<Rightarrow> llm_options option res" where
  "llmOptions getenv runtime cfg =
     (case runtime of
        Some o0 \<Rightarrow> Inr (Some o0)
      | None \<Rightarrow>
          (case llmOptionsFromConfig getenv cfg of
             (o1, hasConfig) \<Rightarrow>
               (case applyLLMEnv getenv o1 of
                  (o2, hasEnv) \<Rightarrow>
                    if \<not> hasConfig \<and> \<not> hasEnv then Inr None
                    else (case cleanOptions (Some o2) of
                            Inl e \<Rightarrow> if hasEnv then Inl (EWrap ''invalid CAL_LLM_* environment: '' e []) else Inr None
                          | Inr c \<Rightarrow> Inr (Some c)))))"

definition buildLLMClient ::
    "'s openai_sdk \<Rightarrow> (string \<Rightarrow> string) \<Rightarrow> llm_options option \<Rightarrow> config option \<Rightarrow> ('s, llm_request) llm_client option res" where
  "buildLLMClient S getenv runtime cfg =
     (case llmOptions getenv runtime cfg of
        Inl e \<Rightarrow> Inl e
      | Inr None \<Rightarrow> Inr None
      | Inr (Some o0) \<Rightarrow> (case llm_New S (Some o0) of Inl _ \<Rightarrow> Inr None | Inr c \<Rightarrow> Inr (Some c)))"

text \<open>A setting: the variable if it is set, else what the configuration says, trimmed.\<close>

definition setting :: "(string \<Rightarrow> string) \<Rightarrow> string \<Rightarrow> string \<Rightarrow> string" where
  "setting getenv name configured =
     (case app_envValue getenv name of Some v \<Rightarrow> v | None \<Rightarrow> trim_space configured)"

definition env_settings :: "string list" where
  "env_settings = [envLLMAPI, envLLMBaseURL, envLLMModel, envLLMAPIKey]"

lemma setting_pick: "trim_space (case app_envValue getenv name of None \<Rightarrow> old | Some v \<Rightarrow> v) = setting getenv name old"
  by (simp add: setting_def app_envValue_def Let_def trim_space_idem)

lemma cleanOptions_Inr:
  "cleanOptions (Some o0) = Inr c \<Longrightarrow> validLLMAPI (lo_api c) \<and> lo_model c \<noteq> [] \<and> lo_key c \<noteq> [] \<and>
    c = \<lparr>lo_api = trim_space (lo_api o0), lo_base_url = trim_space (lo_base_url o0),
      lo_model = trim_space (lo_model o0), lo_key = trim_space (lo_key o0)\<rparr>"
  by (auto simp: cleanOptions_def Let_def split: if_splits)


text \<open>A completion that succeeds has a text, trimmed, under the name of the configured model.\<close>

lemma completion_has_text:
  "wp (llm_Complete S client E req) (\<lambda>r _. \<forall>x. fst r = Some x \<longrightarrow>
     ls_text x \<noteq> [] \<and> trim_space (ls_text x) = ls_text x \<and> (\<exists>c. client = Some c \<and> ls_model x = lo_model c)) s"
proof -
  have response: "fst (openai_response c t u) = Some x \<Longrightarrow>
      ls_text x \<noteq> [] \<and> trim_space (ls_text x) = ls_text x \<and> ls_model x = lo_model c" for c t u x
    by (auto simp: openai_response_def Let_def trim_space_idem split: if_splits)
  let ?P = "\<lambda>c r. \<forall>x. fst r = Some x \<longrightarrow> ls_text x \<noteq> [] \<and> trim_space (ls_text x) = ls_text x \<and> ls_model x = lo_model c"
  have "wp (completeResponses S c E q) (\<lambda>r _. ?P c r) s" for c q
    unfolding completeResponses_def wp_bind wp_return by (intro wp_any) (auto split: sum.splits dest: response)
  moreover have "wp (completeChat S c E q) (\<lambda>r _. ?P c r) s" for c q
    unfolding completeChat_def wp_bind wp_return by (intro wp_any) (auto split: sum.splits list.splits dest: response)
  ultimately show ?thesis
    by (auto simp: llm_Complete_def wp_return split: option.split)
qed

section \<open>Examples\<close>

definition demo_config :: config where
  "demo_config = \<lparr>cf_llm = None, cf_logging = \<lparr>lg_level = '' WARNING '', lg_file = \<lparr>lf_enabled = None, lf_max_bytes = 1, lf_max_files = 0\<rparr>\<rparr>\<rparr>"

definition one_config_codec :: "config codec" where
  "one_config_codec = \<lparr>to_json = (\<lambda>_. Inr ''{}''), of_json = (\<lambda>_. Inr (WithDefaults plain_lib demo_config))\<rparr>"


end
