(* ===== verification/Cal_Prompt.thy ===== *)
theory Cal_Prompt
  imports Cal_App Cal_Config
begin

text \<open>
  The prompts of the four proposal stages (\<^verbatim>\<open>internal/proposal/*/prompt.go\<close>) and the one client behind them: the client
  built from the configuration answers the requests of the stages through their prompts. The system texts
  are constants of the source and the payloads are encoded by \<^verbatim>\<open>encoding/json\<close>; both are fields of
  \<open>prompt_texts\<close>.
\<close>

section \<open>Payloads\<close>

record surface_payload =
  sl_provider :: "provider option"
  sl_observations :: "observation list"
  sl_acquisition_hint :: string
  sl_max_surface_items :: int

record capability_payload =
  cl_provider :: "provider option"
  cl_surface_items :: "capability_surface list"
  cl_existing_capabilities :: "capability list"
  cl_capability_policy :: capability_policy
  cl_acquisition_hint :: string
  cl_max_capabilities :: int

record binding_payload =
  bl_provider :: "provider option"
  bl_observations :: "observation list"
  bl_selected_surface_items :: "binding_surface list"
  bl_capability_plan :: binding_plan
  bl_acquisition_hint :: string
  bl_max_candidates :: int

record evidence_payload =
  el_provider :: "provider option"
  el_candidate_index :: int
  el_candidate :: "candidate option"
  el_probe_material :: evidence_material
  el_observations :: "observation list"
  el_subject_rules :: "subject_rule list"
  el_predicate_rules :: "predicate_rule list"
  el_available_file_inputs :: "string list"

record prompt_texts =
  pt_surface_system :: string
  pt_surface :: "surface_payload \<Rightarrow> string res"
  pt_capability_system :: string
  pt_capability :: "capability_payload \<Rightarrow> string res"
  pt_binding_system :: string
  pt_binding :: "binding_payload \<Rightarrow> string res"
  pt_evidence_system :: string
  pt_evidence :: "evidence_payload \<Rightarrow> string res"

section \<open>Prompts\<close>

text \<open>The error of the encoder is dropped, and what it returns with one is empty.\<close>

definition prompt_of :: "string \<Rightarrow> string res \<Rightarrow> llm_request" where
  "prompt_of system payload =
     \<lparr>lm_system = system, lm_user = (case payload of Inl _ \<Rightarrow> [] | Inr t \<Rightarrow> t), lm_json = True\<rparr>"

definition surface_prompt :: "prompt_texts \<Rightarrow> surface_request \<Rightarrow> llm_request" where
  "surface_prompt T req = prompt_of (pt_surface_system T) (pt_surface T
     \<lparr>sl_provider = sq_provider req, sl_observations = sq_observations req,
       sl_acquisition_hint = trim_space (sq_hint req), sl_max_surface_items = sq_max_items req\<rparr>)"

definition capability_prompt :: "prompt_texts \<Rightarrow> capability_request \<Rightarrow> llm_request" where
  "capability_prompt T req = prompt_of (pt_capability_system T) (pt_capability T
     \<lparr>cl_provider = cq_provider req, cl_surface_items = cq_surfaces req, cl_existing_capabilities = cq_catalog req,
       cl_capability_policy = cq_policy req, cl_acquisition_hint = trim_space (cq_hint req),
       cl_max_capabilities = cq_max_plans req\<rparr>)"

definition binding_prompt :: "prompt_texts \<Rightarrow> binding_request \<Rightarrow> llm_request" where
  "binding_prompt T req = prompt_of (pt_binding_system T) (pt_binding T
     \<lparr>bl_provider = gq_provider req, bl_observations = gq_observations req, bl_selected_surface_items = gq_surfaces req,
       bl_capability_plan = gq_capability req, bl_acquisition_hint = trim_space (gq_hint req),
       bl_max_candidates = gq_max_candidates req\<rparr>)"

definition availableFileInputs :: "evidence_material \<Rightarrow> string list" where
  "availableFileInputs m =
     sort (remdups (filter (\<lambda>i. i \<noteq> []) (keys (em_inputs m)) @ filter (\<lambda>i. i \<noteq> []) (map fx_input (em_fixtures m))))"

abbreviation told_rule :: "string \<Rightarrow> bool \<Rightarrow> string list \<Rightarrow> subject_rule" where
  "told_rule type requires allowed \<equiv>
     \<lparr>vr_type = type, vr_requires_input = requires, vr_allowed = allowed, vr_required = [], vr_params = []\<rparr>"

definition verifySubjectRules :: "subject_rule list" where
  "verifySubjectRules =
     [told_rule ''file'' True
        [''exists'', ''non_empty'', ''format'', ''contains'', ''contains_any'', ''regex'', ''bytes_equal_transform'',
         ''hash_line_matches'', ''archive_contains_input'', ''json_query_matches'', ''json_equivalent'',
         ''json_field_equals'', ''json_field_matches_source'', ''text_transform_matches'', ''line_count_matches'',
         ''text_filter_matches'', ''delimited_column_matches''],
      told_rule ''stdout'' False
        [''equals'', ''not_equals'', ''non_empty'', ''contains'', ''contains_any'', ''regex'', ''hash_line_matches'',
         ''json_query_matches'', ''json_equivalent'', ''json_field_equals'', ''json_field_matches_source'',
         ''line_count_matches'', ''text_filter_matches'', ''delimited_column_matches''],
      told_rule ''stderr'' False
        [''equals'', ''not_equals'', ''non_empty'', ''contains'', ''contains_any'', ''regex'', ''hash_line_matches'',
         ''json_query_matches'', ''json_equivalent'', ''json_field_equals'', ''json_field_matches_source'',
         ''line_count_matches'', ''text_filter_matches'', ''delimited_column_matches''],
      told_rule ''exit_code'' False [''equals'', ''not_equals'']]"

definition evidence_payload_of :: "evidence_request \<Rightarrow> evidence_payload" where
  "evidence_payload_of req =
     \<lparr>el_provider = eq_provider req, el_candidate_index = eq_candidate_index req, el_candidate = eq_candidate req,
       el_probe_material = eq_material req, el_observations = eq_observations req, el_subject_rules = verifySubjectRules,
       el_predicate_rules = verifyPredicateRules, el_available_file_inputs = availableFileInputs (eq_material req)\<rparr>"

definition evidence_prompt :: "prompt_texts \<Rightarrow> evidence_request \<Rightarrow> llm_request" where
  "evidence_prompt T req = prompt_of (pt_evidence_system T) (pt_evidence T (evidence_payload_of req))"

section \<open>The client of the daemon\<close>

text \<open>A stage runner calls the client with its prompt.\<close>

definition stage_client :: "('q \<Rightarrow> llm_request) \<Rightarrow> ('s, llm_request) llm_client \<Rightarrow> ('s, 'q) llm_client" where
  "stage_client render C = \<lparr>lc_model = lc_model C, lc_complete = (\<lambda>E req. lc_complete C E (render req))\<rparr>"

definition app_llm_of :: "prompt_texts \<Rightarrow> (fsys, llm_request) llm_client \<Rightarrow> app_llm" where
  "app_llm_of T C = \<lparr>al_stages = \<lparr>lv_surface = Some (stage_client (surface_prompt T) C),
       lv_capability = Some (stage_client (capability_prompt T) C), lv_binding = Some (stage_client (binding_prompt T) C),
       lv_evidence = Some (stage_client (evidence_prompt T) C)\<rparr>,
     al_select = C\<rparr>"

text \<open>The configuration is loaded from the home directory, and the client built from it.\<close>

definition configured_client ::
    "golib \<Rightarrow> config codec \<Rightarrow> fsys openai_sdk \<Rightarrow> (string \<Rightarrow> string) \<Rightarrow> prompt_texts \<Rightarrow> string
      \<Rightarrow> (fsys, app_llm option res) state" where
  "configured_client L C S getenv T home = do {
     cfg \<leftarrow> config_Load L C (config_path home);
     ret (case cfg of
            Inl e \<Rightarrow> Inl e
          | Inr c \<Rightarrow> (case buildLLMClient S getenv None (Some c) of
                        Inl e \<Rightarrow> Inl e
                      | Inr client \<Rightarrow> Inr (map_option (app_llm_of T) client)))}"

text \<open>The application as the daemon makes it.\<close>

definition app_New_configured ::
    "golib \<Rightarrow> app_host \<Rightarrow> config codec \<Rightarrow> fsys openai_sdk \<Rightarrow> (string \<Rightarrow> string) \<Rightarrow> prompt_texts \<Rightarrow> string \<Rightarrow> string
      \<Rightarrow> (fsys, app res) state" where
  "app_New_configured L H C S getenv T home configured = app_New L H home configured (configured_client L C S getenv T)"

section \<open>What the model is told about checks\<close>

lemma told_rules_are_the_checkers:
  "map (\<lambda>r. (vr_type r, vr_requires_input r, vr_allowed r)) verifySubjectRules =
   map (\<lambda>r. (vr_type r, vr_requires_input r, vr_allowed r)) (Rules NewChecker)"
  by code_simp

lemma available_inputs_known: "set (availableFileInputs m) = set (inputSet m) - {[]}"
  by (auto simp: availableFileInputs_def inputSet_def)

text \<open>A check as the payload of the prompt describes them.\<close>

definition told :: "golib \<Rightarrow> evidence_payload \<Rightarrow> verify_check \<Rightarrow> bool" where
  "told L p chk \<longleftrightarrow>
     list_ex (\<lambda>r. vr_type r = vs_type (vc_subject chk) \<and> List.member (vr_allowed r) (vc_predicate chk) \<and>
       (if vr_requires_input r then List.member (el_available_file_inputs p) (vs_input (vc_subject chk))
        else vs_input (vc_subject chk) = [])) (el_subject_rules p) \<and>
     list_ex (\<lambda>r. rl_predicate r = vc_predicate chk \<and>
       list_all (required_present (vc_params chk)) (rl_required r) \<and>
       list_all (\<lambda>(name, v). List.member (rl_allowed r) name \<and>
         (lookup_or (rl_values r) name [] = [] \<or> valueAllowed L v (lookup_or (rl_values r) name []))) (vc_params chk))
       (el_predicate_rules p)"

lemma told_rule_facts:
  "list_all (\<lambda>r. vr_type r \<noteq> [] \<and> (vr_requires_input r \<longleftrightarrow> vr_type r = ''file'') \<and>
     subjectRequiresInput (vr_type r) = Some (vr_requires_input r) \<and>
     list_all (\<lambda>n. n \<noteq> [] \<and> (case map_of NewChecker n of None \<Rightarrow> False | Some p \<Rightarrow> allowsSubject p (vr_type r))) (vr_allowed r))
   verifySubjectRules"
  by code_simp

lemma predicate_rule_facts:
  "list_all (\<lambda>r. map_of evidence_rules (rl_predicate r) = Some r \<and> \<not> List.member (rl_allowed r) []) verifyPredicateRules"
  by code_simp

lemma params_loop_all:
  "list_all (\<lambda>(name, v). name \<noteq> [] \<and> name \<in> set (rl_allowed rule) \<and>
     (lookup_or (rl_values rule) name [] = [] \<or> valueAllowed L v (lookup_or (rl_values rule) name []))) params \<Longrightarrow>
   params_loop L rule params = []"
  by (induction params) auto

lemma told_params:
  assumes "told L (evidence_payload_of req) chk"
  shows "validatePredicateParams L chk evidence_rules = []"
proof -
  obtain r where r: "r \<in> set verifyPredicateRules" "rl_predicate r = vc_predicate chk"
      "list_all (required_present (vc_params chk)) (rl_required r)"
      "list_all (\<lambda>(name, v). List.member (rl_allowed r) name \<and>
         (lookup_or (rl_values r) name [] = [] \<or> valueAllowed L v (lookup_or (rl_values r) name []))) (vc_params chk)"
    using assms by (auto simp: told_def evidence_payload_of_def list_ex_iff)
  have facts: "map_of evidence_rules (vc_predicate chk) = Some r" "[] \<notin> set (rl_allowed r)"
    using predicate_rule_facts r(1,2) by (auto simp: list_all_iff)
  have "params_loop L r (vc_params chk) = []"
    using r(4) facts(2) by (intro params_loop_all) (auto simp: list_all_iff)
  then show ?thesis using r(3) by (simp add: validatePredicateParams_def facts(1))
qed



end
