(* ===== verification/Cal_Stream.thy ===== *)
theory Cal_Stream
  imports Cal_Text Cal_World Cal_CheckText "HOL-Library.Sublist"
begin

text \<open>
  Server-sent events between the daemon and its command line: \<^verbatim>\<open>internal/httpserver/sse.go\<close> writes the
  progress events of one operation and its end, \<^verbatim>\<open>internal/cli/client/stream.go\<close> reads them. The
  goroutine that runs the operation and the handler that writes are two processes with a channel
  between them, an \<open>inductive\<close> step relation here.
\<close>

section \<open>Writing\<close>

abbreviation "sseEventProgress \<equiv> ''progress''"
abbreviation "sseEventResult \<equiv> ''result''"
abbreviation "sseEventError \<equiv> ''error''"

definition progressBufferSize :: nat where
  "progressBufferSize = 64"

text \<open>A message; its data is the JSON text or the error of \<^verbatim>\<open>json.Marshal\<close>.\<close>

record stream_message =
  ms_event :: string
  ms_data :: "string res"
  ms_done :: bool

definition event_line :: "string \<Rightarrow> string" where
  "event_line event = ''event: '' @ event @ nl"

definition data_line :: "string \<Rightarrow> string" where
  "data_line payload = ''data: '' @ payload @ nl @ nl"

text \<open>\<^verbatim>\<open>fmt.Fprintf\<close> to the response, an operation that may fail.\<close>

definition writeSSE :: "(string \<Rightarrow> ('w, gerr option) state) \<Rightarrow> string \<Rightarrow> string res \<Rightarrow> ('w, gerr option) state" where
  "writeSSE write event data =
     (case data of
        Inl e \<Rightarrow> ret (Some e)
      | Inr payload \<Rightarrow> do {
          e \<leftarrow> write (event_line event);
          (case e of Some err \<Rightarrow> ret (Some err) | None \<Rightarrow> write (data_line payload))})"

section \<open>The goroutine, the channel and the handler\<close>

text \<open>
  \<open>ss_todo\<close> is what the goroutine still sends, \<open>ss_written\<close> what the handler wrote. \<open>ss_canceled\<close> is the
  derived context, \<open>ss_gone\<close> the request's. A \<^verbatim>\<open>select\<close> with two ready cases takes either.
\<close>

record stream_state =
  ss_todo :: "stream_message list"
  ss_queue :: "stream_message list"
  ss_written :: "stream_message list"
  ss_canceled :: bool
  ss_gone :: bool
  ss_failed :: bool
  ss_over :: bool

definition stream_init :: "stream_message list \<Rightarrow> stream_state" where
  "stream_init msgs = \<lparr>ss_todo = msgs, ss_queue = [], ss_written = [], ss_canceled = False, ss_gone = False,
     ss_failed = False, ss_over = False\<rparr>"

inductive stream_step :: "stream_state \<Rightarrow> stream_state \<Rightarrow> bool" where
  send: "ss_todo s = m # ms \<Longrightarrow> length (ss_queue s) < progressBufferSize \<Longrightarrow>
    stream_step s (s\<lparr>ss_todo := ms, ss_queue := ss_queue s @ [m]\<rparr>)"
| drop: "ss_todo s = m # ms \<Longrightarrow> ss_canceled s \<Longrightarrow> stream_step s (s\<lparr>ss_todo := ms\<rparr>)"
| deliver: "\<not> ss_over s \<Longrightarrow> ss_queue s = m # q \<Longrightarrow> \<not> isl (ms_data m) \<Longrightarrow>
    stream_step s (s\<lparr>ss_queue := q, ss_written := ss_written s @ [m], ss_over := ms_done m,
      ss_canceled := ss_canceled s \<or> ms_done m\<rparr>)"
| broken: "\<not> ss_over s \<Longrightarrow> ss_queue s = m # q \<Longrightarrow>
    stream_step s (s\<lparr>ss_queue := q, ss_failed := True, ss_canceled := True, ss_over := True\<rparr>)"
| disconnect: "\<not> ss_gone s \<Longrightarrow> stream_step s (s\<lparr>ss_gone := True, ss_canceled := True\<rparr>)"
| leave: "\<not> ss_over s \<Longrightarrow> ss_gone s \<Longrightarrow> stream_step s (s\<lparr>ss_over := True, ss_canceled := True\<rparr>)"

inductive_cases stream_stepE: "stream_step s t"

abbreviation stream_run :: "stream_state \<Rightarrow> stream_state \<Rightarrow> bool" where
  "stream_run \<equiv> stream_step\<^sup>*\<^sup>*"

definition stream_inv :: "stream_message list \<Rightarrow> stream_state \<Rightarrow> bool" where
  "stream_inv msgs s \<longleftrightarrow> length (ss_queue s) \<le> progressBufferSize \<and>
     subseq (ss_written s @ ss_queue s @ ss_todo s) msgs \<and>
     (ss_failed s \<longrightarrow> ss_over s) \<and> (\<not> ss_over s \<longrightarrow> list_all (\<lambda>m. \<not> ms_done m) (ss_written s)) \<and>
     (ss_canceled s \<longrightarrow> ss_gone s \<or> ss_over s) \<and>
     (\<not> ss_gone s \<and> \<not> ss_failed s \<longrightarrow>
        (if ss_over s then ss_written s \<noteq> [] \<and> ms_done (last (ss_written s)) \<and> prefix (ss_written s) msgs
         else ss_written s @ ss_queue s @ ss_todo s = msgs))"

lemma stream_inv_init: "stream_inv msgs (stream_init msgs)"
  by (simp add: stream_inv_def stream_init_def)

lemma subseq_drop_mid: "subseq (xs @ m # ys) zs \<Longrightarrow> subseq (xs @ ys) zs"
  by (meson subseq_order.trans list_emb_append_mono subseq_order.order_refl list_emb_Cons)

lemma stream_inv_step:
  assumes "stream_step s t" and "stream_inv msgs s"
  shows "stream_inv msgs t"
proof (cases rule: stream_stepE [OF assms(1)])
  case (1 m ms)
  with assms(2) show ?thesis by (auto simp: stream_inv_def)
next
  case (2 m ms)
  then have "subseq ((ss_written s @ ss_queue s) @ m # ms) msgs" using assms(2) by (simp add: stream_inv_def)
  from subseq_drop_mid [OF this] have "subseq (ss_written s @ ss_queue s @ ms) msgs" by simp
  with 2 assms(2) show ?thesis by (cases "ss_over s"; simp add: stream_inv_def)
next
  case (3 m q)
  with assms(2) show ?thesis by (auto simp: stream_inv_def prefix_def)
next
  case (4 m q)
  then have "subseq (ss_written s @ m # q @ ss_todo s) msgs" using assms(2) by (simp add: stream_inv_def)
  from subseq_drop_mid [OF this] have "subseq (ss_written s @ q @ ss_todo s) msgs" .
  with 4 assms(2) show ?thesis by (simp add: stream_inv_def)
next
  case 5
  with assms(2) show ?thesis by (simp add: stream_inv_def)
next
  case 6
  with assms(2) show ?thesis by (simp add: stream_inv_def)
qed

lemma stream_inv_run: "stream_run s t \<Longrightarrow> stream_inv msgs s \<Longrightarrow> stream_inv msgs t"
  by (induction rule: rtranclp_induct) (auto intro: stream_inv_step)

text \<open>Each step uses up something.\<close>

definition stream_work :: "stream_state \<Rightarrow> nat" where
  "stream_work s = 2 * length (ss_todo s) + length (ss_queue s) + (if ss_over s then 0 else 1) + (if ss_gone s then 0 else 1)"

lemma stream_step_work: "stream_step s t \<Longrightarrow> stream_work t < stream_work s"
  by (induction rule: stream_step.induct) (auto simp: stream_work_def)

lemma stream_steps_bounded: "(stream_step ^^ n) s t \<Longrightarrow> n + stream_work t \<le> stream_work s"
proof (induction n arbitrary: t)
  case (Suc n)
  then obtain u where "(stream_step ^^ n) s u" and "stream_step u t" by auto
  with Suc.IH [of u] stream_step_work [of u t] show ?case by simp
qed simp

text \<open>The messages of one operation: progress events and one end.\<close>

definition one_end :: "stream_message list \<Rightarrow> bool" where
  "one_end msgs \<longleftrightarrow> (\<exists>ps m. msgs = ps @ [m] \<and> ms_done m \<and> list_all (\<lambda>p. \<not> ms_done p) ps)"

lemma one_end_prefix:
  assumes "one_end msgs" and "prefix w msgs" and "w \<noteq> []" and "ms_done (last w)"
  shows "w = msgs"
proof -
  obtain ps m where msgs: "msgs = ps @ [m]" and ps: "list_all (\<lambda>p. \<not> ms_done p) ps"
    using assms(1) by (auto simp: one_end_def)
  have "\<not> prefix w ps"
  proof
    assume "prefix w ps"
    then have "last w \<in> set ps" using assms(3) by (metis last_in_set set_mono_prefix subsetD)
    with ps assms(4) show False by (simp add: list_all_iff)
  qed
  with assms(2) msgs show ?thesis by simp
qed

text \<open>
  C16. Whatever the goroutine and the handler interleave, the channel never holds more than 64 messages
  and what is written is a subsequence of the messages, in order; when the handler is over, the client is
  still there and no write failed, exactly all messages are written, the end last; and no run takes more
  than two steps for each message and two more, at whose end the handler is over or the client gone.
\<close>

theorem stream_delivers:
  assumes "one_end msgs" and "list_all (\<lambda>m. \<not> isl (ms_data m)) msgs" and "(stream_step ^^ n) (stream_init msgs) s"
  shows "length (ss_queue s) \<le> 64 \<and> subseq (ss_written s) msgs \<and>
    (ss_over s \<and> \<not> ss_gone s \<and> \<not> ss_failed s \<longrightarrow> ss_written s = msgs) \<and> n \<le> 2 * length msgs + 2 \<and>
    ((\<nexists>t. stream_step s t) \<longrightarrow> ss_over s) \<and> (\<not> ss_over s \<longrightarrow> (\<exists>t. stream_step s t \<and> ss_gone t = ss_gone s \<and> ss_failed t = ss_failed s))"
proof -
  have "stream_run (stream_init msgs) s" using assms(3) by (rule relpowp_imp_rtranclp)
  then have inv: "stream_inv msgs s" by (rule stream_inv_run [OF _ stream_inv_init])
  have over: "ss_written s = msgs" if "ss_over s" "\<not> ss_gone s" "\<not> ss_failed s"
    using inv that by (intro one_end_prefix [OF assms(1)]) (auto simp: stream_inv_def)
  have bound: "n \<le> 2 * length msgs + 2"
    using stream_steps_bounded [OF assms(3)] by (simp add: stream_work_def stream_init_def)
  have live: "\<exists>t. stream_step s t \<and> ss_gone t = ss_gone s \<and> ss_failed t = ss_failed s" if n: "\<not> ss_over s"
  proof (cases "ss_gone s")
    case True
    show ?thesis by (rule exI conjI leave [OF n True] | simp)+
  next
    case False
    with inv n have all: "ss_written s @ ss_queue s @ ss_todo s = msgs" and "list_all (\<lambda>m. \<not> ms_done m) (ss_written s)"
      by (auto simp: stream_inv_def)
    with assms(1) have rest: "ss_queue s @ ss_todo s \<noteq> []" by (auto simp: one_end_def)
    show ?thesis
    proof (cases "ss_queue s")
      case Nil
      with rest obtain m ms where "ss_todo s = m # ms" by (cases "ss_todo s") auto
      with Nil show ?thesis by (intro exI conjI) (rule send, auto simp: progressBufferSize_def)
    next
      case (Cons m q)
      then have "\<not> isl (ms_data m)" using all assms(2) by auto
      show ?thesis by (intro exI conjI, rule deliver [OF n Cons \<open>\<not> isl (ms_data m)\<close>], simp_all)
    qed
  qed
  have "subseq (ss_written s) (ss_written s @ ss_queue s @ ss_todo s)" by (rule prefix_imp_subseq) simp
  then have "subseq (ss_written s) msgs" using inv subseq_order.trans unfolding stream_inv_def by blast
  with inv over bound live show ?thesis
    by (auto simp: stream_inv_def progressBufferSize_def)
qed

section \<open>Reading\<close>

text \<open>
  An error of the client: the structured one of \<^verbatim>\<open>client/error.go\<close> (status, code, message) or another.
\<close>

datatype client_error = ClientError int string string | PlainError gerr

fun client_error_text :: "client_error \<Rightarrow> string" where
  "client_error_text (ClientError status code message) =
     (if message \<noteq> [] then message else if code \<noteq> [] then code else ''client error'')"
| "client_error_text (PlainError e) = err_text e"

definition client_newError :: "int \<Rightarrow> string \<Rightarrow> string \<Rightarrow> client_error" where
  "client_newError status code message = ClientError status code (if message = [] then code else message)"

text \<open>
  \<^verbatim>\<open>bufio.Scanner\<close> with \<^verbatim>\<open>ScanLines\<close>: the lines without their line ends, up to the first that does not fit the
  buffer of 64 KiB with its newline; the flag tells whether there is one. The pieces are those of a split at newlines.
\<close>

definition maxScanTokenSize :: nat where
  "maxScanTokenSize = 64 * 1024"

definition drop_cr :: "string \<Rightarrow> string" where
  "drop_cr s = (if s \<noteq> [] \<and> last s = CHR 0x0D then butlast s else s)"

fun scan_lines :: "string list \<Rightarrow> string list \<times> bool" where
  "scan_lines [] = ([], False)"
| "scan_lines (p # ps) =
     (if maxScanTokenSize \<le> length p then ([], True)
      else if ps = [] \<and> p = [] then ([], False)
      else (drop_cr p # fst (scan_lines ps), snd (scan_lines ps)))"

definition scan :: "string \<Rightarrow> string list \<times> bool" where
  "scan txt = scan_lines (split_char (CHR 0x0A) txt)"

text \<open>\<^verbatim>\<open>json.Unmarshal\<close> of the result and of an error response (code and message).\<close>

record 'r stream_decoder =
  sj_result :: "string \<Rightarrow> 'r res"
  sj_error :: "string \<Rightarrow> (string \<times> string) res"

type_synonym 'h stream_handler = "string \<Rightarrow> string \<Rightarrow> ('h, gerr option) state"

datatype 'r stream_answer = SMore | SDone 'r | SFailed client_error

definition handleStreamEvent ::
    "golib \<Rightarrow> 'r stream_decoder \<Rightarrow> 'h stream_handler option \<Rightarrow> string \<Rightarrow> string \<Rightarrow> ('h, 'r stream_answer) state" where
  "handleStreamEvent L D onEvent name data =
     (if name = [] then ret SMore
      else do {
        err \<leftarrow> (case onEvent of None \<Rightarrow> ret None | Some f \<Rightarrow> f name data);
        ret (case err of
               Some e \<Rightarrow> SFailed (PlainError e)
             | None \<Rightarrow>
                 if name = sseEventProgress then SMore
                 else if name = sseEventResult
                 then (case sj_result D data of
                         Inl e \<Rightarrow> SFailed (PlainError (EWrap ''decode stream result: '' e []))
                       | Inr r \<Rightarrow> SDone r)
                 else if name = sseEventError
                 then (case sj_error D data of
                         Inl e \<Rightarrow> SFailed (PlainError (EWrap ''decode stream error: '' e []))
                       | Inr (code, message) \<Rightarrow> SFailed (client_newError 0 code message))
                 else SFailed (PlainError (EText (''unsupported stream event '' @ quote L name))))})"

text \<open>The loop of \<^verbatim>\<open>readStream\<close>; \<open>fin\<close> is the error when the lines are used up.\<close>

fun stream_loop ::
    "golib \<Rightarrow> 'r stream_decoder \<Rightarrow> 'h stream_handler option \<Rightarrow> client_error \<Rightarrow> string \<Rightarrow> string \<Rightarrow> string list
      \<Rightarrow> ('h, client_error + 'r) state" where
  "stream_loop L D onEvent fin name data [] = ret (Inl fin)"
| "stream_loop L D onEvent fin name data (line # ls) =
     (if line = [] then do {
        a \<leftarrow> handleStreamEvent L D onEvent name data;
        (case a of
           SMore \<Rightarrow> stream_loop L D onEvent fin [] [] ls
         | SDone r \<Rightarrow> ret (Inr r)
         | SFailed e \<Rightarrow> ret (Inl e))}
      else if has_prefix ''event:'' line
      then stream_loop L D onEvent fin (trim_space (trim_prefix ''event:'' line)) data ls
      else if has_prefix ''data:'' line
      then stream_loop L D onEvent fin name (trim_space (trim_prefix ''data:'' line)) ls
      else stream_loop L D onEvent fin name data ls)"

text \<open>The body is a text and the error of reading on, if there is one.\<close>

definition stream_end :: "bool \<Rightarrow> gerr option \<Rightarrow> client_error" where
  "stream_end tooLong readErr =
     (if tooLong then PlainError (EWrap ''read stream: '' (EVar ''bufio.ErrTooLong'' ''bufio.Scanner: token too long'') [])
      else (case readErr of
              Some e \<Rightarrow> PlainError (EWrap ''read stream: '' e [])
            | None \<Rightarrow> PlainError (EText ''stream ended without result'')))"

definition readStream ::
    "golib \<Rightarrow> 'r stream_decoder \<Rightarrow> 'h stream_handler option \<Rightarrow> string \<times> gerr option \<Rightarrow> ('h, client_error + 'r) state" where
  "readStream L D onEvent body =
     (case scan (fst body) of
        (ls, tooLong) \<Rightarrow> stream_loop L D onEvent (stream_end tooLong (snd body)) [] [] ls)"

section \<open>What the client makes of what the server wrote\<close>

text \<open>
  The specification has no text: the messages are handled one by one. It ends with \<open>rest\<close> when they
  are used up.
\<close>

fun consume ::
    "golib \<Rightarrow> 'r stream_decoder \<Rightarrow> 'h stream_handler option \<Rightarrow> ('h, client_error + 'r) state \<Rightarrow> (string \<times> string) list
      \<Rightarrow> ('h, client_error + 'r) state" where
  "consume L D onEvent rest [] = rest"
| "consume L D onEvent rest ((name, data) # ms) = do {
     a \<leftarrow> handleStreamEvent L D onEvent name data;
     (case a of
        SMore \<Rightarrow> consume L D onEvent rest ms
      | SDone r \<Rightarrow> ret (Inr r)
      | SFailed e \<Rightarrow> ret (Inl e))}"

text \<open>What is written for messages whose data has a JSON text.\<close>

definition sse_text :: "string \<times> string \<Rightarrow> string" where
  "sse_text m = event_line (fst m) @ data_line (snd m)"

definition stream_text :: "(string \<times> string) list \<Rightarrow> string" where
  "stream_text ms = concat (map sse_text ms)"

text \<open>
  A text on one line without white space at its ends, as \<^verbatim>\<open>json.Marshal\<close> gives it, that fits the scanner
  behind a field name of at most six characters and a space.
\<close>

definition one_line :: "string \<Rightarrow> bool" where
  "one_line s \<longleftrightarrow> CHR 0x0A \<notin> set s \<and> CHR 0x0D \<notin> set s \<and> trim_space s = s \<and> s \<noteq> []"

definition fits :: "string \<times> string \<Rightarrow> bool" where
  "fits m \<longleftrightarrow> one_line (fst m) \<and> one_line (snd m) \<and> length (fst m) + 7 < maxScanTokenSize \<and> length (snd m) + 6 < maxScanTokenSize"

lemma trim_space_lead: "trim_space (CHR '' '' # s) = trim_space s"
  by (simp add: trim_space_def ascii_space_def)

lemma drop_cr_plain: "CHR 0x0D \<notin> set s \<Longrightarrow> drop_cr s = s"
  unfolding drop_cr_def by (metis last_in_set)

lemma scan_lines_fit:
  assumes "length p < maxScanTokenSize" and "CHR 0x0D \<notin> set p" and "ps \<noteq> []"
  shows "scan_lines (p # ps) = (p # fst (scan_lines ps), snd (scan_lines ps))"
  using assms by (simp add: drop_cr_plain)

lemma split_sse:
  assumes "CHR 0x0A \<notin> set e" and "CHR 0x0A \<notin> set p"
  shows "split_char (CHR 0x0A) (sse_text (e, p) @ t) = (''event: '' @ e) # (''data: '' @ p) # [] # split_char (CHR 0x0A) t"
proof -
  have "sse_text (e, p) @ t = (''event: '' @ e) @ CHR 0x0A # (''data: '' @ p) @ CHR 0x0A # [] @ CHR 0x0A # t"
    by (simp add: sse_text_def event_line_def data_line_def)
  then show ?thesis using assms by (simp only: split_char_append [of _ "''event: '' @ e"] split_char_append [of _ "''data: '' @ p"]
      split_char_append [of _ "[]"] set_append) (simp add: split_char_append)
qed

lemma scan_sse:
  assumes "fits (e, p)"
  shows "scan (sse_text (e, p) @ t) = ((''event: '' @ e) # (''data: '' @ p) # [] # fst (scan t), snd (scan t))"
proof -
  have max: "0 < maxScanTokenSize" by (simp add: maxScanTokenSize_def)
  have "scan_lines ([] # ps) = ([] # fst (scan_lines ps), snd (scan_lines ps))" if "ps \<noteq> []" for ps
    using max that by (intro scan_lines_fit) auto
  then show ?thesis
    using assms max unfolding scan_def fits_def one_line_def fst_conv snd_conv
    by (simp add: split_sse scan_lines_fit drop_cr_plain)
qed

lemma stream_loop_sse:
  assumes "fits (e, p)"
  shows "stream_loop L D onEvent fin name data ((''event: '' @ e) # (''data: '' @ p) # [] # ls) =
    do { a \<leftarrow> handleStreamEvent L D onEvent e p;
      (case a of SMore \<Rightarrow> stream_loop L D onEvent fin [] [] ls | SDone r \<Rightarrow> ret (Inr r) | SFailed err \<Rightarrow> ret (Inl err)) }"
  using assms by (simp add: fits_def one_line_def trim_prefix_def trim_space_lead)

lemma readStream_consume:
  assumes "list_all fits ms"
  shows "readStream L D onEvent (stream_text ms @ t, err) =
    consume L D onEvent (stream_loop L D onEvent (stream_end (snd (scan t)) err) [] [] (fst (scan t))) ms"
  using assms
proof (induction ms)
  case Nil
  show ?case by (simp add: readStream_def stream_text_def case_prod_beta)
next
  case (Cons m ms)
  obtain e p where m: "m = (e, p)" by fastforce
  let ?u = "stream_text ms @ t"
  have ih: "readStream L D onEvent (?u, err) =
    consume L D onEvent (stream_loop L D onEvent (stream_end (snd (scan t)) err) [] [] (fst (scan t))) ms"
    using Cons by simp
  have "readStream L D onEvent (stream_text (m # ms) @ t, err) =
    stream_loop L D onEvent (stream_end (snd (scan ?u)) err) [] [] ((''event: '' @ e) # (''data: '' @ p) # [] # fst (scan ?u))"
    using Cons.prems scan_sse [of e p ?u] by (simp add: readStream_def stream_text_def m)
  also have "\<dots> = do { a \<leftarrow> handleStreamEvent L D onEvent e p;
      (case a of SMore \<Rightarrow> readStream L D onEvent (?u, err) | SDone r \<Rightarrow> ret (Inr r) | SFailed e \<Rightarrow> ret (Inl e)) }"
    using Cons.prems by (subst stream_loop_sse) (auto simp: m readStream_def case_prod_beta)
  also have "\<dots> = consume L D onEvent (stream_loop L D onEvent (stream_end (snd (scan t)) err) [] [] (fst (scan t))) (m # ms)"
    unfolding ih m by simp
  finally show ?case .
qed

lemma handle_never_more:
  assumes "name \<in> {sseEventResult, sseEventError}"
  shows "fst (run_state (handleStreamEvent L D onEvent name data) h) \<noteq> SMore"
  using assms by (auto simp: handleStreamEvent_def run_eval case_prod_beta split: option.splits sum.splits prod.splits)

lemma consume_rest:
  assumes "ms \<noteq> []" and "fst (last ms) \<in> {sseEventResult, sseEventError}"
  shows "consume L D onEvent rest ms = consume L D onEvent rest' ms"
  using assms
proof (induction ms rule: list_nonempty_induct)
  case (single m)
  obtain e p where m: "m = (e, p)" by fastforce
  have "run_state (consume L D onEvent rest [m]) h = run_state (consume L D onEvent rest' [m]) h" for h
    using handle_never_more [of e L D onEvent p h] single
    by (auto simp: m run_eval split: prod.splits stream_answer.splits)
  then show ?case by (metis state.exhaust_sel ext)
next
  case (cons m ms)
  obtain e p where m: "m = (e, p)" by fastforce
  have "consume L D onEvent rest ms = consume L D onEvent rest' ms" using cons by simp
  then show ?case by (simp add: m)
qed

section \<open>One operation over the stream\<close>

text \<open>
  \<^verbatim>\<open>streamResult\<close>: the messages of an operation that emitted \<open>events\<close> (their JSON texts) and ended in an error
  or a result (the JSON text of the error response or of the result).
\<close>

definition stream_messages :: "string res list \<Rightarrow> string res + string res \<Rightarrow> stream_message list" where
  "stream_messages events answer =
     map (\<lambda>d. \<lparr>ms_event = sseEventProgress, ms_data = d, ms_done = False\<rparr>) events @
     [case answer of
        Inl d \<Rightarrow> \<lparr>ms_event = sseEventError, ms_data = d, ms_done = True\<rparr>
      | Inr d \<Rightarrow> \<lparr>ms_event = sseEventResult, ms_data = d, ms_done = True\<rparr>]"

definition plain_message :: "stream_message \<Rightarrow> string \<times> string" where
  "plain_message m = (ms_event m, projr (ms_data m))"

lemma stream_messages_one_end: "one_end (stream_messages events answer)"
  unfolding one_end_def stream_messages_def
  by (intro exI conjI, rule refl) (auto simp: list_all_iff split: sum.split)

text \<open>
  C15. A client that reads the stream of an operation to its end, over any interleaving of the daemon's two
  goroutines, does exactly what handling the messages one by one does: its handler sees every
  progress event once and in order, and the call returns the decoded result or the daemon's error with
  its code; nothing behind the end is looked at. The JSON texts must be single trimmed lines the
  scanner has room for.
\<close>

theorem stream_roundtrip:
  assumes "stream_run (stream_init (stream_messages events answer)) s"
    and "ss_over s" and "\<not> ss_gone s" and "\<not> ss_failed s"
    and "list_all (\<lambda>m. \<not> isl (ms_data m) \<and> fits (plain_message m)) (stream_messages events answer)"
  shows "readStream L D onEvent (stream_text (map plain_message (ss_written s)) @ t, err) =
    consume L D onEvent rest (map plain_message (stream_messages events answer))"
proof -
  let ?ms = "stream_messages events answer"
  obtain n where "(stream_step ^^ n) (stream_init ?ms) s" using assms(1) by (auto simp: rtranclp_power)
  with assms have "ss_written s = ?ms"
    using stream_inv_run [OF assms(1) stream_inv_init]
    by (intro one_end_prefix [OF stream_messages_one_end]) (auto simp: stream_inv_def)
  moreover have "list_all fits (map plain_message ?ms)" using assms(5) by (simp add: list_all_iff)
  moreover have "map plain_message ?ms \<noteq> []" "fst (last (map plain_message ?ms)) \<in> {sseEventResult, sseEventError}"
    by (auto simp: stream_messages_def plain_message_def split: sum.split)
  ultimately show ?thesis by (simp add: readStream_consume) (rule consume_rest, auto)
qed

text \<open>
  C17. An event whose JSON text does not fit the 64 KiB of a scanner line ends the call of the client: the events
  before it are handled, then the call fails with the scanner's error, whatever the daemon still sends, the
  result of the operation included.
\<close>

theorem long_event_fails:
  assumes "list_all fits ms" and "one_line name" and "length name + 7 < maxScanTokenSize"
    and "CHR 0x0A \<notin> set data" and "maxScanTokenSize \<le> length data + 6"
  shows "readStream L D onEvent (stream_text (ms @ [(name, data)]) @ t, err) =
    consume L D onEvent (ret (Inl (PlainError (EWrap ''read stream: '' (EVar ''bufio.ErrTooLong'' ''bufio.Scanner: token too long'') [])))) ms"
proof -
  have "scan (sse_text (name, data) @ t) = ([''event: '' @ name], True)"
    using assms(2-5) unfolding scan_def one_line_def
    by (simp add: split_sse drop_cr_plain)
  then show ?thesis
    using readStream_consume [OF assms(1), of L D onEvent "sse_text (name, data) @ t" err]
    by (simp add: stream_text_def stream_end_def)
qed

section \<open>Examples\<close>

definition demo_events :: "stream_message list" where
  "demo_events = stream_messages [Inr ''{1}''] (Inr (Inr ''{2}''))"

definition demo_over :: stream_state where
  "demo_over = \<lparr>ss_todo = [], ss_queue = [], ss_written = demo_events, ss_canceled = True, ss_gone = False,
     ss_failed = False, ss_over = True\<rparr>"

lemma demo_steps: "(stream_step ^^ 4) (stream_init demo_events) demo_over"
proof -
  let ?p = "\<lparr>ms_event = sseEventProgress, ms_data = Inr ''{1}'', ms_done = False\<rparr>"
  let ?m = "\<lparr>ms_event = sseEventResult, ms_data = Inr ''{2}'', ms_done = True\<rparr>"
  have ms: "demo_events = [?p, ?m]" by (simp add: demo_events_def stream_messages_def)
  let ?s = "\<lambda>todo queue. \<lparr>ss_todo = todo, ss_queue = queue, ss_written = [], ss_canceled = False, ss_gone = False,
     ss_failed = False, ss_over = False\<rparr>"
  have s1: "stream_step (stream_init demo_events) (?s [?m] [?p])"
    using send [of "stream_init demo_events" ?p "[?m]"] by (simp add: stream_init_def ms progressBufferSize_def)
  have s2: "stream_step (?s [?m] [?p]) (?s [] [?p, ?m])"
    using send [of "?s [?m] [?p]" ?m "[]"] by (simp add: progressBufferSize_def)
  have s3: "stream_step (?s [] [?p, ?m]) ((?s [] [?m])\<lparr>ss_written := [?p]\<rparr>)"
    using deliver [of "?s [] [?p, ?m]" ?p "[?m]"] by simp
  have s4: "stream_step ((?s [] [?m])\<lparr>ss_written := [?p]\<rparr>) demo_over"
    using deliver [of "(?s [] [?m])\<lparr>ss_written := [?p]\<rparr>" ?m "[]"] by (simp add: demo_over_def ms)
  have "(stream_step ^^ Suc (Suc (Suc (Suc 0)))) (stream_init demo_events) demo_over"
    by (rule relpowp_Suc_I [where P = stream_step, OF _ s4], rule relpowp_Suc_I [where P = stream_step, OF _ s3], rule relpowp_Suc_I [where P = stream_step, OF _ s2], rule relpowp_Suc_I [where P = stream_step, OF _ s1], simp)
  moreover have "(4 :: nat) = Suc (Suc (Suc (Suc 0)))" by simp
  ultimately show ?thesis by (simp only:)
qed

lemma demo_fits: "list_all (\<lambda>m. \<not> isl (ms_data m) \<and> fits (plain_message m)) demo_events"
proof -
  have "one_line ''progress''" "one_line ''result''" "one_line ''{1}''" "one_line ''{2}''" by code_simp+
  then show ?thesis by (simp add: demo_events_def stream_messages_def plain_message_def fits_def maxScanTokenSize_def)
qed

theorem stream_delivers_witness:
  "(stream_step ^^ 4) (stream_init demo_events) demo_over \<and> ss_written demo_over = demo_events \<and> 4 \<le> 2 * length demo_events + 2"
proof -
  have "one_end demo_events" by (simp add: demo_events_def stream_messages_one_end)
  moreover have "list_all (\<lambda>m. \<not> isl (ms_data m)) demo_events" using demo_fits by (simp add: list_all_iff)
  ultimately show ?thesis using stream_delivers [OF _ _ demo_steps] demo_steps by (simp add: demo_over_def)
qed

text \<open>A decoder that takes the text as it is, and a handler that collects the events.\<close>

definition text_decoder :: "string stream_decoder" where
  "text_decoder = \<lparr>sj_result = (\<lambda>t. Inr t), sj_error = (\<lambda>t. Inr (t, []))\<rparr>"

definition collect :: "(string \<times> string) list stream_handler" where
  "collect name data = State (\<lambda>h. (None, h @ [(name, data)]))"

theorem stream_roundtrip_witness:
  "run_state (readStream plain_lib text_decoder (Some collect) (stream_text (map plain_message (ss_written demo_over)), None)) []
    = (Inr ''{2}'', [(''progress'', ''{1}''), (''result'', ''{2}'')])"
proof -
  have "stream_run (stream_init (stream_messages [Inr ''{1}''] (Inr (Inr ''{2}'')))) demo_over"
    using relpowp_imp_rtranclp [OF demo_steps] by (simp only: demo_events_def)
  then have "readStream plain_lib text_decoder (Some collect) (stream_text (map plain_message (ss_written demo_over)) @ [], None) =
    consume plain_lib text_decoder (Some collect) (ret (Inl (PlainError (EText [])))) (map plain_message demo_events)"
    unfolding demo_events_def
    by (rule stream_roundtrip [OF _ _ _ _ demo_fits [unfolded demo_events_def]]) (simp_all add: demo_over_def)
  moreover have "run_state (consume plain_lib text_decoder (Some collect) (ret (Inl (PlainError (EText []))))
      (map plain_message demo_events)) [] = (Inr ''{2}'', [(''progress'', ''{1}''), (''result'', ''{2}'')])" by code_simp
  ultimately show ?thesis by simp
qed

definition long_data :: string where
  "long_data = replicate 65530 (CHR ''x'')"

theorem long_event_fails_witness:
  "fst (run_state (readStream plain_lib text_decoder (Some collect) (stream_text [(''result'', long_data)], None)) []) =
    Inl (PlainError (EWrap ''read stream: '' (EVar ''bufio.ErrTooLong'' ''bufio.Scanner: token too long'') []))"
proof -
  have "one_line ''result''" by code_simp
  moreover have "CHR 0x0A \<notin> set long_data" "length long_data = 65530" by (simp_all add: long_data_def)
  ultimately show ?thesis
    using long_event_fails [of "[]" "''result''" long_data plain_lib text_decoder "Some collect" "[]" None]
    by (simp add: maxScanTokenSize_def run_eval)
qed

end
