(* ===== verification/Cal_Http.thy ===== *)
theory Cal_Http
  imports Cal_App Cal_Stream
begin

text \<open>
  \<^verbatim>\<open>internal/httpserver\<close>: the routes of the daemon. A handler takes a request and returns the response
  it writes, over the handlers of the application. JSON texts and what \<^verbatim>\<open>net/http\<close> answers on its own
  are parameters; the queries of URLs are computed, escapes included.
\<close>

section \<open>Queries of URLs\<close>

text \<open>\<^verbatim>\<open>url.QueryEscape\<close> and its inverse; with \<open>form\<close> off, the inverse is that of paths.\<close>

definition hex_digit :: "nat \<Rightarrow> char" where
  "hex_digit n = ''0123456789ABCDEF'' ! n"

definition hex_value :: "char \<Rightarrow> nat option" where
  "hex_value c =
     (if byte_in 0x30 0x39 c then Some (of_char c - 0x30)
      else if byte_in 0x61 0x66 c then Some (of_char c - 0x61 + 10)
      else if byte_in 0x41 0x46 c then Some (of_char c - 0x41 + 10)
      else None)"

definition unreserved :: "char \<Rightarrow> bool" where
  "unreserved c \<longleftrightarrow> byte_in 0x61 0x7A c \<or> byte_in 0x41 0x5A c \<or> byte_in 0x30 0x39 c \<or> c \<in> {CHR ''-'', CHR ''_'', CHR ''.'', CHR ''~''}"

definition escape_char :: "char \<Rightarrow> string" where
  "escape_char c =
     (if unreserved c then [c] else if c = CHR '' '' then ''+''
      else [CHR 0x25, hex_digit (of_char c div 16), hex_digit (of_char c mod 16)])"

definition query_escape :: "string \<Rightarrow> string" where
  "query_escape s = concat (map escape_char s)"

fun percent_unescape :: "bool \<Rightarrow> string \<Rightarrow> string option" where
  "percent_unescape form [] = Some []"
| "percent_unescape form (c # s) =
     (if c = CHR 0x25
      then (case s of
              a # b # t \<Rightarrow>
                (case (hex_value a, hex_value b) of
                   (Some x, Some y) \<Rightarrow> map_option ((#) (char_of (16 * x + y))) (percent_unescape form t)
                 | _ \<Rightarrow> None)
            | _ \<Rightarrow> None)
      else map_option ((#) (if c = CHR ''+'' \<and> form then CHR '' '' else c)) (percent_unescape form s))"

text \<open>\<^verbatim>\<open>url.Values.Encode\<close> of single values, and \<^verbatim>\<open>url.ParseQuery\<close>, which skips what it cannot read.\<close>

definition encode_pair :: "string \<times> string \<Rightarrow> string" where
  "encode_pair q = query_escape (fst q) @ ''='' @ query_escape (snd q)"

definition encode_query :: "(string, string) gomap \<Rightarrow> string" where
  "encode_query q = join ''&'' (map encode_pair (sort_key fst q))"

definition cut_char :: "char \<Rightarrow> string \<Rightarrow> string \<times> string" where
  "cut_char c s = (takeWhile (\<lambda>x. x \<noteq> c) s, tl (dropWhile (\<lambda>x. x \<noteq> c) s))"

definition parse_pair :: "string \<Rightarrow> (string \<times> string) option" where
  "parse_pair s =
     (if s = [] \<or> CHR '';'' \<in> set s then None
      else (case (percent_unescape True (fst (cut_char (CHR ''='') s)), percent_unescape True (snd (cut_char (CHR ''='') s))) of
              (Some k, Some v) \<Rightarrow> Some (k, v)
            | _ \<Rightarrow> None))"

definition parse_query :: "string \<Rightarrow> (string \<times> string) list" where
  "parse_query s = List.map_filter parse_pair (split_char (CHR ''&'') s)"

text \<open>\<^verbatim>\<open>Values.Get\<close>: the first value.\<close>

definition query_get :: "(string \<times> string) list \<Rightarrow> string \<Rightarrow> string" where
  "query_get q k = (case map_of q k of None \<Rightarrow> [] | Some v \<Rightarrow> v)"

lemma hex_value_digit: "n < 16 \<Longrightarrow> hex_value (hex_digit n) = Some n"
proof -
  have "list_all (\<lambda>n. hex_value (hex_digit n) = Some n) [0..<16]" by code_simp
  then show "n < 16 \<Longrightarrow> hex_value (hex_digit n) = Some n" by (simp add: list_all_iff del: upt_Suc)
qed

lemma unescape_escape_char: "percent_unescape True (escape_char c @ s) = map_option ((#) c) (percent_unescape True s)"
proof -
  have n: "of_char c div 16 < (16 :: nat)" "of_char c mod 16 < (16 :: nat)"
    using of_char_bound [of c] by (simp_all add: less_mult_imp_div_less)
  have c: "char_of (16 * (of_char c div 16) + of_char c mod 16 :: nat) = c"
    by (metis char_of_char mult_div_mod_eq)
  have "c \<noteq> CHR 0x25 \<and> c \<noteq> CHR ''+''" if "unreserved c" using that by (auto simp: unreserved_def byte_in_def)
  then show ?thesis by (auto simp: escape_char_def hex_value_digit [OF n(1)] hex_value_digit [OF n(2)] c)
qed

lemma unescape_escape: "percent_unescape True (query_escape s) = Some s"
  by (induction s) (simp_all add: query_escape_def unescape_escape_char)


section \<open>Requests, responses, texts\<close>

abbreviation "ErrorInvalidRequest \<equiv> ''invalid_request''"
abbreviation "ErrorNotFound \<equiv> ''not_found''"
abbreviation "ErrorInternal \<equiv> ''internal_error''"
abbreviation "ErrorCaldUnavailable \<equiv> ''cald_unavailable''"

definition io_EOF :: gerr where
  "io_EOF = EVar ''io.EOF'' ''EOF''"

text \<open>The path is the escaped one, the query is decoded.\<close>

record http_request =
  hq_method :: string
  hq_path :: string
  hq_query :: "(string \<times> string) list"
  hq_body :: string

text \<open>A stream is what its goroutine sends; how that is written is \<open>stream_step\<close>.\<close>

datatype http_body = Body string | Stream "stream_message list"

record http_response =
  hp_status :: nat
  hp_headers :: "(string, string) gomap"
  hp_body :: http_body
  hp_stops :: bool \<comment> \<open>\<^verbatim>\<open>go server.daemon.Stop()\<close>\<close>

type_synonym api_error = "string \<times> string" \<comment> \<open>code and message\<close>

record daemon_status =
  ds_running :: bool
  ds_base_url :: string
  ds_pid :: int

text \<open>
  The JSON of one type: \<^verbatim>\<open>json.Marshal\<close> (and \<^verbatim>\<open>Encoder.Encode\<close> without the newline), \<^verbatim>\<open>Decoder.Decode\<close> with the
  text it leaves, \<^verbatim>\<open>json.Unmarshal\<close>. \<open>hc_empty\<close> is \<^verbatim>\<open>Decode(&struct{}{})\<close> of what is left.
\<close>

record 'a wire =
  wi_marshal :: "'a \<Rightarrow> string res"
  wi_decode :: "string \<Rightarrow> ('a \<times> string) res"
  wi_unmarshal :: "string \<Rightarrow> 'a res"

record http_codecs =
  hc_empty :: "string \<Rightarrow> gerr option"
  hc_error :: "api_error wire"
  hc_status :: "daemon_status wire"
  hc_stop :: "bool wire"
  hc_provider :: "string wire"
  hc_providers :: "provider list wire"
  hc_capabilities :: "(nat \<times> capability_summary list) wire"
  hc_acquire :: "acquire_request wire"
  hc_acquired :: "acquire_response wire"
  hc_run :: "app_run_request wire"
  hc_ran :: "run wire"
  hc_use :: "app_use_request wire"
  hc_used :: "use_result wire"
  hc_eval :: "eval_result wire"
  hc_event :: "progress_event \<Rightarrow> string res"

section \<open>Writing and decoding\<close>

definition writeJSON :: "nat \<Rightarrow> string res \<Rightarrow> http_response" where
  "writeJSON status val =
     \<lparr>hp_status = status, hp_headers = [(''Content-Type'', ''application/json'')],
      hp_body = Body (case val of Inl _ \<Rightarrow> [] | Inr t \<Rightarrow> t @ nl), hp_stops = False\<rparr>"

definition writeTransportError :: "http_codecs \<Rightarrow> nat \<Rightarrow> string \<Rightarrow> string \<Rightarrow> http_response" where
  "writeTransportError K status code message = writeJSON status (wi_marshal (hc_error K) (code, message))"

definition appError :: "gerr \<Rightarrow> nat \<times> string \<times> string" where
  "appError err =
     (if err_is err ErrInvalidMode \<or> err_is err ErrProposalPathRequired
      then (400, ErrorInvalidRequest, err_text err)
      else if err_is err ErrLLMNotConfigured \<or> err_is err ECanceled \<or> err_is err EDeadline
      then (503, ErrorCaldUnavailable, err_text err)
      else (500, ErrorInternal, err_text err))"

definition appErrorResponse :: "gerr \<Rightarrow> api_error" where
  "appErrorResponse err = (case appError err of (_, code, message) \<Rightarrow> (code, message))"

definition writeAppError :: "http_codecs \<Rightarrow> gerr \<Rightarrow> http_response" where
  "writeAppError K err = (case appError err of (status, code, message) \<Rightarrow> writeTransportError K status code message)"

definition decodeJSON :: "http_codecs \<Rightarrow> 'a wire \<Rightarrow> string \<Rightarrow> http_response + 'a" where
  "decodeJSON K C body =
     (case wi_decode C body of
        Inl err \<Rightarrow> Inl (writeTransportError K 400 ErrorInvalidRequest
          (if err_is err io_EOF then ''request body is required'' else err_text err))
      | Inr (x, left) \<Rightarrow>
          if (case hc_empty K left of None \<Rightarrow> False | Some e \<Rightarrow> err_is e io_EOF) then Inr x
          else Inl (writeTransportError K 400 ErrorInvalidRequest ''request body must contain a single JSON value''))"

definition requireMethod :: "http_codecs \<Rightarrow> http_request \<Rightarrow> string \<Rightarrow> http_response option" where
  "requireMethod K r need =
     (if hq_method r = need then None
      else Some ((writeTransportError K 405 ErrorInvalidRequest ''method not allowed'')
        \<lparr>hp_headers := [(''Allow'', need), (''Content-Type'', ''application/json'')]\<rparr>))"

text \<open>A pointer to a result, \<^verbatim>\<open>null\<close> when it is nil; the two shapes of results of the application.\<close>

definition marshal_pointer :: "'a wire \<Rightarrow> 'a option \<Rightarrow> string res" where
  "marshal_pointer C x = (case x of None \<Rightarrow> Inr ''null'' | Some y \<Rightarrow> wi_marshal C y)"

definition of_outcome :: "'a outcome \<Rightarrow> 'a option res" where
  "of_outcome r = (case r of (_, Some e) \<Rightarrow> Inl e | (x, None) \<Rightarrow> Inr x)"

definition of_res :: "'a res \<Rightarrow> 'a option res" where
  "of_res r = map_sum (\<lambda>e. e) Some r"

definition answer_json :: "http_codecs \<Rightarrow> 'a wire \<Rightarrow> 'a option res \<Rightarrow> http_response" where
  "answer_json K C r =
     (case r of Inl err \<Rightarrow> writeAppError K err | Inr x \<Rightarrow> writeJSON 200 (marshal_pointer C x))"

text \<open>\<^verbatim>\<open>streamResult\<close>; \<open>flushes\<close> tells whether the writer is an \<^verbatim>\<open>http.Flusher\<close>.\<close>

definition events_since :: "nat \<Rightarrow> ('s world, progress_event list) state" where
  "events_since n = State (\<lambda>w. (drop n (w_events w), w))"

definition event_count :: "('s world, nat) state" where
  "event_count = State (\<lambda>w. (length (w_events w), w))"

definition streamResult ::
    "http_codecs \<Rightarrow> bool \<Rightarrow> 'a wire \<Rightarrow> ('s world, 'a option res) state \<Rightarrow> ('s world, http_response) state" where
  "streamResult K flushes C run =
     (if \<not> flushes then ret (writeTransportError K 500 ErrorInternal ''streaming is not supported'')
      else do {
        n \<leftarrow> event_count;
        r \<leftarrow> run;
        evs \<leftarrow> events_since n;
        ret \<lparr>hp_status = 200,
          hp_headers = [(''Content-Type'', ''text/event-stream''), (''Cache-Control'', ''no-cache'')],
          hp_body = Stream (stream_messages (map (hc_event K) evs)
            (case r of
               Inl err \<Rightarrow> Inl (wi_marshal (hc_error K) (appErrorResponse err))
             | Inr x \<Rightarrow> Inr (marshal_pointer C x))),
          hp_stops = False\<rparr>})"

section \<open>The handlers\<close>

record daemon_control =
  dc_status :: "daemon_status option"
  dc_stop :: bool

record server =
  sv_app :: app
  sv_daemon :: daemon_control

definition ErrMissingApp :: gerr where
  "ErrMissingApp = EVar ''httpserver.ErrMissingApp'' ''httpserver app is required''"

definition http_New :: "app option \<Rightarrow> daemon_control \<Rightarrow> server res" where
  "http_New A D = (case A of None \<Rightarrow> Inl ErrMissingApp | Some a \<Rightarrow> Inr \<lparr>sv_app = a, sv_daemon = D\<rparr>)"

text \<open>What the handlers that decode a request share.\<close>

definition with_method :: "http_codecs \<Rightarrow> http_request \<Rightarrow> string \<Rightarrow> ('s, http_response) state \<Rightarrow> ('s, http_response) state" where
  "with_method K r need m = (case requireMethod K r need of Some resp \<Rightarrow> ret resp | None \<Rightarrow> m)"

definition with_body ::
    "http_codecs \<Rightarrow> 'q wire \<Rightarrow> http_request \<Rightarrow> ('q \<Rightarrow> ('s, http_response) state) \<Rightarrow> ('s, http_response) state" where
  "with_body K C r f = (case decodeJSON K C (hq_body r) of Inl resp \<Rightarrow> ret resp | Inr req \<Rightarrow> f req)"

definition handleDaemonStatus :: "http_codecs \<Rightarrow> server \<Rightarrow> http_request \<Rightarrow> ('s, http_response) state" where
  "handleDaemonStatus K V r = with_method K r ''GET''
     (ret (writeJSON 200 (wi_marshal (hc_status K)
        (case dc_status (sv_daemon V) of
           None \<Rightarrow> \<lparr>ds_running = True, ds_base_url = [], ds_pid = 0\<rparr>
         | Some status \<Rightarrow> status))))"

definition handleDaemonStop :: "http_codecs \<Rightarrow> server \<Rightarrow> http_request \<Rightarrow> ('s, http_response) state" where
  "handleDaemonStop K V r = with_method K r ''POST''
     (ret (if \<not> dc_stop (sv_daemon V)
        then writeTransportError K 503 ErrorCaldUnavailable ''daemon stop is not configured''
        else (writeJSON 200 (wi_marshal (hc_stop K) True))\<lparr>hp_stops := True\<rparr>))"

definition listProviders :: "http_codecs \<Rightarrow> server \<Rightarrow> env \<Rightarrow> (fsys world, http_response) state" where
  "listProviders K V E = do {
     r \<leftarrow> app_ListProviders E (Some (sv_app V));
     ret (answer_json K (hc_providers K) (of_res r))}"

definition addProvider ::
    "golib \<Rightarrow> app_host \<Rightarrow> http_codecs \<Rightarrow> server \<Rightarrow> env \<Rightarrow> http_request \<Rightarrow> (fsys world, http_response) state" where
  "addProvider L H K V E r = with_body K (hc_provider K) r (\<lambda>req. do {
     r \<leftarrow> AddProvider L H E (Some (sv_app V)) (Some req);
     ret (answer_json K (hc_providers K) (of_res r))})"

definition handleProviders ::
    "golib \<Rightarrow> app_host \<Rightarrow> http_codecs \<Rightarrow> server \<Rightarrow> env \<Rightarrow> http_request \<Rightarrow> (fsys world, http_response) state" where
  "handleProviders L H K V E r =
     (if hq_method r = ''GET'' then listProviders K V E
      else if hq_method r = ''POST'' then addProvider L H K V E r
      else ret ((writeTransportError K 405 ErrorInvalidRequest ''method not allowed'')
        \<lparr>hp_headers := [(''Allow'', ''GET, POST''), (''Content-Type'', ''application/json'')]\<rparr>))"

abbreviation "queryCapabilityID \<equiv> ''capability_id''"
abbreviation "queryProviderID \<equiv> ''provider_id''"

definition query_filter :: "http_request \<Rightarrow> record_filter" where
  "query_filter r = \<lparr>rf_provider_id = query_get (hq_query r) queryProviderID,
     rf_capability_id = query_get (hq_query r) queryCapabilityID\<rparr>"

definition handleCapabilities ::
    "golib \<Rightarrow> app_host \<Rightarrow> http_codecs \<Rightarrow> server \<Rightarrow> env \<Rightarrow> http_request \<Rightarrow> (fsys world, http_response) state" where
  "handleCapabilities L H K V E r = with_method K r ''GET'' (do {
     r \<leftarrow> app_ListCapabilities L H E (Some (sv_app V)) (Some (query_filter r));
     ret (answer_json K (hc_capabilities K) (of_res r))})"

definition handleEval :: "http_codecs \<Rightarrow> server \<Rightarrow> env \<Rightarrow> http_request \<Rightarrow> (fsys world, http_response) state" where
  "handleEval K V E r = with_method K r ''GET'' (do {
     r \<leftarrow> app_Eval E (Some (sv_app V)) (Some (query_filter r));
     ret (answer_json K (hc_eval K) (of_res r))})"

definition handleAcquisitions ::
    "golib \<Rightarrow> app_host \<Rightarrow> http_codecs \<Rightarrow> server \<Rightarrow> env \<Rightarrow> http_request \<Rightarrow> (fsys world, http_response) state" where
  "handleAcquisitions L H K V E r = with_method K r ''POST'' (with_body K (hc_acquire K) r (\<lambda>req. do {
     r \<leftarrow> Acquire L H E (Some (sv_app V)) (Some req);
     ret (answer_json K (hc_acquired K) (of_outcome r))}))"

definition handleRuns ::
    "golib \<Rightarrow> http_codecs \<Rightarrow> server \<Rightarrow> env \<Rightarrow> http_request \<Rightarrow> (fsys world, http_response) state" where
  "handleRuns L K V E r = with_method K r ''POST'' (with_body K (hc_run K) r (\<lambda>req. do {
     r \<leftarrow> app_Run L E (Some (sv_app V)) (Some req);
     ret (answer_json K (hc_ran K) (of_res r))}))"

definition handleUses ::
    "golib \<Rightarrow> app_host \<Rightarrow> http_codecs \<Rightarrow> server \<Rightarrow> env \<Rightarrow> http_request \<Rightarrow> (fsys world, http_response) state" where
  "handleUses L H K V E r = with_method K r ''POST'' (with_body K (hc_use K) r (\<lambda>req. do {
     r \<leftarrow> app_Use L H E (Some (sv_app V)) (Some req);
     ret (answer_json K (hc_used K) (of_outcome r))}))"

definition handleAcquisitionsStream ::
    "golib \<Rightarrow> app_host \<Rightarrow> http_codecs \<Rightarrow> bool \<Rightarrow> server \<Rightarrow> env \<Rightarrow> http_request \<Rightarrow> (fsys world, http_response) state" where
  "handleAcquisitionsStream L H K flushes V E r = with_method K r ''POST'' (with_body K (hc_acquire K) r (\<lambda>req.
     streamResult K flushes (hc_acquired K) (do {
       r \<leftarrow> Acquire L H E (Some (sv_app V)) (Some req);
       ret (of_outcome r)})))"

definition handleRunsStream ::
    "golib \<Rightarrow> http_codecs \<Rightarrow> bool \<Rightarrow> server \<Rightarrow> env \<Rightarrow> http_request \<Rightarrow> (fsys world, http_response) state" where
  "handleRunsStream L K flushes V E r = with_method K r ''POST'' (with_body K (hc_run K) r (\<lambda>req.
     streamResult K flushes (hc_ran K) (do {
       r \<leftarrow> app_Run L E (Some (sv_app V)) (Some req);
       ret (of_res r)})))"

definition handleUsesStream ::
    "golib \<Rightarrow> app_host \<Rightarrow> http_codecs \<Rightarrow> bool \<Rightarrow> server \<Rightarrow> env \<Rightarrow> http_request \<Rightarrow> (fsys world, http_response) state" where
  "handleUsesStream L H K flushes V E r = with_method K r ''POST'' (with_body K (hc_use K) r (\<lambda>req.
     streamResult K flushes (hc_used K) (do {
       r \<leftarrow> app_Use L H E (Some (sv_app V)) (Some req);
       ret (of_outcome r)})))"

definition handleNotFound :: "http_codecs \<Rightarrow> ('s, http_response) state" where
  "handleNotFound K = ret (writeTransportError K 404 ErrorNotFound ''route not found'')"

section \<open>Routes\<close>

abbreviation "routeDaemonStatus \<equiv> ''/v1/daemon/status''"
abbreviation "routeDaemonStop \<equiv> ''/v1/daemon/stop''"
abbreviation "routeProviders \<equiv> ''/v1/providers''"
abbreviation "routeCapabilities \<equiv> ''/v1/capabilities''"
abbreviation "routeAcquisitions \<equiv> ''/v1/acquisitions''"
abbreviation "routeAcquisitionsStream \<equiv> ''/v1/acquisitions/stream''"
abbreviation "routeRuns \<equiv> ''/v1/runs''"
abbreviation "routeRunsStream \<equiv> ''/v1/runs/stream''"
abbreviation "routeUses \<equiv> ''/v1/uses''"
abbreviation "routeUsesStream \<equiv> ''/v1/uses/stream''"
abbreviation "routeEval \<equiv> ''/v1/eval''"

definition routes ::
    "golib \<Rightarrow> app_host \<Rightarrow> http_codecs \<Rightarrow> bool \<Rightarrow> server \<Rightarrow> env \<Rightarrow> http_request
      \<Rightarrow> (string \<times> (fsys world, http_response) state) list" where
  "routes L H K flushes V E r =
     [(routeDaemonStatus, handleDaemonStatus K V r),
      (routeDaemonStop, handleDaemonStop K V r),
      (routeProviders, handleProviders L H K V E r),
      (routeCapabilities, handleCapabilities L H K V E r),
      (routeAcquisitions, handleAcquisitions L H K V E r),
      (routeAcquisitionsStream, handleAcquisitionsStream L H K flushes V E r),
      (routeRuns, handleRuns L K V E r),
      (routeRunsStream, handleRunsStream L K flushes V E r),
      (routeUses, handleUses L H K V E r),
      (routeUsesStream, handleUsesStream L H K flushes V E r),
      (routeEval, handleEval K V E r)]"

text \<open>
  \<^verbatim>\<open>http.ServeMux\<close> compares unescaped segments; a path that is not clean is redirected to the clean one,
  except for \<^verbatim>\<open>CONNECT\<close>. \<open>mux\<close> is that redirect, and the answer to a request target that is no path.
\<close>

definition clean_url_path :: "string \<Rightarrow> string" where
  "clean_url_path p =
     (let q = path_clean p in if last p = CHR ''/'' \<and> q \<noteq> ''/'' then q @ ''/'' else q)"

definition url_segments :: "string \<Rightarrow> string list" where
  "url_segments p =
     map (\<lambda>seg. case percent_unescape False seg of None \<Rightarrow> seg | Some t \<Rightarrow> t) (split_char (CHR ''/'') p)"

definition ServeHTTP ::
    "golib \<Rightarrow> app_host \<Rightarrow> http_codecs \<Rightarrow> bool \<Rightarrow> (http_request \<Rightarrow> http_response) \<Rightarrow> server option \<Rightarrow> env \<Rightarrow> http_request
      \<Rightarrow> (fsys world, http_response) state" where
  "ServeHTTP L H K flushes mux server E r =
     (case server of
        None \<Rightarrow> ret (writeTransportError K 503 ErrorCaldUnavailable ''http server is not configured'')
      | Some V \<Rightarrow>
          if \<not> has_prefix ''/'' (hq_path r) \<or> (hq_method r \<noteq> ''CONNECT'' \<and> clean_url_path (hq_path r) \<noteq> hq_path r)
          then ret (mux r)
          else (case find (\<lambda>(p, _). split_char (CHR ''/'') p = url_segments (hq_path r)) (routes L H K flushes V E r) of
                  None \<Rightarrow> handleNotFound K
                | Some (_, m) \<Rightarrow> m))"

section \<open>What a client can rely on\<close>

definition error_answer :: "http_codecs \<Rightarrow> http_response \<Rightarrow> bool" where
  "error_answer K resp \<longleftrightarrow> (\<exists>code message.
     hp_body resp = Body (case wi_marshal (hc_error K) (code, message) of Inl _ \<Rightarrow> [] | Inr t \<Rightarrow> t @ nl) \<and>
     (hp_status resp, code) \<in> {(400, ErrorInvalidRequest), (404, ErrorNotFound), (405, ErrorInvalidRequest),
       (500, ErrorInternal), (503, ErrorCaldUnavailable)})"

definition http_post :: "http_codecs \<Rightarrow> http_request \<Rightarrow> fsys world \<Rightarrow> http_response \<Rightarrow> fsys world \<Rightarrow> bool" where
  "http_post K r w resp v \<longleftrightarrow>
     (hp_status resp = 200 \<or> error_answer K resp) \<and> (hp_status resp \<in> {404, 405} \<longrightarrow> v = w) \<and>
     (hq_method r \<noteq> ''POST'' \<longrightarrow> fs_files (w_ext v) = fs_files (w_ext w) \<and> w_events v = w_events w)"

lemma error_answer_transport:
  assumes "(status, code) \<in> {(400, ErrorInvalidRequest), (404, ErrorNotFound), (405, ErrorInvalidRequest),
       (500, ErrorInternal), (503, ErrorCaldUnavailable)}"
  shows "error_answer K (writeTransportError K status code message)" "error_answer K ((writeTransportError K status code message)\<lparr>hp_headers := hs\<rparr>)"
proof -
  show "error_answer K (writeTransportError K status code message)"
    unfolding error_answer_def by (intro exI [of _ code] exI [of _ message] conjI) (use assms in \<open>simp_all add: writeTransportError_def writeJSON_def\<close>)
  then show "error_answer K ((writeTransportError K status code message)\<lparr>hp_headers := hs\<rparr>)" by (simp add: error_answer_def)
qed

lemma status_transport [simp]: "hp_status (writeTransportError K status code message) = status"
  by (simp add: writeTransportError_def writeJSON_def)

lemma appError_cases:
  "appError err \<in> {(400, ErrorInvalidRequest, err_text err), (503, ErrorCaldUnavailable, err_text err), (500, ErrorInternal, err_text err)}"
  by (simp add: appError_def)

lemma answer_app_error:
  "error_answer K (writeAppError K err) \<and> hp_status (writeAppError K err) \<in> {400, 500, 503}"
  using appError_cases [of err] by (auto simp: writeAppError_def intro!: error_answer_transport)

lemma answer_json_ok: "(hp_status (answer_json K C x) = 200 \<or> error_answer K (answer_json K C x)) \<and>
    hp_status (answer_json K C x) \<notin> {404, 405}"
proof (cases x)
  case (Inl e)
  then show ?thesis using answer_app_error [of K e] by (auto simp: answer_json_def)
qed (simp add: answer_json_def writeJSON_def)

lemma http_post_same: "hp_status resp = 200 \<or> error_answer K resp \<Longrightarrow> http_post K r w resp w"
  by (simp add: http_post_def)

lemma http_post_answer:
  assumes "hq_method r = ''POST'' \<or> fs_files (w_ext v) = fs_files (w_ext w) \<and> w_events v = w_events w"
  shows "http_post K r w (answer_json K C x) v"
  using assms answer_json_ok [of K C x] by (auto simp: http_post_def)

lemma wp_with_method:
  assumes "hq_method r = need \<Longrightarrow> wp m (http_post K r w) w"
  shows "wp (with_method K r need m) (http_post K r w) w"
  using assms unfolding with_method_def requireMethod_def
  by (auto simp: wp_return intro!: http_post_same error_answer_transport)

lemma decodeJSON_error: "decodeJSON K C body = Inl resp \<Longrightarrow> error_answer K resp \<and> hp_status resp = 400"
  by (auto simp: decodeJSON_def error_answer_transport split: sum.splits prod.splits if_splits)

lemma wp_with_body:
  assumes "\<And>req. decodeJSON K C (hq_body r) = Inr req \<Longrightarrow> wp (f req) (http_post K r w) w"
  shows "wp (with_body K C r f) (http_post K r w) w"
  using assms decodeJSON_error [of K C "hq_body r"] unfolding with_body_def
  by (auto simp: wp_return intro!: http_post_same split: sum.split)

lemma wp_streamResult:
  assumes "hq_method r = ''POST''"
  shows "wp (streamResult K flushes C m) (http_post K r w) w"
proof (cases flushes)
  case True
  have "wp (do {n \<leftarrow> event_count; x \<leftarrow> m; evs \<leftarrow> events_since n; ret (f x evs)}) (\<lambda>resp v. \<exists>x evs. resp = f x evs) w" for f :: "'a option res \<Rightarrow> _ \<Rightarrow> http_response"
    unfolding wp_bind wp_return by (intro wp_any) blast
  then show ?thesis using True assms unfolding streamResult_def
    by (simp only: if_not_P not_not simp_thms if_True if_False) (rule wp_mono, assumption, auto simp: http_post_def)
qed (auto simp: streamResult_def wp_return intro!: http_post_same error_answer_transport)

text \<open>The operations behind \<^verbatim>\<open>GET\<close> read only.\<close>

definition reads_only :: "(fsys world, 'a) state \<Rightarrow> bool" where
  "reads_only m \<longleftrightarrow> (\<forall>w. wp m (\<lambda>_ v. fs_files (w_ext v) = fs_files (w_ext w) \<and> w_events v = w_events w) w)"

lemma reads_only_call: "(\<And>s. wp m (\<lambda>_ t. fs_files t = fs_files s) s) \<Longrightarrow> reads_only (call m)"
  unfolding reads_only_def wp_call by (intro allI) (rule wp_mono, auto)

lemma reads_only_ret: "reads_only (ret x)"
  by (simp add: reads_only_def wp_return)

lemma reads_only_ctx: "reads_only (ctx_err E)"
  by (simp add: reads_only_def wp_ctx_err)

lemma reads_only_bind: "reads_only m \<Longrightarrow> (\<And>x. reads_only (f x)) \<Longrightarrow> reads_only (do {x \<leftarrow> m; f x})"
  unfolding reads_only_def wp_bind by (intro allI) (rule wp_mono, blast, rule wp_mono, blast, auto)

lemmas reads_only_rules = reads_only_ret reads_only_ctx reads_only_bind

lemma reads_only_providers: "reads_only (app_ListProviders E (Some (app_wired L H home conf S client)))"
proof -
  have "reads_only (List_Providers E (Some (file_provider_store L C S)))" for C
    unfolding List_Providers_def entry_validate_def file_provider_store_def ListProviders_def
    by (auto intro!: reads_only_rules reads_only_call wp_list_keeps split: option.split)
  then show ?thesis by (simp add: app_ListProviders_def app_wired_valid) (simp add: app_wired_def Let_def)
qed

lemma reads_only_capabilities: "reads_only (app_ListCapabilities L H E (Some (app_wired L H home conf S client)) req)"
  unfolding app_ListCapabilities_def app_wired_valid ListCapabilities_def
  by (auto intro!: reads_only_rules reads_only_call wp_list_keeps split: option.split)

lemma reads_only_eval: "reads_only (app_Eval E (Some (app_wired L H home conf S client)) req)"
proof -
  have "reads_only (eval_Run E (Some (file_eval_store L CT CR CC S)) q)" for CT CR CC q
    unfolding reads_only_def by (intro allI wp_mono [OF wp_eval_Run]) auto
  then show ?thesis
    by (simp add: app_Eval_def app_wired_valid) (simp add: app_wired_def Let_def reads_only_bind reads_only_ret)
qed

lemma wp_reads_answer:
  assumes "reads_only m"
  shows "wp (do {x \<leftarrow> m; ret (answer_json K C (f x))}) (http_post K r w) w"
  unfolding wp_bind wp_return using assms unfolding reads_only_def
  by (blast intro: wp_mono http_post_answer)

lemma wp_post_answer:
  assumes "hq_method r = ''POST''"
  shows "wp (do {x \<leftarrow> m; ret (answer_json K C (f x))}) (http_post K r w) w"
  unfolding wp_bind wp_return by (intro wp_any http_post_answer disjI1 assms)

lemma wp_routes:
  assumes "sv_app V = app_wired L H home conf S client" and "(p, m) \<in> set (routes L H K flushes V E r)"
  shows "wp m (http_post K r w) w"
proof -
  note reads = reads_only_providers reads_only_capabilities reads_only_eval
  note rules = wp_with_method wp_with_body wp_streamResult wp_post_answer wp_reads_answer reads http_post_same error_answer_transport
  have "wp (addProvider L H K V E r) (http_post K r w) w" if "hq_method r = ''POST''"
    unfolding addProvider_def by (intro wp_with_body wp_post_answer that)
  moreover have "wp (listProviders K V E) (http_post K r w) w"
    unfolding listProviders_def assms(1) by (intro wp_reads_answer reads)
  ultimately have "wp (handleProviders L H K V E r) (http_post K r w) w"
    unfolding handleProviders_def by (auto simp: wp_return intro!: http_post_same error_answer_transport)
  moreover have "wp (handleDaemonStatus K V r) (http_post K r w) w" "wp (handleDaemonStop K V r) (http_post K r w) w"
    unfolding handleDaemonStatus_def handleDaemonStop_def
    by (auto simp: wp_return writeJSON_def intro!: rules)
  moreover have "wp (handleCapabilities L H K V E r) (http_post K r w) w" "wp (handleEval K V E r) (http_post K r w) w"
    unfolding handleCapabilities_def handleEval_def assms(1) by (auto intro!: rules)
  moreover have "wp (handleAcquisitions L H K V E r) (http_post K r w) w" "wp (handleRuns L K V E r) (http_post K r w) w"
    "wp (handleUses L H K V E r) (http_post K r w) w"
    unfolding handleAcquisitions_def handleRuns_def handleUses_def by (intro wp_with_method wp_with_body wp_post_answer; assumption)+
  moreover have "wp (handleAcquisitionsStream L H K flushes V E r) (http_post K r w) w"
    "wp (handleRunsStream L K flushes V E r) (http_post K r w) w" "wp (handleUsesStream L H K flushes V E r) (http_post K r w) w"
    unfolding handleAcquisitionsStream_def handleRunsStream_def handleUsesStream_def by (auto intro!: rules)
  ultimately show ?thesis using assms(2) by (auto simp: routes_def)
qed

text \<open>
  C14. Whatever a client sends to the daemon, it is redirected by the mux, or answered with status 200, or
  with an error text whose code goes with the status (400 and 405 invalid_request, 404 not_found, 500
  internal_error, 503 cald_unavailable). A request that is redirected or for which there is no route or no
  method has no effect at all, and a request with another method than \<^verbatim>\<open>POST\<close> changes no file and emits
  no event.
\<close>

theorem http_protocol:
  assumes "run_state (ServeHTTP L H K flushes mux (Some V) E r) w = (resp, v)"
    and "sv_app V = app_wired L H home conf S client"
  shows "resp = mux r \<and> v = w \<or>
    (hp_status resp = 200 \<or> error_answer K resp) \<and> (hp_status resp \<in> {404, 405} \<longrightarrow> v = w) \<and>
    (hq_method r \<noteq> ''POST'' \<longrightarrow> fs_files (w_ext v) = fs_files (w_ext w) \<and> w_events v = w_events w)"
proof -
  have "wp (ServeHTTP L H K flushes mux (Some V) E r) (\<lambda>resp v. resp = mux r \<and> v = w \<or> http_post K r w resp v) w"
  proof (cases "\<not> has_prefix ''/'' (hq_path r) \<or> (hq_method r \<noteq> ''CONNECT'' \<and> clean_url_path (hq_path r) \<noteq> hq_path r)")
    case True
    then show ?thesis unfolding ServeHTTP_def by (simp only: option.case if_True wp_return simp_thms)
  next
    case False
    have "wp (case find (\<lambda>(p, _). split_char (CHR ''/'') p = url_segments (hq_path r)) (routes L H K flushes V E r) of
        None \<Rightarrow> handleNotFound K | Some (_, m) \<Rightarrow> m) (http_post K r w) w"
      by (auto simp: handleNotFound_def wp_return intro!: http_post_same error_answer_transport split: option.split
          dest!: find_SomeD intro: wp_routes [OF assms(2)])
    then show ?thesis using False unfolding ServeHTTP_def
      by (simp only: option.case if_False) (rule wp_mono, assumption, simp)
  qed
  from wp_run [OF this assms(1)] show ?thesis by (simp add: http_post_def)
qed

section \<open>Examples\<close>

text \<open>Codecs to evaluate on: an error is its code, a colon and its message.\<close>

definition mute_wire :: "'a wire" where
  "mute_wire = \<lparr>wi_marshal = (\<lambda>_. Inr ''{}''), wi_decode = (\<lambda>_. Inl io_EOF), wi_unmarshal = (\<lambda>_. Inl io_EOF)\<rparr>"

definition colon_wire :: "(string \<times> string) wire" where
  "colon_wire = \<lparr>wi_marshal = (\<lambda>(k, m). Inr (k @ '':'' @ m)), wi_decode = (\<lambda>t. Inr (cut_char (CHR '':'') t, [])),
     wi_unmarshal = (\<lambda>t. Inr (cut_char (CHR '':'') (takeWhile (\<lambda>c. c \<noteq> CHR 0x0A) t)))\<rparr>"

text \<open>The request of the run of \<open>Cal_Run\<close>'s example, and codecs that write an id and read a fixed record.\<close>

definition echo_request :: app_run_request where
  "echo_request = \<lparr>xn_capability_id = ''text.echo'', xn_binding_id = [], xn_inputs = Some [(''text'', GStr ''hello'')],
     xn_provider_id = [], xn_strategy = [], xn_verify = True, xn_min_level = L1\<rparr>"

definition fixed_wire :: "('a \<Rightarrow> string) \<Rightarrow> 'a \<Rightarrow> 'a wire" where
  "fixed_wire name x = \<lparr>wi_marshal = (\<lambda>y. Inr (name y)), wi_decode = (\<lambda>t. Inr (x, [])), wi_unmarshal = (\<lambda>t. Inr x)\<rparr>"

definition demo_codecs :: http_codecs where
  "demo_codecs = \<lparr>hc_empty = (\<lambda>_. Some io_EOF), hc_error = colon_wire, hc_status = mute_wire, hc_stop = mute_wire,
     hc_provider = mute_wire, hc_providers = mute_wire, hc_capabilities = fixed_wire (\<lambda>r. nat_text (fst r)) (0, []),
     hc_acquire = mute_wire, hc_acquired = mute_wire, hc_run = fixed_wire xn_capability_id echo_request,
     hc_ran = fixed_wire rn_id demo_run, hc_use = mute_wire, hc_used = mute_wire, hc_eval = mute_wire,
     hc_event = (\<lambda>_. Inr ''{}'')\<rparr>"

definition echo_host :: app_host where
  "echo_host = pdf_host\<lparr>ah_codecs := \<lparr>ak_providers = demo_providers, ak_capabilities = demo_capabilities,
     ak_runs = demo_runs, ak_traces = demo_trace_codec\<rparr>, ah_machine := echo_machine\<rparr>"

definition demo_server :: server where
  "demo_server = \<lparr>sv_app = app_wired plain_lib echo_host ''/h'' [] demo_store None,
     sv_daemon = \<lparr>dc_status = None, dc_stop = True\<rparr>\<rparr>"

definition moved :: "http_request \<Rightarrow> http_response" where
  "moved r = \<lparr>hp_status = 301, hp_headers = [(''Location'', clean_url_path (hq_path r))], hp_body = Body [], hp_stops = False\<rparr>"

definition post_eval :: http_request where
  "post_eval = \<lparr>hq_method = ''POST'', hq_path = ''/v1/eval'', hq_query = [], hq_body = []\<rparr>"

theorem http_protocol_witness:
  "\<exists>resp. run_state (ServeHTTP plain_lib echo_host demo_codecs True moved (Some demo_server) Cal_Run.demo_env post_eval) demo_world
     = (resp, demo_world) \<and> hp_status resp = 405 \<and> error_answer demo_codecs resp"
proof -
  let ?serve = "ServeHTTP plain_lib echo_host demo_codecs True moved (Some demo_server) Cal_Run.demo_env post_eval"
  obtain resp v where run: "run_state ?serve demo_world = (resp, v)" by fastforce
  have "fst (run_state ?serve demo_world) = (writeTransportError demo_codecs 405 ErrorInvalidRequest ''method not allowed'')
    \<lparr>hp_headers := [(''Allow'', ''GET''), (''Content-Type'', ''application/json'')]\<rparr>" by code_simp
  with run have "hp_status resp = 405" by simp
  moreover have "hp_status (moved post_eval) = 301" by (simp add: moved_def)
  ultimately show ?thesis
    using http_protocol [OF run, of "''/h''" "[]" demo_store None] run by (auto simp: demo_server_def)
qed

end
