(* ===== verification/Cal_Endpoint.thy ===== *)
theory Cal_Endpoint
  imports Cal_Store
begin

text \<open>
  \<^verbatim>\<open>internal/cald/endpoint\<close>: the file in which a running daemon publishes its address and from which
  clients read it.
\<close>

record endpoint =
  ep_base_url :: string
  ep_pid :: int
  ep_created_at :: string

definition endpoint_path :: "string \<Rightarrow> string" where
  "endpoint_path home = path_join [home, ''cald'', ''endpoint.json'']"

definition endpoint_checkedPath :: "string \<Rightarrow> string res" where
  "endpoint_checkedPath home =
     (if blank home then Inl (EText ''cal home is required'') else Inr (endpoint_path home))"

definition endpoint_validate :: "endpoint option \<Rightarrow> gerr option" where
  "endpoint_validate r =
     (case r of
        None \<Rightarrow> Some (EText ''endpoint record is required'')
      | Some e \<Rightarrow> if blank (ep_base_url e) then Some (EText ''endpoint base url is required'') else None)"

text \<open>The file is opened, then read while it is decoded; a missing file is \<open>Inr None\<close>.\<close>

definition endpoint_Read :: "endpoint codec \<Rightarrow> string \<Rightarrow> (fsys, endpoint option res) state" where
  "endpoint_Read C home =
     (case endpoint_checkedPath home of
        Inl e \<Rightarrow> ret (Inl e)
      | Inr path \<Rightarrow> do {
          opened \<leftarrow> fs_read_file path;
          (case opened of
             Inl e \<Rightarrow> ret (if err_not_exist e then Inr None else Inl (EWrap ''open endpoint: '' e []))
           | Inr text \<Rightarrow> do {
               c \<leftarrow> syscall (\<lambda>s. Inr ((), s));
               ret (case c of
                      Inl e \<Rightarrow> Inl (EWrap ''decode endpoint: '' e [])
                    | Inr _ \<Rightarrow>
                        (case of_json C text of
                           Inl m \<Rightarrow> Inl (EWrap ''decode endpoint: '' (EText m) [])
                         | Inr r \<Rightarrow> (case endpoint_validate (Some r) of Some e \<Rightarrow> Inl e | None \<Rightarrow> Inr (Some r))))})})"

definition endpoint_Write :: "endpoint codec \<Rightarrow> string \<Rightarrow> endpoint option \<Rightarrow> (fsys, gerr option) state" where
  "endpoint_Write C home r =
     (case endpoint_checkedPath home of
        Inl e \<Rightarrow> ret (Some e)
      | Inr path \<Rightarrow>
          (case r of
             None \<Rightarrow> ret (Some (EText ''endpoint record is required''))
           | Some e \<Rightarrow>
               (case endpoint_validate (Some e) of
                  Some err \<Rightarrow> ret (Some err)
                | None \<Rightarrow> WriteAtomic path (to_json C e))))"

definition endpoint_Remove :: "string \<Rightarrow> (fsys, gerr option) state" where
  "endpoint_Remove home =
     (case endpoint_checkedPath home of
        Inl e \<Rightarrow> ret (Some e)
      | Inr path \<Rightarrow> do {
          r \<leftarrow> fs_remove path;
          ret (case r of
                 Inl e \<Rightarrow> if err_not_exist e then None else Some (EWrap ''remove endpoint: '' e [])
               | Inr _ \<Rightarrow> None)})"

section \<open>The path is that of a record\<close>

lemma endpoint_path_json: "endpoint_path home = json_path \<lparr>st_root = home\<rparr> ''cald'' ''endpoint''"
  by (simp add: endpoint_path_def json_path_def)

lemma endpoint_path_not_temp: "endpoint_path home \<noteq> temp_name (path_dir (endpoint_path home)) m"
proof -
  have c: "proper ''cald''" "visible ''endpoint''" by code_simp+
  show ?thesis unfolding endpoint_path_json by (rule path_family.not_temp [OF json_path_family [OF c(1)] c(2) c(2)])
qed

text \<open>What clients see: the record the file decodes to.\<close>

definition endpoint_view :: "endpoint codec \<Rightarrow> string \<Rightarrow> fsys \<Rightarrow> endpoint option" where
  "endpoint_view C home s = file_record C s (endpoint_path home)"

lemma wp_endpoint_Write:
  "wp (endpoint_Write C home (Some e)) (\<lambda>r t. r = None \<longrightarrow>
     \<not> blank home \<and> endpoint_validate (Some e) = None \<and> endpoint_view C home t = reread C e \<and>
     (\<exists>m. \<forall>q. q \<noteq> endpoint_path home \<and> q \<noteq> temp_name (path_dir (endpoint_path home)) m \<longrightarrow>
       map_of (fs_files t) q = map_of (fs_files s) q)) s"
proof (cases "blank home \<or> endpoint_validate (Some e) \<noteq> None")
  case True
  then show ?thesis by (auto simp: endpoint_Write_def endpoint_checkedPath_def wp_return split: option.splits)
next
  case False
  then have w: "endpoint_Write C home (Some e) = WriteAtomic (endpoint_path home) (to_json C e)"
    by (simp add: endpoint_Write_def endpoint_checkedPath_def)
  show ?thesis
    unfolding w using False
    apply (intro wp_mono [OF wp_WriteAtomic [OF endpoint_path_not_temp]])
    apply (elim exE)
    subgoal for r t m
      by (cases r) (auto simp: written_def endpoint_view_def file_record_def reread_def endpoint_path_not_temp
          split: sum.split intro!: exI [of _ m])
    done
qed

lemma wp_endpoint_Read:
  "wp (endpoint_Read C home) (\<lambda>r t. fs_files t = fs_files s \<and>
     (\<forall>x. r = Inr x \<longrightarrow> \<not> blank home \<and> x = endpoint_view C home s \<and>
       (x = None \<longleftrightarrow> map_of (fs_files s) (endpoint_path home) = None))) s"
proof (cases "blank home")
  case False
  show ?thesis
    unfolding endpoint_Read_def endpoint_checkedPath_def wp_bind using False
    apply (simp add: wp_bind)
    apply (rule wp_read_file)
      apply (simp_all add: wp_return wp_bind wp_syscall Let_def endpoint_view_def file_record_def)
    apply (auto simp: wp_return split: option.splits sum.splits)
    done
qed (simp add: endpoint_Read_def endpoint_checkedPath_def wp_return)

lemma wp_endpoint_Remove:
  "wp (endpoint_Remove home) (\<lambda>r t. (\<forall>q. q \<noteq> endpoint_path home \<longrightarrow> map_of (fs_files t) q = map_of (fs_files s) q) \<and>
     (r = None \<longrightarrow> endpoint_view C home t = None \<and> map_of (fs_files t) (endpoint_path home) = None)) s"
proof (cases "blank home")
  case False
  then show ?thesis
    by (simp add: endpoint_Remove_def endpoint_checkedPath_def wp_bind fs_remove_def wp_syscall wp_return Let_def
        endpoint_view_def file_record_def err_not_exist_def split: option.split)
qed (simp add: endpoint_Remove_def endpoint_checkedPath_def wp_return)

text \<open>
  C23. The published address is read back: once a write of the endpoint succeeded, and as long as the
  file is left alone, a read that succeeds returns the record the written text decodes to, never that there
  is no daemon; and once a removal succeeded, a read that succeeds says that there is none.
\<close>

theorem endpoint_roundtrip:
  assumes "run_state (endpoint_Write C home (Some e)) s0 = (None, s1)"
    and "map_of (fs_files s2) (endpoint_path home) = map_of (fs_files s1) (endpoint_path home)"
    and "run_state (endpoint_Read C home) s2 = (r, s3)"
    and "run_state (endpoint_Remove home) s3 = (None, s4)"
    and "run_state (endpoint_Read C home) s4 = (r', s5)"
  shows "(\<forall>x. r = Inr x \<longrightarrow> x = reread C e \<and> x \<noteq> None) \<and> (\<forall>x. r' = Inr x \<longrightarrow> x = None) \<and> fs_files s3 = fs_files s2"
proof -
  have w: "endpoint_view C home s1 = reread C e" and v: "endpoint_validate (Some e) = None" "\<not> blank home"
    using wp_run [OF wp_endpoint_Write assms(1)] by auto
  have present: "map_of (fs_files s1) (endpoint_path home) \<noteq> None"
  proof -
    have "wp (WriteAtomic (endpoint_path home) (to_json C e)) (\<lambda>r t. r = None \<longrightarrow> map_of (fs_files t) (endpoint_path home) \<noteq> None) s0"
      by (rule wp_mono [OF wp_WriteAtomic [OF endpoint_path_not_temp]]) (auto simp: written_def endpoint_path_not_temp)
    then show ?thesis using assms(1) v by (auto simp: wp_def endpoint_Write_def endpoint_checkedPath_def)
  qed
  have "endpoint_view C home s2 = endpoint_view C home s1" using assms(2) by (simp add: endpoint_view_def file_record_def)
  then have "\<forall>x. r = Inr x \<longrightarrow> x = reread C e \<and> x \<noteq> None" "fs_files s3 = fs_files s2"
    using wp_run [OF wp_endpoint_Read assms(3)] w present assms(2) by auto
  moreover have "endpoint_view C home s4 = None" using wp_run [OF wp_endpoint_Remove assms(4), of C] by simp
  ultimately show ?thesis using wp_run [OF wp_endpoint_Read assms(5)] by auto
qed

definition demo_endpoint :: endpoint where
  "demo_endpoint = \<lparr>ep_base_url = ''http://127.0.0.1:1'', ep_pid = 0, ep_created_at = []\<rparr>"

definition url_codec :: "endpoint codec" where
  "url_codec = \<lparr>to_json = (\<lambda>e. Inr (ep_base_url e)),
     of_json = (\<lambda>t. Inr \<lparr>ep_base_url = t, ep_pid = 0, ep_created_at = []\<rparr>)\<rparr>"

definition empty_fs :: fsys where
  "empty_fs = \<lparr>fs_files = [], fs_dirs = [], fs_clock = 0, fs_fault = (\<lambda>_. None)\<rparr>"

definition demo_published :: fsys where
  "demo_published = snd (run_state (endpoint_Write url_codec ''/h'' (Some demo_endpoint)) empty_fs)"

theorem endpoint_roundtrip_witness:
  "fst (run_state (endpoint_Read url_codec ''/h'') demo_published) = Inr (Some demo_endpoint) \<and>
   fst (run_state (do {_ \<leftarrow> endpoint_Read url_codec ''/h''; _ \<leftarrow> endpoint_Remove ''/h''; endpoint_Read url_codec ''/h''}) demo_published)
     = Inr None"
proof -
  let ?read = "endpoint_Read url_codec ''/h''"
  have "fst (run_state (endpoint_Write url_codec ''/h'' (Some demo_endpoint)) empty_fs) = None" by code_simp
  then have w: "run_state (endpoint_Write url_codec ''/h'' (Some demo_endpoint)) empty_fs = (None, demo_published)"
    by (simp add: demo_published_def prod_eq_iff)
  obtain r s3 where r: "run_state ?read demo_published = (r, s3)" by fastforce
  obtain d s4 where d: "run_state (endpoint_Remove ''/h'') s3 = (d, s4)" by fastforce
  obtain r' s5 where r': "run_state ?read s4 = (r', s5)" by fastforce
  have "fst (run_state (do {_ \<leftarrow> ?read; endpoint_Remove ''/h''}) demo_published) = None" by code_simp
  with r d have "d = None" by (simp add: run_eval)
  moreover have "\<not> isl (fst (run_state ?read demo_published))" "\<not> isl (fst (run_state
      (do {_ \<leftarrow> ?read; _ \<leftarrow> endpoint_Remove ''/h''; ?read}) demo_published))" by code_simp+
  then have "\<not> isl r" "\<not> isl r'" using r d r' by (simp_all add: run_eval)
  then obtain x x' where "r = Inr x" "r' = Inr x'" by (cases r; cases r') auto
  ultimately show ?thesis
    using endpoint_roundtrip [OF w refl r _ r'] r d r' by (simp add: run_eval reread_def url_codec_def demo_endpoint_def)
qed

end
