(* ===== verification/Cal_Client.thy ===== *)
theory Cal_Client
  imports Cal_Http Cal_Endpoint
begin

text \<open>
  \<^verbatim>\<open>internal/cli/client\<close>: the client of the daemon. The network is a parameter; \<open>loopback\<close> is the one
  that hands every request to the server of \<open>Cal_Http\<close> and its response back.
\<close>

section \<open>Requests and transports\<close>

record http_call =
  cq_method :: string
  cq_url :: string
  cq_headers :: "(string, string) gomap"
  cq_body :: "string option"

text \<open>
  \<^verbatim>\<open>http.NewRequestWithContext\<close>, \<^verbatim>\<open>http.Client.Do\<close> with the body it lets read (the text and the error that
  ends it), \<^verbatim>\<open>http.StatusText\<close>.
\<close>

record 's transport =
  tp_build :: "http_call \<Rightarrow> gerr option"
  tp_do :: "http_call \<Rightarrow> ('s, (nat \<times> string \<times> gerr option) res) state"
  tp_status_text :: "nat \<Rightarrow> string"

abbreviation "defaultTimeout \<equiv> 20 * 60 * 1000000000 :: int"

text \<open>The timeout of the HTTP client, given the one of the base client if there is a base.\<close>

definition httpClient :: "int option \<Rightarrow> int \<Rightarrow> int" where
  "httpClient base timeout0 =
     (let timeout = (if timeout0 = 0 then defaultTimeout else timeout0) in
      case base of None \<Rightarrow> timeout | Some t \<Rightarrow> if timeout > 0 then timeout else t)"

definition unavailable :: "string \<Rightarrow> client_error" where
  "unavailable message = client_newError 0 ErrorCaldUnavailable message"

definition trim_base :: "string \<Rightarrow> string" where
  "trim_base u = trim_right_set [slash] (trim_space u)"

text \<open>\<^verbatim>\<open>New\<close>: the base URL of the client.\<close>

definition client_New :: "endpoint codec \<Rightarrow> string \<Rightarrow> string \<Rightarrow> (fsys, client_error + string) state" where
  "client_New C home baseURL =
     (if trim_base baseURL \<noteq> [] then ret (Inr (trim_base baseURL))
      else do {
        r \<leftarrow> endpoint_Read C home;
        ret (case r of
               Inl e \<Rightarrow> Inl (unavailable (err_text e))
             | Inr None \<Rightarrow> Inl (unavailable ''cald is not running'')
             | Inr (Some rec) \<Rightarrow>
                 if trim_base (ep_base_url rec) = [] then Inl (unavailable ''cald endpoint is empty'')
                 else Inr (trim_base (ep_base_url rec)))})"

definition client_url :: "string \<Rightarrow> string \<Rightarrow> (string, string) gomap \<Rightarrow> string" where
  "client_url base path query =
     (let full = base @ ''/'' @ dropWhile (\<lambda>c. c = slash) path in
      if query = [] then full else full @ ''?'' @ encode_query query)"

definition client_newRequest ::
    "'s transport \<Rightarrow> string \<Rightarrow> string \<Rightarrow> string \<Rightarrow> (string, string) gomap \<Rightarrow> string res option \<Rightarrow> http_call res" where
  "client_newRequest T base need path query body =
     (case body of
        Some (Inl e) \<Rightarrow> Inl (EWrap ''encode request: '' e [])
      | _ \<Rightarrow>
          (let q = \<lparr>cq_method = need, cq_url = client_url base path query,
             cq_headers = (case body of None \<Rightarrow> [] | Some _ \<Rightarrow> [(''Content-Type'', ''application/json'')])
               @ [(''Accept'', ''application/json'')],
             cq_body = (case body of Some (Inr t) \<Rightarrow> Some t | _ \<Rightarrow> None)\<rparr> in
           case tp_build T q of Some e \<Rightarrow> Inl (EWrap ''build request: '' e []) | None \<Rightarrow> Inr q))"

definition decodeErrorResponse :: "(nat \<Rightarrow> string) \<Rightarrow> http_codecs \<Rightarrow> nat \<Rightarrow> string \<Rightarrow> client_error" where
  "decodeErrorResponse texts K status data =
     (let message = trim_space data in
      let plain = client_newError (int status) ErrorInternal (if message = [] then texts status else message) in
      case wi_unmarshal (hc_error K) data of
        Inl _ \<Rightarrow> plain
      | Inr (code, m) \<Rightarrow> if code \<noteq> [] then client_newError (int status) code m else plain)"

definition client_do ::
    "'s transport \<Rightarrow> http_codecs \<Rightarrow> 'r wire \<Rightarrow> string \<Rightarrow> string \<Rightarrow> string \<Rightarrow> (string, string) gomap \<Rightarrow> string res option
      \<Rightarrow> ('s, client_error + 'r) state" where
  "client_do T K C base need path query body =
     (case client_newRequest T base need path query body of
        Inl e \<Rightarrow> ret (Inl (PlainError e))
      | Inr q \<Rightarrow> do {
          resp \<leftarrow> tp_do T q;
          ret (case resp of
                 Inl e \<Rightarrow> Inl (unavailable (err_text e))
               | Inr (status, data, Some e) \<Rightarrow> Inl (PlainError (EWrap ''read response: '' e []))
               | Inr (status, data, None) \<Rightarrow>
                   if 400 \<le> status then Inl (decodeErrorResponse (tp_status_text T) K status data)
                   else (case wi_unmarshal C data of
                           Inl e \<Rightarrow> Inl (PlainError (EWrap ''decode response: '' e []))
                         | Inr x \<Rightarrow> Inr x))})"

abbreviation "client_get T K C base path query \<equiv> client_do T K C base ''GET'' path query None"
abbreviation "client_post T K C base path body \<equiv> client_do T K C base ''POST'' path [] (Some body)"

definition client_stream ::
    "golib \<Rightarrow> 's transport \<Rightarrow> http_codecs \<Rightarrow> 'r wire \<Rightarrow> string \<Rightarrow> string \<Rightarrow> string res \<Rightarrow> 's stream_handler option
      \<Rightarrow> ('s, client_error + 'r) state" where
  "client_stream L T K C base path body onEvent =
     (case client_newRequest T base ''POST'' path [] (Some body) of
        Inl e \<Rightarrow> ret (Inl (PlainError e))
      | Inr q \<Rightarrow> do {
          resp \<leftarrow> tp_do T (q\<lparr>cq_headers := put ''Accept'' ''text/event-stream'' (cq_headers q)\<rparr>);
          (case resp of
             Inl e \<Rightarrow> ret (Inl (unavailable (err_text e)))
           | Inr (status, data, err) \<Rightarrow>
               if 400 \<le> status
               then ret (Inl (case err of
                                Some e \<Rightarrow> PlainError (EWrap ''read response: '' e [])
                              | None \<Rightarrow> decodeErrorResponse (tp_status_text T) K status data))
               else readStream L \<lparr>sj_result = wi_unmarshal C, sj_error = wi_unmarshal (hc_error K)\<rparr> onEvent (data, err))})"

section \<open>The operations\<close>

definition idQuery :: "string \<Rightarrow> string \<Rightarrow> (string, string) gomap" where
  "idQuery capabilityID providerID =
     (if capabilityID \<noteq> [] then [(queryCapabilityID, capabilityID)] else []) @
     (if providerID \<noteq> [] then [(queryProviderID, providerID)] else [])"

definition capabilityQuery :: "record_filter option \<Rightarrow> (string, string) gomap" where
  "capabilityQuery req = (case req of None \<Rightarrow> [] | Some f \<Rightarrow> idQuery (rf_capability_id f) (rf_provider_id f))"

definition evalQuery :: "record_filter option \<Rightarrow> (string, string) gomap" where
  "evalQuery req = (case req of None \<Rightarrow> [] | Some f \<Rightarrow> idQuery (rf_capability_id f) (rf_provider_id f))"

definition client_Status :: "'s transport \<Rightarrow> http_codecs \<Rightarrow> string \<Rightarrow> ('s, client_error + daemon_status) state" where
  "client_Status T K base = client_get T K (hc_status K) base routeDaemonStatus []"

definition client_Stop :: "'s transport \<Rightarrow> http_codecs \<Rightarrow> string \<Rightarrow> ('s, client_error + bool) state" where
  "client_Stop T K base = client_post T K (hc_stop K) base routeDaemonStop (Inr ''{}'')"

definition client_AddProvider ::
    "'s transport \<Rightarrow> http_codecs \<Rightarrow> string \<Rightarrow> string option \<Rightarrow> ('s, client_error + provider list) state" where
  "client_AddProvider T K base req = client_post T K (hc_providers K) base routeProviders (marshal_pointer (hc_provider K) req)"

definition client_ListProviders :: "'s transport \<Rightarrow> http_codecs \<Rightarrow> string \<Rightarrow> ('s, client_error + provider list) state" where
  "client_ListProviders T K base = client_get T K (hc_providers K) base routeProviders []"

definition client_ListCapabilities ::
    "'s transport \<Rightarrow> http_codecs \<Rightarrow> string \<Rightarrow> record_filter option \<Rightarrow> ('s, client_error + nat \<times> capability_summary list) state" where
  "client_ListCapabilities T K base req = client_get T K (hc_capabilities K) base routeCapabilities (capabilityQuery req)"

definition client_Acquire ::
    "'s transport \<Rightarrow> http_codecs \<Rightarrow> string \<Rightarrow> acquire_request option \<Rightarrow> ('s, client_error + acquire_response) state" where
  "client_Acquire T K base req = client_post T K (hc_acquired K) base routeAcquisitions (marshal_pointer (hc_acquire K) req)"

definition client_AcquireStream ::
    "golib \<Rightarrow> 's transport \<Rightarrow> http_codecs \<Rightarrow> string \<Rightarrow> acquire_request option \<Rightarrow> 's stream_handler option
      \<Rightarrow> ('s, client_error + acquire_response) state" where
  "client_AcquireStream L T K base req onEvent =
     client_stream L T K (hc_acquired K) base routeAcquisitionsStream (marshal_pointer (hc_acquire K) req) onEvent"

definition client_Run :: "'s transport \<Rightarrow> http_codecs \<Rightarrow> string \<Rightarrow> app_run_request option \<Rightarrow> ('s, client_error + run) state" where
  "client_Run T K base req = client_post T K (hc_ran K) base routeRuns (marshal_pointer (hc_run K) req)"

definition client_RunStream ::
    "golib \<Rightarrow> 's transport \<Rightarrow> http_codecs \<Rightarrow> string \<Rightarrow> app_run_request option \<Rightarrow> 's stream_handler option
      \<Rightarrow> ('s, client_error + run) state" where
  "client_RunStream L T K base req onEvent =
     client_stream L T K (hc_ran K) base routeRunsStream (marshal_pointer (hc_run K) req) onEvent"

definition client_Use :: "'s transport \<Rightarrow> http_codecs \<Rightarrow> string \<Rightarrow> app_use_request option \<Rightarrow> ('s, client_error + use_result) state" where
  "client_Use T K base req = client_post T K (hc_used K) base routeUses (marshal_pointer (hc_use K) req)"

definition client_UseStream ::
    "golib \<Rightarrow> 's transport \<Rightarrow> http_codecs \<Rightarrow> string \<Rightarrow> app_use_request option \<Rightarrow> 's stream_handler option
      \<Rightarrow> ('s, client_error + use_result) state" where
  "client_UseStream L T K base req onEvent =
     client_stream L T K (hc_used K) base routeUsesStream (marshal_pointer (hc_use K) req) onEvent"

definition client_Eval :: "'s transport \<Rightarrow> http_codecs \<Rightarrow> string \<Rightarrow> record_filter option \<Rightarrow> ('s, client_error + eval_result) state" where
  "client_Eval T K base req = client_get T K (hc_eval K) base routeEval (evalQuery req)"

section \<open>Queries reach the server\<close>

abbreviation "delimiters \<equiv> ''&=;?''"

lemma escape_char_plain: "set (escape_char d) \<inter> set delimiters = {}"
proof -
  have n: "of_char d div 16 < (16 :: nat)" "of_char d mod 16 < (16 :: nat)"
    using of_char_bound [of d] by (simp_all add: less_mult_imp_div_less)
  have hex: "hex_digit m \<notin> set delimiters" if "m < 16" for m
  proof -
    have "list_all (\<lambda>m. \<not> List.member delimiters (hex_digit m)) [0..<16]" by code_simp
    then show ?thesis using that by (simp add: list_all_iff del: upt_Suc)
  qed
  have "list_all (\<lambda>c. \<not> unreserved c) delimiters" by code_simp
  then have "\<not> unreserved c" if "c \<in> set delimiters" for c using that unfolding list_all_iff by blast
  then have kept: "d \<notin> set delimiters" if "unreserved d" using that by blast
  have other: "CHR ''+'' \<notin> set delimiters" "CHR 0x25 \<notin> set delimiters" by simp_all
  show ?thesis
    unfolding escape_char_def using kept hex [OF n(1)] hex [OF n(2)] other
    by (simp only: list.set Int_insert_left Int_empty_left if_False split: if_split) blast
qed

lemma encoded_chars: "c \<in> set (query_escape s) \<Longrightarrow> c \<notin> set delimiters"
  using escape_char_plain by (fastforce simp only: query_escape_def set_concat set_map)

lemma parse_encode_pair: "parse_pair (encode_pair q) = Some q"
proof -
  have no: "CHR ''='' \<notin> set (query_escape s)" "CHR '';'' \<notin> set (query_escape s)" for s
    using encoded_chars [of _ s] by auto
  have "takeWhile (\<lambda>x. x \<noteq> CHR ''='') (query_escape (fst q)) = query_escape (fst q)"
    using no(1) by (intro takeWhile_eq_all_conv [THEN iffD2]) auto
  then have "cut_char (CHR ''='') (encode_pair q) = (query_escape (fst q), query_escape (snd q))"
    using no(1) [of "fst q"] by (simp add: cut_char_def encode_pair_def takeWhile_append dropWhile_append)
  then show ?thesis using no by (auto simp: parse_pair_def encode_pair_def unescape_escape)
qed

lemma parse_encode: "parse_query (encode_query q) = sort_key fst q"
proof (cases q)
  case (Cons a qs)
  have "CHR ''&'' \<notin> set (encode_pair p)" for p
    using encoded_chars [of "CHR ''&''"] by (auto simp: encode_pair_def)
  then have "split_char (CHR ''&'') (encode_query q) = map encode_pair (sort_key fst q)"
    unfolding encode_query_def using Cons
    by (intro split_char_join) (auto dest: arg_cong [where f = set])
  then show ?thesis by (simp add: parse_query_def map_filter_map_filter parse_encode_pair comp_def map_filter_def)
qed (simp add: parse_query_def encode_query_def parse_pair_def map_filter_def)

section \<open>The client over the server\<close>

text \<open>
  A network that loses nothing: the request is split at the question mark, the response is read to its
  end. What is read of a stream is what the handler writes while the client stays.
\<close>

definition request_of :: "string \<Rightarrow> http_call \<Rightarrow> http_request" where
  "request_of base q =
     (let target = drop (length base) (cq_url q) in
      \<lparr>hq_method = cq_method q, hq_path = fst (cut_char (CHR ''?'') target), hq_query = parse_query (snd (cut_char (CHR ''?'') target)),
       hq_body = (case cq_body q of None \<Rightarrow> [] | Some t \<Rightarrow> t)\<rparr>)"

fun body_text :: "http_body \<Rightarrow> string" where
  "body_text (Body t) = t"
| "body_text (Stream ms) = stream_text (map plain_message (takeWhile (\<lambda>m. \<not> isl (ms_data m)) ms))"

definition loopback ::
    "golib \<Rightarrow> app_host \<Rightarrow> http_codecs \<Rightarrow> bool \<Rightarrow> (http_request \<Rightarrow> http_response) \<Rightarrow> (nat \<Rightarrow> string) \<Rightarrow> server \<Rightarrow> env \<Rightarrow> string
      \<Rightarrow> fsys world transport" where
  "loopback L H K flushes mux texts V E base =
     \<lparr>tp_build = (\<lambda>_. None),
      tp_do = (\<lambda>q. if has_prefix base (cq_url q) then do {
          resp \<leftarrow> ServeHTTP L H K flushes mux (Some V) E (request_of base q);
          ret (Inr (hp_status resp, body_text (hp_body resp), None))}
        else ret (Inl (EText ''no such host''))),
      tp_status_text = texts\<rparr>"

definition route_paths :: "string list" where
  "route_paths = [routeDaemonStatus, routeDaemonStop, routeProviders, routeCapabilities, routeAcquisitions,
     routeAcquisitionsStream, routeRuns, routeRunsStream, routeUses, routeUsesStream, routeEval]"

lemma route_facts:
  assumes "p \<in> set route_paths"
  shows "has_prefix ''/'' p" "clean_url_path p = p" "url_segments p = split_char slash p"
    "''/'' @ dropWhile (\<lambda>c. c = slash) p = p" "CHR ''?'' \<notin> set p"
proof -
  have "list_all (\<lambda>p. has_prefix ''/'' p \<and> clean_url_path p = p \<and> url_segments p = split_char slash p \<and>
    ''/'' @ dropWhile (\<lambda>c. c = slash) p = p \<and> \<not> List.member p (CHR ''?'')) route_paths" by code_simp
  then show "has_prefix ''/'' p" "clean_url_path p = p" "url_segments p = split_char slash p"
    "''/'' @ dropWhile (\<lambda>c. c = slash) p = p" "CHR ''?'' \<notin> set p"
    using assms by (auto simp: list_all_iff)
qed

lemma split_char_inj: "split_char sep s = split_char sep t \<longleftrightarrow> s = t"
  by (metis join_split_char)

lemma find_route: "find (\<lambda>(p, _). split_char sep p = split_char sep q) rs = map_option (Pair q) (map_of rs q)"
  by (induction rs) (auto simp: split_char_inj)

lemma serve_route:
  assumes "hq_path r \<in> set route_paths"
  shows "ServeHTTP L H K flushes mux (Some V) E r = the (map_of (routes L H K flushes V E r) (hq_path r))"
proof -
  have "map fst (routes L H K flushes V E r) = route_paths" by (simp add: routes_def route_paths_def)
  then have "map_of (routes L H K flushes V E r) (hq_path r) \<noteq> None"
    using assms by (simp add: map_of_None_keys)
  then show ?thesis
    using route_facts(1-3) [OF assms] by (auto simp: ServeHTTP_def find_route)
qed

lemma client_url_route:
  assumes "p \<in> set route_paths"
  shows "client_url base p query = base @ p @ (if query = [] then [] else ''?'' @ encode_query query)"
  using route_facts(4) [OF assms] by (simp add: client_url_def)

lemma request_of_route:
  assumes "p \<in> set route_paths" and "cq_url q = client_url base p query"
  shows "request_of base q = \<lparr>hq_method = cq_method q, hq_path = p, hq_query = sort_key fst query,
    hq_body = (case cq_body q of None \<Rightarrow> [] | Some t \<Rightarrow> t)\<rparr>"
proof -
  have "takeWhile (\<lambda>c. c \<noteq> CHR ''?'') p = p" "dropWhile (\<lambda>c. c \<noteq> CHR ''?'') p = []"
    using route_facts(5) [OF assms(1)] by (auto simp: takeWhile_eq_all_conv)
  moreover have "takeWhile (\<lambda>c. c \<noteq> CHR ''?'') (p @ CHR ''?'' # t) = p" "dropWhile (\<lambda>c. c \<noteq> CHR ''?'') (p @ CHR ''?'' # t) = CHR ''?'' # t" for t
    using route_facts(5) [OF assms(1)] by (auto simp: takeWhile_append dropWhile_append)
  moreover have "parse_query [] = []" by (simp add: parse_query_def parse_pair_def map_filter_def)
  ultimately show ?thesis
    by (auto simp: request_of_def assms(2) client_url_route [OF assms(1)] cut_char_def parse_encode Let_def)
qed

text \<open>One call, by the handler that answers it.\<close>

definition read_answer :: "(nat \<Rightarrow> string) \<Rightarrow> http_codecs \<Rightarrow> 'r wire \<Rightarrow> http_response \<Rightarrow> client_error + 'r" where
  "read_answer texts K C resp =
     (if 400 \<le> hp_status resp then Inl (decodeErrorResponse texts K (hp_status resp) (body_text (hp_body resp)))
      else (case wi_unmarshal C (body_text (hp_body resp)) of
              Inl e \<Rightarrow> Inl (PlainError (EWrap ''decode response: '' e []))
            | Inr x \<Rightarrow> Inr x))"

definition routed ::
    "golib \<Rightarrow> app_host \<Rightarrow> http_codecs \<Rightarrow> bool \<Rightarrow> server \<Rightarrow> env \<Rightarrow> string \<Rightarrow> string \<Rightarrow> (string, string) gomap \<Rightarrow> string
      \<Rightarrow> (fsys world, http_response) state" where
  "routed L H K flushes V E need p query body =
     the (map_of (routes L H K flushes V E
       \<lparr>hq_method = need, hq_path = p, hq_query = sort_key fst query, hq_body = body\<rparr>) p)"

lemma client_do_loopback:
  assumes "p \<in> set route_paths" and "body = None \<and> t = [] \<or> body = Some (Inr t)"
  shows "client_do (loopback L H K flushes mux texts V E base) K C base need p query body = do {
    resp \<leftarrow> routed L H K flushes V E need p query t;
    ret (read_answer texts K C resp)}"
proof -
  have "has_prefix base (client_url base p query)"
    unfolding client_url_route [OF assms(1)] by (rule has_prefix_append)
  with assms(2) show ?thesis
    by (auto simp: client_do_def client_newRequest_def loopback_def request_of_route [OF assms(1)] serve_route
        assms(1) routed_def read_answer_def Let_def cong del: if_weak_cong)
qed

lemma client_stream_loopback:
  assumes "p \<in> set route_paths"
  shows "client_stream L (loopback L H K flushes mux texts V E base) K C base p (Inr t) onEvent = do {
    resp \<leftarrow> routed L H K flushes V E ''POST'' p [] t;
    (if 400 \<le> hp_status resp then ret (Inl (decodeErrorResponse texts K (hp_status resp) (body_text (hp_body resp))))
     else readStream L \<lparr>sj_result = wi_unmarshal C, sj_error = wi_unmarshal (hc_error K)\<rparr> onEvent (body_text (hp_body resp), None))}"
proof -
  have "has_prefix base (client_url base p [])"
    unfolding client_url_route [OF assms] by (rule has_prefix_append)
  then show ?thesis
    by (auto simp: client_stream_def client_newRequest_def loopback_def request_of_route [OF assms] serve_route
        assms routed_def Let_def cong del: if_weak_cong)
qed

text \<open>What of a codec a call relies on: a request comes over, a result or an error comes back.\<close>

definition carried :: "http_codecs \<Rightarrow> 'q wire \<Rightarrow> 'q \<Rightarrow> bool" where
  "carried K C q \<longleftrightarrow> (\<exists>t left e. wi_marshal C q = Inr t \<and> wi_decode C t = Inr (q, left) \<and> hc_empty K left = Some e \<and> err_is e io_EOF)"

definition answered :: "'r wire \<Rightarrow> 'r \<Rightarrow> bool" where
  "answered C x \<longleftrightarrow> (\<exists>t. wi_marshal C x = Inr t \<and> wi_unmarshal C (t @ nl) = Inr x)"

definition comes_back :: "http_codecs \<Rightarrow> 'r wire \<Rightarrow> 'r option res \<Rightarrow> bool" where
  "comes_back K C r \<longleftrightarrow> (case r of
     Inl e \<Rightarrow> answered (hc_error K) (appErrorResponse e) | Inr None \<Rightarrow> False | Inr (Some x) \<Rightarrow> answered C x)"

definition remote_error :: "gerr \<Rightarrow> client_error" where
  "remote_error e = (case appError e of (status, code, message) \<Rightarrow> client_newError (int status) code message)"

lemma decode_carried:
  assumes "carried K C q"
  obtains t where "wi_marshal C q = Inr t" and "decodeJSON K C t = Inr q"
  using assms by (auto simp: carried_def decodeJSON_def)

lemma read_answer_json:
  assumes "comes_back K C r"
  shows "read_answer texts K C (answer_json K C r) = map_sum remote_error the r"
proof (cases r)
  case (Inr x)
  with assms show ?thesis
    by (cases x) (auto simp: comes_back_def answered_def answer_json_def read_answer_def writeJSON_def marshal_pointer_def)
next
  case (Inl e)
  obtain status code message where a: "appError e = (status, code, message)" by (cases "appError e")
  then have "400 \<le> status" "code \<noteq> []" using appError_cases [of e] by auto
  with assms Inl a show ?thesis
    by (auto simp: comes_back_def answered_def appErrorResponse_def answer_json_def writeAppError_def writeTransportError_def
        writeJSON_def read_answer_def decodeErrorResponse_def remote_error_def Let_def)
qed

lemma post_loopback:
  assumes p: "p \<in> set route_paths" and q: "carried K Cq q"
    and route: "\<And>t. routed L H K flushes V E ''POST'' p [] t = with_body K Cq \<lparr>hq_method = ''POST'', hq_path = p,
      hq_query = [], hq_body = t\<rparr> (\<lambda>req. do {x \<leftarrow> m req; ret (answer_json K C (g x))})"
    and run: "run_state (m q) w = (x, v)" and comes: "comes_back K C (g x)"
  shows "run_state (client_do (loopback L H K flushes mux texts V E base) K C base ''POST'' p [] (Some (wi_marshal Cq q))) w =
    (map_sum remote_error the (g x), v)"
proof -
  obtain t where t: "wi_marshal Cq q = Inr t" and d: "decodeJSON K Cq t = Inr q" using q by (rule decode_carried)
  show ?thesis
    by (simp add: t client_do_loopback [OF p, where t = t] route with_body_def d run_eval run read_answer_json [OF comes])
qed

lemma get_loopback:
  assumes p: "p \<in> set route_paths"
    and route: "routed L H K flushes V E ''GET'' p query [] = do {x \<leftarrow> m; ret (answer_json K C (g x))}"
    and run: "run_state m w = (x, v)" and comes: "comes_back K C (g x)"
  shows "run_state (client_do (loopback L H K flushes mux texts V E base) K C base ''GET'' p query None) w =
    (map_sum remote_error the (g x), v)"
  by (simp add: client_do_loopback [OF p, where t = "[]"] route run_eval run read_answer_json [OF comes])

section \<open>Streams\<close>

definition operation_messages :: "http_codecs \<Rightarrow> 'r wire \<Rightarrow> 's world \<Rightarrow> 's world \<Rightarrow> 'r option res \<Rightarrow> stream_message list" where
  "operation_messages K C w v r = stream_messages (map (hc_event K) (drop (length (w_events w)) (w_events v)))
     (case r of Inl e \<Rightarrow> Inl (wi_marshal (hc_error K) (appErrorResponse e)) | Inr x \<Rightarrow> Inr (marshal_pointer C x))"

definition readable :: "stream_message \<Rightarrow> bool" where
  "readable m \<longleftrightarrow> \<not> isl (ms_data m) \<and> fits (plain_message m)"

lemma streamResult_run:
  assumes "run_state m w = (r, v)"
  shows "run_state (streamResult K True C m) w = (\<lparr>hp_status = 200,
    hp_headers = [(''Content-Type'', ''text/event-stream''), (''Cache-Control'', ''no-cache'')],
    hp_body = Stream (operation_messages K C w v r), hp_stops = False\<rparr>, v)"
  by (simp add: streamResult_def run_eval event_count_def events_since_def assms operation_messages_def)

lemma readStream_messages:
  assumes "list_all readable (operation_messages K C w v r)"
  shows "readStream L D onEvent (body_text (Stream (operation_messages K C w v r)), None) =
    consume L D onEvent rest (map plain_message (operation_messages K C w v r))"
proof -
  let ?ms = "operation_messages K C w v r"
  have all: "takeWhile (\<lambda>m. \<not> isl (ms_data m)) ?ms = ?ms"
    using assms by (intro takeWhile_eq_all_conv [THEN iffD2]) (auto simp: list_all_iff readable_def)
  have "list_all fits (map plain_message ?ms)" using assms by (auto simp: list_all_iff readable_def)
  moreover have "map plain_message ?ms \<noteq> []" "fst (last (map plain_message ?ms)) \<in> {sseEventResult, sseEventError}"
    by (auto simp: operation_messages_def stream_messages_def plain_message_def split: sum.split)
  ultimately show ?thesis
    using readStream_consume [of "map plain_message ?ms" L D onEvent "[]" None]
    unfolding body_text.simps all by simp (rule consume_rest, auto)
qed

lemma stream_loopback:
  assumes p: "p \<in> set route_paths" and q: "carried K Cq q"
    and route: "\<And>t. routed L H K True V E ''POST'' p [] t = with_body K Cq \<lparr>hq_method = ''POST'', hq_path = p,
      hq_query = [], hq_body = t\<rparr> (\<lambda>req. streamResult K True C (do {x \<leftarrow> m req; ret (g x)}))"
    and run: "run_state (m q) w = (x, v)" and fits: "list_all readable (operation_messages K C w v (g x))"
  shows "run_state (client_stream L (loopback L H K True mux texts V E base) K C base p (wi_marshal Cq q) onEvent) w =
    run_state (consume L \<lparr>sj_result = wi_unmarshal C, sj_error = wi_unmarshal (hc_error K)\<rparr> onEvent rest
      (map plain_message (operation_messages K C w v (g x)))) v"
proof -
  obtain t where t: "wi_marshal Cq q = Inr t" and d: "decodeJSON K Cq t = Inr q" using q by (rule decode_carried)
  have "run_state (do {x \<leftarrow> m q; ret (g x)}) w = (g x, v)" by (simp add: run_eval run)
  from streamResult_run [OF this, of K C] show ?thesis
    by (simp add: t client_stream_loopback [OF p] route with_body_def d run_bind readStream_messages [OF fits, of _ _ _ rest] del: body_text.simps)
qed

section \<open>The calls\<close>

lemma route_paths_member:
  "routeRuns \<in> set route_paths" "routeRunsStream \<in> set route_paths" "routeUses \<in> set route_paths"
  "routeUsesStream \<in> set route_paths" "routeAcquisitions \<in> set route_paths" "routeAcquisitionsStream \<in> set route_paths"
  "routeProviders \<in> set route_paths" "routeCapabilities \<in> set route_paths" "routeEval \<in> set route_paths"
  by (simp_all add: route_paths_def)

lemma with_method_same: "hq_method r = need \<Longrightarrow> with_method K r need m = m"
  by (simp add: with_method_def requireMethod_def)

lemmas route_simps = routed_def routes_def with_method_same handleRuns_def handleRunsStream_def handleUses_def handleUsesStream_def
  handleAcquisitions_def handleAcquisitionsStream_def handleProviders_def addProvider_def listProviders_def
  handleCapabilities_def handleEval_def marshal_pointer_def

lemma of_res_remote: "map_sum remote_error the (of_res r) = map_sum remote_error (\<lambda>x. x) r"
  by (cases r) (simp_all add: of_res_def)

lemma use_over_http:
  assumes "carried K (hc_use K) req" and "run_state (app_Use L H E (Some (sv_app V)) (Some req)) w = (r, v)"
    and "comes_back K (hc_used K) (of_outcome r)"
  shows "run_state (client_Use (loopback L H K flushes mux texts V E base) K base (Some req)) w =
    (map_sum remote_error the (of_outcome r), v)"
  unfolding client_Use_def marshal_pointer_def option.case
  by (rule post_loopback [where m = "\<lambda>q. app_Use L H E (Some (sv_app V)) (Some q)" and g = of_outcome, OF route_paths_member(3) assms(1) _ assms(2,3)]) (simp add: route_simps)

lemma acquire_over_http:
  assumes "carried K (hc_acquire K) req" and "run_state (Acquire L H E (Some (sv_app V)) (Some req)) w = (r, v)"
    and "comes_back K (hc_acquired K) (of_outcome r)"
  shows "run_state (client_Acquire (loopback L H K flushes mux texts V E base) K base (Some req)) w =
    (map_sum remote_error the (of_outcome r), v)"
  unfolding client_Acquire_def marshal_pointer_def option.case
  by (rule post_loopback [where m = "\<lambda>q. Acquire L H E (Some (sv_app V)) (Some q)" and g = of_outcome, OF route_paths_member(5) assms(1) _ assms(2,3)]) (simp add: route_simps)

lemma add_provider_over_http:
  assumes "carried K (hc_provider K) req" and "run_state (AddProvider L H E (Some (sv_app V)) (Some req)) w = (r, v)"
    and "comes_back K (hc_providers K) (of_res r)"
  shows "run_state (client_AddProvider (loopback L H K flushes mux texts V E base) K base (Some req)) w =
    (map_sum remote_error (\<lambda>x. x) r, v)"
  unfolding client_AddProvider_def marshal_pointer_def option.case of_res_remote [symmetric]
  by (rule post_loopback [where m = "\<lambda>q. AddProvider L H E (Some (sv_app V)) (Some q)" and g = of_res, OF route_paths_member(7) assms(1) _ assms(2,3)]) (simp add: route_simps)

lemma acquire_stream_over_http:
  assumes "carried K (hc_acquire K) req" and "run_state (Acquire L H E (Some (sv_app V)) (Some req)) w = (r, v)"
    and "list_all readable (operation_messages K (hc_acquired K) w v (of_outcome r))"
  shows "run_state (client_AcquireStream L (loopback L H K True mux texts V E base) K base (Some req) onEvent) w =
    run_state (consume L \<lparr>sj_result = wi_unmarshal (hc_acquired K), sj_error = wi_unmarshal (hc_error K)\<rparr> onEvent rest
      (map plain_message (operation_messages K (hc_acquired K) w v (of_outcome r)))) v"
  unfolding client_AcquireStream_def marshal_pointer_def option.case
  by (rule stream_loopback [where m = "\<lambda>q. Acquire L H E (Some (sv_app V)) (Some q)" and g = of_outcome, OF route_paths_member(6) assms(1) _ assms(2,3)]) (simp add: route_simps)


lemma query_filter_back:
  "query_filter \<lparr>hq_method = need, hq_path = p, hq_query = sort_key fst (idQuery (rf_capability_id f) (rf_provider_id f)), hq_body = t\<rparr> = f"
proof -
  have le: "queryCapabilityID \<le> queryProviderID" by code_simp
  show ?thesis by (cases f) (auto simp: query_filter_def idQuery_def query_get_def le)
qed

lemma eval_over_http:
  assumes "run_state (app_Eval E (Some (sv_app V)) (Some f)) w = (r, v)" and "comes_back K (hc_eval K) (of_res r)"
  shows "run_state (client_Eval (loopback L H K flushes mux texts V E base) K base (Some f)) w =
    (map_sum remote_error (\<lambda>x. x) r, v)"
  unfolding client_Eval_def evalQuery_def option.case of_res_remote [symmetric]
  by (rule get_loopback [where m = "app_Eval E (Some (sv_app V)) (Some f)" and g = of_res, OF route_paths_member(9) _ assms]) (simp add: route_simps query_filter_back)

lemma list_providers_over_http:
  assumes "run_state (app_ListProviders E (Some (sv_app V))) w = (r, v)" and "comes_back K (hc_providers K) (of_res r)"
  shows "run_state (client_ListProviders (loopback L H K flushes mux texts V E base) K base) w =
    (map_sum remote_error (\<lambda>x. x) r, v)"
  unfolding client_ListProviders_def option.case of_res_remote [symmetric]
  by (rule get_loopback [where m = "app_ListProviders E (Some (sv_app V))" and g = of_res, OF route_paths_member(7) _ assms]) (simp add: route_simps query_filter_back)

text \<open>
  A filtered listing over HTTP is the listing: whatever bytes the two ids of the filter hold, they come
  out of the query of the URL unchanged, an empty one as empty, and the client returns what the daemon
  lists or its error.
\<close>

theorem capabilities_over_http:
  assumes "run_state (app_ListCapabilities L H E (Some (sv_app V)) (Some f)) w = (r, v)"
    and "comes_back K (hc_capabilities K) (of_res r)"
  shows "run_state (client_ListCapabilities (loopback L H K flushes mux texts V E base) K base (Some f)) w =
    (map_sum remote_error (\<lambda>x. x) r, v)"
  unfolding client_ListCapabilities_def capabilityQuery_def option.case of_res_remote [symmetric]
  by (rule get_loopback [where m = "app_ListCapabilities L H E (Some (sv_app V)) (Some f)" and g = of_res, OF route_paths_member(8) _ assms]) (simp add: route_simps query_filter_back)

section \<open>Examples\<close>

abbreviation demo_loop :: "fsys world transport" where
  "demo_loop \<equiv> loopback plain_lib echo_host demo_codecs True moved (\<lambda>_. []) demo_server Cal_Run.demo_env ''http://d''"

lemma echo_run: "\<exists>v. run_state (app_Run plain_lib Cal_Run.demo_env (Some (sv_app demo_server)) (Some echo_request)) demo_world = (Inr demo_run, v)"
proof -
  have runner: "the (ap_run (sv_app demo_server)) Cal_Run.demo_env = demo_runner"
    by (simp add: demo_server_def app_wired_def echo_host_def demo_runner_def Let_def)
  have valid: "app_validate (Some (sv_app demo_server)) = None" by (simp add: demo_server_def app_wired_valid)
  have req: "app_run_of echo_request = demo_request" "xn_strategy echo_request = []"
    by (simp_all add: app_run_of_def echo_request_def demo_request_def)
  obtain v where "run_state (run_Run plain_lib Cal_Run.demo_env (Some demo_runner) (Some demo_request)) demo_world = (Inr demo_result, v)"
    using demo_succeeds by blast
  then show ?thesis
    by (simp add: app_Run_def valid req runner validateStrategy_def run_eval demo_result_def)
qed

lemma fits_short: "one_line e \<Longrightarrow> one_line d \<Longrightarrow> length e < 100 \<Longrightarrow> length d < 100 \<Longrightarrow> fits (e, d)"
  by (simp add: fits_def maxScanTokenSize_def)


definition awkward_filter :: record_filter where
  "awkward_filter = \<lparr>rf_provider_id = ''a&b=c%;?'', rf_capability_id = '' + ''\<rparr>"

theorem capabilities_over_http_witness:
  "\<exists>v. run_state (client_ListCapabilities demo_loop demo_codecs ''http://d'' (Some awkward_filter)) demo_world = (Inr (0, []), v)"
proof -
  let ?m = "app_ListCapabilities plain_lib echo_host Cal_Run.demo_env (Some (sv_app demo_server)) (Some awkward_filter)"
  have "fst (run_state ?m demo_world) = Inr (0, [])" by code_simp
  then obtain v where run: "run_state ?m demo_world = (Inr (0, []), v)" by (cases "run_state ?m demo_world") auto
  have "comes_back demo_codecs (hc_capabilities demo_codecs) (of_res (Inr (0, [])))"
    by (simp add: comes_back_def of_res_def answered_def demo_codecs_def fixed_wire_def)
  from capabilities_over_http [OF run this] show ?thesis by auto
qed

end
