(* ===== verification/Cal_Logging.thy ===== *)
theory Cal_Logging
  imports Cal_Config Cal_Proposal
begin

text \<open>
  \<^verbatim>\<open>internal/logging\<close>: what the process logs and where, and the log file that is rotated by size.
  \<^verbatim>\<open>cald/app/operation_log.go\<close>: the attributes of the lines that the daemon logs.
\<close>

section \<open>The rotated file\<close>

record rotating_writer =
  rw_path :: string
  rw_max_bytes :: int
  rw_max_files :: int

definition newRotatingWriter :: "string \<Rightarrow> int \<Rightarrow> int \<Rightarrow> (fsys, rotating_writer res) state" where
  "newRotatingWriter path maxBytes maxFiles =
     (if maxBytes \<le> 0 then ret (Inl (EText ''log max_bytes must be positive''))
      else if maxFiles \<le> 0 then ret (Inl (EText ''log max_files must be positive''))
      else do {
        d \<leftarrow> fs_mkdir_all (path_dir path);
        ret (case d of
               Inl e \<Rightarrow> Inl e
             | Inr _ \<Rightarrow> Inr \<lparr>rw_path = path, rw_max_bytes = maxBytes, rw_max_files = maxFiles\<rparr>)})"

definition rotatedPath :: "string \<Rightarrow> int \<Rightarrow> string" where
  "rotatedPath path index = path @ ''.'' @ itoa index"

definition removeIfExists :: "string \<Rightarrow> (fsys, gerr option) state" where
  "removeIfExists path = do {
     r \<leftarrow> fs_remove path;
     ret (case r of Inl e \<Rightarrow> if err_not_exist e then None else Some e | Inr _ \<Rightarrow> None)}"

definition renameIfExists :: "string \<Rightarrow> string \<Rightarrow> (fsys, gerr option) state" where
  "renameIfExists old new = do {
     r \<leftarrow> fs_rename old new;
     ret (case r of Inl e \<Rightarrow> if err_not_exist e then None else Some e | Inr _ \<Rightarrow> None)}"

text \<open>The loop of \<^verbatim>\<open>rotate\<close>, from index \<open>n\<close> down to 1.\<close>

fun shift_files :: "string \<Rightarrow> nat \<Rightarrow> (fsys, gerr option) state" where
  "shift_files path 0 = ret None"
| "shift_files path (Suc n) = do {
     r \<leftarrow> renameIfExists (rotatedPath path (int (Suc n))) (rotatedPath path (int (Suc n) + 1));
     (case r of Some e \<Rightarrow> ret (Some e) | None \<Rightarrow> shift_files path n)}"

definition rotate :: "rotating_writer \<Rightarrow> (fsys, gerr option) state" where
  "rotate W = do {
     r \<leftarrow> removeIfExists (rotatedPath (rw_path W) (rw_max_files W));
     (case r of
        Some e \<Rightarrow> ret (Some e)
      | None \<Rightarrow> do {
          s \<leftarrow> shift_files (rw_path W) (nat (rw_max_files W - 1));
          (case s of
             Some e \<Rightarrow> ret (Some e)
           | None \<Rightarrow> renameIfExists (rw_path W) (rotatedPath (rw_path W) 1))})}"

text \<open>\<^verbatim>\<open>os.Stat\<close> of a file, \<^verbatim>\<open>os.OpenFile\<close> for appending and the write.\<close>

definition fs_size :: "string \<Rightarrow> (fsys, int res) state" where
  "fs_size p = syscall (\<lambda>s. case map_of (fs_files s) p of None \<Rightarrow> Inl (not_exist ''stat'' p) | Some c \<Rightarrow> Inr (int (length c), s))"

definition fs_open_append :: "string \<Rightarrow> (fsys, unit res) state" where
  "fs_open_append p = syscall (\<lambda>s.
     if p \<in> set (fs_dirs s) then Inl (EOS (''open '' @ p @ '': is a directory''))
     else if map_of (fs_files s) p = None then Inr ((), s\<lparr>fs_files := put p [] (fs_files s)\<rparr>) else Inr ((), s))"

definition fs_append :: "string \<Rightarrow> string \<Rightarrow> (fsys, unit res) state" where
  "fs_append p line = syscall (\<lambda>s.
     Inr ((), s\<lparr>fs_files := put p ((case map_of (fs_files s) p of None \<Rightarrow> [] | Some c \<Rightarrow> c) @ line) (fs_files s)\<rparr>))"

definition rotateIfNeeded :: "rotating_writer \<Rightarrow> int \<Rightarrow> (fsys, gerr option) state" where
  "rotateIfNeeded W incoming = do {
     info \<leftarrow> fs_size (rw_path W);
     (case info of
        Inl e \<Rightarrow> ret (if err_not_exist e then None else Some e)
      | Inr bytes \<Rightarrow> if bytes + incoming \<le> rw_max_bytes W then ret None else rotate W)}"

definition log_Write :: "rotating_writer \<Rightarrow> string \<Rightarrow> (fsys, gerr option) state" where
  "log_Write W p = do {
     r \<leftarrow> rotateIfNeeded W (int (length p));
     (case r of
        Some e \<Rightarrow> ret (Some e)
      | None \<Rightarrow> do {
          opened \<leftarrow> fs_open_append (rw_path W);
          (case opened of
             Inl e \<Rightarrow> ret (Some e)
           | Inr _ \<Rightarrow> do {
               w \<leftarrow> fs_append (rw_path W) p;
               ret (case w of Inl e \<Rightarrow> Some e | Inr _ \<Rightarrow> None)})})}"

section \<open>What the files hold\<close>

text \<open>The content of a file, empty if it is missing; the file with index 0 is the one written to.\<close>

definition log_path :: "string \<Rightarrow> nat \<Rightarrow> string" where
  "log_path path n = (if n = 0 then path else rotatedPath path (int n))"

definition log_file :: "string \<Rightarrow> fsys \<Rightarrow> nat \<Rightarrow> string option" where
  "log_file path s n = map_of (fs_files s) (log_path path n)"

definition log_text :: "string \<Rightarrow> fsys \<Rightarrow> nat \<Rightarrow> string" where
  "log_text path s n = (case log_file path s n of None \<Rightarrow> [] | Some c \<Rightarrow> c)"

text \<open>All lines that are kept, the oldest first.\<close>

definition log_history :: "rotating_writer \<Rightarrow> fsys \<Rightarrow> string" where
  "log_history W s = concat (map (log_text (rw_path W) s) (rev [0..<Suc (nat (rw_max_files W))]))"

lemma itoa_inj: "itoa (int m) = itoa (int n) \<Longrightarrow> m = n"
  by (simp add: itoa_def nat_text_inj)

lemma log_path_inj: "log_path path m = log_path path n \<longleftrightarrow> m = n"
  by (auto simp: log_path_def rotatedPath_def dest: itoa_inj)

text \<open>What a rename that does not fail does to the files.\<close>

definition moved_file :: "string \<Rightarrow> string \<Rightarrow> (string \<Rightarrow> string option) \<Rightarrow> (string \<Rightarrow> string option)" where
  "moved_file old new m = (if m old = None then m else (m(old := None))(new := m old))"

lemma wp_renameIfExists:
  "wp (renameIfExists old new) (\<lambda>r t. r = None \<longrightarrow> map_of (fs_files t) = moved_file old new (map_of (fs_files s))) s"
  unfolding renameIfExists_def wp_bind wp_return fs_rename_def wp_syscall Let_def
  by (auto simp: moved_file_def err_not_exist_def fun_eq_iff split: option.split)

lemma wp_removeIfExists:
  "wp (removeIfExists p) (\<lambda>r t. r = None \<longrightarrow> map_of (fs_files t) = (map_of (fs_files s))(p := None)) s"
  unfolding removeIfExists_def wp_bind wp_return fs_remove_def wp_syscall Let_def
  by (auto simp: err_not_exist_def fun_eq_iff split: option.split)

text \<open>Shifting: with the file above the top gone, every file moves up by one.\<close>

definition shifted :: "nat \<Rightarrow> (nat \<Rightarrow> string option) \<Rightarrow> (nat \<Rightarrow> string option)" where
  "shifted n m = (\<lambda>i. if i = 0 then m 0 else if i = 1 then None else if i \<le> Suc n then m (i - 1) else m i)"

lemma shifted_step: "shifted n (m(Suc n := None, Suc (Suc n) := m (Suc n))) = shifted (Suc n) m"
proof
  fix i
  consider "i = 0" | "i = 1" | "1 < i" "i \<le> Suc n" | "i = Suc (Suc n)" | "Suc (Suc n) < i" by linarith
  then show "shifted n (m(Suc n := None, Suc (Suc n) := m (Suc n))) i = shifted (Suc n) m i"
    by cases (auto simp: shifted_def)
qed

lemma shifted_0: "m 1 = None \<Longrightarrow> shifted 0 m = m"
  by (rule ext) (simp add: shifted_def)

lemma log_file_moved:
  assumes "map_of (fs_files t) = moved_file (log_path path m) (log_path path n) (map_of (fs_files s))"
    and "log_file path s n = None" and "m \<noteq> n"
  shows "log_file path t = (log_file path s)(m := None, n := log_file path s m)"
  using assms by (auto simp: log_file_def moved_file_def log_path_inj fun_eq_iff)

lemma wp_shift_files:
  assumes "log_file path s (Suc n) = None"
  shows "wp (shift_files path n) (\<lambda>r t. r = None \<longrightarrow> log_file path t = shifted n (log_file path s)) s"
  using assms
proof (induction n arbitrary: s)
  case 0
  then show ?case by (simp add: wp_return shifted_0)
next
  case (Suc n)
  have paths: "rotatedPath path (int (Suc n)) = log_path path (Suc n)"
    "rotatedPath path (int (Suc n) + 1) = log_path path (Suc (Suc n))"
    by (simp_all add: log_path_def)
  have next_ok: "wp (case r of Some e \<Rightarrow> ret (Some e) | None \<Rightarrow> shift_files path n)
      (\<lambda>r t. r = None \<longrightarrow> log_file path t = shifted (Suc n) (log_file path s)) t"
    if "r = None \<longrightarrow> map_of (fs_files t) = moved_file (log_path path (Suc n)) (log_path path (Suc (Suc n))) (map_of (fs_files s))" for r t
  proof (cases r)
    case None
    with that have t: "log_file path t = (log_file path s)(Suc n := None, Suc (Suc n) := log_file path s (Suc n))"
      by (intro log_file_moved [OF _ Suc.prems]) auto
    then have "log_file path t (Suc n) = None" by simp
    from Suc.IH [OF this] show ?thesis unfolding t shifted_step None by simp
  qed (simp add: wp_return)
  show ?case
    unfolding shift_files.simps wp_bind paths by (rule wp_mono [OF wp_renameIfExists]) (rule next_ok)
qed

text \<open>A rotation drops the last file and moves every other one up.\<close>

lemma wp_rotate:
  assumes "0 < rw_max_files W"
  shows "wp (rotate W) (\<lambda>r t. r = None \<longrightarrow>
    (\<forall>i. log_file (rw_path W) t i = (if i = 0 then None
      else if i \<le> nat (rw_max_files W) then log_file (rw_path W) s (i - 1) else log_file (rw_path W) s i))) s"
proof -
  let ?p = "rw_path W" and ?n = "nat (rw_max_files W)"
  obtain n where n: "?n = Suc n" using assms by (cases ?n) auto
  then have max: "rw_max_files W = int (Suc n)" using assms by linarith
  have paths: "rotatedPath ?p (rw_max_files W) = log_path ?p (Suc n)" "rotatedPath ?p 1 = log_path ?p 1"
    "nat (rw_max_files W - 1) = n"
    unfolding max by (simp_all add: log_path_def)
  have p0: "renameIfExists ?p = renameIfExists (log_path ?p 0)" by (simp add: log_path_def)
  have last_step: "wp (case r of Some e \<Rightarrow> ret (Some e) | None \<Rightarrow> renameIfExists (log_path ?p 0) (log_path ?p 1))
      (\<lambda>r v. r = None \<longrightarrow> log_file ?p v = (shifted n m)(0 := None, 1 := m 0)) u"
    if "r = None \<longrightarrow> log_file ?p u = shifted n m" for r u m
  proof (cases r)
    case None
    with that have u: "log_file ?p u = shifted n m" by simp
    then have "log_file ?p u 1 = None" "log_file ?p u 0 = m 0" by (simp_all add: shifted_def)
    with u None show ?thesis
      by (auto intro!: wp_mono [OF wp_renameIfExists] simp: log_file_moved [where path = ?p and m = 0 and n = 1])
  qed (simp add: wp_return)
  have shift_step: "wp (do {
        s \<leftarrow> shift_files ?p n;
        (case s of Some e \<Rightarrow> ret (Some e) | None \<Rightarrow> renameIfExists (log_path ?p 0) (log_path ?p 1))})
      (\<lambda>r v. r = None \<longrightarrow> log_file ?p v = (shifted n (log_file ?p t))(0 := None, 1 := log_file ?p t 0)) t"
    if "log_file ?p t (Suc n) = None" for t
    unfolding wp_bind by (rule wp_mono [OF wp_shift_files [OF that]]) (rule last_step)
  have rotated: "((shifted n m)(0 := None, 1 := m 0)) i = (if i = 0 then None else if i \<le> ?n then old (i - 1) else old i)"
    if "\<And>i. m i = (if i = Suc n then None else old i)" for m old and i :: nat
  proof -
    consider "i = 0" | "i = 1" | "1 < i" "i \<le> Suc n" | "Suc n < i" by linarith
    then show ?thesis by cases (auto simp: shifted_def that n)
  qed
  show ?thesis
    unfolding rotate_def wp_bind [of "removeIfExists _"] paths p0
  proof (rule wp_mono [OF wp_removeIfExists])
    fix r :: "gerr option" and t :: fsys assume r: "r = None \<longrightarrow> map_of (fs_files t) = (map_of (fs_files s))(log_path ?p (Suc n) := None)"
    show "wp (case r of Some e \<Rightarrow> ret (Some e) | None \<Rightarrow> do {
        s \<leftarrow> shift_files ?p n;
        (case s of Some e \<Rightarrow> ret (Some e) | None \<Rightarrow> renameIfExists (log_path ?p 0) (log_path ?p 1))})
      (\<lambda>r v. r = None \<longrightarrow> (\<forall>i. log_file ?p v i = (if i = 0 then None else if i \<le> ?n then log_file ?p s (i - 1) else log_file ?p s i))) t"
    proof (cases r)
      case None
      with r have t: "log_file ?p t i = (if i = Suc n then None else log_file ?p s i)" for i
        by (simp add: log_file_def log_path_inj)
      then have "log_file ?p t (Suc n) = None" by simp
      from shift_step [OF this] show ?thesis
        unfolding None option.case by (rule wp_mono) (intro impI allI, drule mp, assumption, simp only: rotated [OF t])
    qed (simp add: wp_return)
  qed
qed

section \<open>Writing\<close>

lemma log_history_top:
  assumes "nat (rw_max_files W) = Suc n"
  shows "log_history W s = log_text (rw_path W) s (Suc n) @ concat (map (log_text (rw_path W) s) (rev [0..<Suc n]))"
  using assms by (simp add: log_history_def)

lemma concat_shift:
  assumes "\<And>i. i \<le> n \<Longrightarrow> g (Suc i) = (f i :: string)"
  shows "concat (map g (rev [0..<Suc (Suc n)])) = concat (map f (rev [0..<Suc n])) @ g 0"
proof -
  have "map g (rev [0..<Suc (Suc n)]) = map f (rev [0..<Suc n]) @ [g 0]"
    using assms
  proof (induction n)
    case (Suc n)
    have "map g (rev [0..<Suc (Suc (Suc n))]) = g (Suc (Suc n)) # map g (rev [0..<Suc (Suc n)])" by simp
    also have "\<dots> = f (Suc n) # map f (rev [0..<Suc n]) @ [g 0]" using Suc by simp
    finally show ?case by simp
  qed simp
  then show ?thesis by simp
qed

definition log_bounded :: "rotating_writer \<Rightarrow> fsys \<Rightarrow> bool" where
  "log_bounded W s \<longleftrightarrow>
     list_all (\<lambda>i. int (length (log_text (rw_path W) s i)) \<le> rw_max_bytes W) [0..<Suc (nat (rw_max_files W))]"

lemma log_bounded_total:
  assumes "log_bounded W s"
  shows "int (length (log_history W s)) \<le> (int (nat (rw_max_files W)) + 1) * rw_max_bytes W"
proof -
  define n where "n = nat (rw_max_files W)"
  have "(\<And>i. i \<in> set ns \<Longrightarrow> int (length (f i)) \<le> B) \<Longrightarrow> int (length (concat (map f ns))) \<le> int (length ns) * B"
    for ns :: "nat list" and f :: "nat \<Rightarrow> string" and B
    by (induction ns) (auto simp: algebra_simps intro: add_mono)
  from this [of "rev [0..<Suc n]" "log_text (rw_path W) s" "rw_max_bytes W"]
  show ?thesis using assms unfolding log_bounded_def log_history_def n_def [symmetric] list_all_iff
    by (simp del: upt_Suc add: add.commute)
qed

text \<open>The write itself, after a rotation or without one.\<close>

definition appended :: "rotating_writer \<Rightarrow> string \<Rightarrow> fsys \<Rightarrow> fsys \<Rightarrow> bool" where
  "appended W p s t \<longleftrightarrow> (\<forall>i. log_text (rw_path W) t i = (if i = 0 then log_text (rw_path W) s 0 @ p else log_text (rw_path W) s i))"

lemma wp_log_append:
  "wp (do {
      opened \<leftarrow> fs_open_append (rw_path W);
      (case opened of
         Inl e \<Rightarrow> ret (Some e)
       | Inr _ \<Rightarrow> do {
           w \<leftarrow> fs_append (rw_path W) p;
           ret (case w of Inl e \<Rightarrow> Some e | Inr _ \<Rightarrow> None)})}) (\<lambda>r t. r = None \<longrightarrow> appended W p s t) s"
proof -
  have path: "log_path (rw_path W) i = rw_path W \<longleftrightarrow> i = 0" for i
    using log_path_inj [of "rw_path W" i 0] by (simp add: log_path_def)
  show ?thesis
    unfolding wp_bind fs_open_append_def fs_append_def wp_syscall Let_def
    by (auto simp: wp_return wp_bind wp_syscall Let_def appended_def log_text_def log_file_def path log_path_def [of _ 0] split: option.splits)
qed

lemma appended_history:
  assumes "appended W p s t"
  shows "log_history W t = log_history W s @ p"
proof (cases "nat (rw_max_files W)")
  case (Suc n)
  have "concat (map (log_text (rw_path W) t) (rev [Suc 0..<Suc (Suc n)])) = concat (map (log_text (rw_path W) s) (rev [Suc 0..<Suc (Suc n)]))"
    by (intro arg_cong [where f = concat] map_cong refl) (use assms in \<open>auto simp: appended_def simp del: upt_Suc\<close>)
  moreover have "[0..<Suc (Suc n)] = 0 # [Suc 0..<Suc (Suc n)]" by (simp add: upt_rec)
  ultimately show ?thesis using assms by (simp add: log_history_def Suc appended_def del: upt_Suc)
qed (use assms in \<open>simp add: log_history_def appended_def\<close>)

text \<open>A rotation that succeeded: \<open>u\<close> is the state after it.\<close>

definition rotated_state :: "rotating_writer \<Rightarrow> fsys \<Rightarrow> fsys \<Rightarrow> bool" where
  "rotated_state W s u \<longleftrightarrow> (\<forall>i. log_file (rw_path W) u i = (if i = 0 then None
      else if i \<le> nat (rw_max_files W) then log_file (rw_path W) s (i - 1) else log_file (rw_path W) s i))"

lemma rotated_history:
  assumes "rotated_state W s u" and "0 < rw_max_files W"
  shows "log_history W s = log_text (rw_path W) s (nat (rw_max_files W)) @ log_history W u \<and>
    (log_bounded W s \<and> 0 \<le> rw_max_bytes W \<longrightarrow> log_bounded W u) \<and> log_text (rw_path W) u 0 = []"
proof -
  obtain n where n: "nat (rw_max_files W) = Suc n" using assms(2) by (cases "nat (rw_max_files W)") auto
  have texts: "log_text (rw_path W) u i = (if i = 0 then [] else if i \<le> Suc n then log_text (rw_path W) s (i - 1) else log_text (rw_path W) s i)" for i
    using assms(1) by (simp add: rotated_state_def log_text_def n)
  have "log_history W u = concat (map (log_text (rw_path W) s) (rev [0..<Suc n]))"
    unfolding log_history_def n by (subst concat_shift [of _ _ "log_text (rw_path W) s"]) (simp_all add: texts)
  moreover have "log_bounded W u" if "log_bounded W s" "0 \<le> rw_max_bytes W"
    using that by (auto simp: log_bounded_def list_all_iff texts n simp del: upt_Suc)
  ultimately show ?thesis using log_history_top [OF n, of s] by (simp add: n texts)
qed

text \<open>
  C24. The log on disk is bounded and loses only its oldest file: a line that is written extends the kept
  history (the rotated files from the oldest to the newest, then the live one), or a rotation dropped exactly what
  the last file held before; no other byte is lost, repeated or reordered. If no file was larger than the
  limit and the line is not, no file is afterwards, so the whole log stays within the limit times
  one more than the number of files.
\<close>

theorem log_rotation:
  assumes "0 < rw_max_files W" and "run_state (log_Write W p) s = (None, t)"
  shows "(log_history W t = log_history W s @ p \<or>
      log_history W s @ p = log_text (rw_path W) s (nat (rw_max_files W)) @ log_history W t) \<and>
    (log_bounded W s \<and> int (length p) \<le> rw_max_bytes W \<longrightarrow>
      log_bounded W t \<and> int (length (log_history W t)) \<le> (rw_max_files W + 1) * rw_max_bytes W)"
proof -
  let ?p = "rw_path W" and ?B = "rw_max_bytes W"
  let ?same = "\<lambda>u. \<forall>i. log_file ?p u i = log_file ?p s i"
  have same: "log_text ?p u = log_text ?p s" "log_history W u = log_history W s" "log_bounded W u \<longleftrightarrow> log_bounded W s"
    if "?same u" for u
    using that by (auto simp: log_text_def log_history_def log_bounded_def fun_eq_iff cong: map_cong)
  have rot: "wp (rotate W) (\<lambda>r u. r = None \<longrightarrow> rotated_state W s u) u" if "?same u" for u
    using wp_rotate [OF assms(1), of u] unfolding that [rule_format] rotated_state_def .
  have needed: "wp (rotateIfNeeded W (int (length p))) (\<lambda>r u. r = None \<longrightarrow>
      ?same u \<and> int (length (log_text ?p s 0)) + int (length p) \<le> max ?B (int (length p)) \<or> rotated_state W s u) s"
    unfolding rotateIfNeeded_def wp_bind fs_size_def wp_syscall Let_def
    by (auto simp: wp_return err_not_exist_def log_text_def log_file_def log_path_def le_max_iff_disj
        split: option.split intro!: wp_mono [OF rot])
  have "wp (log_Write W p) (\<lambda>r t. r = None \<longrightarrow> (\<exists>u. (?same u \<and> int (length (log_text ?p s 0)) + int (length p) \<le> max ?B (int (length p))
      \<or> rotated_state W s u) \<and> appended W p u t)) s"
    unfolding log_Write_def wp_bind [of "rotateIfNeeded _ _"]
    apply (rule wp_mono [OF needed])
    subgoal for r u
      by (cases r) (simp only: option.case simp_thms, rule wp_mono [OF wp_log_append], blast, simp add: wp_return)
    done
  from wp_run [OF this assms(2)] obtain u where u: "?same u \<and> int (length (log_text ?p s 0)) + int (length p) \<le> max ?B (int (length p))
      \<or> rotated_state W s u" and t: "appended W p u t" by auto
  have grown: "log_bounded W t" if "log_bounded W u" "int (length (log_text ?p u 0)) + int (length p) \<le> ?B"
    using that t by (auto simp: log_bounded_def list_all_iff appended_def simp del: upt_Suc)
  have total: "int (length (log_history W t)) \<le> (rw_max_files W + 1) * ?B" if "log_bounded W t"
    using log_bounded_total [OF that] assms(1) by simp
  from u show ?thesis
  proof
    assume a: "?same u \<and> int (length (log_text ?p s 0)) + int (length p) \<le> max ?B (int (length p))"
    then have "log_history W t = log_history W s @ p" using appended_history [OF t] same [of u] by simp
    then show ?thesis using a grown total same [of u] by (auto simp: max_def split: if_splits)
  next
    assume r: "rotated_state W s u"
    from rotated_history [OF this assms(1)] appended_history [OF t] grown total show ?thesis by auto
  qed
qed

section \<open>Configuring the log\<close>

abbreviation "EnvLevel \<equiv> ''CAL_LOG_LEVEL''"

record log_options =
  lx_name :: string
  lx_config :: logging_config
  lx_env :: "string list"

record log_result =
  lz_level :: string
  lz_file_enabled :: bool
  lz_file_path :: string
  lz_config_error :: "gerr option"
  lz_file_error :: "gerr option"

text \<open>What is installed: the least level that is written and the file that is written to besides the error output.\<close>

record log_handler =
  lh_level :: int
  lh_file :: "rotating_writer option"

fun slogLevel :: "string \<Rightarrow> int" where
  "slogLevel level =
     (if level = LoggingLevelDebug then -4 else if level = LoggingLevelInfo then 0 else if level = LoggingLevelWarn then 4 else 8)"

definition log_cleanName :: "string \<Rightarrow> string" where
  "log_cleanName name0 =
     (let name = trim_space (path_base name0) in if name = [] \<or> name = ''.'' \<or> name = ''/'' then ''cal'' else name)"

text \<open>\<^verbatim>\<open>defaultDir\<close> of linux and of darwin; \<open>user_home\<close> is \<^verbatim>\<open>os.UserHomeDir\<close>.\<close>

definition log_dir_linux :: "(string \<Rightarrow> string) \<Rightarrow> string res \<Rightarrow> string res" where
  "log_dir_linux getenv user_home =
     (let state = trim_space (getenv ''XDG_STATE_HOME'') in
      if state \<noteq> [] then Inr (path_join [state, ''cal'', ''logs''])
      else (case user_home of Inl e \<Rightarrow> Inl e | Inr home \<Rightarrow> Inr (path_join [home, ''.local'', ''state'', ''cal'', ''logs''])))"

definition log_dir_darwin :: "string res \<Rightarrow> string res" where
  "log_dir_darwin user_home =
     (case user_home of Inl e \<Rightarrow> Inl e | Inr home \<Rightarrow> Inr (path_join [home, ''Library'', ''Logs'', ''cal'']))"

definition log_Path :: "string res \<Rightarrow> string \<Rightarrow> string res" where
  "log_Path dir name = (case dir of Inl e \<Rightarrow> Inl e | Inr d \<Rightarrow> Inr (path_join [d, log_cleanName name @ ''.log'']))"

definition usableConfig :: "golib \<Rightarrow> logging_config \<Rightarrow> logging_config \<times> gerr option" where
  "usableConfig L cfg =
     (case logging_validate L cfg of Some e \<Rightarrow> (cf_logging (config_default L), Some e) | None \<Rightarrow> (cfg, None))"

definition env_lookup :: "string list \<Rightarrow> string \<Rightarrow> string" where
  "env_lookup env key =
     (case find (has_prefix (key @ ''='')) env of None \<Rightarrow> [] | Some item \<Rightarrow> drop (length (key @ ''='')) item)"

definition log_level :: "golib \<Rightarrow> log_options \<Rightarrow> string \<times> gerr option" where
  "log_level L opts =
     (case usableConfig L (lx_config opts) of
        (cfg, err) \<Rightarrow>
          (let env = trim_space (env_lookup (lx_env opts) EnvLevel) in
           if env = [] then (lg_level cfg, err)
           else (case NormalizeLoggingLevel L env of Inr l \<Rightarrow> (l, err) | Inl e \<Rightarrow> (LoggingLevelError, Some e))))"

definition log_Configure :: "golib \<Rightarrow> string res \<Rightarrow> log_options \<Rightarrow> (fsys, log_result \<times> log_handler) state" where
  "log_Configure L dir opts =
     (case log_level L opts of
        (level, err) \<Rightarrow>
          (let file = lg_file (fst (usableConfig L (lx_config opts)));
               res = (\<lambda>path e. \<lparr>lz_level = level, lz_file_enabled = FileEnabled file, lz_file_path = path,
                 lz_config_error = err, lz_file_error = e\<rparr>);
               handler = (\<lambda>w. \<lparr>lh_level = slogLevel level, lh_file = w\<rparr>) in
           if \<not> FileEnabled file then ret (res [] None, handler None)
           else (case log_Path dir (lx_name opts) of
                   Inl e \<Rightarrow> ret (res [] (Some e), handler None)
                 | Inr path \<Rightarrow> do {
                     w \<leftarrow> newRotatingWriter path (lf_max_bytes file) (lf_max_files file);
                     ret (case w of
                            Inl e \<Rightarrow> (res path (Some e), handler None)
                          | Inr x \<Rightarrow> (res path None, handler (Some x)))})))"

text \<open>
  Whatever the settings are, a usable level is installed, and a file only with limits that \<open>log_rotation\<close> needs;
  a configuration that was never filled in (as the daemon's command passes it) counts as invalid and is replaced
  by the default, so the level is the one of the environment or \<^verbatim>\<open>info\<close>.
\<close>

lemma usable_valid: "logging_validate L (fst (usableConfig L cfg)) = None"
  using default_valid [of L] by (auto simp: usableConfig_def config_validate_def config_default_def WithDefaults_def split: option.splits)

lemma wp_log_Configure:
  "wp (log_Configure L dir opts) (\<lambda>r _. lh_level (snd r) = slogLevel (lz_level (fst r)) \<and>
     (\<forall>w. lh_file (snd r) = Some w \<longrightarrow> 0 < rw_max_files w \<and> 0 < rw_max_bytes w \<and> rw_path w = lz_file_path (fst r) \<and>
       lz_file_error (fst r) = None)) s"
proof -
  have wr: "wp (newRotatingWriter path b n) (\<lambda>r _. \<forall>w. r = Inr w \<longrightarrow> 0 < rw_max_files w \<and> 0 < rw_max_bytes w \<and> rw_path w = path) s" for path b n
    unfolding newRotatingWriter_def by (auto simp: wp_return wp_bind intro!: wp_mkdir_all split: sum.split)
  show ?thesis
    unfolding log_Configure_def Let_def
    by (auto simp: wp_return wp_bind split: prod.split sum.splits if_splits intro!: wp_mono [OF wr])
qed

lemma unset_config_logging:
  assumes "lf_max_bytes (lg_file (lx_config opts)) = 0" and "env_lookup (lx_env opts) EnvLevel = []"
  shows "fst (log_level L opts) = LoggingLevelInfo \<and> usableConfig L (lx_config opts) = (cf_logging (config_default L), snd (usableConfig L (lx_config opts)))"
proof -
  have "NormalizeLoggingLevel L LoggingLevelInfo = Inr LoggingLevelInfo" by (rule normalize_level_fixed) simp
  moreover have "blank []" by code_simp
  ultimately have "lg_level (cf_logging (config_default L)) = LoggingLevelInfo"
    by (simp add: config_default_def WithDefaults_def logging_defaults_def defaultLogging_def)
  with assms show ?thesis
    by (auto simp: log_level_def usableConfig_def logging_validate_def split: sum.split)
qed

section \<open>The lines of the daemon\<close>

record log_line =
  ll_failure :: bool
  ll_message :: string
  ll_attrs :: "(string \<times> gval) list"

abbreviation "logEventOperationStart \<equiv> ''operation_start''"
abbreviation "logEventOperationSuccess \<equiv> ''operation_success''"
abbreviation "logEventOperationFailure \<equiv> ''operation_failure''"
abbreviation "logEventProgress \<equiv> ''progress''"
abbreviation "logDetailRawResponse \<equiv> ''raw_response''"

definition logOperationStart :: "string \<Rightarrow> (string \<times> gval) list \<Rightarrow> log_line" where
  "logOperationStart op attrs = \<lparr>ll_failure = False, ll_message = ''cal operation started'',
     ll_attrs = [(''event'', GStr logEventOperationStart), (''op'', GStr op)] @ attrs\<rparr>"

definition logOperationSuccess :: "string \<Rightarrow> int \<Rightarrow> (string \<times> gval) list \<Rightarrow> log_line" where
  "logOperationSuccess op elapsed attrs = \<lparr>ll_failure = False, ll_message = ''cal operation succeeded'',
     ll_attrs = [(''event'', GStr logEventOperationSuccess), (''op'', GStr op), (''duration_ms'', GInt (millis elapsed))] @ attrs\<rparr>"

definition logOperationFailure :: "string \<Rightarrow> int \<Rightarrow> gerr option \<Rightarrow> (string \<times> gval) list \<Rightarrow> log_line" where
  "logOperationFailure op elapsed err attrs = \<lparr>ll_failure = True, ll_message = ''cal operation failed'',
     ll_attrs = [(''event'', GStr logEventOperationFailure), (''op'', GStr op), (''duration_ms'', GInt (millis elapsed))] @ attrs
       @ (case err of None \<Rightarrow> [] | Some e \<Rightarrow> [(''error'', GStr (err_text e))])\<rparr>"

definition appendString :: "string \<Rightarrow> string \<Rightarrow> (string \<times> gval) list" where
  "appendString key val = (if val = [] then [] else [(key, GStr val)])"

fun safe_detail :: "string \<times> gval \<Rightarrow> (string \<times> gval) list" where
  "safe_detail (key, val) =
     (if key = [] \<or> key = logDetailRawResponse then []
      else (case val of
              GStr t \<Rightarrow> appendString key t
            | GInt _ \<Rightarrow> [(key, val)]
            | GFloat _ \<Rightarrow> [(key, val)]
            | GBool _ \<Rightarrow> [(key, val)]
            | _ \<Rightarrow> []))"

definition appendSafeDetails :: "ginputs \<Rightarrow> (string \<times> gval) list" where
  "appendSafeDetails details = concat (map safe_detail details)"

fun scope_text :: "progress_scope \<Rightarrow> string" where
  "scope_text ScopeAcquisition = ''acquisition''"
| "scope_text ScopeRun = ''run''"
| "scope_text ScopeUse = ''use''"

fun stage_text :: "progress_stage \<Rightarrow> string" where
  "stage_text StageEntry = ''entry''"
| "stage_text StageCatalog = ''catalog''"
| "stage_text StageObserve = ''observe''"
| "stage_text StageProposal = ''proposal''"
| "stage_text StageProbe = ''probe''"
| "stage_text StagePromote = ''promote''"
| "stage_text StageResolve = ''resolve''"
| "stage_text StageExecute = ''execute''"
| "stage_text StageVerify = ''verify''"
| "stage_text StageRecord = ''record''"
| "stage_text StageSelect = ''select''"
| "stage_text StagePlan = ''plan''"
| "stage_text StageRun = ''run''"

definition logProgress :: "progress_event option \<Rightarrow> log_line option" where
  "logProgress event =
     (case event of
        None \<Rightarrow> None
      | Some ev \<Rightarrow> Some
          \<lparr>ll_failure = (pe_status ev = Failed),
           ll_message = (if pe_status ev = Failed then ''cal progress failed'' else ''cal progress''),
           ll_attrs = [(''event'', GStr logEventProgress), (''scope'', GStr (scope_text (pe_scope ev))),
               (''stage'', GStr (stage_text (pe_stage ev))), (''status'', GStr (status_text (pe_status ev)))] @
             appendString ''step'' (step_text (pe_step ev)) @ appendString ''message'' (pe_message ev) @
             appendString ''trace_id'' (pe_trace_id ev) @ appendString ''run_id'' (pe_run_id ev) @
             appendString ''use_id'' (pe_use_id ev) @ appendString ''provider_id'' (pe_provider_id ev) @
             appendString ''capability_id'' (pe_capability_id ev) @ appendString ''binding_id'' (pe_binding_id ev) @
             appendSafeDetails (pe_details ev) @
             (if pe_duration_ms ev > 0 then [(''duration_ms'', GInt (pe_duration_ms ev))] else []) @
             (case pe_error ev of
                None \<Rightarrow> []
              | Some e \<Rightarrow> appendString ''error_code'' (re_code e) @ appendString ''error'' (re_message e))\<rparr>)"

fun scalar :: "gval \<Rightarrow> bool" where
  "scalar (GStr _) = True" | "scalar (GInt _) = True" | "scalar (GFloat _) = True" | "scalar (GBool _) = True" | "scalar _ = False"

text \<open>
  C25. The daemon never logs the raw answer of a model: whatever the details of a progress event are, the
  attributes of its log line have no raw_response, no empty name and only scalar values, and the line has the
  error level exactly when the event failed.
\<close>

theorem progress_log_safe:
  "case logProgress (Some ev) of
     None \<Rightarrow> False
   | Some l \<Rightarrow> list_all (\<lambda>a. fst a \<noteq> logDetailRawResponse \<and> fst a \<noteq> [] \<and> scalar (snd a)) (ll_attrs l) \<and>
       (ll_failure l = (pe_status ev = Failed))"
proof -
  have detail: "list_all (\<lambda>a. fst a \<noteq> logDetailRawResponse \<and> fst a \<noteq> [] \<and> scalar (snd a)) (safe_detail d)" for d
    by (cases d; cases "snd d") (auto simp: appendString_def)
  have "list_all (\<lambda>a. fst a \<noteq> logDetailRawResponse \<and> fst a \<noteq> [] \<and> scalar (snd a)) (appendSafeDetails ds)" for ds
    by (induction ds) (use detail in \<open>auto simp: appendSafeDetails_def\<close>)
  moreover have "list_all (\<lambda>a. fst a \<noteq> logDetailRawResponse \<and> fst a \<noteq> [] \<and> scalar (snd a)) (appendString k v)"
    if "k \<noteq> logDetailRawResponse" "k \<noteq> []" for k v
    using that by (simp add: appendString_def)
  ultimately show ?thesis by (simp add: logProgress_def split: option.split)
qed

section \<open>Examples\<close>

definition small_writer :: rotating_writer where
  "small_writer = \<lparr>rw_path = ''/l/cal.log'', rw_max_bytes = 4, rw_max_files = 2\<rparr>"

definition full_log :: fsys where
  "full_log = \<lparr>fs_files = [(''/l/cal.log'', ''aaa''), (''/l/cal.log.1'', ''bb''), (''/l/cal.log.2'', ''cc'')],
     fs_dirs = [''/l''], fs_clock = 0, fs_fault = (\<lambda>_. None)\<rparr>"

theorem log_rotation_witness:
  "log_history small_writer full_log = ''ccbbaaa'' \<and>
   (\<exists>t. run_state (log_Write small_writer ''dd'') full_log = (None, t) \<and> log_history small_writer t \<in> {''ccbbaaadd'', ''bbaaadd''} \<and>
     length (log_history small_writer t) \<le> 12)"
proof -
  have "fst (run_state (log_Write small_writer ''dd'') full_log) = None" by code_simp
  then obtain t where t: "run_state (log_Write small_writer ''dd'') full_log = (None, t)"
    by (cases "run_state (log_Write small_writer ''dd'') full_log") auto
  have h: "log_history small_writer full_log = ''ccbbaaa''" "log_text (rw_path small_writer) full_log 2 = ''cc''" by code_simp+
  have b: "log_bounded small_writer full_log" by code_simp
  have w: "nat (rw_max_files small_writer) = 2" "0 < rw_max_files small_writer" "rw_max_files small_writer = 2" "rw_max_bytes small_writer = 4"
    by (simp_all add: small_writer_def)
  from log_rotation [OF w(2) t] h b show ?thesis using t by (auto simp: w)
qed

end
