(* ===== verification/Cal_Daemon.thy ===== *)
theory Cal_Daemon
  imports Cal_Http Cal_Endpoint Cal_Logging
begin

text \<open>
  \<^verbatim>\<open>internal/cald/daemon\<close> and \<^verbatim>\<open>internal/cald/command.go\<close>: the process of the daemon. What \<^verbatim>\<open>Serve\<close> sets up and
  takes down is an operation on the file system; how requests, a stop request and the context of the process
  interleave while it serves is a step relation.
\<close>

section \<open>The home directory\<close>

abbreviation "envHome \<equiv> ''CAL_HOME''"

text \<open>\<open>user_home\<close> is \<^verbatim>\<open>os.UserHomeDir\<close>; the branches of linux and darwin.\<close>

definition darwinHome :: "string res \<Rightarrow> string res" where
  "darwinHome user_home =
     (case user_home of Inl e \<Rightarrow> Inl e | Inr home \<Rightarrow> Inr (path_join [home, ''Library'', ''Application Support'', ''cal'']))"

definition linuxHome :: "string res \<Rightarrow> string list \<Rightarrow> string res" where
  "linuxHome user_home env =
     (let dir = trim_space (env_lookup env ''XDG_DATA_HOME'') in
      if dir \<noteq> [] then Inr (path_join [dir, ''cal''])
      else (case user_home of Inl e \<Rightarrow> Inl e | Inr home \<Rightarrow> Inr (path_join [home, ''.local'', ''share'', ''cal''])))"

definition defaultHome :: "bool \<Rightarrow> string res \<Rightarrow> string list \<Rightarrow> string res" where
  "defaultHome darwin user_home env = (if darwin then darwinHome user_home else linuxHome user_home env)"

definition resolveHome :: "bool \<Rightarrow> string res \<Rightarrow> string \<Rightarrow> string list \<Rightarrow> string res" where
  "resolveHome darwin user_home explicit env =
     (let home = trim_space explicit in
      if home \<noteq> [] then Inr (path_clean home)
      else (let configured = trim_space (env_lookup env envHome) in
        if configured \<noteq> [] then Inr (path_clean configured) else defaultHome darwin user_home env))"

section \<open>Options\<close>

abbreviation "defaultAddr \<equiv> ''127.0.0.1:0''"
abbreviation "defaultShutdownTimeout \<equiv> 3 * 1000000000 :: int"

definition daemon_ErrHomeRequired :: gerr where
  "daemon_ErrHomeRequired = EVar ''daemon.ErrHomeRequired'' ''daemon app home is required''"

text \<open>Whether the logging options have an error writer or an environment is a flag each.\<close>

record daemon_logging =
  dl_options :: log_options
  dl_err :: bool
  dl_env :: bool

record daemon_options =
  do_home :: string
  do_work_root :: string
  do_addr :: string
  do_logging :: daemon_logging
  do_shutdown_timeout :: int

definition daemon_New :: "daemon_options \<Rightarrow> daemon_options res" where
  "daemon_New opts =
     (if blank (do_home opts) then Inl daemon_ErrHomeRequired
      else Inr (opts\<lparr>do_home := trim_space (do_home opts),
        do_addr := (if blank (do_addr opts) then defaultAddr else do_addr opts),
        do_shutdown_timeout := (if do_shutdown_timeout opts \<le> 0 then defaultShutdownTimeout else do_shutdown_timeout opts)\<rparr>))"

definition loggingConfigured :: "daemon_logging \<Rightarrow> bool" where
  "loggingConfigured l \<longleftrightarrow>
     \<not> blank (lx_name (dl_options l)) \<or> dl_err l \<or> dl_env l \<or> \<not> blank (lg_level (lx_config (dl_options l))) \<or>
     lf_enabled (lg_file (lx_config (dl_options l))) \<noteq> None \<or> lf_max_bytes (lg_file (lx_config (dl_options l))) \<noteq> 0 \<or>
     lf_max_files (lg_file (lx_config (dl_options l))) \<noteq> 0"

definition configureLogging :: "golib \<Rightarrow> string res \<Rightarrow> daemon_options \<Rightarrow> (fsys, log_handler option) state" where
  "configureLogging L dir opts =
     (if \<not> loggingConfigured (do_logging opts) then ret None
      else do {
        r \<leftarrow> log_Configure L dir ((dl_options (do_logging opts))\<lparr>lx_name :=
          (if blank (lx_name (dl_options (do_logging opts))) then ''cald'' else lx_name (dl_options (do_logging opts)))\<rparr>);
        ret (Some (snd r))})"

text \<open>The command \<^verbatim>\<open>cald serve\<close>: the logging configuration stays unset.\<close>

definition serve_options :: "string list \<Rightarrow> string \<Rightarrow> daemon_options" where
  "serve_options env home = \<lparr>do_home = home, do_work_root = [], do_addr = [],
     do_logging = \<lparr>dl_options = \<lparr>lx_name = ''cald'',
         lx_config = \<lparr>lg_level = [], lg_file = \<lparr>lf_enabled = None, lf_max_bytes = 0, lf_max_files = 0\<rparr>\<rparr>, lx_env = env\<rparr>,
       dl_err = True, dl_env = True\<rparr>,
     do_shutdown_timeout = 0\<rparr>"

text \<open>
  The settings of the configuration file for the log have no effect: the handler the daemon installs depends on
  its environment only.
\<close>

lemma serve_ignores_log_config:
  assumes "env_lookup env EnvLevel = []"
  shows "wp (configureLogging L dir (serve_options env home)) (\<lambda>r _. \<exists>h. r = Some h \<and> lh_level h = slogLevel LoggingLevelInfo) s"
proof -
  let ?o = "dl_options (do_logging (serve_options env home))"
  have name: "\<not> blank ''cald''" by code_simp
  have opts: "configureLogging L dir (serve_options env home) = do {r \<leftarrow> log_Configure L dir ?o; ret (Some (snd r))}"
    using name by (simp add: configureLogging_def loggingConfigured_def serve_options_def)
  have level: "fst (log_level L ?o) = LoggingLevelInfo"
    using unset_config_logging [of ?o L] assms by (simp add: serve_options_def)
  have "wp (log_Configure L dir ?o) (\<lambda>r _. lz_level (fst r) = LoggingLevelInfo) s"
    unfolding log_Configure_def case_prod_beta Let_def level
    by (cases "FileEnabled (lg_file (fst (usableConfig L (lx_config ?o))))"; cases "log_Path dir (lx_name ?o)")
      (simp_all add: wp_return wp_bind wp_any split: sum.split)
  from wp_conj [OF this wp_log_Configure] show ?thesis
    unfolding opts wp_bind by (rule wp_mono) (simp add: wp_return)
qed

section \<open>Setting up and taking down\<close>

text \<open>
  What the machine gives: the process id, a listener by its address, and \<open>sh_serve\<close>, everything between the start
  of the server and the end of the \<^verbatim>\<open>select\<close>, with its result.
\<close>

record serve_host =
  sh_pid :: int
  sh_listen :: "string \<Rightarrow> (fsys, string res) state"
  sh_serve :: "server \<Rightarrow> (fsys, gerr option) state"
  sh_now :: string

definition daemon_status_of :: "serve_host \<Rightarrow> string \<Rightarrow> daemon_status" where
  "daemon_status_of M address = \<lparr>ds_running = True, ds_base_url = ''http://'' @ address, ds_pid = sh_pid M\<rparr>"

definition endpointRecord :: "serve_host \<Rightarrow> daemon_status \<Rightarrow> endpoint" where
  "endpointRecord M status = \<lparr>ep_base_url = ds_base_url status, ep_pid = ds_pid status, ep_created_at = sh_now M\<rparr>"

text \<open>
  The part of \<^verbatim>\<open>Serve\<close> up to the deferred removal of the endpoint. The listener is closed by a deferred call,
  which leaves the file system alone.
\<close>

definition daemon_open ::
    "golib \<Rightarrow> app_host \<Rightarrow> string res \<Rightarrow> (string \<Rightarrow> (fsys, app_llm option res) state) \<Rightarrow> endpoint codec \<Rightarrow> serve_host
      \<Rightarrow> daemon_options \<Rightarrow> (fsys, (app \<times> daemon_status) res) state" where
  "daemon_open L H dir client C M d = do {
     _ \<leftarrow> configureLogging L dir d;
     application \<leftarrow> app_New L H (do_home d) (do_work_root d) client;
     (case application of
        Inl e \<Rightarrow> ret (Inl e)
      | Inr a \<Rightarrow> do {
          listener \<leftarrow> sh_listen M (do_addr d);
          (case listener of
             Inl e \<Rightarrow> ret (Inl (EWrap ''listen: '' e []))
           | Inr address \<Rightarrow>
               (let status = daemon_status_of M address in do {
                  published \<leftarrow> endpoint_Write C (do_home d) (Some (endpointRecord M status));
                  ret (case published of Some e \<Rightarrow> Inl e | None \<Rightarrow> Inr (a, status))}))})}"

definition daemon_Serve ::
    "golib \<Rightarrow> app_host \<Rightarrow> string res \<Rightarrow> (string \<Rightarrow> (fsys, app_llm option res) state) \<Rightarrow> endpoint codec \<Rightarrow> serve_host
      \<Rightarrow> daemon_options option \<Rightarrow> (fsys, gerr option) state" where
  "daemon_Serve L H dir client C M daemon =
     (case daemon of
        None \<Rightarrow> ret (Some daemon_ErrHomeRequired)
      | Some d \<Rightarrow> do {
          opened \<leftarrow> daemon_open L H dir client C M d;
          (case opened of
             Inl e \<Rightarrow> ret (Some e)
           | Inr (a, status) \<Rightarrow> do {
               result \<leftarrow> (case http_New (Some a) \<lparr>dc_status = Some status, dc_stop = True\<rparr> of
                            Inl e \<Rightarrow> ret (Some e)
                          | Inr server \<Rightarrow> sh_serve M server);
               _ \<leftarrow> endpoint_Remove (do_home d);
               ret result})})"

text \<open>The command \<^verbatim>\<open>cald serve\<close> with the value of its flag \<^verbatim>\<open>--home\<close>.\<close>

definition serveCommand ::
    "golib \<Rightarrow> app_host \<Rightarrow> string res \<Rightarrow> (string \<Rightarrow> (fsys, app_llm option res) state) \<Rightarrow> endpoint codec \<Rightarrow> serve_host
      \<Rightarrow> bool \<Rightarrow> string res \<Rightarrow> string list \<Rightarrow> string \<Rightarrow> (fsys, gerr option) state" where
  "serveCommand L H dir client C M darwin user_home env home =
     (case resolveHome darwin user_home home env of
        Inl e \<Rightarrow> ret (Some e)
      | Inr resolved \<Rightarrow>
          (case daemon_New (serve_options env resolved) of
             Inl e \<Rightarrow> ret (Some e)
           | Inr d \<Rightarrow> daemon_Serve L H dir client C M (Some d)))"

lemma wp_daemon_open:
  "wp (daemon_open L H dir client C M d) (\<lambda>r t. case r of
     Inl e \<Rightarrow> True
   | Inr (a, status) \<Rightarrow> endpoint_view C (do_home d) t = reread C (endpointRecord M status)) s"
proof -
  let ?Q = "\<lambda>r t. case r of Inl e \<Rightarrow> True
     | Inr (a, status) \<Rightarrow> endpoint_view C (do_home d) t = reread C (endpointRecord M status)"
  have publish: "wp (do {
      published \<leftarrow> endpoint_Write C (do_home d) (Some (endpointRecord M status));
      ret (case published of Some e \<Rightarrow> Inl e | None \<Rightarrow> Inr (a, status))}) ?Q t" for status a t
    unfolding wp_bind by (rule wp_mono [OF wp_endpoint_Write]) (auto simp: wp_return split: option.split)
  have listen: "wp (do {
      listener \<leftarrow> sh_listen M (do_addr d);
      (case listener of
         Inl e \<Rightarrow> ret (Inl (EWrap ''listen: '' e []))
       | Inr address \<Rightarrow> do {
           published \<leftarrow> endpoint_Write C (do_home d) (Some (endpointRecord M (daemon_status_of M address)));
           ret (case published of Some e \<Rightarrow> Inl e | None \<Rightarrow> Inr (a, daemon_status_of M address))})}) ?Q t" for a t
    unfolding wp_bind [of "sh_listen M (do_addr d)"]
  proof (rule wp_any)
    fix listener u
    show "wp (case listener of
         Inl e \<Rightarrow> ret (Inl (EWrap ''listen: '' e []))
       | Inr address \<Rightarrow> do {
           published \<leftarrow> endpoint_Write C (do_home d) (Some (endpointRecord M (daemon_status_of M address)));
           ret (case published of Some e \<Rightarrow> Inl e | None \<Rightarrow> Inr (a, daemon_status_of M address))}) ?Q u"
      by (cases listener) (simp_all only: sum.case publish wp_return simp_thms)
  qed
  show ?thesis
    unfolding daemon_open_def Let_def wp_bind [of "configureLogging L dir d"] wp_bind [of "app_New L H (do_home d) (do_work_root d) client"]
  proof (rule wp_any, rule wp_any)
    fix application t
    show "wp (case application of
          Inl e \<Rightarrow> ret (Inl e)
        | Inr a \<Rightarrow> do {
            listener \<leftarrow> sh_listen M (do_addr d);
            (case listener of
               Inl e \<Rightarrow> ret (Inl (EWrap ''listen: '' e []))
             | Inr address \<Rightarrow> do {
                 published \<leftarrow> endpoint_Write C (do_home d) (Some (endpointRecord M (daemon_status_of M address)));
                 ret (case published of Some e \<Rightarrow> Inl e | None \<Rightarrow> Inr (a, daemon_status_of M address))})}) ?Q t"
      by (cases application) (simp_all only: sum.case listen wp_return simp_thms)
  qed
qed


section \<open>While it serves\<close>

text \<open>
  From the start of the server to the end of the \<^verbatim>\<open>select\<close>. \<^verbatim>\<open>server.Serve\<close>, which runs in a goroutine, leaves its
  error in \<^verbatim>\<open>errCh\<close>; \<^verbatim>\<open>server.Shutdown\<close> closes the listener at once and then waits for the requests in flight, no longer
  than its context allows; \<open>dr_waited\<close> counts the nanoseconds it has waited. \<^verbatim>\<open>shutdownOnce\<close> is the phase of
  the shutdown: a second caller waits for the first to finish.
\<close>

definition http_ErrServerClosed :: gerr where
  "http_ErrServerClosed = EVar ''http.ErrServerClosed'' ''http: Server closed''"

datatype shutdown_phase = ShutdownPending | Draining nat | ShutdownDone

datatype select_phase = Selecting | InShutdown | Receiving | ByContext | ByServer gerr

record daemon_run =
  dr_active :: nat
  dr_stop_asked :: bool
  dr_cancelled :: bool
  dr_shutdown :: shutdown_phase
  dr_waited :: nat
  dr_err_ch :: "gerr option"
  dr_main :: select_phase

definition daemon_started :: daemon_run where
  "daemon_started = \<lparr>dr_active = 0, dr_stop_asked = False, dr_cancelled = False, dr_shutdown = ShutdownPending,
     dr_waited = 0, dr_err_ch = None, dr_main = Selecting\<rparr>"

text \<open>What \<^verbatim>\<open>Serve\<close> returns, once the \<^verbatim>\<open>select\<close> has returned; \<open>ctx\<close> is the error of the context.\<close>

definition serve_result :: "gerr \<Rightarrow> select_phase \<Rightarrow> gerr option option" where
  "serve_result ctx p = (case p of
       ByContext \<Rightarrow> Some (Some ctx)
     | ByServer e \<Rightarrow> Some (if err_is e http_ErrServerClosed then None else Some e)
     | _ \<Rightarrow> None)"

text \<open>\<open>timeout\<close> is the shutdown timeout in nanoseconds.\<close>

inductive serve_step :: "nat \<Rightarrow> daemon_run \<Rightarrow> daemon_run \<Rightarrow> bool" for timeout where
  request: "dr_shutdown r = ShutdownPending \<Longrightarrow> dr_err_ch r = None \<Longrightarrow>
    serve_step timeout r (r\<lparr>dr_active := Suc (dr_active r)\<rparr>)"
| response: "dr_active r = Suc n \<Longrightarrow> serve_step timeout r (r\<lparr>dr_active := n\<rparr>)"
| ask_stop: "0 < dr_active r \<Longrightarrow> serve_step timeout r (r\<lparr>dr_stop_asked := True\<rparr>)"
| stop: "dr_stop_asked r \<Longrightarrow> dr_shutdown r = ShutdownPending \<Longrightarrow> serve_step timeout r (r\<lparr>dr_shutdown := Draining timeout\<rparr>)"
| cancel: "serve_step timeout r (r\<lparr>dr_cancelled := True\<rparr>)"
| server_closed: "dr_shutdown r \<noteq> ShutdownPending \<Longrightarrow> dr_err_ch r = None \<Longrightarrow>
    serve_step timeout r (r\<lparr>dr_err_ch := Some http_ErrServerClosed\<rparr>)"
| server_failed: "dr_shutdown r = ShutdownPending \<Longrightarrow> dr_err_ch r = None \<Longrightarrow> \<not> err_is e http_ErrServerClosed \<Longrightarrow>
    serve_step timeout r (r\<lparr>dr_err_ch := Some e\<rparr>)"
| tick: "dr_shutdown r = Draining (Suc n) \<Longrightarrow>
    serve_step timeout r (r\<lparr>dr_shutdown := Draining n, dr_waited := Suc (dr_waited r)\<rparr>)"
| drained: "dr_shutdown r = Draining n \<Longrightarrow> dr_active r = 0 \<Longrightarrow> serve_step timeout r (r\<lparr>dr_shutdown := ShutdownDone\<rparr>)"
| expired: "dr_shutdown r = Draining 0 \<Longrightarrow> serve_step timeout r (r\<lparr>dr_shutdown := ShutdownDone\<rparr>)"
| select_context: "dr_main r = Selecting \<Longrightarrow> dr_cancelled r \<Longrightarrow> serve_step timeout r (r\<lparr>dr_main := InShutdown\<rparr>)"
| once_first: "dr_main r = InShutdown \<Longrightarrow> dr_shutdown r = ShutdownPending \<Longrightarrow>
    serve_step timeout r (r\<lparr>dr_shutdown := Draining timeout\<rparr>)"
| once_done: "dr_main r = InShutdown \<Longrightarrow> dr_shutdown r = ShutdownDone \<Longrightarrow> serve_step timeout r (r\<lparr>dr_main := Receiving\<rparr>)"
| receive: "dr_main r = Receiving \<Longrightarrow> dr_err_ch r \<noteq> None \<Longrightarrow> serve_step timeout r (r\<lparr>dr_main := ByContext\<rparr>)"
| select_server: "dr_main r = Selecting \<Longrightarrow> dr_err_ch r = Some e \<Longrightarrow> serve_step timeout r (r\<lparr>dr_main := ByServer e\<rparr>)"

text \<open>
  What holds of every state a daemon reaches: a shutdown that is over has seen the last response or has waited
  for the whole timeout, and only such a shutdown lets the context's branch of the \<^verbatim>\<open>select\<close> go on.
\<close>

definition serve_inv :: "nat \<Rightarrow> daemon_run \<Rightarrow> bool" where
  "serve_inv timeout r \<longleftrightarrow>
     (case dr_shutdown r of
        ShutdownPending \<Rightarrow> dr_waited r = 0
      | Draining n \<Rightarrow> dr_waited r + n = timeout
      | ShutdownDone \<Rightarrow> dr_active r = 0 \<or> dr_waited r = timeout) \<and>
     (dr_main r \<in> {Receiving, ByContext} \<longrightarrow> dr_shutdown r = ShutdownDone) \<and>
     dr_waited r \<le> timeout"

lemma serve_inv_step: "serve_step timeout r t \<Longrightarrow> serve_inv timeout r \<Longrightarrow> serve_inv timeout t"
  by (induction rule: serve_step.induct) (auto simp: serve_inv_def split: shutdown_phase.splits)

lemma serve_inv_reached: "(serve_step timeout)\<^sup>*\<^sup>* daemon_started r \<Longrightarrow> serve_inv timeout r"
  by (induction rule: rtranclp_induct) (auto simp: serve_inv_step, simp add: serve_inv_def daemon_started_def)

text \<open>
  C21. A daemon whose context is cancelled waits for the requests in flight: when \<^verbatim>\<open>Serve\<close> returns the error of
  the context, none is being served, or the whole shutdown timeout has gone by.
\<close>

theorem cancel_drains:
  assumes "(serve_step timeout)\<^sup>*\<^sup>* daemon_started r" and "dr_main r = ByContext"
  shows "dr_active r = 0 \<or> dr_waited r = timeout"
  using serve_inv_reached [OF assms(1)] assms(2) by (auto simp: serve_inv_def)

lemma serve_ticks:
  "dr_shutdown r = Draining n \<Longrightarrow>
     (serve_step timeout)\<^sup>*\<^sup>* r (r\<lparr>dr_shutdown := ShutdownDone, dr_waited := dr_waited r + n\<rparr>)"
proof (induction n arbitrary: r)
  case 0
  then show ?case using serve_step.expired [of r timeout] by simp
next
  case (Suc n)
  then have "serve_step timeout r (r\<lparr>dr_shutdown := Draining n, dr_waited := Suc (dr_waited r)\<rparr>)" by (simp add: serve_step.tick)
  with Suc.IH [of "r\<lparr>dr_shutdown := Draining n, dr_waited := Suc (dr_waited r)\<rparr>"] show ?case
    by (simp add: converse_rtranclp_into_rtranclp)
qed

lemma serve_receives:
  assumes "dr_main r = Receiving" and "dr_shutdown r \<noteq> ShutdownPending"
  shows "\<exists>t. (serve_step timeout)\<^sup>*\<^sup>* r t \<and> dr_main t = ByContext \<and> dr_active t = dr_active r"
proof (cases "dr_err_ch r")
  case None
  let ?u = "r\<lparr>dr_err_ch := Some http_ErrServerClosed\<rparr>"
  have "serve_step timeout r ?u" using assms None by (simp add: serve_step.server_closed)
  moreover have "serve_step timeout ?u (?u\<lparr>dr_main := ByContext\<rparr>)" using assms by (simp add: serve_step.receive)
  ultimately show ?thesis by (intro exI [of _ "?u\<lparr>dr_main := ByContext\<rparr>"]) (simp add: converse_rtranclp_into_rtranclp)
next
  case (Some e)
  then show ?thesis using serve_step.receive [OF assms(1), of timeout]
    by (intro exI [of _ "r\<lparr>dr_main := ByContext\<rparr>"]) auto
qed

lemma serve_shuts_down:
  assumes "dr_main r = InShutdown"
  shows "\<exists>t. (serve_step timeout)\<^sup>*\<^sup>* r t \<and> dr_main t = ByContext \<and> dr_active t = dr_active r"
proof -
  have over: ?thesis if "(serve_step timeout)\<^sup>*\<^sup>* r u" "dr_main u = InShutdown" "dr_shutdown u = ShutdownDone" "dr_active u = dr_active r" for u
  proof -
    note u = that
    have "serve_step timeout u (u\<lparr>dr_main := Receiving\<rparr>)" using u by (simp add: serve_step.once_done)
    then have "(serve_step timeout)\<^sup>*\<^sup>* r (u\<lparr>dr_main := Receiving\<rparr>)" using u(1) by (rule rtranclp.rtrancl_into_rtrancl [rotated])
    moreover obtain t where "(serve_step timeout)\<^sup>*\<^sup>* (u\<lparr>dr_main := Receiving\<rparr>) t" "dr_main t = ByContext" "dr_active t = dr_active u"
      using serve_receives [of "u\<lparr>dr_main := Receiving\<rparr>" timeout] u by auto
    ultimately show ?thesis using u(4) by (intro exI [of _ t]) (simp add: rtranclp_trans)
  qed
  have draining: ?thesis if "(serve_step timeout)\<^sup>*\<^sup>* r u" "dr_main u = InShutdown" "dr_shutdown u = Draining n" "dr_active u = dr_active r" for u n
    using that over [of "u\<lparr>dr_shutdown := ShutdownDone, dr_waited := dr_waited u + n\<rparr>"] rtranclp_trans [OF that(1) serve_ticks [OF that(3)]]
    by simp
  show ?thesis
  proof (cases "dr_shutdown r")
    case ShutdownPending
    then have "serve_step timeout r (r\<lparr>dr_shutdown := Draining timeout\<rparr>)" using assms by (simp add: serve_step.once_first)
    then show ?thesis using assms by (intro draining [of "r\<lparr>dr_shutdown := Draining timeout\<rparr>" timeout]) auto
  next
    case (Draining n)
    then show ?thesis using assms draining [of r n] by simp
  next
    case ShutdownDone
    then show ?thesis using assms over [of r] by simp
  qed
qed

text \<open>
  C22. No request holds up the end of a daemon: from every state a cancelled daemon reaches, \<^verbatim>\<open>Serve\<close> can return
  without another response being finished, the ones in flight included.
\<close>

theorem cancelled_daemon_returns:
  assumes "(serve_step timeout)\<^sup>*\<^sup>* daemon_started r" and "dr_cancelled r"
  shows "\<exists>t. (serve_step timeout)\<^sup>*\<^sup>* r t \<and> serve_result ctx (dr_main t) \<noteq> None \<and> dr_active t = dr_active r"
proof -
  have ctx: "serve_result ctx ByContext \<noteq> None" by (simp add: serve_result_def)
  show ?thesis
  proof (cases "dr_main r")
    case Selecting
    with assms have "serve_step timeout r (r\<lparr>dr_main := InShutdown\<rparr>)" by (simp add: serve_step.select_context)
    with serve_shuts_down [of "r\<lparr>dr_main := InShutdown\<rparr>" timeout] ctx show ?thesis
      by (auto intro: converse_rtranclp_into_rtranclp)
  next
    case InShutdown
    with serve_shuts_down [of r timeout] ctx show ?thesis by auto
  next
    case Receiving
    with serve_inv_reached [OF assms(1)] have "dr_shutdown r = ShutdownDone" by (simp add: serve_inv_def)
    with Receiving serve_receives [of r timeout] ctx show ?thesis by auto
  qed (auto simp: serve_result_def intro!: exI [of _ r])
qed

section \<open>Examples\<close>

text \<open>A daemon that is cancelled while it serves a request.\<close>

definition busy_daemon :: daemon_run where
  "busy_daemon = daemon_started\<lparr>dr_active := 1, dr_cancelled := True\<rparr>"

lemma busy_daemon_reached: "(serve_step timeout)\<^sup>*\<^sup>* daemon_started busy_daemon"
proof -
  have "serve_step timeout daemon_started (daemon_started\<lparr>dr_active := 1\<rparr>)"
    using serve_step.request [of daemon_started timeout] by (simp add: daemon_started_def)
  moreover have "serve_step timeout (daemon_started\<lparr>dr_active := 1\<rparr>) busy_daemon"
    using serve_step.cancel [of timeout "daemon_started\<lparr>dr_active := 1\<rparr>"] by (simp add: busy_daemon_def)
  ultimately show ?thesis by (meson converse_rtranclp_into_rtranclp r_into_rtranclp)
qed

theorem cancelled_daemon_returns_witness:
  "\<exists>t. (serve_step 5)\<^sup>*\<^sup>* busy_daemon t \<and> serve_result ECanceled (dr_main t) \<noteq> None \<and> dr_active t = 1"
  using cancelled_daemon_returns [OF busy_daemon_reached, of 5 ECanceled] by (simp add: busy_daemon_def)

theorem cancel_drains_witness:
  "\<exists>r. (serve_step 5)\<^sup>*\<^sup>* daemon_started r \<and> dr_active r = 1 \<and> dr_waited r = 5"
proof -
  have "serve_step 5 busy_daemon (busy_daemon\<lparr>dr_main := InShutdown\<rparr>)"
    by (rule serve_step.select_context) (simp_all add: busy_daemon_def daemon_started_def)
  moreover obtain t where t: "(serve_step 5)\<^sup>*\<^sup>* (busy_daemon\<lparr>dr_main := InShutdown\<rparr>) t" "dr_main t = ByContext" "dr_active t = 1"
    using serve_shuts_down [of "busy_daemon\<lparr>dr_main := InShutdown\<rparr>" 5] by (auto simp: busy_daemon_def)
  ultimately have "(serve_step 5)\<^sup>*\<^sup>* daemon_started t"
    using busy_daemon_reached by (meson converse_rtranclp_into_rtranclp rtranclp_trans)
  with cancel_drains [OF this t(2)] t(3) show ?thesis by auto
qed

text \<open>
  A stop request is another matter. \<^verbatim>\<open>server.Serve\<close> returns as soon as the shutdown has begun, and the \<^verbatim>\<open>select\<close> with
  it: the daemon returns, without an error and at once, while requests are still being served.
\<close>

lemma stop_cuts_requests:
  "\<exists>r. (serve_step (nat defaultShutdownTimeout))\<^sup>*\<^sup>* daemon_started r \<and> serve_result ctx (dr_main r) = Some None \<and>
     0 < dr_active r \<and> dr_waited r = 0"
proof -
  let ?T = "nat defaultShutdownTimeout" and ?e = http_ErrServerClosed
  let ?a = "daemon_started\<lparr>dr_active := 1\<rparr>"
  let ?b = "?a\<lparr>dr_stop_asked := True\<rparr>"
  let ?c = "?b\<lparr>dr_shutdown := Draining ?T\<rparr>"
  let ?d = "?c\<lparr>dr_err_ch := Some ?e\<rparr>"
  let ?r = "?d\<lparr>dr_main := ByServer ?e\<rparr>"
  have "serve_step ?T daemon_started ?a" using serve_step.request [of daemon_started ?T] by (simp add: daemon_started_def)
  moreover have "serve_step ?T ?a ?b" by (rule serve_step.ask_stop) simp
  moreover have "serve_step ?T ?b ?c" by (rule serve_step.stop) (simp_all add: daemon_started_def)
  moreover have "serve_step ?T ?c ?d" by (rule serve_step.server_closed) (simp_all add: daemon_started_def)
  moreover have "serve_step ?T ?d ?r" by (rule serve_step.select_server) (simp_all add: daemon_started_def)
  ultimately have "(serve_step ?T)\<^sup>*\<^sup>* daemon_started ?r" by (meson converse_rtranclp_into_rtranclp r_into_rtranclp)
  moreover have "err_is ?e ?e" by (simp add: err_is_def http_ErrServerClosed_def)
  then have "serve_result ctx (dr_main ?r) = Some None" by (simp add: serve_result_def)
  ultimately show ?thesis by (intro exI [of _ ?r]) (simp add: daemon_started_def)
qed

end
