(* ===== verification/Cal_Cli.thy ===== *)
theory Cal_Cli
  imports Cal_Client Cal_Daemon
begin

text \<open>
  \<^verbatim>\<open>internal/cli\<close>: the commands of \<^verbatim>\<open>calctl\<close>, what they print, the exit codes, and how the daemon is started.
  Flags are parsed by a library; a command here is given their values.
\<close>

section \<open>The session of one command\<close>

text \<open>
  What a command acts on: the machine and, behind the network, the daemon; what was written to standard output
  and to standard error, each write a text; whether the stream renderer has seen a terminal event. \<open>se_fault\<close> gives
  the error of a write by the number of writes before it.
\<close>

record session =
  se_world :: "fsys world"
  se_out :: "string list"
  se_err :: "string list"
  se_terminal :: bool
  se_fault :: "nat \<Rightarrow> gerr option"

definition in_world :: "(fsys world, 'a) state \<Rightarrow> (session, 'a) state" where
  "in_world m = State (\<lambda>s. case run_state m (se_world s) of (a, w) \<Rightarrow> (a, s\<lparr>se_world := w\<rparr>))"

abbreviation on_disk :: "(fsys, 'a) state \<Rightarrow> (session, 'a) state" where
  "on_disk m \<equiv> in_world (call m)"

definition over_session :: "fsys world transport \<Rightarrow> session transport" where
  "over_session T = \<lparr>tp_build = tp_build T, tp_do = (\<lambda>q. in_world (tp_do T q)), tp_status_text = tp_status_text T\<rparr>"

definition print_out :: "string \<Rightarrow> (session, gerr option) state" where
  "print_out txt = State (\<lambda>s. case se_fault s (length (se_out s) + length (se_err s)) of
     Some e \<Rightarrow> (Some e, s) | None \<Rightarrow> (None, s\<lparr>se_out := se_out s @ [txt]\<rparr>))"

definition print_err :: "string \<Rightarrow> (session, gerr option) state" where
  "print_err txt = State (\<lambda>s. case se_fault s (length (se_out s) + length (se_err s)) of
     Some e \<Rightarrow> (Some e, s) | None \<Rightarrow> (None, s\<lparr>se_err := se_err s @ [txt]\<rparr>))"

text \<open>\<^verbatim>\<open>encoding/json\<close> on the values the commands print, and on the data of a progress event.\<close>

record cli_codecs =
  ic_error :: "string \<times> string \<Rightarrow> string res"
  ic_status :: "daemon_status \<Rightarrow> string res"
  ic_stop :: "bool \<Rightarrow> string res"
  ic_providers :: "provider list \<Rightarrow> string res"
  ic_capabilities :: "nat \<times> capability_summary list \<Rightarrow> string res"
  ic_acquired :: "acquire_response \<Rightarrow> string res"
  ic_ran :: "run \<Rightarrow> string res"
  ic_used :: "use_result \<Rightarrow> string res"
  ic_eval :: "eval_result \<Rightarrow> string res"
  ic_envelope :: "string \<times> string \<Rightarrow> string res"
  ic_progress :: "string \<Rightarrow> (string \<times> string \<times> string) res"
  ic_inputs :: "string \<Rightarrow> gval res"

text \<open>
  The host of a command: the platform, the environment, the codecs, the network; \<open>ih_executable\<close> and \<open>ih_look_path\<close> are
  \<^verbatim>\<open>os.Executable\<close> and \<^verbatim>\<open>exec.LookPath\<close>, \<open>ih_spawn\<close> starts a process with its arguments and environment, \<open>ih_kill\<close> and
  \<open>ih_release\<close> act on it, and \<open>ih_select\<close> is the \<^verbatim>\<open>select\<close> of \<^verbatim>\<open>waitReady\<close>: the context's error or a tick.
\<close>

record cli_host =
  ih_lib :: golib
  ih_darwin :: bool
  ih_user_home :: "string res"
  ih_log_dir :: "string res"
  ih_environ :: "string list"
  ih_endpoint :: "endpoint codec"
  ih_net :: "fsys world transport"
  ih_http :: http_codecs
  ih_json :: cli_codecs
  ih_executable :: "string res"
  ih_look_path :: "string \<Rightarrow> string res"
  ih_spawn :: "string \<Rightarrow> string list \<Rightarrow> string list \<Rightarrow> (fsys world, gerr option) state"
  ih_kill :: "(fsys world, unit) state"
  ih_release :: "(fsys world, gerr option) state"
  ih_select :: "(fsys world, gerr option) state"

abbreviation "ih_transport H \<equiv> over_session (ih_net H)"

section \<open>Errors\<close>

datatype cli_error = ExitError nat client_error | OtherError gerr

abbreviation "exitGeneral \<equiv> 1 :: nat"
abbreviation "exitUsage \<equiv> 2 :: nat"
abbreviation "exitUnavailable \<equiv> 3 :: nat"

definition exitCode :: "client_error \<Rightarrow> nat" where
  "exitCode err = (case err of
     ClientError status code message \<Rightarrow>
       if code = ErrorInvalidRequest then exitUsage
       else if code = ErrorCaldUnavailable then exitUnavailable
       else exitGeneral
   | PlainError e \<Rightarrow> exitGeneral)"

definition publicError :: "client_error \<Rightarrow> string \<times> string" where
  "publicError err = (case err of
     ClientError status code message \<Rightarrow> (code, message)
   | PlainError e \<Rightarrow> (ErrorInternal, err_text e))"

text \<open>
  \<^verbatim>\<open>fmt.Sprintf\<close> without arguments, for formats whose directives have neither \<^verbatim>\<open>*\<close> nor \<^verbatim>\<open>[\<close>: flags, width and precision
  are skipped, the verb is reported to lack its argument.
\<close>

definition directive :: "string \<Rightarrow> string" where
  "directive s =
     (let w = dropWhile is_digit (dropWhile (List.member ''#0+- '') s) in
      if has_prefix ''.'' w then dropWhile is_digit (tl w) else w)"

lemma length_directive: "length (directive s) \<le> length s"
proof -
  let ?w = "dropWhile is_digit (dropWhile (List.member ''#0+- '') s)"
  have w: "length ?w \<le> length s" by (meson length_dropWhile_le order_trans)
  moreover have "length (dropWhile is_digit (tl ?w)) \<le> length ?w"
    by (rule order_trans [OF length_dropWhile_le]) simp
  ultimately show ?thesis unfolding directive_def Let_def by (auto intro: order_trans)
qed

lemma directive_shorter: "directive s = v # t \<Longrightarrow> length t < Suc (length s)"
  using length_directive [of s] by simp

function sprintf0 :: "string \<Rightarrow> string" where
  "sprintf0 [] = []"
| "sprintf0 (c # s) =
     (if c \<noteq> CHR 0x25 then c # sprintf0 s
      else (case directive s of
              [] \<Rightarrow> CHR 0x25 # ''!(NOVERB)''
            | v # t \<Rightarrow> if v = CHR 0x25 then v # sprintf0 t else CHR 0x25 # ''!'' @ [v] @ ''(MISSING)'' @ sprintf0 t))"
  by pat_completeness auto
termination by (relation "measure length") (auto dest: directive_shorter)

definition invalidInput :: "string \<Rightarrow> client_error" where
  "invalidInput format = ClientError 0 ErrorInvalidRequest (sprintf0 format)"

lemma sprintf0_plain: "CHR 0x25 \<notin> set s \<Longrightarrow> sprintf0 s = s"
  by (induction s) auto

text \<open>The message of the decoder about a percent sign is taken for a format.\<close>

lemma invalid_input_garbled:
  "\<exists>e. err_text e = ''parse inputs json: invalid character '' @ [CHR 0x27, CHR 0x25, CHR 0x27] @ '' looking for beginning of value'' \<and>
     client_error_text (invalidInput (err_text e)) =
       ''parse inputs json: invalid character '' @ [CHR 0x27, CHR 0x25] @ ''!'' @ [CHR 0x27] @ ''(MISSING) looking for beginning of value''"
  by (rule exI [of _ "EWrap ''parse inputs json: '' (EText (''invalid character '' @ [CHR 0x27, CHR 0x25, CHR 0x27]
    @ '' looking for beginning of value'')) []"]) code_simp

section \<open>Input\<close>

definition cli_required :: "string \<Rightarrow> string \<Rightarrow> gerr option" where
  "cli_required value name = (if blank value then Some (EText (name @ '' is required'')) else None)"

definition parseInputsJSON :: "(string \<Rightarrow> gval res) \<Rightarrow> string \<Rightarrow> ginputs res" where
  "parseInputsJSON unmarshal raw =
     (if blank raw then Inr []
      else (case unmarshal raw of
              Inl e \<Rightarrow> Inl (EWrap ''parse inputs json: '' e [])
            | Inr (GMap inputs) \<Rightarrow> Inr inputs
            | Inr _ \<Rightarrow> Inl (EText ''inputs json must be an object'')))"

definition parseMinVerifyLevel :: "string \<Rightarrow> string res" where
  "parseMinVerifyLevel raw0 =
     (let raw = trim_space raw0 in
      if raw = [] then Inr []
      else if raw \<in> {L0, L1, L2, L3} then Inr raw
      else Inl (EText ''min verify level must be one of L0, L1, L2, L3''))"

section \<open>Printing\<close>

definition cli_writeJSON :: "('r \<Rightarrow> string res) \<Rightarrow> 'r \<Rightarrow> (session, gerr option) state" where
  "cli_writeJSON enc value = (case enc value of Inl e \<Rightarrow> ret (Some e) | Inr t \<Rightarrow> print_out (t @ nl))"

definition cli_render :: "bool \<Rightarrow> ('r \<Rightarrow> string res) \<Rightarrow> 'r \<Rightarrow> string \<Rightarrow> (session, gerr option) state" where
  "cli_render json enc value txt =
     (if json then cli_writeJSON enc value else print_out ((if txt = [] then ''ok'' else txt) @ nl))"

text \<open>\<^verbatim>\<open>render\<close> as the end of a command: its error is returned as it is.\<close>

definition render_end :: "bool \<Rightarrow> ('r \<Rightarrow> string res) \<Rightarrow> 'r \<Rightarrow> string \<Rightarrow> (session, cli_error option) state" where
  "render_end json enc value txt = do { r \<leftarrow> cli_render json enc value txt; ret (map_option OtherError r) }"

definition commandError :: "cli_codecs \<Rightarrow> bool \<Rightarrow> client_error \<Rightarrow> (session, cli_error option) state" where
  "commandError J json err =
     (if json then do {
        r \<leftarrow> cli_writeJSON (ic_error J) (publicError err);
        ret (case r of Some e \<Rightarrow> Some (OtherError e) | None \<Rightarrow> Some (ExitError (exitCode err) err))}
      else ret (Some (ExitError (exitCode err) err)))"

definition progressText :: "(string \<Rightarrow> (string \<times> string \<times> string) res) \<Rightarrow> string \<Rightarrow> string" where
  "progressText decode data =
     (case decode data of
        Inl e \<Rightarrow> []
      | Inr (stage, step, status) \<Rightarrow> trim_space (join '' '' [stage, step, status]))"

text \<open>\<^verbatim>\<open>streamRenderer.Handle\<close>; the handler of the client is only called with an event.\<close>

definition stream_handle :: "cli_codecs \<Rightarrow> bool \<Rightarrow> session stream_handler" where
  "stream_handle J json name data = do {
     _ \<leftarrow> State (\<lambda>s. ((), if name = sseEventResult \<or> name = sseEventError then s\<lparr>se_terminal := True\<rparr> else s));
     (if json then (case ic_envelope J (name, data) of Inl e \<Rightarrow> ret (Some e) | Inr t \<Rightarrow> print_out (t @ nl))
      else if name \<noteq> sseEventProgress then ret None
      else if progressText (ic_progress J) data = [] then ret None
      else print_err (progressText (ic_progress J) data @ nl))}"

definition newStreamRenderer :: "(session, unit) state" where
  "newStreamRenderer = State (\<lambda>s. ((), s\<lparr>se_terminal := False\<rparr>))"

definition TerminalSeen :: "(session, bool) state" where
  "TerminalSeen = State (\<lambda>s. (se_terminal s, s))"

section \<open>Commands\<close>

text \<open>\<^verbatim>\<open>New\<close>: the home directory, and the log of the command; the logging configuration stays unset.\<close>

definition cli_New :: "cli_host \<Rightarrow> string \<Rightarrow> (session, string res) state" where
  "cli_New H home0 =
     (case resolveHome (ih_darwin H) (ih_user_home H) home0 (ih_environ H) of
        Inl e \<Rightarrow> ret (Inl e)
      | Inr home \<Rightarrow> do {
          _ \<leftarrow> on_disk (log_Configure (ih_lib H) (ih_log_dir H) \<lparr>lx_name = ''calctl'',
            lx_config = \<lparr>lg_level = [], lg_file = \<lparr>lf_enabled = None, lf_max_bytes = 0, lf_max_files = 0\<rparr>\<rparr>,
            lx_env = ih_environ H\<rparr>);
          ret (Inr home)})"

definition commandContext :: "cli_host \<Rightarrow> string \<Rightarrow> (session, client_error + string) state" where
  "commandContext H home =
     (case resolveHome (ih_darwin H) (ih_user_home H) home (ih_environ H) of
        Inl e \<Rightarrow> ret (Inl (PlainError e))
      | Inr h \<Rightarrow> on_disk (client_New (ih_endpoint H) h []))"

text \<open>
  What the commands share: a call that is not streamed, and one that is; both get the base URL of the client.
\<close>

definition plain_call ::
    "cli_codecs \<Rightarrow> bool \<Rightarrow> ('r \<Rightarrow> string res) \<Rightarrow> (session, client_error + 'r) state \<Rightarrow> string \<Rightarrow> (session, cli_error option) state" where
  "plain_call J json enc m txt = do {
     r \<leftarrow> m;
     (case r of Inl e \<Rightarrow> commandError J json e | Inr x \<Rightarrow> render_end json enc x txt)}"

definition stream_call ::
    "cli_codecs \<Rightarrow> bool \<Rightarrow> ('r \<Rightarrow> string res) \<Rightarrow> (session stream_handler option \<Rightarrow> (session, client_error + 'r) state) \<Rightarrow> string
      \<Rightarrow> (session, cli_error option) state" where
  "stream_call J json enc m txt = do {
     _ \<leftarrow> newStreamRenderer;
     r \<leftarrow> m (Some (stream_handle J json));
     (case r of
        Inl e \<Rightarrow> do { seen \<leftarrow> TerminalSeen; commandError J (json \<and> \<not> seen) e }
      | Inr x \<Rightarrow> if json then ret None else render_end False enc x txt)}"

definition with_client ::
    "cli_host \<Rightarrow> string \<Rightarrow> bool \<Rightarrow> (string \<Rightarrow> (session, cli_error option) state) \<Rightarrow> (session, cli_error option) state" where
  "with_client H home json f = do {
     c \<leftarrow> commandContext H home;
     (case c of Inl e \<Rightarrow> commandError (ih_json H) json e | Inr base \<Rightarrow> f base)}"

definition daemonStatusCommand :: "cli_host \<Rightarrow> string \<Rightarrow> bool \<Rightarrow> (session, cli_error option) state" where
  "daemonStatusCommand H home json = (let J = ih_json H in do {
     c \<leftarrow> commandContext H home;
     (case c of
        Inl (ClientError n code message) \<Rightarrow>
          if code = ErrorCaldUnavailable
          then render_end json (ic_status J) \<lparr>ds_running = False, ds_base_url = [], ds_pid = 0\<rparr> ''cald stopped''
          else commandError J json (ClientError n code message)
      | Inl (PlainError e) \<Rightarrow> commandError J json (PlainError e)
      | Inr base \<Rightarrow> do {
          r \<leftarrow> client_Status (ih_transport H) (ih_http H) base;
          (case r of
             Inl e \<Rightarrow> commandError J json e
           | Inr status \<Rightarrow>
               render_end json (ic_status J) status (if ds_running status then ''cald running'' else ''cald stopped''))})})"

definition daemonStopCommand :: "cli_host \<Rightarrow> string \<Rightarrow> bool \<Rightarrow> (session, cli_error option) state" where
  "daemonStopCommand H home json = with_client H home json (\<lambda>base.
     plain_call (ih_json H) json (ic_stop (ih_json H)) (client_Stop (ih_transport H) (ih_http H) base) ''cald stopping'')"

definition providersAddCommand :: "cli_host \<Rightarrow> string \<Rightarrow> bool \<Rightarrow> string \<Rightarrow> (session, cli_error option) state" where
  "providersAddCommand H home json providerPath =
     (case cli_required providerPath ''provider-path'' of
        Some e \<Rightarrow> commandError (ih_json H) json (invalidInput (err_text e))
      | None \<Rightarrow> with_client H home json (\<lambda>base.
          plain_call (ih_json H) json (ic_providers (ih_json H))
            (client_AddProvider (ih_transport H) (ih_http H) base (Some providerPath)) ''provider registered''))"

definition providersListCommand :: "cli_host \<Rightarrow> string \<Rightarrow> bool \<Rightarrow> (session, cli_error option) state" where
  "providersListCommand H home json = with_client H home json (\<lambda>base.
     plain_call (ih_json H) json (ic_providers (ih_json H)) (client_ListProviders (ih_transport H) (ih_http H) base) ''providers listed'')"

definition capabilitiesListCommand :: "cli_host \<Rightarrow> string \<Rightarrow> bool \<Rightarrow> record_filter \<Rightarrow> (session, cli_error option) state" where
  "capabilitiesListCommand H home json f = with_client H home json (\<lambda>base.
     plain_call (ih_json H) json (ic_capabilities (ih_json H))
       (client_ListCapabilities (ih_transport H) (ih_http H) base (Some f)) ''capabilities listed'')"

definition evalCommand :: "cli_host \<Rightarrow> string \<Rightarrow> bool \<Rightarrow> record_filter \<Rightarrow> (session, cli_error option) state" where
  "evalCommand H home json f = with_client H home json (\<lambda>base.
     plain_call (ih_json H) json (ic_eval (ih_json H)) (client_Eval (ih_transport H) (ih_http H) base (Some f)) ''eval completed'')"

definition acquisitionRunCommand ::
    "cli_host \<Rightarrow> string \<Rightarrow> bool \<Rightarrow> bool \<Rightarrow> acquire_request \<Rightarrow> (session, cli_error option) state" where
  "acquisitionRunCommand H home json stream req = with_client H home json (\<lambda>base.
     if stream
     then stream_call (ih_json H) json (ic_acquired (ih_json H))
       (client_AcquireStream (ih_lib H) (ih_transport H) (ih_http H) base (Some req)) ''acquisition completed''
     else plain_call (ih_json H) json (ic_acquired (ih_json H))
       (client_Acquire (ih_transport H) (ih_http H) base (Some req)) ''acquisition completed'')"

text \<open>The flags of \<^verbatim>\<open>runs create\<close> and \<^verbatim>\<open>use\<close>.\<close>

record call_flags =
  kf_inputs :: string
  kf_min_level :: string
  kf_provider :: string
  kf_strategy :: string
  kf_verify :: bool
  kf_stream :: bool

definition runsCreateCommand ::
    "cli_host \<Rightarrow> string \<Rightarrow> bool \<Rightarrow> string \<Rightarrow> string \<Rightarrow> call_flags \<Rightarrow> (session, cli_error option) state" where
  "runsCreateCommand H home json capabilityID bindingID F = (let J = ih_json H in
     case cli_required capabilityID ''capability-id'' of
       Some e \<Rightarrow> commandError J json (invalidInput (err_text e))
     | None \<Rightarrow>
         (case parseInputsJSON (ic_inputs J) (kf_inputs F) of
            Inl e \<Rightarrow> commandError J json (invalidInput (err_text e))
          | Inr inputs \<Rightarrow>
              (case parseMinVerifyLevel (kf_min_level F) of
                 Inl e \<Rightarrow> commandError J json (invalidInput (err_text e))
               | Inr level \<Rightarrow> with_client H home json (\<lambda>base.
                   let req = \<lparr>xn_capability_id = capabilityID, xn_binding_id = bindingID, xn_inputs = Some inputs,
                     xn_provider_id = kf_provider F, xn_strategy = kf_strategy F, xn_verify = kf_verify F, xn_min_level = level\<rparr> in
                   if kf_stream F
                   then stream_call J json (ic_ran J) (client_RunStream (ih_lib H) (ih_transport H) (ih_http H) base (Some req)) ''run created''
                   else plain_call J json (ic_ran J) (client_Run (ih_transport H) (ih_http H) base (Some req)) ''run created''))))"

definition useCommand :: "cli_host \<Rightarrow> string \<Rightarrow> bool \<Rightarrow> string \<Rightarrow> call_flags \<Rightarrow> (session, cli_error option) state" where
  "useCommand H home json intent F = (let J = ih_json H in
     case parseInputsJSON (ic_inputs J) (kf_inputs F) of
       Inl e \<Rightarrow> commandError J json (invalidInput (err_text e))
     | Inr inputs \<Rightarrow>
         (case parseMinVerifyLevel (kf_min_level F) of
            Inl e \<Rightarrow> commandError J json (invalidInput (err_text e))
          | Inr level \<Rightarrow> with_client H home json (\<lambda>base.
              let req = \<lparr>xu_intent = intent, xu_inputs = inputs, xu_provider_id = kf_provider F,
                xu_strategy = kf_strategy F, xu_verify = kf_verify F, xu_min_level = level\<rparr> in
              if kf_stream F
              then stream_call J json (ic_used J) (client_UseStream (ih_lib H) (ih_transport H) (ih_http H) base (Some req)) ''use completed''
              else plain_call J json (ic_used J) (client_Use (ih_transport H) (ih_http H) base (Some req)) ''use completed'')))"

section \<open>Starting the daemon\<close>

abbreviation "defaultDaemonStartTimeout \<equiv> 10 * 1000000000 :: int"

record daemon_starter =
  dx_home :: string
  dx_path :: string
  dx_log_path :: string
  dx_timeout :: int

definition newDaemonStarter :: "string \<Rightarrow> daemon_starter" where
  "newDaemonStarter home = \<lparr>dx_home = home, dx_path = [], dx_log_path = [], dx_timeout = defaultDaemonStartTimeout\<rparr>"

definition startTimeout :: "daemon_starter \<Rightarrow> int" where
  "startTimeout S = (if 0 < dx_timeout S then dx_timeout S else defaultDaemonStartTimeout)"

definition envWithHome :: "string list \<Rightarrow> string \<Rightarrow> string list" where
  "envWithHome env home =
     (let entry = envHome @ ''='' @ home; own = has_prefix (envHome @ ''='') in
      map (\<lambda>item. if own item then entry else item) env @ (if list_ex own env then [] else [entry]))"

definition starter_status :: "cli_host \<Rightarrow> string \<Rightarrow> (session, client_error + daemon_status) state" where
  "starter_status H home = do {
     c \<leftarrow> on_disk (client_New (ih_endpoint H) home []);
     (case c of Inl e \<Rightarrow> ret (Inl e) | Inr base \<Rightarrow> client_Status (ih_transport H) (ih_http H) base)}"

definition runningStatus :: "cli_host \<Rightarrow> string \<Rightarrow> (session, daemon_status option) state" where
  "runningStatus H home = do {
     r \<leftarrow> starter_status H home;
     ret (case r of Inr status \<Rightarrow> if ds_running status then Some status else None | Inl e \<Rightarrow> None)}"

text \<open>The loop of \<^verbatim>\<open>waitReady\<close>; \<open>None\<close> when \<open>fuel\<close> polls were not enough.\<close>

fun waitReady :: "cli_host \<Rightarrow> string \<Rightarrow> nat \<Rightarrow> (session, daemon_status res option) state" where
  "waitReady H home 0 = ret None"
| "waitReady H home (Suc fuel) = do {
     status \<leftarrow> runningStatus H home;
     (case status of
        Some x \<Rightarrow> ret (Some (Inr x))
      | None \<Rightarrow> do {
          over \<leftarrow> in_world (ih_select H);
          (case over of
             Some e \<Rightarrow> ret (Some (Inl (EWrap ''wait for cald: '' e [])))
           | None \<Rightarrow> waitReady H home fuel)})}"

abbreviation "daemonExecutableName \<equiv> ''cald''"

text \<open>\<^verbatim>\<open>os.Stat\<close> of a path that is not a directory.\<close>

definition siblingDaemonPath :: "cli_host \<Rightarrow> (fsys, string option) state" where
  "siblingDaemonPath H =
     (case ih_executable H of
        Inl e \<Rightarrow> ret None
      | Inr current \<Rightarrow>
          (let path = path_join [path_dir current, daemonExecutableName] in do {
             r \<leftarrow> fs_size path;
             ret (case r of Inl e \<Rightarrow> None | Inr _ \<Rightarrow> Some path)}))"

definition resolvePath :: "cli_host \<Rightarrow> daemon_starter \<Rightarrow> (fsys, string res) state" where
  "resolvePath H S =
     (let path = trim_space (dx_path S) in
      if path \<noteq> [] then ret (Inr (path_clean path))
      else do {
        sibling \<leftarrow> siblingDaemonPath H;
        ret (case sibling of
               Some p \<Rightarrow> Inr p
             | None \<Rightarrow> (case ih_look_path H daemonExecutableName of
                          Inl e \<Rightarrow> Inl (EText ''cald executable was not found'')
                        | Inr p \<Rightarrow> Inr p))})"

definition openLog :: "cli_host \<Rightarrow> daemon_starter \<Rightarrow> (fsys, unit res) state" where
  "openLog H S =
     (let given = trim_space (dx_log_path S) in
      case (if given = [] then log_Path (ih_log_dir H) ''cald-daemon'' else Inr given) of
        Inl e \<Rightarrow> ret (Inl e)
      | Inr path \<Rightarrow> do {
          made \<leftarrow> fs_mkdir_all (path_dir path);
          (case made of
             Inl e \<Rightarrow> ret (Inl (EWrap ''create log directory: '' e []))
           | Inr _ \<Rightarrow> do {
               opened \<leftarrow> fs_open_append path;
               ret (case opened of Inl e \<Rightarrow> Inl (EWrap ''open daemon log: '' e []) | Inr _ \<Rightarrow> Inr ())})})"

text \<open>The process and the log file are closed or killed behind the calls; \<open>fuel\<close> bounds the polls.\<close>

definition starter_Start :: "cli_host \<Rightarrow> nat \<Rightarrow> daemon_starter option \<Rightarrow> (session, daemon_status res option) state" where
  "starter_Start H fuel starter =
     (case starter of
        None \<Rightarrow> ret (Some (Inl (EText ''daemon starter is required'')))
      | Some S \<Rightarrow>
          (case resolveHome (ih_darwin H) (ih_user_home H) (dx_home S) (ih_environ H) of
             Inl e \<Rightarrow> ret (Some (Inl e))
           | Inr home \<Rightarrow> do {
               running \<leftarrow> runningStatus H home;
               (case running of
                  Some status \<Rightarrow> ret (Some (Inr status))
                | None \<Rightarrow> do {
                    p \<leftarrow> on_disk (resolvePath H S);
                    (case p of
                       Inl e \<Rightarrow> ret (Some (Inl e))
                     | Inr path \<Rightarrow> do {
                         l \<leftarrow> on_disk (openLog H S);
                         (case l of
                            Inl e \<Rightarrow> ret (Some (Inl e))
                          | Inr _ \<Rightarrow> do {
                              started \<leftarrow> in_world (ih_spawn H path [''--home'', home, ''serve''] (envWithHome (ih_environ H) home));
                              (case started of
                                 Some e \<Rightarrow> ret (Some (Inl (EWrap ''start cald: '' e [])))
                               | None \<Rightarrow> do {
                                   ready \<leftarrow> waitReady H home fuel;
                                   (case ready of
                                      None \<Rightarrow> ret None
                                    | Some (Inl e) \<Rightarrow> do { _ \<leftarrow> in_world (ih_kill H); ret (Some (Inl e)) }
                                    | Some (Inr status) \<Rightarrow> do {
                                        released \<leftarrow> in_world (ih_release H);
                                        ret (Some (case released of
                                           Some e \<Rightarrow> Inl (EWrap ''release cald process: '' e [])
                                         | None \<Rightarrow> Inr status))})})})})})}))"

definition daemonStartCommand :: "cli_host \<Rightarrow> nat \<Rightarrow> string \<Rightarrow> bool \<Rightarrow> (session, cli_error option option) state" where
  "daemonStartCommand H fuel home json = do {
     r \<leftarrow> starter_Start H fuel (Some (newDaemonStarter home));
     (case r of
        None \<Rightarrow> ret None
      | Some (Inl e) \<Rightarrow> do { x \<leftarrow> commandError (ih_json H) json (PlainError e); ret (Some x) }
      | Some (Inr status) \<Rightarrow> do { x \<leftarrow> render_end json (ic_status (ih_json H)) status ''cald running''; ret (Some x) })}"

text \<open>\<^verbatim>\<open>cmd/calctl/main.go\<close>: the exit code; the texts of errors go to standard error.\<close>

definition calctl_main :: "cli_error option \<Rightarrow> (session, nat) state" where
  "calctl_main r =
     (case r of
        None \<Rightarrow> ret 0
      | Some (ExitError code e) \<Rightarrow> do { _ \<leftarrow> print_err (client_error_text e @ nl); ret code }
      | Some (OtherError e) \<Rightarrow> do { _ \<leftarrow> print_err (err_text e @ nl); ret 1 })"

text \<open>The command tree, with the values of the flags.\<close>

datatype calctl_command =
    DaemonStart
  | DaemonStatus
  | DaemonStop
  | ProvidersAdd string
  | ProvidersList
  | AcquisitionRun bool acquire_request
  | CapabilitiesList record_filter
  | RunsCreate string string call_flags
  | UseIntent string call_flags
  | EvalMetrics record_filter

fun streams :: "calctl_command \<Rightarrow> bool" where
  "streams (AcquisitionRun stream req) = stream"
| "streams (RunsCreate capabilityID bindingID F) = kf_stream F"
| "streams (UseIntent intent F) = kf_stream F"
| "streams _ = False"

definition calctl_command_run ::
    "cli_host \<Rightarrow> nat \<Rightarrow> string \<Rightarrow> bool \<Rightarrow> calctl_command \<Rightarrow> (session, cli_error option option) state" where
  "calctl_command_run H fuel home json c =
     (let always = (\<lambda>m. do { r \<leftarrow> m; ret (Some r) }) in
      case c of
        DaemonStart \<Rightarrow> daemonStartCommand H fuel home json
      | DaemonStatus \<Rightarrow> always (daemonStatusCommand H home json)
      | DaemonStop \<Rightarrow> always (daemonStopCommand H home json)
      | ProvidersAdd path \<Rightarrow> always (providersAddCommand H home json path)
      | ProvidersList \<Rightarrow> always (providersListCommand H home json)
      | AcquisitionRun stream req \<Rightarrow> always (acquisitionRunCommand H home json stream req)
      | CapabilitiesList f \<Rightarrow> always (capabilitiesListCommand H home json f)
      | RunsCreate capabilityID bindingID F \<Rightarrow> always (runsCreateCommand H home json capabilityID bindingID F)
      | UseIntent intent F \<Rightarrow> always (useCommand H home json intent F)
      | EvalMetrics f \<Rightarrow> always (evalCommand H home json f))"

text \<open>One run of \<^verbatim>\<open>calctl\<close>, to its exit code.\<close>

definition calctl :: "cli_host \<Rightarrow> nat \<Rightarrow> string \<Rightarrow> bool \<Rightarrow> calctl_command \<Rightarrow> (session, nat option) state" where
  "calctl H fuel home json c = do {
     r \<leftarrow> calctl_command_run H fuel home json c;
     (case r of None \<Rightarrow> ret None | Some x \<Rightarrow> do { code \<leftarrow> calctl_main x; ret (Some code) })}"

section \<open>What commands print\<close>

text \<open>Nothing behind the network or on the disk prints.\<close>

definition quiet :: "(session, 'a) state \<Rightarrow> bool" where
  "quiet m \<longleftrightarrow> (\<forall>s. wp m (\<lambda>_ t. t = s\<lparr>se_world := se_world t\<rparr>) s)"

lemma quiet_in_world: "quiet (in_world m)"
  by (auto simp: quiet_def wp_def in_world_def split: prod.split)

lemma quiet_call_ret: "quiet (ret x)"
  by (simp add: quiet_def wp_return)

lemma quiet_call_bind:
  assumes "quiet m" and "\<And>a. quiet (f a)"
  shows "quiet (m \<bind> f)"
  unfolding quiet_def wp_bind
proof (intro allI, rule wp_mono)
  fix s
  show "wp m (\<lambda>_ t. t = s\<lparr>se_world := se_world t\<rparr>) s" using assms(1) by (simp add: quiet_def)
  fix a t
  assume t: "t = s\<lparr>se_world := se_world t\<rparr>"
  have "wp (f a) (\<lambda>_ u. u = t\<lparr>se_world := se_world u\<rparr>) t" using assms(2) by (simp add: quiet_def)
  then show "wp (f a) (\<lambda>_ u. u = s\<lparr>se_world := se_world u\<rparr>) t" by (rule wp_mono) (subst (asm) t, simp)
qed

lemma quiet_client_do: "quiet (client_do (over_session T) K C base need path query body)"
  by (auto simp: client_do_def over_session_def intro!: quiet_call_bind quiet_call_ret quiet_in_world split: sum.split)

lemmas quiet_calls = client_Status_def client_Stop_def client_AddProvider_def client_ListProviders_def client_ListCapabilities_def
  client_Acquire_def client_Run_def client_Use_def client_Eval_def

lemma quiet_commandContext: "quiet (commandContext H home)"
  by (auto simp: commandContext_def intro!: quiet_call_ret quiet_in_world split: sum.split)

lemma quiet_runningStatus: "quiet (runningStatus H home)"
  unfolding runningStatus_def starter_status_def client_Status_def
  by (auto intro!: quiet_call_bind quiet_call_ret quiet_in_world quiet_client_do split: sum.split)

lemma quiet_waitReady: "quiet (waitReady H home fuel)"
  by (induction fuel) (auto intro!: quiet_call_bind quiet_call_ret quiet_in_world quiet_runningStatus split: option.split)

lemma quiet_Start: "quiet (starter_Start H fuel starter)"
  unfolding starter_Start_def
  by (auto intro!: quiet_call_bind quiet_call_ret quiet_in_world quiet_runningStatus quiet_waitReady split: option.split sum.split)

definition always_encodes :: "('a \<Rightarrow> 'b res) \<Rightarrow> bool" where
  "always_encodes f \<longleftrightarrow> (\<forall>x. \<not> isl (f x))"

lemma always_encodesD: "always_encodes f \<Longrightarrow> \<not> isl (f x)"
  by (simp add: always_encodes_def)

definition encodes :: "cli_codecs \<Rightarrow> bool" where
  "encodes J \<longleftrightarrow> always_encodes (ic_error J) \<and> always_encodes (ic_status J) \<and> always_encodes (ic_stop J) \<and> always_encodes (ic_providers J) \<and>
     always_encodes (ic_capabilities J) \<and> always_encodes (ic_acquired J) \<and> always_encodes (ic_ran J) \<and> always_encodes (ic_used J) \<and> always_encodes (ic_eval J) \<and>
     always_encodes (ic_envelope J)"

text \<open>A command without a stream that started with the standard output \<open>out\<close> and the standard error \<open>err\<close>.\<close>

definition reported :: "cli_codecs \<Rightarrow> bool \<Rightarrow> string list \<Rightarrow> string list \<Rightarrow> cli_error option \<Rightarrow> session \<Rightarrow> bool" where
  "reported J json out err r t \<longleftrightarrow> se_err t = err \<and> se_fault t = (\<lambda>_. None) \<and>
     (case r of
        None \<Rightarrow> \<exists>doc. se_out t = out @ [doc @ nl]
      | Some (ExitError code e) \<Rightarrow> code = exitCode e \<and>
          (if json then \<exists>doc. ic_error J (publicError e) = Inr doc \<and> se_out t = out @ [doc @ nl] else se_out t = out)
      | Some (OtherError e) \<Rightarrow> False)"

lemma wp_print_out: "se_fault s = (\<lambda>_. None) \<Longrightarrow> wp (print_out txt) Q s = Q None (s\<lparr>se_out := se_out s @ [txt]\<rparr>)"
  by (simp add: wp_def print_out_def)

lemma wp_commandError:
  assumes "se_fault s = (\<lambda>_. None)" and "encodes J"
  shows "wp (commandError J json e) (reported J json (se_out s) (se_err s)) s"
proof -
  obtain doc where doc: "ic_error J (publicError e) = Inr doc"
    using always_encodesD [of "ic_error J" "publicError e"] assms(2) by (cases "ic_error J (publicError e)") (auto simp: encodes_def)
  show ?thesis
    using assms(1) doc
    by (simp add: commandError_def cli_writeJSON_def wp_return wp_bind wp_print_out reported_def)
qed

lemma wp_render_end:
  assumes "se_fault s = (\<lambda>_. None)" and "\<not> isl (enc x)"
  shows "wp (render_end json enc x txt) (reported J json (se_out s) (se_err s)) s"
  using assms by (cases "enc x")
    (auto simp: render_end_def cli_render_def cli_writeJSON_def wp_return wp_bind wp_print_out reported_def)

text \<open>A quiet call keeps what a report is relative to.\<close>

lemma wp_quiet_then:
  assumes "quiet m" and "se_fault s = (\<lambda>_. None)"
    and "\<And>a t. se_fault t = (\<lambda>_. None) \<Longrightarrow> wp (f a) (reported J json (se_out t) (se_err t)) t"
  shows "wp (m \<bind> f) (reported J json (se_out s) (se_err s)) s"
  unfolding wp_bind
proof (rule wp_mono)
  show "wp m (\<lambda>_ t. t = s\<lparr>se_world := se_world t\<rparr>) s" using assms(1) by (simp add: quiet_def)
  fix a t
  assume t: "t = s\<lparr>se_world := se_world t\<rparr>"
  then have "se_out t = se_out s" "se_err t = se_err s" "se_fault t = (\<lambda>_. None)"
    using assms(2) by (metis session.select_convs session.surjective session.update_convs(1))+
  with assms(3) [of t a] show "wp (f a) (reported J json (se_out s) (se_err s)) t" by simp
qed

lemma wp_plain_call:
  assumes "quiet m" and "se_fault s = (\<lambda>_. None)" and "encodes J" and "\<And>x. \<not> isl (enc x)"
  shows "wp (plain_call J json enc m txt) (reported J json (se_out s) (se_err s)) s"
  unfolding plain_call_def using assms
  by (intro wp_quiet_then) (auto split: sum.split intro: wp_commandError wp_render_end)

lemma wp_with_client:
  assumes "se_fault s = (\<lambda>_. None)" and "encodes (ih_json H)"
    and "\<And>base t. se_fault t = (\<lambda>_. None) \<Longrightarrow> wp (f base) (reported (ih_json H) json (se_out t) (se_err t)) t"
  shows "wp (with_client H home json f) (reported (ih_json H) json (se_out s) (se_err s)) s"
  unfolding with_client_def using assms
  by (intro wp_quiet_then quiet_commandContext) (auto split: sum.split intro: wp_commandError)

lemma wp_always: "wp m Q s \<Longrightarrow> wp (do { r \<leftarrow> m; ret (Some r) }) (\<lambda>r t. \<forall>x. r = Some x \<longrightarrow> Q x t) s"
  by (simp add: wp_def run_eval case_prod_beta)

lemma wp_command_run:
  assumes fault: "se_fault s = (\<lambda>_. None)" and J: "encodes (ih_json H)" and plain: "\<not> streams c"
  shows "wp (calctl_command_run H fuel home json c) (\<lambda>r t. \<forall>x. r = Some x \<longrightarrow> reported (ih_json H) json (se_out s) (se_err s) x t) s"
proof -
  note rules = wp_always wp_with_client wp_plain_call wp_commandError wp_render_end
  note calls = quiet_client_do [of "ih_net H"]
  have total: "\<not> isl (ic_status (ih_json H) x1)" "\<not> isl (ic_stop (ih_json H) x2)" "\<not> isl (ic_providers (ih_json H) x3)"
    "\<not> isl (ic_capabilities (ih_json H) x4)" "\<not> isl (ic_acquired (ih_json H) x5)" "\<not> isl (ic_ran (ih_json H) x6)"
    "\<not> isl (ic_used (ih_json H) x7)" "\<not> isl (ic_eval (ih_json H) x8)" for x1 x2 x3 x4 x5 x6 x7 x8
    using J by (simp_all add: encodes_def always_encodesD)
  show ?thesis
  proof (cases c)
    case DaemonStart
    have "wp (daemonStartCommand H fuel home json) (\<lambda>r t. \<forall>x. r = Some x \<longrightarrow> reported (ih_json H) json (se_out s) (se_err s) x t) s"
      unfolding daemonStartCommand_def wp_bind
    proof (rule wp_mono)
      show "wp (starter_Start H fuel (Some (newDaemonStarter home))) (\<lambda>_ t. t = s\<lparr>se_world := se_world t\<rparr>) s"
        using quiet_Start by (auto simp: quiet_def)
      fix r t
      assume t: "t = s\<lparr>se_world := se_world t\<rparr>"
      then have keep: "se_out t = se_out s" "se_err t = se_err s" "se_fault t = (\<lambda>_. None)"
        using fault by (metis session.select_convs session.surjective session.update_convs(1))+
      have err: "wp (commandError (ih_json H) json e) (reported (ih_json H) json (se_out s) (se_err s)) t" for e
        using wp_commandError [OF keep(3) J] by (simp add: keep)
      have ok: "wp (render_end json (ic_status (ih_json H)) x label) (reported (ih_json H) json (se_out s) (se_err s)) t" for x label
        using wp_render_end [where enc = "ic_status (ih_json H)", OF keep(3) total(1)] by (simp add: keep)
      show "wp (case r of None \<Rightarrow> ret None
          | Some (Inl e) \<Rightarrow> do { x \<leftarrow> commandError (ih_json H) json (PlainError e); ret (Some x) }
          | Some (Inr status) \<Rightarrow> do { x \<leftarrow> render_end json (ic_status (ih_json H)) status ''cald running''; ret (Some x) })
        (\<lambda>r t. \<forall>x. r = Some x \<longrightarrow> reported (ih_json H) json (se_out s) (se_err s) x t) t"
        using wp_always [OF err] wp_always [OF ok] by (auto simp: wp_return split: option.split sum.split)
    qed
    then show ?thesis by (simp add: calctl_command_run_def DaemonStart)
  next
    case DaemonStatus
    have "wp (daemonStatusCommand H home json) (reported (ih_json H) json (se_out s) (se_err s)) s"
      unfolding daemonStatusCommand_def Let_def client_Status_def
      by (intro wp_quiet_then quiet_commandContext fault)
        (auto split: sum.split client_error.split intro!: wp_commandError [OF _ J] wp_render_end total wp_quiet_then calls)
    then show ?thesis by (simp add: calctl_command_run_def DaemonStatus wp_always)
  qed (use plain in \<open>auto simp: calctl_command_run_def fault J total quiet_calls calls daemonStopCommand_def providersAddCommand_def
      providersListCommand_def acquisitionRunCommand_def capabilitiesListCommand_def runsCreateCommand_def useCommand_def
      evalCommand_def Let_def intro!: rules split: option.split sum.split\<close>)
qed

text \<open>
  C18. One run of \<^verbatim>\<open>calctl\<close> without a stream reports its outcome once. With the exit code 0 it has written exactly one text
  to standard output and nothing to standard error; otherwise the code is that of its error, 1, 2 or 3, whose message is written to
  standard error, and standard output is left alone or, with \<^verbatim>\<open>--json\<close>, has the error's document as its only text.
  Writing and encoding must not fail.
\<close>

theorem calctl_reports_once:
  assumes "run_state (calctl H fuel home json c) s = (Some code, t)"
    and "\<not> streams c" and "encodes (ih_json H)" and "se_fault s = (\<lambda>_. None)"
  shows "(code = 0 \<and> (\<exists>doc. se_out t = se_out s @ [doc @ nl]) \<and> se_err t = se_err s) \<or>
    (\<exists>e. code = exitCode e \<and> code \<in> {1, 2, 3} \<and> se_err t = se_err s @ [client_error_text e @ nl] \<and>
      (if json then \<exists>doc. ic_error (ih_json H) (publicError e) = Inr doc \<and> se_out t = se_out s @ [doc @ nl] else se_out t = se_out s))"
proof -
  obtain r u where u: "run_state (calctl_command_run H fuel home json c) s = (r, u)" by fastforce
  with assms(1) obtain x where x: "r = Some x" and main: "run_state (calctl_main x) u = (code, t)"
    by (cases r) (auto simp: calctl_def run_eval split: prod.splits)
  have rep: "reported (ih_json H) json (se_out s) (se_err s) x u"
    using wp_run [OF wp_command_run [OF assms(4,3,2)] u] x by simp
  show ?thesis
  proof (cases x)
    case None
    then show ?thesis using main rep by (auto simp: calctl_main_def reported_def run_eval)
  next
    case (Some y)
    with rep obtain k e where y: "x = Some (ExitError k e)" by (cases y) (auto simp: reported_def)
    with rep have u: "k = exitCode e" "se_err u = se_err s" "se_fault u = (\<lambda>_. None)" by (auto simp: reported_def)
    have "code = k \<and> t = u\<lparr>se_err := se_err u @ [client_error_text e @ nl]\<rparr>"
      using main by (simp add: y calctl_main_def run_eval print_err_def u split: prod.splits)
    moreover have "exitCode e \<in> {1, 2, 3}" by (simp add: exitCode_def split: client_error.split)
    ultimately show ?thesis using rep u y by (intro disjI2 exI [of _ e]) (auto simp: reported_def)
  qed
qed

section \<open>What a streaming command prints\<close>

text \<open>The events of a stream with the data \<open>ds\<close> of its progress and its end, an error or a result; what a command makes of the end.\<close>

definition event_pairs :: "string list \<Rightarrow> string + string \<Rightarrow> (string \<times> string) list" where
  "event_pairs ds answer = map (Pair sseEventProgress) ds @
     [case answer of Inl d \<Rightarrow> (sseEventError, d) | Inr d \<Rightarrow> (sseEventResult, d)]"

definition stream_outcome :: "'r stream_decoder \<Rightarrow> string + string \<Rightarrow> client_error + 'r" where
  "stream_outcome D answer =
     (case answer of
        Inr d \<Rightarrow> (case sj_result D d of Inl e \<Rightarrow> Inl (PlainError (EWrap ''decode stream result: '' e [])) | Inr r \<Rightarrow> Inr r)
      | Inl d \<Rightarrow> (case sj_error D d of
                    Inl e \<Rightarrow> Inl (PlainError (EWrap ''decode stream error: '' e []))
                  | Inr (code, message) \<Rightarrow> Inl (client_newError 0 code message)))"

definition envelope_line :: "cli_codecs \<Rightarrow> string \<times> string \<Rightarrow> string" where
  "envelope_line J m = projr (ic_envelope J m) @ nl"

lemma handle_run:
  assumes "se_fault s = (\<lambda>_. None)" and "encodes J"
  shows "run_state (stream_handle J True name data) s = (None, s\<lparr>se_out := se_out s @ [envelope_line J (name, data)],
    se_terminal := (se_terminal s \<or> name = sseEventResult \<or> name = sseEventError)\<rparr>)"
proof -
  obtain doc where "ic_envelope J (name, data) = Inr doc"
    using always_encodesD [of "ic_envelope J" "(name, data)"] assms(2) by (cases "ic_envelope J (name, data)") (auto simp: encodes_def)
  then show ?thesis using assms(1) by (auto simp: stream_handle_def run_eval print_out_def envelope_line_def)
qed

lemma consume_prints:
  assumes "se_fault s = (\<lambda>_. None)" and "encodes J"
  shows "run_state (consume L D (Some (stream_handle J True)) rest (event_pairs ds answer)) s =
    (stream_outcome D answer, s\<lparr>se_out := se_out s @ map (envelope_line J) (event_pairs ds answer), se_terminal := True\<rparr>)"
  using assms(1)
proof (induction ds arbitrary: s)
  case Nil
  then show ?case
    by (auto simp: event_pairs_def handleStreamEvent_def run_eval handle_run [OF _ assms(2)] stream_outcome_def split: sum.split)
next
  case (Cons d ds)
  let ?t = "s\<lparr>se_out := se_out s @ [envelope_line J (sseEventProgress, d)], se_terminal := (se_terminal s \<or> False)\<rparr>"
  have "run_state (consume L D (Some (stream_handle J True)) rest (event_pairs (d # ds) answer)) s =
      run_state (consume L D (Some (stream_handle J True)) rest (event_pairs ds answer)) ?t"
    using Cons.prems by (simp add: event_pairs_def handleStreamEvent_def run_eval handle_run [OF _ assms(2)])
  then show ?case using Cons.IH [of ?t] Cons.prems by (simp add: event_pairs_def)
qed

lemma readStream_prints:
  assumes "se_fault s = (\<lambda>_. None)" and "encodes J" and "list_all fits (event_pairs ds answer)"
  shows "run_state (readStream L D (Some (stream_handle J True)) (stream_text (event_pairs ds answer) @ t, err)) s =
    (stream_outcome D answer, s\<lparr>se_out := se_out s @ map (envelope_line J) (event_pairs ds answer), se_terminal := True\<rparr>)"
  using consume_prints [OF assms(1,2)] readStream_consume [OF assms(3)] by metis


section \<open>Input and start\<close>

text \<open>Input that is no good is an invalid request, and the daemon is never asked.\<close>

lemma bad_inputs_stay_local:
  assumes "parseInputsJSON (ic_inputs (ih_json H)) (kf_inputs F) = Inl e" and "encodes (ih_json H)" and "se_fault s = (\<lambda>_. None)"
  shows "wp (calctl H fuel home json (UseIntent intent F)) (\<lambda>code t. code = Some exitUsage \<and> se_world t = se_world s) s"
proof -
  let ?e = "invalidInput (err_text e)"
  obtain doc where "ic_error (ih_json H) (publicError ?e) = Inr doc"
    using always_encodesD [of "ic_error (ih_json H)" "publicError ?e"] assms(2)
    by (cases "ic_error (ih_json H) (publicError ?e)") (auto simp: encodes_def)
  then show ?thesis using assms(1,3)
    by (simp add: wp_def calctl_def calctl_command_run_def useCommand_def Let_def run_eval commandError_def cli_writeJSON_def
        print_out_def print_err_def calctl_main_def) (simp add: invalidInput_def exitCode_def)
qed

text \<open>The started daemon finds the home directory in its environment, and every other variable as it was.\<close>

lemma env_with_home: "env_lookup (envWithHome env home) envHome = home"
proof -
  let ?p = "envHome @ ''=''"
  have "find (has_prefix ?p) (envWithHome env home) = Some (?p @ home)"
  proof (induction env)
    case Nil
    show ?case by (simp add: envWithHome_def Let_def)
  next
    case (Cons item env)
    then show ?case by (auto simp: envWithHome_def Let_def split: if_splits)
  qed
  then show ?thesis by (simp add: env_lookup_def)
qed

text \<open>
  The wait for the daemon ends: every tick brings the end of the context nearer, by whatever measure \<open>left\<close> that
  polling does not raise, and fuel beyond it is enough.
\<close>

lemma waitReady_returns:
  assumes "\<And>w v. run_state (ih_select H) w = (None, v) \<Longrightarrow> left v < (left w :: nat)"
    and "\<And>s. wp (runningStatus H home) (\<lambda>_ t. left (se_world t) \<le> left (se_world s)) s"
    and "left (se_world s) < fuel"
  shows "wp (waitReady H home fuel) (\<lambda>r t. r \<noteq> None) s"
  using assms(3)
proof (induction fuel arbitrary: s)
  case (Suc fuel)
  show ?case
    unfolding waitReady.simps wp_bind
  proof (rule wp_mono [OF assms(2)])
    fix status :: "daemon_status option" and t :: session
    assume t: "left (se_world t) \<le> left (se_world s)"
    obtain over w where w: "run_state (ih_select H) (se_world t) = (over, w)" by fastforce
    have "wp (waitReady H home fuel) (\<lambda>r t. r \<noteq> None) (t\<lparr>se_world := w\<rparr>)" if "over = None"
      using Suc assms(1) [of "se_world t" w] w that t by simp
    then show "wp (case status of Some x \<Rightarrow> ret (Some (Inr x))
        | None \<Rightarrow> do {
            over \<leftarrow> in_world (ih_select H);
            (case over of Some e \<Rightarrow> ret (Some (Inl (EWrap ''wait for cald: '' e []))) | None \<Rightarrow> waitReady H home fuel)})
      (\<lambda>r t. r \<noteq> None) t"
      by (auto simp: wp_return wp_def in_world_def run_eval w split: option.split prod.split)
  qed
qed simp

text \<open>Every other command has an exit code.\<close>

lemma calctl_exits: "c \<noteq> DaemonStart \<Longrightarrow> fst (run_state (calctl H fuel home json c) s) \<noteq> None"
  by (cases c) (simp_all add: calctl_def calctl_command_run_def Let_def run_eval case_prod_beta)

section \<open>Examples\<close>

definition demo_json :: cli_codecs where
  "demo_json = \<lparr>ic_error = (\<lambda>(code, m). Inr (code @ '':'' @ m)), ic_status = (\<lambda>_. Inr ''{}''), ic_stop = (\<lambda>_. Inr ''{}''),
     ic_providers = (\<lambda>_. Inr ''{}''), ic_capabilities = (\<lambda>_. Inr ''{}''), ic_acquired = (\<lambda>_. Inr ''{}''), ic_ran = (\<lambda>_. Inr ''{}''),
     ic_used = (\<lambda>_. Inr ''{}''), ic_eval = (\<lambda>_. Inr ''{}''), ic_envelope = (\<lambda>(name, data). Inr (name @ '' '' @ data)),
     ic_progress = (\<lambda>d. Inr (d, [], [])), ic_inputs = (\<lambda>t. Inr (GStr t))\<rparr>"

lemma demo_json_encodes: "encodes demo_json"
  by (simp add: encodes_def always_encodes_def demo_json_def)

text \<open>A daemon that answers every request with the stream of a failed operation.\<close>

definition failed_stream :: "(string \<times> string) list" where
  "failed_stream = event_pairs [''{}''] (Inl ''cald_unavailable:gone'')"

definition streaming_net :: "fsys world transport" where
  "streaming_net = \<lparr>tp_build = (\<lambda>_. None), tp_do = (\<lambda>q. ret (Inr (200, stream_text failed_stream @ [], None))), tp_status_text = (\<lambda>_. [])\<rparr>"

definition demo_cli :: cli_host where
  "demo_cli = \<lparr>ih_lib = plain_lib, ih_darwin = False, ih_user_home = Inr ''/home'', ih_log_dir = Inr ''/log'', ih_environ = [],
     ih_endpoint = url_codec, ih_net = streaming_net, ih_http = demo_codecs\<lparr>hc_acquire := fixed_wire xq_hint
       \<lparr>xq_provider_id = [], xq_hint = ''h'', xq_proposal_path = [], xq_mode = []\<rparr>\<rparr>, ih_json = demo_json, ih_executable = Inr ''/bin/calctl'',
     ih_look_path = (\<lambda>n. Inr (''/bin/'' @ n)), ih_spawn = (\<lambda>_ _ _. ret None), ih_kill = ret (), ih_release = ret None,
     ih_select = ret (Some EDeadline)\<rparr>"

definition demo_session :: "fsys \<Rightarrow> session" where
  "demo_session disk = \<lparr>se_world = demo_world\<lparr>w_ext := disk\<rparr>, se_out = [], se_err = [], se_terminal = False, se_fault = (\<lambda>_. None)\<rparr>"

definition demo_eval :: "fsys \<Rightarrow> nat option \<times> session" where
  "demo_eval disk = run_state (calctl demo_cli 1 ''/h'' True (EvalMetrics \<lparr>rf_provider_id = [], rf_capability_id = []\<rparr>)) (demo_session disk)"

theorem calctl_reports_once_witness:
  "\<exists>t e. demo_eval empty_fs = (Some 3, t) \<and> exitCode e = 3 \<and> se_err t = [client_error_text e @ nl] \<and>
     se_out t = [''cald_unavailable:cald is not running'' @ nl]"
proof -
  have "fst (demo_eval empty_fs) = Some 3" by code_simp
  then obtain t where t: "demo_eval empty_fs = (Some 3, t)" by (cases "demo_eval empty_fs") auto
  have "se_out (snd (demo_eval empty_fs)) = [''cald_unavailable:cald is not running'' @ nl]" by code_simp
  with t have "se_out t = [''cald_unavailable:cald is not running'' @ nl]" by simp
  moreover have "ih_json demo_cli = demo_json" by (simp add: demo_cli_def)
  moreover have "se_out (demo_session empty_fs) = []" "se_err (demo_session empty_fs) = []" by (simp_all add: demo_session_def)
  ultimately show ?thesis
    using calctl_reports_once [OF t [unfolded demo_eval_def]] demo_json_encodes t by (auto simp: demo_session_def)
qed

definition demo_acquire :: acquire_request where
  "demo_acquire = \<lparr>xq_provider_id = [], xq_hint = ''h'', xq_proposal_path = [], xq_mode = []\<rparr>"


end
