(* ===== verification/Spec2Isabelle.thy ===== *)
theory Spec2Isabelle
  imports Cal_Run Cal_Acquisition Cal_Pool Cal_Proposers Cal_Use Cal_Entry Cal_App Cal_Prompt Cal_Cli
begin

text \<open>
  CAL turns command-line programs into verified capabilities and reuses them. A provider (a program on
  this machine) is registered; an acquisition observes its usage text, proposes candidates, runs each
  candidate in a work directory, checks the outcome and promotes what passed into stored capabilities;
  a run or a use executes a stored binding and records the result. A daemon \<^verbatim>\<open>cald\<close> does this work behind a
  local HTTP interface, and \<^verbatim>\<open>calctl\<close> is its command line. This development models both programs as they are
  written in \<^verbatim>\<open>internal/\<close>, \<^verbatim>\<open>pkg/jsonfile\<close> and \<^verbatim>\<open>cmd/\<close>, and proves what makes them trustworthy.

  How the parts interact. A command of \<^verbatim>\<open>calctl\<close> (\<open>calctl\<close>, \<^verbatim>\<open>internal/cli\<close>) finds the address of the daemon in a file
  (\<open>endpoint_Read\<close>), calls it (\<open>client_do\<close>, \<open>client_stream\<close>) and prints the answer; the daemon (\<open>daemon_Serve\<close>) wires
  an application, publishes its address and serves (\<open>ServeHTTP\<close>, \<^verbatim>\<open>internal/httpserver\<close>). The handlers of \<^verbatim>\<open>internal/cald/app\<close> call the flows; the flows call components
  through interfaces, which here are records of operations, and keep their results in one store.
  \<^item> acquire: \<open>Acquire\<close> (\<^verbatim>\<open>app/acquisition.go\<close>) runs \<open>acq_Run\<close> (\<^verbatim>\<open>internal/acquisition\<close>), which loads
    the provider (\<open>Load\<close>, \<^verbatim>\<open>internal/entry\<close>), lists the catalog, observes (\<open>Observe\<close>,
    \<^verbatim>\<open>internal/observe\<close>), proposes (\<open>proposal_Run\<close>, \<open>rules_Run\<close> or \<open>replay_Run\<close>), probes (\<open>probe_Run\<close>,
    \<^verbatim>\<open>internal/probe\<close>, over \<open>cli_Run\<close> and \<open>check_Run\<close>), promotes (\<open>promote_Run\<close>) and writes traces
    (\<open>tracelog_write\<close>).
  \<^item> run: \<open>app_Run\<close> runs \<open>run_Run\<close> (\<^verbatim>\<open>internal/run\<close>): resolve a promoted binding, execute, check, record.
  \<^item> use: \<open>app_Use\<close> runs \<open>use_Run\<close> (\<^verbatim>\<open>internal/use\<close>): select a binding for an intent, plan its inputs, run it.
  \<^item> eval: \<open>app_Eval\<close> aggregates the stored records (\<^verbatim>\<open>internal/eval\<close>).

  The theories, from the bottom up.
  \<^item> \<open>Cal_Prelude\<close>: rule collections (\<open>wp_simps\<close>, \<open>keeps\<close>, \<open>valid_simps\<close>), Go maps as association
    lists. \<open>Cal_Go\<close>, \<open>Cal_Text\<close>, \<open>Cal_Path\<close>: Go values, errors with \<^verbatim>\<open>errors.Is\<close>, \<^verbatim>\<open>strings\<close>, \<^verbatim>\<open>strconv\<close>,
    \<^verbatim>\<open>path/filepath\<close>; what is not computed (case tables, regular expressions, digests, JSON, archives,
    time formats) is a field of the record \<open>golib\<close>. \<open>Cal_World\<close>: effects are values of the state
    monad; \<open>wp m Q s\<close> says that the result and the end state of \<open>m\<close> from \<open>s\<close> satisfy \<open>Q\<close>; clock and
    cancellation are functions of a tick that each reading advances. \<open>Cal_Files\<close>: a file system with one
    fault per system call, and \<^verbatim>\<open>pkg/jsonfile\<close>.
  \<^item> \<open>Cal_Model\<close>, \<open>Cal_Store\<close>: the records of \<^verbatim>\<open>internal/model\<close> and their validators; \<^verbatim>\<open>internal/store\<close>
    with the locale \<open>record_store\<close>, the contract of a store by a view of the files, interpreted for
    providers, capabilities, runs and traces.
  \<^item> \<open>Cal_CheckText\<close>, \<open>Cal_Check\<close>: \<^verbatim>\<open>internal/check\<close>, its predicates, its registry and its runner.
    \<open>Cal_Execute\<close>: \<^verbatim>\<open>internal/execute\<close> and \<^verbatim>\<open>execute/cli\<close>. \<open>Cal_Run\<close>: \<^verbatim>\<open>internal/run\<close> with \<^verbatim>\<open>run/resolve\<close>.
  \<^item> \<open>Cal_Probe\<close>, \<open>Cal_Promote\<close>, \<open>Cal_Tracelog\<close>, \<open>Cal_Acquisition\<close>: the stages of an acquisition and its
    flow, with the locale \<open>trace_sink\<close>, the promise of a trace writer.
  \<^item> \<open>Cal_Policy\<close>, \<open>Cal_Stage\<close>, \<open>Cal_Surface\<close>, \<open>Cal_Capability\<close>, \<open>Cal_Binding\<close>, \<open>Cal_Evidence\<close>,
    \<open>Cal_Plans\<close>, \<open>Cal_Proposal\<close>: the four stages of a live proposal, its mechanical selection and its
    runner (locale \<open>proposal_stages\<close>); \<open>Cal_Pool\<close>: the worker pool as an \<open>inductive\<close> step relation;
    \<open>Cal_Proposers\<close>: the rules and replay proposers (locale \<open>proposer\<close>).
  \<^item> \<open>Cal_Entry\<close>, \<open>Cal_Observe\<close>: \<^verbatim>\<open>internal/entry\<close> and \<^verbatim>\<open>internal/observe\<close>. \<open>Cal_Select\<close>, \<open>Cal_Use\<close>:
    \<^verbatim>\<open>internal/use\<close> with \<^verbatim>\<open>use/select\<close> and \<^verbatim>\<open>use/plan\<close>. \<open>Cal_Eval\<close>: \<^verbatim>\<open>internal/eval\<close>.
  \<^item> \<open>Cal_Flow\<close>: the locales \<open>acquisition_parts\<close> and \<open>recorded_parts\<close>, what the trace of an acquisition
    holds if its components keep their promises; \<open>Cal_App\<close>: \<^verbatim>\<open>internal/cald/app\<close>, the wiring of the
    daemon, which discharges these promises for the three ways to propose.
  \<^item> \<open>Cal_Config\<close>: \<^verbatim>\<open>internal/config\<close>, the options and the two APIs of \<^verbatim>\<open>internal/llm\<close> and \<^verbatim>\<open>app/llm.go\<close>: from the
    configuration file and the environment to a client of a language model. \<open>Cal_Prompt\<close>: the prompts of the four
    stages, and the one client behind them. \<open>Cal_Logging\<close>: \<^verbatim>\<open>internal/logging\<close> with its rotated file, and
    \<^verbatim>\<open>app/operation_log.go\<close>.
  \<^item> \<open>Cal_Stream\<close>: server-sent events, the channel of \<^verbatim>\<open>httpserver/sse.go\<close> as an \<open>inductive\<close> step relation, its text and the
    reader of \<^verbatim>\<open>client/stream.go\<close>. \<open>Cal_Http\<close>: \<^verbatim>\<open>internal/httpserver\<close>. \<open>Cal_Endpoint\<close>, \<open>Cal_Client\<close>:
    \<^verbatim>\<open>cald/endpoint\<close> and \<^verbatim>\<open>cli/client\<close>, and the two ends of a call put together (\<open>loopback\<close>).
  \<^item> \<open>Cal_Daemon\<close>: \<^verbatim>\<open>cald/daemon\<close> and \<^verbatim>\<open>cald/command.go\<close>; requests, a stop request and the context while it serves
    are the \<open>inductive\<close> relation \<open>serve_step\<close>. \<open>Cal_Cli\<close>: the commands of \<^verbatim>\<open>internal/cli\<close> on a session, what is
    printed and the exit codes, and the start of the daemon.

  State and operations. A Go struct is a \<open>record\<close> with a field prefix of its own, a string enumeration is
  a string, a pointer that may be nil an \<open>option\<close>, an error an \<open>option\<close> or the left side of a sum, a
  method that takes a \<^verbatim>\<open>context\<close> an operation of \<open>env\<close>. Names are those of the source; a prefix tells
  apart names that several packages use (\<open>run_validate\<close>, \<open>probe_validate\<close>). Functions that range over a
  map take the order of the association list as the order of that one loop, so a theorem for every
  list is a theorem for every order. Integers of the program are counts, ids and durations far from
  their bounds and are \<open>int\<close> or \<open>nat\<close>; a size that decides a branch is compared as it is written.

  What the lemmas show. For each component: its validator or well-formedness predicate and that its
  operations keep it (a result of the runner, a promoted capability, a normalized proposal, a trace); what
  each operation returns on each branch, error branches included; where it has a contract, that it refines
  it (stores as maps, the traces of an acquisition, progress events as a protocol of stages); the composed
  theorems follow an acquisition, a run and a use from the request to what is on disk afterwards.

  Bounds and fuel. Loops over lists are structural; the longest-match loops, the path walks and the format
  reader carry termination proofs. \<open>waitReady\<close>, which polls until a context is done, is the one definition with
  fuel: \<open>waitReady_returns\<close> shows that fuel beyond the ticks left to the context is enough. \<open>pool_step\<close> is shown to
  terminate by a measure; a cancelled daemon can return from every state it reaches (\<open>cancelled_daemon_returns\<close>).

  Not modelled, and why. JSON, the network, the multiplexer's redirects and the client package of the language model are
  outside the source and are parameters: codecs (\<open>codec\<close>, \<open>wire\<close>, \<open>cli_codecs\<close>), \<open>transport\<close>, \<open>openai_sdk\<close>. Of the command
  trees the bodies are modelled, not how flags are parsed, which a package does. The system texts of
  the prompts are constants and fields of \<open>prompt_texts\<close>. Windows variants (\<^verbatim>\<open>path_windows.go\<close>,
  \<^verbatim>\<open>usage_windows.go\<close>, \<^verbatim>\<open>dir_windows.go\<close>, the Windows home directory) rest on paths with drives and are left
  out. \<^verbatim>\<open>cald\<close> and \<^verbatim>\<open>calctl\<close> each have a copy of \<^verbatim>\<open>resolveHome\<close>; one is modelled.
\<close>

end
